(* ===== verification/Prelude.thy ===== *)
theory Prelude
  imports Main "HOL-Library.Word" "HOL-Library.Code_Target_Nat"
begin

unbundle bit_operations_syntax

text \<open>
  Shared vocabulary of the development: the result type of fallible Rust functions
  (\<open>Inl\<close> is \<open>Err\<close>, \<open>Inr\<close> is \<open>Ok\<close>) with its bind, checked indexing and slicing of byte
  buffers, little-endian encodings, and the byte view of strings. A Rust \<open>String\<close> is the
  list of its UTF-8 bytes, held as an Isabelle \<open>string\<close> (whose characters are bytes).
\<close>

section \<open>Collections of facts\<close>

named_theorems result_simps \<open>rewriting and inversion of results\<close>
named_theorems byte_simps \<open>byte buffers: indexing, slicing, little-endian fields\<close>

type_synonym u8 = "8 word"
type_synonym u16 = "16 word"
type_synonym u32 = "32 word"
type_synonym u64 = "64 word"
type_synonym i64 = "64 word"

section \<open>Results\<close>

fun bindR :: "'e + 'a \<Rightarrow> ('a \<Rightarrow> 'e + 'b) \<Rightarrow> 'e + 'b" where
  "bindR (Inl e) f = Inl e"
| "bindR (Inr x) f = f x"

definition ok_or :: "'a option \<Rightarrow> 'e \<Rightarrow> 'e + 'a" where
  "ok_or x e = (case x of None \<Rightarrow> Inl e | Some v \<Rightarrow> Inr v)"

fun mapR :: "('a \<Rightarrow> 'e + 'b) \<Rightarrow> 'a list \<Rightarrow> 'e + 'b list" where
  "mapR f [] = Inr []"
| "mapR f (x # xs) = bindR (f x) (\<lambda>y. bindR (mapR f xs) (\<lambda>ys. Inr (y # ys)))"

lemma bindR_cong [fundef_cong]:
  "x = y \<Longrightarrow> (\<And>v. y = Inr v \<Longrightarrow> f v = g v) \<Longrightarrow> bindR x f = bindR y g"
  by (cases y) auto

lemma bindR_Inr_iff [result_simps]: "bindR x f = Inr y \<longleftrightarrow> (\<exists>v. x = Inr v \<and> f v = Inr y)"
  by (cases x) auto

lemma bindR_Inl_iff [result_simps]:
  "bindR x f = Inl e \<longleftrightarrow> x = Inl e \<or> (\<exists>v. x = Inr v \<and> f v = Inl e)"
  by (cases x) auto

lemma ok_or_simps [simp]: "ok_or None e = Inl e" "ok_or (Some v) e = Inr v"
  by (simp_all add: ok_or_def)

lemma ok_or_Inr_iff [result_simps]: "ok_or x e = Inr v \<longleftrightarrow> x = Some v"
  by (cases x) auto

lemma ok_or_Inl_iff [result_simps]: "ok_or x e = Inl d \<longleftrightarrow> x = None \<and> d = e"
  by (cases x) auto

lemma case_option_Inr_iff [result_simps]:
  "(case x of None \<Rightarrow> Inl e | Some v \<Rightarrow> f v) = Inr y \<longleftrightarrow> (\<exists>v. x = Some v \<and> f v = Inr y)"
  by (cases x) auto

lemma bindR_assoc: "bindR (bindR x f) g = bindR x (\<lambda>v. bindR (f v) g)"
  by (cases x) auto

lemma bindR_Inr_right [simp]: "bindR x Inr = x"
  by (cases x) auto

lemma mapR_length: "mapR f xs = Inr ys \<Longrightarrow> length ys = length xs"
  by (induction xs arbitrary: ys) (auto simp: result_simps)

lemma mapR_nth: "mapR f xs = Inr ys \<Longrightarrow> i < length xs \<Longrightarrow> f (xs ! i) = Inr (ys ! i)"
  by (induction xs arbitrary: ys i) (auto simp: result_simps nth_Cons split: nat.splits)

lemma mapR_total: "\<forall>x \<in> set xs. f x = Inr (g x) \<Longrightarrow> mapR f xs = Inr (map g xs)"
  by (induction xs) auto

lemma mapR_cong [fundef_cong]:
  "xs = ys \<Longrightarrow> (\<And>x. x \<in> set ys \<Longrightarrow> f x = g x) \<Longrightarrow> mapR f xs = mapR g ys"
  by (induction ys arbitrary: xs) auto

section \<open>Checked indexing and slicing\<close>

text \<open>\<open>xs.get(i)\<close> and \<open>xs.get(i..j)\<close> of a Rust slice.\<close>

definition nth_opt :: "'a list \<Rightarrow> nat \<Rightarrow> 'a option" where
  "nth_opt xs i = (if i < length xs then Some (xs ! i) else None)"

definition slice_opt :: "'a list \<Rightarrow> nat \<Rightarrow> nat \<Rightarrow> 'a list option" where
  "slice_opt xs i j = (if i \<le> j \<and> j \<le> length xs then Some (take (j - i) (drop i xs)) else None)"

lemma nth_opt_Some [byte_simps]: "nth_opt xs i = Some x \<longleftrightarrow> i < length xs \<and> xs ! i = x"
  by (auto simp: nth_opt_def)

lemma nth_opt_None [byte_simps]: "nth_opt xs i = None \<longleftrightarrow> length xs \<le> i"
  by (auto simp: nth_opt_def)

lemma nth_opt_mid [simp]: "nth_opt (pre @ x # post) (length pre) = Some x"
  by (simp add: nth_opt_def)

lemma nth_opt_append_right [byte_simps]: "nth_opt (pre @ xs) (length pre + i) = nth_opt xs i"
  by (simp add: nth_opt_def)

lemma slice_opt_mid [simp]:
  "slice_opt (pre @ xs @ post) (length pre) (length pre + length xs) = Some xs"
  by (simp add: slice_opt_def)

lemma slice_opt_SomeD: "slice_opt xs i j = Some ys \<Longrightarrow> i \<le> j \<and> j \<le> length xs \<and> length ys = j - i"
  by (auto simp: slice_opt_def split: if_splits)

section \<open>A byte string at an address\<close>

text \<open>\<open>code_at ir ip bs\<close>: the bytes \<open>bs\<close> stand in the buffer at offset \<open>ip\<close>.\<close>

definition code_at :: "u8 list \<Rightarrow> nat \<Rightarrow> u8 list \<Rightarrow> bool" where
  "code_at ir ip code \<longleftrightarrow> (\<exists>pre post. ir = pre @ code @ post \<and> length pre = ip)"

lemma code_at_append: "code_at ir ip (xs @ ys) \<longleftrightarrow> code_at ir ip xs \<and> code_at ir (ip + length xs) ys"
proof
  assume "code_at ir ip (xs @ ys)"
  then obtain pre post where "ir = pre @ xs @ ys @ post" "length pre = ip"
    by (auto simp: code_at_def)
  then have "ir = (pre @ xs) @ ys @ post" "length (pre @ xs) = ip + length xs" by simp_all
  with \<open>ir = pre @ xs @ ys @ post\<close> \<open>length pre = ip\<close>
  show "code_at ir ip xs \<and> code_at ir (ip + length xs) ys"
    unfolding code_at_def by blast
next
  assume "code_at ir ip xs \<and> code_at ir (ip + length xs) ys"
  then obtain p q p' q' where "ir = p @ xs @ q" "length p = ip" "ir = p' @ ys @ q'" "length p' = ip + length xs"
    unfolding code_at_def by blast
  then have "p' = p @ xs"
    by (metis append.assoc append_eq_append_conv length_append)
  with \<open>ir = p' @ ys @ q'\<close> \<open>length p = ip\<close> show "code_at ir ip (xs @ ys)"
    by (auto simp: code_at_def)
qed

lemma code_at_Cons: "code_at ir ip (x # xs) \<longleftrightarrow> code_at ir ip [x] \<and> code_at ir (ip + 1) xs"
  using code_at_append [of ir ip "[x]" xs] by simp

lemma code_at_nth: "code_at ir ip [x] \<Longrightarrow> nth_opt ir ip = Some x"
  by (auto simp: code_at_def)

lemma code_at_slice: "code_at ir ip bs \<Longrightarrow> slice_opt ir ip (ip + length bs) = Some bs"
  by (auto simp: code_at_def)

section \<open>Little-endian fields\<close>

text \<open>\<open>to_le_bytes\<close> and \<open>from_le_bytes\<close>: the number of bytes is given explicitly.\<close>

fun le_bytes :: "nat \<Rightarrow> 'a::len word \<Rightarrow> u8 list" where
  "le_bytes 0 w = []"
| "le_bytes (Suc n) w = ucast w # le_bytes n (drop_bit 8 w)"

fun from_le :: "u8 list \<Rightarrow> 'a::len word" where
  "from_le [] = 0"
| "from_le (b # bs) = ucast b OR push_bit 8 (from_le bs)"

lemma length_le_bytes [simp]: "length (le_bytes n w) = n"
  by (induction n arbitrary: w) auto

lemma from_le_bytes_take: "from_le (le_bytes n w) = take_bit (8 * n) w"
proof (induction n arbitrary: w)
  case 0
  then show ?case by simp
next
  case (Suc n)
  have "ucast (ucast w :: u8) OR push_bit 8 (take_bit (8 * n) (drop_bit 8 w)) = take_bit (8 * Suc n) w"
    by (rule bit_word_eqI) (auto simp: bit_simps)
  then show ?case by (simp add: Suc)
qed

lemma from_le_bytes_16 [simp]: "from_le (le_bytes 2 (w :: u16)) = w"
  by (simp add: from_le_bytes_take take_bit_word_eq_self)

lemma from_le_bytes_32 [simp]: "from_le (le_bytes 4 (w :: u32)) = w"
  by (simp add: from_le_bytes_take take_bit_word_eq_self)

lemma from_le_bytes_64 [simp]: "from_le (le_bytes 8 (w :: u64)) = w"
  by (simp add: from_le_bytes_take take_bit_word_eq_self)

section \<open>Strings as bytes\<close>

definition bytes_of :: "string \<Rightarrow> u8 list" where
  "bytes_of s = map of_char s"

definition chars_of :: "u8 list \<Rightarrow> string" where
  "chars_of bs = map (\<lambda>b. char_of (unat b)) bs"

lemma length_bytes_of [simp]: "length (bytes_of s) = length s"
  by (simp add: bytes_of_def)

lemma unat_of_char: "unat (of_char c :: u8) = of_char c"
  by (simp add: of_char_def)

lemma char_of_unat_of_char [simp]: "char_of (unat (of_char c :: u8)) = c"
  unfolding unat_of_char by simp

lemma chars_of_bytes_of [simp]: "chars_of (bytes_of s) = s"
  by (induction s) (simp_all add: chars_of_def bytes_of_def)

lemma bytes_of_inject [simp]: "bytes_of s = bytes_of t \<longleftrightarrow> s = t"
  by (metis chars_of_bytes_of)

lemma bytes_of_append [simp]: "bytes_of (s @ t) = bytes_of s @ bytes_of t"
  by (simp add: bytes_of_def)

text \<open>
  Well-formed UTF-8 (Unicode table 3-7), the check of \<open>core::str::from_utf8\<close>:
  \<open>from_utf8\<close> returns the string exactly when the bytes are well formed.
\<close>

definition cont_byte :: "u8 \<Rightarrow> bool" where
  "cont_byte b \<longleftrightarrow> 0x80 \<le> b \<and> b \<le> 0xBF"

fun utf8_valid :: "u8 list \<Rightarrow> bool" where
  "utf8_valid [] = True"
| "utf8_valid (a # bs) =
     (if a < 0x80 then utf8_valid bs
      else case bs of
        [] \<Rightarrow> False
      | b # cs \<Rightarrow>
          if 0xC2 \<le> a \<and> a \<le> 0xDF then cont_byte b \<and> utf8_valid cs
          else case cs of
            [] \<Rightarrow> False
          | c # ds \<Rightarrow>
              if 0xE0 \<le> a \<and> a \<le> 0xEF then
                cont_byte b \<and> cont_byte c \<and> (a = 0xE0 \<longrightarrow> 0xA0 \<le> b) \<and> (a = 0xED \<longrightarrow> b \<le> 0x9F)
                  \<and> utf8_valid ds
              else case ds of
                [] \<Rightarrow> False
              | d # es \<Rightarrow>
                  0xF0 \<le> a \<and> a \<le> 0xF4 \<and> cont_byte b \<and> cont_byte c \<and> cont_byte d
                    \<and> (a = 0xF0 \<longrightarrow> 0x90 \<le> b) \<and> (a = 0xF4 \<longrightarrow> b \<le> 0x8F) \<and> utf8_valid es)"

definition from_utf8 :: "u8 list \<Rightarrow> string option" where
  "from_utf8 bs = (if utf8_valid bs then Some (chars_of bs) else None)"

text \<open>Every Rust \<open>String\<close> is valid UTF-8.\<close>

definition rust_str :: "string \<Rightarrow> bool" where
  "rust_str s \<longleftrightarrow> utf8_valid (bytes_of s)"

lemma utf8_ascii: "list_all (\<lambda>b. b < 0x80) bs \<Longrightarrow> utf8_valid bs"
  by (induction bs) auto

lemma from_utf8_bytes_of [simp]: "rust_str s \<Longrightarrow> from_utf8 (bytes_of s) = Some s"
  by (simp add: from_utf8_def rust_str_def)

section \<open>Joining and formatting\<close>

fun join_with :: "string \<Rightarrow> string list \<Rightarrow> string" where
  "join_with sep [] = []"
| "join_with sep [x] = x"
| "join_with sep (x # y # ys) = x @ sep @ join_with sep (y # ys)"

fun show_nat :: "nat \<Rightarrow> string" where
  "show_nat n = (if n < 10 then [char_of (48 + n)] else show_nat (n div 10) @ [char_of (48 + n mod 10)])"

declare show_nat.simps [simp del]

end
