(* ===== verification/Float64.thy ===== *)
theory Float64
  imports Prelude
begin

text \<open>
  The IEEE 754 binary64 operations the policy code uses, on bit patterns: comparison
  operators of Rust's \<open>f64\<close>, the casts \<open>i64 as f64\<close>, \<open>u64 as f64\<close> (round to nearest,
  ties to even) and \<open>f64 as i64\<close> (truncate, saturate, NaN to 0), and the rounding of a
  decimal literal used by \<open>str::parse\<close>. A value is its 64-bit pattern, which is also
  what \<open>to_le_bytes\<close> writes.
\<close>

type_synonym f64 = "64 word"

definition f64_mag :: "f64 \<Rightarrow> nat" where
  "f64_mag x = unat x mod 2 ^ 63"

definition f64_neg :: "f64 \<Rightarrow> bool" where
  "f64_neg x \<longleftrightarrow> 2 ^ 63 \<le> unat x"

definition f64_inf_mag :: nat where
  "f64_inf_mag = 0x7FF0000000000000"

definition f64_is_nan :: "f64 \<Rightarrow> bool" where
  "f64_is_nan x \<longleftrightarrow> f64_inf_mag < f64_mag x"

text \<open>
  Magnitudes of non-NaN patterns are ordered as the values they stand for, so the
  signed magnitude decides every comparison; both zeros have key 0.
\<close>

definition f64_key :: "f64 \<Rightarrow> int" where
  "f64_key x = (if f64_neg x then - int (f64_mag x) else int (f64_mag x))"

definition f64_eq :: "f64 \<Rightarrow> f64 \<Rightarrow> bool" where
  "f64_eq x y \<longleftrightarrow> \<not> f64_is_nan x \<and> \<not> f64_is_nan y \<and> f64_key x = f64_key y"

definition f64_lt :: "f64 \<Rightarrow> f64 \<Rightarrow> bool" where
  "f64_lt x y \<longleftrightarrow> \<not> f64_is_nan x \<and> \<not> f64_is_nan y \<and> f64_key x < f64_key y"

definition f64_le :: "f64 \<Rightarrow> f64 \<Rightarrow> bool" where
  "f64_le x y \<longleftrightarrow> \<not> f64_is_nan x \<and> \<not> f64_is_nan y \<and> f64_key x \<le> f64_key y"

section \<open>Rounding\<close>

fun ilog2 :: "nat \<Rightarrow> nat" where
  "ilog2 n = (if n < 2 then 0 else Suc (ilog2 (n div 2)))"

declare ilog2.simps [simp del]

text \<open>Round the quotient \<open>p / q\<close> to the nearest natural number, ties to even.\<close>

definition round_half_even :: "nat \<Rightarrow> nat \<Rightarrow> nat" where
  "round_half_even p q =
     (let n = p div q; r = p mod q
      in if 2 * r < q \<or> 2 * r = q \<and> even n then n else Suc n)"

text \<open>
  Magnitude bits of the binary floating-point number nearest to the positive rational
  \<open>p / q\<close>, in the format with \<open>t\<close> stored significand bits, least unit \<open>2 ^ (-l)\<close> and
  magnitude \<open>big\<close> of infinity. The unit in the last place is \<open>2 ^ u\<close>, at least the least
  unit; the significand \<open>n\<close> and the exponent field add up in one number because a carry
  out of the significand increments the exponent.
\<close>

definition round_mag :: "nat \<Rightarrow> nat \<Rightarrow> nat \<Rightarrow> nat \<Rightarrow> nat \<Rightarrow> nat" where
  "round_mag t l big p q =
     (let e0 = int (ilog2 p) - int (ilog2 q);
          below = (if 0 \<le> e0 then p < q * 2 ^ nat e0 else p * 2 ^ nat (- e0) < q);
          e = (if below then e0 - 1 else e0);
          u = max (e - int t) (- int l);
          n = (if 0 \<le> u then round_half_even p (q * 2 ^ nat u)
               else round_half_even (p * 2 ^ nat (- u)) q)
      in min big (nat (u + int l) * 2 ^ t + n))"

text \<open>The rounding to binary64.\<close>

definition f64_round_mag :: "nat \<Rightarrow> nat \<Rightarrow> nat" where
  "f64_round_mag = round_mag 52 1074 f64_inf_mag"

definition f64_make :: "bool \<Rightarrow> nat \<Rightarrow> f64" where
  "f64_make neg m = word_of_nat (if neg then 2 ^ 63 + m else m)"

definition f64_of_int :: "int \<Rightarrow> f64" where
  "f64_of_int i = f64_make (i < 0) (if i = 0 then 0 else f64_round_mag (nat \<bar>i\<bar>) 1)"

text \<open>\<open>x as f64\<close> for \<open>x: i64\<close> and \<open>x: u64\<close>.\<close>

definition f64_of_i64 :: "i64 \<Rightarrow> f64" where
  "f64_of_i64 x = f64_of_int (sint x)"

definition f64_of_u64 :: "u64 \<Rightarrow> f64" where
  "f64_of_u64 x = f64_of_int (uint x)"

text \<open>\<open>x as i64\<close> for \<open>x: f64\<close>.\<close>

definition f64_trunc :: "f64 \<Rightarrow> int" where
  "f64_trunc x =
     (let m = f64_mag x; ex = m div 2 ^ 52; fr = m mod 2 ^ 52;
          v = (if ex < 1023 then 0
               else if 1075 \<le> ex then (2 ^ 52 + fr) * 2 ^ (ex - 1075)
               else (2 ^ 52 + fr) div 2 ^ (1075 - ex))
      in if f64_neg x then - int v else int v)"

definition i64_of_f64 :: "f64 \<Rightarrow> i64" where
  "i64_of_f64 x =
     (if f64_is_nan x then 0
      else word_of_int (max (- (2 ^ 63)) (min (2 ^ 63 - 1) (f64_trunc x))))"

text \<open>The value of the decimal \<open>m * 10 ^ e\<close>, rounded, with its sign.\<close>

definition f64_of_decimal :: "bool \<Rightarrow> nat \<Rightarrow> int \<Rightarrow> f64" where
  "f64_of_decimal neg m e =
     f64_make neg
       (if m = 0 then 0
        else if 0 \<le> e then f64_round_mag (m * 10 ^ nat e) 1
        else f64_round_mag m (10 ^ nat (- e)))"

section \<open>Order laws\<close>

lemma f64_lt_irrefl [simp]: "\<not> f64_lt x x"
  by (simp add: f64_lt_def)

lemma f64_lt_trans: "f64_lt x y \<Longrightarrow> f64_lt y z \<Longrightarrow> f64_lt x z"
  by (auto simp: f64_lt_def)

lemma f64_le_iff: "f64_le x y \<longleftrightarrow> f64_lt x y \<or> f64_eq x y"
  by (auto simp: f64_le_def f64_lt_def f64_eq_def)

lemma f64_eq_sym: "f64_eq x y = f64_eq y x"
  by (auto simp: f64_eq_def)

lemma f64_trichotomy:
  "\<not> f64_is_nan x \<Longrightarrow> \<not> f64_is_nan y \<Longrightarrow> f64_lt x y \<or> f64_eq x y \<or> f64_lt y x"
  by (auto simp: f64_lt_def f64_eq_def)

end
