(* ===== verification/Json_Value.thy ===== *)
theory Json_Value
  imports Float64
begin

text \<open>
  The JSON documents the code passes around (\<open>serde_json::Value\<close>): the public
  constructors of that type and the accessors the source calls, with their documented
  behaviour. An object is an association list with distinct keys in the map's iteration
  order. A number is a non-negative integer, a negative integer or a finite float.
\<close>

datatype jnum = PosInt u64 | NegInt i64 | JFloat f64

datatype json =
    JNull
  | JBool bool
  | JNumber jnum
  | JString string
  | JArray "json list"
  | JObject "(string \<times> json) list"

text \<open>\<open>Value::get(key)\<close> with a string key: defined on objects only.\<close>

fun json_get :: "json \<Rightarrow> string \<Rightarrow> json option" where
  "json_get (JObject kvs) k = map_of kvs k"
| "json_get _ k = None"

fun json_as_str :: "json \<Rightarrow> string option" where
  "json_as_str (JString s) = Some s"
| "json_as_str _ = None"

fun json_as_array :: "json \<Rightarrow> json list option" where
  "json_as_array (JArray xs) = Some xs"
| "json_as_array _ = None"

fun json_as_object :: "json \<Rightarrow> (string \<times> json) list option" where
  "json_as_object (JObject kvs) = Some kvs"
| "json_as_object _ = None"

text \<open>\<open>Number::as_i64\<close>: integers in the range of \<open>i64\<close>, never floats.\<close>

fun num_as_i64 :: "jnum \<Rightarrow> i64 option" where
  "num_as_i64 (PosInt n) = (if unat n < 2 ^ 63 then Some n else None)"
| "num_as_i64 (NegInt n) = Some n"
| "num_as_i64 (JFloat x) = None"

text \<open>\<open>Number::as_f64\<close>: total, integers are cast.\<close>

fun num_as_f64 :: "jnum \<Rightarrow> f64 option" where
  "num_as_f64 (PosInt n) = Some (f64_of_u64 n)"
| "num_as_f64 (NegInt n) = Some (f64_of_i64 n)"
| "num_as_f64 (JFloat x) = Some x"

fun json_as_f64 :: "json \<Rightarrow> f64 option" where
  "json_as_f64 (JNumber n) = num_as_f64 n"
| "json_as_f64 _ = None"

text \<open>Following a path of object keys; \<open>None\<close> as soon as one step is missing.\<close>

fun json_path :: "json \<Rightarrow> string list \<Rightarrow> json option" where
  "json_path v [] = Some v"
| "json_path v (k # ks) = (case json_get v k of None \<Rightarrow> None | Some w \<Rightarrow> json_path w ks)"

text \<open>
  Equality of documents (the derived \<open>PartialEq\<close>): numbers are equal when they have the
  same variant and value, so an integer never equals a float; floats compare as \<open>f64\<close>.
  Objects compare entry by entry in key order.
\<close>

fun jnum_eq :: "jnum \<Rightarrow> jnum \<Rightarrow> bool" where
  "jnum_eq (PosInt a) (PosInt b) = (a = b)"
| "jnum_eq (NegInt a) (NegInt b) = (a = b)"
| "jnum_eq (JFloat a) (JFloat b) = f64_eq a b"
| "jnum_eq _ _ = False"

fun json_eq :: "json \<Rightarrow> json \<Rightarrow> bool" and
    elems_eq :: "json list \<Rightarrow> json list \<Rightarrow> bool" and
    entries_eq :: "(string \<times> json) list \<Rightarrow> (string \<times> json) list \<Rightarrow> bool" where
  "json_eq JNull JNull = True"
| "json_eq (JBool a) (JBool b) = (a = b)"
| "json_eq (JNumber a) (JNumber b) = jnum_eq a b"
| "json_eq (JString a) (JString b) = (a = b)"
| "json_eq (JArray xs) (JArray ys) = elems_eq xs ys"
| "json_eq (JObject xs) (JObject ys) = entries_eq xs ys"
| "json_eq _ _ = False"
| "elems_eq [] [] = True"
| "elems_eq (x # xs) (y # ys) = (json_eq x y \<and> elems_eq xs ys)"
| "elems_eq _ _ = False"
| "entries_eq [] [] = True"
| "entries_eq ((k, x) # xs) ((l, y) # ys) = (k = l \<and> json_eq x y \<and> entries_eq xs ys)"
| "entries_eq _ _ = False"

lemma json_eq_string [simp]: "json_eq v (JString s) \<longleftrightarrow> v = JString s"
  by (cases v) auto

lemma json_eq_string_left [simp]: "json_eq (JString s) v \<longleftrightarrow> v = JString s"
  by (cases v) auto

text \<open>The keys of every object are distinct (\<open>serde_json::Map\<close> is a map).\<close>

fun distinct_keys :: "json \<Rightarrow> bool" where
  "distinct_keys (JArray xs) = list_all distinct_keys xs"
| "distinct_keys (JObject kvs) = (distinct (map fst kvs) \<and> list_all (\<lambda>(k, v). distinct_keys v) kvs)"
| "distinct_keys v = True"

lemma size_elem [termination_simp]: "(x :: json) \<in> set xs \<Longrightarrow> size x < Suc (size_list size xs)"
  by (induction xs) auto

lemma size_entry [termination_simp]:
  "(k, v :: json) \<in> set kvs \<Longrightarrow> size v < size_list (size_prod (\<lambda>x. 0) size) kvs"
  by (induction kvs) auto

lemma json_path_append:
  "json_path v (ks @ ls) = Option.bind (json_path v ks) (\<lambda>w. json_path w ls)"
  by (induction ks arbitrary: v) (auto split: option.splits)

end
