(* ===== verification/Rust_Std.thy ===== *)
theory Rust_Std
  imports Prelude "HOL-Library.Multiset" "HOL-Library.Sublist"
begin

text \<open>
  Functions of Rust's standard library on strings and slices that several components
  call: prefix and suffix tests, trimming, splitting, and the stable slice sort. A string
  is the list of its UTF-8 bytes, so a pattern is a byte string and white space outside
  ASCII is recognised by its encoding.
\<close>

section \<open>Prefixes and splitting\<close>

definition starts_with :: "string \<Rightarrow> string \<Rightarrow> bool" where
  "starts_with s p \<longleftrightarrow> take (length p) s = p"

definition ends_with :: "string \<Rightarrow> string \<Rightarrow> bool" where
  "ends_with s p \<longleftrightarrow> length p \<le> length s \<and> drop (length s - length p) s = p"

definition strip_prefix :: "string \<Rightarrow> string \<Rightarrow> string option" where
  "strip_prefix s p = (if starts_with s p then Some (drop (length p) s) else None)"

definition strip_suffix :: "string \<Rightarrow> string \<Rightarrow> string option" where
  "strip_suffix s p = (if ends_with s p then Some (take (length s - length p) s) else None)"

text \<open>\<open>str::find\<close> of a pattern: the offset of its first occurrence.\<close>

fun find_str :: "string \<Rightarrow> string \<Rightarrow> nat option" where
  "find_str p [] = (if p = [] then Some 0 else None)"
| "find_str p (c # s) = (if starts_with (c # s) p then Some 0 else map_option Suc (find_str p s))"

text \<open>\<open>str::split_once\<close> and \<open>str::rsplit_once\<close> with a one-byte character.\<close>

fun split_once :: "char \<Rightarrow> string \<Rightarrow> (string \<times> string) option" where
  "split_once c [] = None"
| "split_once c (x # s) =
     (if x = c then Some ([], s) else map_option (\<lambda>(a, b). (x # a, b)) (split_once c s))"

definition rsplit_once :: "char \<Rightarrow> string \<Rightarrow> (string \<times> string) option" where
  "rsplit_once c s = map_option (\<lambda>(a, b). (rev b, rev a)) (split_once c (rev s))"

text \<open>\<open>str::split\<close> with a one-byte character: the pieces between its occurrences.\<close>

fun split_char :: "char \<Rightarrow> string \<Rightarrow> string list" where
  "split_char c [] = [[]]"
| "split_char c (x # s) =
     (if x = c then [] # split_char c s
      else case split_char c s of [] \<Rightarrow> [[x]] | p # ps \<Rightarrow> (x # p) # ps)"

text \<open>\<open>str::split\<close> with a non-empty pattern, scanning left to right.\<close>

function split_at_str :: "string \<Rightarrow> string \<Rightarrow> string \<Rightarrow> string list" where
  "split_at_str p acc s =
     (case s of
        [] \<Rightarrow> [acc]
      | c # s' \<Rightarrow>
          if p \<noteq> [] \<and> starts_with s p then acc # split_at_str p [] (drop (length p) s)
          else split_at_str p (acc @ [c]) s')"
  by pat_completeness auto
termination
  by (relation "measure (\<lambda>(p, acc, s). length s)") auto

declare split_at_str.simps [simp del]

text \<open>The characters of a string, each the bytes of one UTF-8 sequence.\<close>

definition is_cont :: "char \<Rightarrow> bool" where
  "is_cont c \<longleftrightarrow> 128 \<le> (of_char c :: nat) \<and> (of_char c :: nat) < 192"

function utf8_chars :: "string \<Rightarrow> string list" where
  "utf8_chars [] = []"
| "utf8_chars (c # s) = (c # takeWhile is_cont s) # utf8_chars (dropWhile is_cont s)"
  by pat_completeness auto
termination
  by (relation "measure length") (auto simp: less_Suc_eq_le length_dropWhile_le)

text \<open>An empty pattern matches at every character boundary, both ends included.\<close>

definition split_str :: "string \<Rightarrow> string \<Rightarrow> string list" where
  "split_str p s = (if p = [] then [] # utf8_chars s @ [[]] else split_at_str p [] s)"

section \<open>Trimming\<close>

text \<open>The UTF-8 encodings of the characters with the property \<open>White_Space\<close>.\<close>

definition byte_str :: "nat list \<Rightarrow> string" where
  "byte_str bs = map char_of bs"

definition white_space :: "string list" where
  "white_space = map byte_str
     ([[9], [10], [11], [12], [13], [32], [0xC2, 0x85], [0xC2, 0xA0], [0xE1, 0x9A, 0x80]]
      @ map (\<lambda>b. [0xE2, 0x80, b]) [0x80, 0x81, 0x82, 0x83, 0x84, 0x85, 0x86, 0x87, 0x88, 0x89, 0x8A,
                                   0xA8, 0xA9, 0xAF]
      @ [[0xE2, 0x81, 0x9F], [0xE3, 0x80, 0x80]])"

lemma white_space_nonempty: "w \<in> set white_space \<Longrightarrow> w \<noteq> []"
  by (auto simp: white_space_def byte_str_def)

function trim_prefixes :: "string list \<Rightarrow> string \<Rightarrow> string" where
  "trim_prefixes ws s =
     (case find (\<lambda>w. w \<noteq> [] \<and> starts_with s w) ws of
        None \<Rightarrow> s
      | Some w \<Rightarrow> trim_prefixes ws (drop (length w) s))"
  by pat_completeness auto
termination
proof (relation "measure (\<lambda>(ws, s). length s)")
  fix ws s w
  assume "find (\<lambda>w. w \<noteq> [] \<and> starts_with s w) ws = Some w"
  then have "w \<noteq> []" "take (length w) s = w"
    by (auto simp: find_Some_iff starts_with_def)
  moreover from this have "s \<noteq> []" by auto
  ultimately show "((ws, drop (length w) s), ws, s) \<in> measure (\<lambda>(ws, s). length s)"
    by simp
qed simp

declare trim_prefixes.simps [simp del]

definition trim_start :: "string \<Rightarrow> string" where
  "trim_start s = trim_prefixes white_space s"

definition trim_end :: "string \<Rightarrow> string" where
  "trim_end s = rev (trim_prefixes (map rev white_space) (rev s))"

definition trim :: "string \<Rightarrow> string" where
  "trim s = trim_end (trim_start s)"

lemma trim_prefixes_suffix: "suffix (trim_prefixes ws s) s"
proof (induction ws s rule: trim_prefixes.induct)
  case (1 ws s)
  show ?case
  proof (cases "find (\<lambda>w. w \<noteq> [] \<and> starts_with s w) ws")
    case None
    then show ?thesis by (simp add: trim_prefixes.simps)
  next
    case (Some w)
    have "suffix (trim_prefixes ws (drop (length w) s)) (drop (length w) s)"
      by (rule 1 [OF Some])
    then show ?thesis
      using Some by (subst trim_prefixes.simps) (auto intro: suffix_order.trans suffix_drop)
  qed
qed

lemma trim_sublist: "sublist (trim s) s"
proof -
  have "suffix (trim_start s) s" by (simp add: trim_start_def trim_prefixes_suffix)
  moreover have "prefix (trim_end t) t" for t
    using trim_prefixes_suffix [of "map rev white_space" "rev t"]
    by (simp add: trim_end_def suffix_to_prefix)
  ultimately show ?thesis
    unfolding trim_def by (blast intro: prefix_imp_sublist sublist_order.order.trans suffix_imp_sublist)
qed

section \<open>Laws of splitting\<close>

lemma split_once_Some: "split_once c s = Some (a, b) \<longleftrightarrow> s = a @ c # b \<and> c \<notin> set a"
proof (induction s arbitrary: a)
  case (Cons x s)
  show ?case
  proof (cases "x = c")
    case True
    then show ?thesis by (cases a) auto
  next
    case False
    with Cons.IH show ?thesis
      by (cases a; cases "split_once c s") (auto split: prod.splits)
  qed
qed simp

lemma split_once_None: "split_once c s = None \<longleftrightarrow> c \<notin> set s"
  by (induction s) auto

lemma rsplit_once_Some: "rsplit_once c s = Some (a, b) \<longleftrightarrow> s = a @ c # b \<and> c \<notin> set b"
proof -
  have "rsplit_once c s = Some (a, b) \<longleftrightarrow> split_once c (rev s) = Some (rev b, rev a)"
    unfolding rsplit_once_def by (cases "split_once c (rev s)") (auto simp: rev_swap)
  also have "\<dots> \<longleftrightarrow> rev s = rev b @ c # rev a \<and> c \<notin> set b"
    by (simp add: split_once_Some)
  also have "rev s = rev b @ c # rev a \<longleftrightarrow> s = a @ c # b"
    by (metis (no_types) append.assoc append_Cons append_Nil rev.simps(2) rev_append rev_rev_ident)
  finally show ?thesis .
qed

lemma rsplit_once_None: "rsplit_once c s = None \<longleftrightarrow> c \<notin> set s"
  by (simp add: rsplit_once_def split_once_None)

lemma split_char_not_Nil [simp]: "split_char c s \<noteq> []"
  by (induction s) (auto split: list.splits)

lemma split_char_join: "join_with [c] (split_char c s) = s"
proof (induction s)
  case (Cons x s)
  then show ?case
    by (cases "split_char c s"; cases "tl (split_char c s)") auto
qed simp

section \<open>The stable sort\<close>

text \<open>
  Insertion of the next element from the right end of the sorted part, held reversed:
  it moves left past every element it is less than. For a strict weak order the result of
  every stable sort is the same list; for anything else the standard library leaves the
  order unspecified (it may panic), and the properties below ask for a weak order.
\<close>

fun insert_left :: "('a \<Rightarrow> 'a \<Rightarrow> bool) \<Rightarrow> 'a \<Rightarrow> 'a list \<Rightarrow> 'a list" where
  "insert_left lt x [] = [x]"
| "insert_left lt x (y # ys) = (if lt x y then y # insert_left lt x ys else x # y # ys)"

definition sort_by :: "('a \<Rightarrow> 'a \<Rightarrow> bool) \<Rightarrow> 'a list \<Rightarrow> 'a list" where
  "sort_by lt xs = rev (foldl (\<lambda>acc x. insert_left lt x acc) [] xs)"

text \<open>Irreflexive, and incomparability is transitive, on the elements of a set.\<close>

definition weak_order_on :: "'a set \<Rightarrow> ('a \<Rightarrow> 'a \<Rightarrow> bool) \<Rightarrow> bool" where
  "weak_order_on A lt \<longleftrightarrow>
     (\<forall>x \<in> A. \<forall>y \<in> A. lt x y \<longrightarrow> \<not> lt y x)
     \<and> (\<forall>x \<in> A. \<forall>y \<in> A. \<forall>z \<in> A. \<not> lt x y \<longrightarrow> \<not> lt y z \<longrightarrow> \<not> lt x z)"

lemma weak_order_on_subset: "weak_order_on A lt \<Longrightarrow> B \<subseteq> A \<Longrightarrow> weak_order_on B lt"
  unfolding weak_order_on_def by blast

lemma mset_insert_left [simp]: "mset (insert_left lt x ys) = add_mset x (mset ys)"
  by (induction ys) auto

lemma set_insert_left [simp]: "set (insert_left lt x ys) = insert x (set ys)"
  by (induction ys) auto

lemma mset_sort_fold:
  "mset (foldl (\<lambda>acc x. insert_left lt x acc) acc xs) = mset acc + mset xs"
  by (induction xs arbitrary: acc) auto

lemma mset_sort_by [simp]: "mset (sort_by lt xs) = mset xs"
  by (simp add: sort_by_def mset_sort_fold)

lemma length_sort_by [simp]: "length (sort_by lt xs) = length xs"
  by (metis mset_sort_by size_mset)

lemma set_sort_by [simp]: "set (sort_by lt xs) = set xs"
  by (metis mset_sort_by set_mset_mset)

lemma distinct_sort_by [simp]: "distinct (map f (sort_by lt xs)) = distinct (map f xs)"
proof -
  have "mset (map f (sort_by lt xs)) = mset (map f xs)" by simp
  then show ?thesis by (metis mset_eq_imp_distinct_iff)
qed

lemma insert_left_sorted:
  assumes "weak_order_on (insert x (set ys)) lt" "sorted_wrt (\<lambda>a b. \<not> lt a b) ys"
  shows "sorted_wrt (\<lambda>a b. \<not> lt a b) (insert_left lt x ys)"
  using assms
proof (induction ys)
  case (Cons y ys)
  have w: "weak_order_on (insert x (set ys)) lt"
    by (rule weak_order_on_subset [OF Cons.prems(1)]) auto
  have IH: "sorted_wrt (\<lambda>a b. \<not> lt a b) (insert_left lt x ys)"
    using Cons w by simp
  show ?case
  proof (cases "lt x y")
    case True
    then have "\<not> lt y x"
      using Cons.prems(1) unfolding weak_order_on_def by simp
    with True IH Cons.prems(2) show ?thesis by simp
  next
    case False
    have "\<not> lt x z" if "z \<in> set ys" for z
    proof -
      have "\<not> lt y z" using Cons.prems(2) that by simp
      with False show ?thesis
        using Cons.prems(1) that unfolding weak_order_on_def by (metis insertI1 insert_commute insertI2 list.simps(15))
    qed
    with False Cons.prems(2) show ?thesis by auto
  qed
qed simp

lemma sort_fold_sorted:
  assumes "weak_order_on (set acc \<union> set xs) lt" "sorted_wrt (\<lambda>a b. \<not> lt a b) acc"
  shows "sorted_wrt (\<lambda>a b. \<not> lt a b) (foldl (\<lambda>acc x. insert_left lt x acc) acc xs)"
  using assms
proof (induction xs arbitrary: acc)
  case (Cons x xs)
  have "weak_order_on (insert x (set acc)) lt"
    by (rule weak_order_on_subset [OF Cons.prems(1)]) auto
  then have "sorted_wrt (\<lambda>a b. \<not> lt a b) (insert_left lt x acc)"
    by (rule insert_left_sorted) (rule Cons.prems(2))
  with Cons.IH [of "insert_left lt x acc"] Cons.prems(1) show ?case by simp
qed simp

lemma sort_by_sorted:
  "weak_order_on (set xs) lt \<Longrightarrow> sorted_wrt (\<lambda>a b. \<not> lt b a) (sort_by lt xs)"
  using sort_fold_sorted [of "[]" xs lt] by (simp add: sort_by_def sorted_wrt_rev)

text \<open>The first \<open>k\<close> of the sorted elements: none of the others belongs before them.\<close>

lemma take_sort_by_top:
  assumes "weak_order_on (set xs) lt" "x \<in> set (take k (sort_by lt xs))"
    "y \<in> set (drop k (sort_by lt xs))"
  shows "\<not> lt y x"
proof -
  have "sorted_wrt (\<lambda>a b. \<not> lt b a) (take k (sort_by lt xs) @ drop k (sort_by lt xs))"
    using sort_by_sorted [OF assms(1)] by simp
  with assms(2, 3) show ?thesis unfolding sorted_wrt_append by blast
qed

end
