(* ===== verification/Vector_Filter.thy ===== *)
theory Vector_Filter
  imports Json_Value Rust_Std
begin

text \<open>
  The filter language of vector-store queries (\<open>sealstack-vectorstore/src/filter.rs\<close>): the
  typed filter, its parser from the wire format and its evaluation on the metadata of a
  chunk. A metadata map is the association list of a JSON object.
\<close>

datatype Filter =
    F_Eq string json
  | F_Ne string json
  | F_In string "json list"
  | F_NotIn string "json list"
  | F_Range string "f64 option" "f64 option" "f64 option" "f64 option"
  | F_And "Filter list"
  | F_Or "Filter list"
  | F_Not Filter
  | F_All

datatype FilterParseError =
    NotObject
  | BadOperator string string
  | UnknownOperator string

type_synonym metadata = "(string \<times> json) list"

section \<open>Evaluation\<close>

text \<open>The bounds of a range, in the order \<open>gte\<close>, \<open>gt\<close>, \<open>lte\<close>, \<open>lt\<close>.\<close>

definition range_holds :: "f64 option \<Rightarrow> f64 option \<Rightarrow> f64 option \<Rightarrow> f64 option \<Rightarrow> f64 \<Rightarrow> bool" where
  "range_holds gte gt lte lt actual =
     (if (case gte of Some g \<Rightarrow> f64_lt actual g | None \<Rightarrow> False) then False
      else if (case gt of Some g \<Rightarrow> f64_le actual g | None \<Rightarrow> False) then False
      else if (case lte of Some l \<Rightarrow> f64_lt l actual | None \<Rightarrow> False) then False
      else if (case lt of Some l \<Rightarrow> f64_le l actual | None \<Rightarrow> False) then False
      else True)"

definition option_json_eq :: "json option \<Rightarrow> json \<Rightarrow> bool" where
  "option_json_eq v w = (case v of None \<Rightarrow> False | Some u \<Rightarrow> json_eq u w)"

fun matches :: "Filter \<Rightarrow> metadata \<Rightarrow> bool" where
  "matches F_All m = True"
| "matches (F_Eq field value) m = option_json_eq (map_of m field) value"
| "matches (F_Ne field value) m = (\<not> option_json_eq (map_of m field) value)"
| "matches (F_In field values) m =
     (case map_of m field of
        None \<Rightarrow> False
      | Some actual \<Rightarrow> list_ex (\<lambda>v. json_eq v actual) values)"
| "matches (F_NotIn field values) m =
     (case map_of m field of
        None \<Rightarrow> True
      | Some actual \<Rightarrow> list_all (\<lambda>v. \<not> json_eq v actual) values)"
| "matches (F_Range field gte gt lte lt) m =
     (case Option.bind (map_of m field) json_as_f64 of
        None \<Rightarrow> False
      | Some actual \<Rightarrow> range_holds gte gt lte lt actual)"
| "matches (F_And parts) m = list_all (\<lambda>p. matches p m) parts"
| "matches (F_Or parts) m = list_ex (\<lambda>p. matches p m) parts"
| "matches (F_Not inner) m = (\<not> matches inner m)"

fun is_qdrant_native :: "Filter \<Rightarrow> bool" where
  "is_qdrant_native (F_And parts) = list_all is_qdrant_native parts"
| "is_qdrant_native (F_Or parts) = False"
| "is_qdrant_native (F_Not inner) = False"
| "is_qdrant_native _ = True"

section \<open>Parsing\<close>

record RangeBuilder =
  rb_gte :: "f64 option"
  rb_gt :: "f64 option"
  rb_lte :: "f64 option"
  rb_lt :: "f64 option"

definition range_default :: RangeBuilder where
  "range_default = \<lparr>rb_gte = None, rb_gt = None, rb_lte = None, rb_lt = None\<rparr>"

definition range_any :: "RangeBuilder \<Rightarrow> bool" where
  "range_any r \<longleftrightarrow> rb_gte r \<noteq> None \<or> rb_gt r \<noteq> None \<or> rb_lte r \<noteq> None \<or> rb_lt r \<noteq> None"

definition as_array :: "string \<Rightarrow> json \<Rightarrow> FilterParseError + json list" where
  "as_array op value = ok_or (json_as_array value) (BadOperator op ''expected an array'')"

definition as_number :: "string \<Rightarrow> json \<Rightarrow> FilterParseError + f64" where
  "as_number op value = ok_or (json_as_f64 value) (BadOperator op ''expected a number'')"

definition has_any_op :: "(string \<times> json) list \<Rightarrow> bool" where
  "has_any_op obj = list_ex (\<lambda>(k, v). starts_with k ''$'') obj"

text \<open>One round of the loop of \<open>parse_field_ops\<close>, on the parts and the range so far.\<close>

definition field_op :: "string \<Rightarrow> string \<Rightarrow> json \<Rightarrow> Filter list \<times> RangeBuilder
    \<Rightarrow> FilterParseError + (Filter list \<times> RangeBuilder)" where
  "field_op field op value = (\<lambda>(parts, range).
     if op = ''$eq'' then Inr (parts @ [F_Eq field value], range)
     else if op = ''$ne'' then Inr (parts @ [F_Ne field value], range)
     else if op = ''$in'' then
       bindR (as_array op value) (\<lambda>vs. Inr (parts @ [F_In field vs], range))
     else if op = ''$nin'' then
       bindR (as_array op value) (\<lambda>vs. Inr (parts @ [F_NotIn field vs], range))
     else if op = ''$gte'' then
       bindR (as_number op value) (\<lambda>n. Inr (parts, range\<lparr>rb_gte := Some n\<rparr>))
     else if op = ''$gt'' then
       bindR (as_number op value) (\<lambda>n. Inr (parts, range\<lparr>rb_gt := Some n\<rparr>))
     else if op = ''$lte'' then
       bindR (as_number op value) (\<lambda>n. Inr (parts, range\<lparr>rb_lte := Some n\<rparr>))
     else if op = ''$lt'' then
       bindR (as_number op value) (\<lambda>n. Inr (parts, range\<lparr>rb_lt := Some n\<rparr>))
     else Inl (UnknownOperator op))"

fun field_ops_loop :: "string \<Rightarrow> (string \<times> json) list \<Rightarrow> Filter list \<times> RangeBuilder
    \<Rightarrow> FilterParseError + (Filter list \<times> RangeBuilder)" where
  "field_ops_loop field [] st = Inr st"
| "field_ops_loop field ((op, value) # ops) st =
     bindR (field_op field op value st) (field_ops_loop field ops)"

definition parse_field_ops :: "string \<Rightarrow> (string \<times> json) list \<Rightarrow> FilterParseError + Filter" where
  "parse_field_ops field ops =
     bindR (field_ops_loop field ops ([], range_default)) (\<lambda>(parts, range).
       let parts = (if range_any range
                    then parts @ [F_Range field (rb_gte range) (rb_gt range) (rb_lte range) (rb_lt range)]
                    else parts)
       in Inr (case parts of [] \<Rightarrow> F_All | [p] \<Rightarrow> p | _ \<Rightarrow> F_And parts))"

definition parse_field :: "string \<Rightarrow> json \<Rightarrow> FilterParseError + Filter" where
  "parse_field field value =
     (case value of
        JObject ops \<Rightarrow> if has_any_op ops then parse_field_ops field ops else Inr (F_Eq field value)
      | _ \<Rightarrow> Inr (F_Eq field value))"

function (sequential) from_json :: "json \<Rightarrow> FilterParseError + Filter" and
    parse_kv :: "string \<Rightarrow> json \<Rightarrow> FilterParseError + Filter" and
    parse_compound :: "json \<Rightarrow> string \<Rightarrow> FilterParseError + Filter list" where
  "from_json (JObject obj) =
     (if obj = [] then Inr F_All
      else bindR (mapR (\<lambda>(key, value). parse_kv key value) obj) (\<lambda>parts.
        Inr (if length parts = 1 then hd parts else F_And parts)))"
| "from_json _ = Inl NotObject"
| "parse_kv key value =
     (if key = ''$and'' then bindR (parse_compound value ''and'') (\<lambda>fs. Inr (F_And fs))
      else if key = ''$or'' then bindR (parse_compound value ''or'') (\<lambda>fs. Inr (F_Or fs))
      else if key = ''$not'' then bindR (from_json value) (\<lambda>f. Inr (F_Not f))
      else if starts_with key ''$'' then Inl (UnknownOperator key)
      else parse_field key value)"
| "parse_compound (JArray arr) name = mapR from_json arr"
| "parse_compound _ name = Inl (BadOperator (''$'' @ name) ''expected an array of sub-filters'')"
  by pat_completeness auto
termination
  by (relation "measure (\<lambda>x. case x of Inl v \<Rightarrow> 3 * size v
                            | Inr (Inl (k, v)) \<Rightarrow> 3 * size v + 2
                            | Inr (Inr (v, n)) \<Rightarrow> 3 * size v + 1)")
     (auto dest: size_elem size_entry)

declare parse_kv.simps [simp del]


section \<open>The meaning of a filter document\<close>

text \<open>
  The documented wire format, read directly as a condition on the metadata: the entries
  of an object hold together, an operator object on a field is the conjunction of its
  operators, and every other value of a field asks for equality.
\<close>

definition number_holds :: "(f64 \<Rightarrow> f64 \<Rightarrow> bool) \<Rightarrow> json \<Rightarrow> json option \<Rightarrow> bool" where
  "number_holds R bound actual =
     (case (json_as_f64 bound, Option.bind actual json_as_f64) of
        (Some b, Some a) \<Rightarrow> R a b
      | _ \<Rightarrow> False)"

definition member_holds :: "json \<Rightarrow> json option \<Rightarrow> bool" where
  "member_holds vs actual =
     (case (json_as_array vs, actual) of
        (Some ws, Some a) \<Rightarrow> list_ex (\<lambda>v. json_eq v a) ws
      | _ \<Rightarrow> False)"

definition op_holds :: "string \<Rightarrow> json \<Rightarrow> json option \<Rightarrow> bool" where
  "op_holds op value actual =
     (if op = ''$eq'' then option_json_eq actual value
      else if op = ''$ne'' then \<not> option_json_eq actual value
      else if op = ''$in'' then member_holds value actual
      else if op = ''$nin'' then \<not> member_holds value actual
      else if op = ''$gte'' then number_holds (\<lambda>a b. \<not> f64_lt a b) value actual
      else if op = ''$gt'' then number_holds (\<lambda>a b. \<not> f64_le a b) value actual
      else if op = ''$lte'' then number_holds (\<lambda>a b. \<not> f64_lt b a) value actual
      else number_holds (\<lambda>a b. \<not> f64_le b a) value actual)"

definition operators :: "string list" where
  "operators = [''$eq'', ''$ne'', ''$in'', ''$nin'', ''$gte'', ''$gt'', ''$lte'', ''$lt'']"

definition op_accepted :: "string \<Rightarrow> json \<Rightarrow> bool" where
  "op_accepted op value \<longleftrightarrow>
     op \<in> set operators
     \<and> (op \<in> {''$in'', ''$nin''} \<longrightarrow> json_as_array value \<noteq> None)
     \<and> (op \<in> {''$gte'', ''$gt'', ''$lte'', ''$lt''} \<longrightarrow> json_as_f64 value \<noteq> None)"

definition field_holds :: "string \<Rightarrow> json \<Rightarrow> metadata \<Rightarrow> bool" where
  "field_holds field value m =
     (case value of
        JObject ops \<Rightarrow>
          if has_any_op ops then list_all (\<lambda>(op, v). op_holds op v (map_of m field)) ops
          else option_json_eq (map_of m field) value
      | _ \<Rightarrow> option_json_eq (map_of m field) value)"

definition field_accepted :: "json \<Rightarrow> bool" where
  "field_accepted value =
     (case value of
        JObject ops \<Rightarrow> has_any_op ops \<longrightarrow> list_all (\<lambda>(op, v). op_accepted op v) ops
      | _ \<Rightarrow> True)"

fun doc_holds :: "json \<Rightarrow> metadata \<Rightarrow> bool" and
    entry_holds :: "string \<Rightarrow> json \<Rightarrow> metadata \<Rightarrow> bool" where
  "doc_holds (JObject obj) m = list_all (\<lambda>(key, value). entry_holds key value m) obj"
| "doc_holds _ m = False"
| "entry_holds key (JArray arr) m =
     (if key = ''$and'' then list_all (\<lambda>v. doc_holds v m) arr
      else if key = ''$or'' then list_ex (\<lambda>v. doc_holds v m) arr
      else field_holds key (JArray arr) m)"
| "entry_holds key (JObject obj) m =
     (if key = ''$not'' then \<not> list_all (\<lambda>(key, value). entry_holds key value m) obj
      else field_holds key (JObject obj) m)"
| "entry_holds key value m = field_holds key value m"

fun doc_accepted :: "json \<Rightarrow> bool" and
    entry_accepted :: "string \<Rightarrow> json \<Rightarrow> bool" where
  "doc_accepted (JObject obj) = list_all (\<lambda>(key, value). entry_accepted key value) obj"
| "doc_accepted _ = False"
| "entry_accepted key (JArray arr) =
     (if key = ''$and'' \<or> key = ''$or'' then list_all doc_accepted arr
      else \<not> starts_with key ''$'')"
| "entry_accepted key (JObject obj) =
     (if key = ''$not'' then list_all (\<lambda>(key, value). entry_accepted key value) obj
      else \<not> starts_with key ''$'' \<and> field_accepted (JObject obj))"
| "entry_accepted key value = (\<not> starts_with key ''$'')"

section \<open>The parser implements the wire format\<close>

text \<open>A parse that answers \<open>Ok\<close> exactly on accepted input, with a result of the given meaning.\<close>

definition parses_as :: "FilterParseError + 'a \<Rightarrow> bool \<Rightarrow> ('a \<Rightarrow> bool) \<Rightarrow> bool" where
  "parses_as r ok meaning = (case r of Inl e \<Rightarrow> \<not> ok | Inr f \<Rightarrow> ok \<and> meaning f)"

lemma parses_as_simps [simp]:
  "parses_as (Inl e) ok P = (\<not> ok)"
  "parses_as (Inr f) ok P = (ok \<and> P f)"
  by (simp_all add: parses_as_def)

lemma parses_as_bind:
  assumes "parses_as r ok P" "\<And>f. P f \<Longrightarrow> parses_as (g f) True Q"
  shows "parses_as (bindR r g) ok Q"
  using assms by (cases r) (auto simp: parses_as_def split: sum.splits)

lemma parses_as_mono:
  "parses_as r ok P \<Longrightarrow> ok = ok' \<Longrightarrow> (\<And>f. r = Inr f \<Longrightarrow> P f \<Longrightarrow> Q f) \<Longrightarrow> parses_as r ok' Q"
  by (cases r) auto

lemma parses_as_mapR:
  assumes "\<And>x. x \<in> set xs \<Longrightarrow> parses_as (f x) (A x) (\<lambda>y. \<forall>m. Q y m = H x m)"
  shows "parses_as (mapR f xs) (list_all A xs)
           (\<lambda>ys. length ys = length xs
              \<and> (\<forall>m. list_all (\<lambda>y. Q y m) ys = list_all (\<lambda>x. H x m) xs
                   \<and> list_ex (\<lambda>y. Q y m) ys = list_ex (\<lambda>x. H x m) xs))"
  using assms
proof (induction xs)
  case (Cons x xs)
  have "parses_as (f x) (A x) (\<lambda>y. \<forall>m. Q y m = H x m)"
    using Cons.prems by simp
  moreover have "parses_as (mapR f xs) (list_all A xs)
           (\<lambda>ys. length ys = length xs
              \<and> (\<forall>m. list_all (\<lambda>y. Q y m) ys = list_all (\<lambda>x. H x m) xs
                   \<and> list_ex (\<lambda>y. Q y m) ys = list_ex (\<lambda>x. H x m) xs))"
    using Cons by simp
  ultimately show ?case
    by (cases "f x"; cases "mapR f xs") auto
qed simp

text \<open>What the bounds collected so far ask of the field.\<close>

definition bound_ok :: "(f64 \<Rightarrow> f64 \<Rightarrow> bool) \<Rightarrow> f64 option \<Rightarrow> f64 option \<Rightarrow> bool" where
  "bound_ok R bound actual =
     (case bound of None \<Rightarrow> True | Some b \<Rightarrow> (case actual of None \<Rightarrow> False | Some a \<Rightarrow> R a b))"

definition range_ok :: "RangeBuilder \<Rightarrow> f64 option \<Rightarrow> bool" where
  "range_ok r a \<longleftrightarrow>
     bound_ok (\<lambda>a b. \<not> f64_lt a b) (rb_gte r) a \<and> bound_ok (\<lambda>a b. \<not> f64_le a b) (rb_gt r) a
     \<and> bound_ok (\<lambda>a b. \<not> f64_lt b a) (rb_lte r) a \<and> bound_ok (\<lambda>a b. \<not> f64_le b a) (rb_lt r) a"

lemma range_ok_default: "\<not> range_any r \<Longrightarrow> range_ok r a"
  by (simp add: range_any_def range_ok_def bound_ok_def)

lemma matches_Range:
  assumes "range_any r"
  shows "matches (F_Range field (rb_gte r) (rb_gt r) (rb_lte r) (rb_lt r)) m
         = range_ok r (Option.bind (map_of m field) json_as_f64)"
proof (cases "Option.bind (map_of m field) json_as_f64")
  case None
  with assms show ?thesis by (auto simp: range_any_def range_ok_def bound_ok_def)
next
  case (Some a)
  then show ?thesis
    by (auto simp: range_ok_def bound_ok_def range_holds_def split: option.splits)
qed

text \<open>The slot an operator writes is still empty.\<close>

definition slot_free :: "RangeBuilder \<Rightarrow> string \<Rightarrow> bool" where
  "slot_free r op \<longleftrightarrow>
     (op = ''$gte'' \<longrightarrow> rb_gte r = None) \<and> (op = ''$gt'' \<longrightarrow> rb_gt r = None)
     \<and> (op = ''$lte'' \<longrightarrow> rb_lte r = None) \<and> (op = ''$lt'' \<longrightarrow> rb_lt r = None)"

definition ops_state :: "string \<Rightarrow> Filter list \<times> RangeBuilder \<Rightarrow> metadata \<Rightarrow> bool" where
  "ops_state field st m \<longleftrightarrow>
     list_all (\<lambda>p. matches p m) (fst st)
     \<and> range_ok (snd st) (Option.bind (map_of m field) json_as_f64)"

lemma bound_ok_Some:
  "bound_ok R (Some b) (Option.bind actual json_as_f64)
   = (case Option.bind actual json_as_f64 of None \<Rightarrow> False | Some a \<Rightarrow> R a b)"
  by (simp add: bound_ok_def)

lemma bound_ok_None [simp]: "bound_ok R None a"
  by (simp add: bound_ok_def)

lemma number_holds_Some:
  "json_as_f64 v = Some b \<Longrightarrow>
   number_holds R v actual = bound_ok R (Some b) (Option.bind actual json_as_f64)"
  by (simp add: number_holds_def bound_ok_def split: option.splits)

lemma matches_In:
  "json_as_array v = Some ws \<Longrightarrow> matches (F_In field ws) m = member_holds v (map_of m field)"
  by (simp add: member_holds_def split: option.splits)

lemma matches_NotIn:
  "json_as_array v = Some ws \<Longrightarrow> matches (F_NotIn field ws) m = (\<not> member_holds v (map_of m field))"
  by (auto simp: member_holds_def list_all_iff list_ex_iff split: option.splits)

lemma field_op_spec:
  assumes "slot_free (snd st) op"
  shows "parses_as (field_op field op v st) (op_accepted op v)
           (\<lambda>st'. (\<forall>m. ops_state field st' m = (ops_state field st m \<and> op_holds op v (map_of m field)))
              \<and> (\<forall>op'. op' \<noteq> op \<longrightarrow> slot_free (snd st) op' \<longrightarrow> slot_free (snd st') op'))"
proof -
  obtain ps r where st: "st = (ps, r)" by (cases st)
  consider (eq) "op = ''$eq''" | (ne) "op = ''$ne''" | (isin) "op = ''$in''" | (nin) "op = ''$nin''"
    | (gte) "op = ''$gte''" | (gt) "op = ''$gt''" | (lte) "op = ''$lte''" | (lt) "op = ''$lt''"
    | (other) "op \<notin> set operators"
    unfolding operators_def by auto
  then show ?thesis
  proof cases
    case isin
    then show ?thesis
      by (cases "json_as_array v")
         (auto simp: st field_op_def op_accepted_def operators_def as_array_def ops_state_def
            op_holds_def matches_In simp del: matches.simps)
  next
    case nin
    then show ?thesis
      by (cases "json_as_array v")
         (auto simp: st field_op_def op_accepted_def operators_def as_array_def ops_state_def
            op_holds_def matches_NotIn simp del: matches.simps)
  next
    case other
    then show ?thesis
      by (auto simp: st field_op_def op_accepted_def operators_def)
  qed (use assms in \<open>auto simp: st field_op_def op_accepted_def operators_def as_number_def ops_state_def
         op_holds_def number_holds_Some range_ok_def slot_free_def split: option.splits\<close>,
       (cases "json_as_f64 v"; use assms in \<open>auto simp: st field_op_def op_accepted_def operators_def
         as_number_def ops_state_def op_holds_def number_holds_Some range_ok_def slot_free_def\<close>)+)?
qed

lemma field_ops_loop_spec:
  assumes "distinct (map fst ops)" "\<forall>op \<in> fst ` set ops. slot_free (snd st) op"
  shows "parses_as (field_ops_loop field ops st) (list_all (\<lambda>(op, v). op_accepted op v) ops)
           (\<lambda>st'. \<forall>m. ops_state field st' m
              = (ops_state field st m \<and> list_all (\<lambda>(op, v). op_holds op v (map_of m field)) ops))"
  using assms
proof (induction ops arbitrary: st)
  case (Cons e ops)
  obtain op v where e: "e = (op, v)" by (cases e)
  have step: "parses_as (field_op field op v st) (op_accepted op v)
           (\<lambda>st'. (\<forall>m. ops_state field st' m = (ops_state field st m \<and> op_holds op v (map_of m field)))
              \<and> (\<forall>op'. op' \<noteq> op \<longrightarrow> slot_free (snd st) op' \<longrightarrow> slot_free (snd st') op'))"
    by (rule field_op_spec) (use Cons.prems e in auto)
  show ?case
  proof (cases "field_op field op v st")
    case (Inl err)
    with step show ?thesis by (simp add: e)
  next
    case (Inr st1)
    with step have acc: "op_accepted op v"
      and sem: "\<And>m. ops_state field st1 m = (ops_state field st m \<and> op_holds op v (map_of m field))"
      and free: "\<And>op'. op' \<noteq> op \<Longrightarrow> slot_free (snd st) op' \<Longrightarrow> slot_free (snd st1) op'"
      by auto
    have "parses_as (field_ops_loop field ops st1) (list_all (\<lambda>(op, v). op_accepted op v) ops)
           (\<lambda>st'. \<forall>m. ops_state field st' m
              = (ops_state field st1 m \<and> list_all (\<lambda>(op, v). op_holds op v (map_of m field)) ops))"
    proof (rule Cons.IH)
      show "distinct (map fst ops)" using Cons.prems(1) by simp
      show "\<forall>op' \<in> fst ` set ops. slot_free (snd st1) op'"
      proof
        fix op' assume op': "op' \<in> fst ` set ops"
        then have "op' \<noteq> op" using Cons.prems(1) by (auto simp: e)
        moreover have "slot_free (snd st) op'" using Cons.prems(2) op' by auto
        ultimately show "slot_free (snd st1) op'" by (rule free)
      qed
    qed
    then show ?thesis
      by (cases "field_ops_loop field ops st1") (auto simp: e Inr acc sem)
  qed
qed simp

lemma parse_field_ops_spec:
  assumes "distinct (map fst ops)"
  shows "parses_as (parse_field_ops field ops) (list_all (\<lambda>(op, v). op_accepted op v) ops)
           (\<lambda>f. \<forall>m. matches f m = list_all (\<lambda>(op, v). op_holds op v (map_of m field)) ops)"
  unfolding parse_field_ops_def
proof (rule parses_as_bind)
  show "parses_as (field_ops_loop field ops ([], range_default)) (list_all (\<lambda>(op, v). op_accepted op v) ops)
           (\<lambda>st'. \<forall>m. ops_state field st' m
              = (ops_state field ([], range_default) m
                 \<and> list_all (\<lambda>(op, v). op_holds op v (map_of m field)) ops))"
    by (rule field_ops_loop_spec [OF assms]) (simp add: slot_free_def range_default_def)
next
  fix st
  assume *: "\<forall>m. ops_state field st m = (ops_state field ([], range_default) m
                 \<and> list_all (\<lambda>(op, v). op_holds op v (map_of m field)) ops)"
  obtain ps r where st: "st = (ps, r)" by (cases st)
  let ?ps = "if range_any r then ps @ [F_Range field (rb_gte r) (rb_gt r) (rb_lte r) (rb_lt r)] else ps"
  have "list_all (\<lambda>p. matches p m) ?ps = ops_state field st m" for m
    by (auto simp: st ops_state_def matches_Range range_ok_default simp del: matches.simps)
  moreover have "ops_state field ([], range_default) m" for m
    by (simp add: ops_state_def range_ok_default range_default_def range_any_def)
  ultimately have all: "list_all (\<lambda>p. matches p m) ?ps
      = list_all (\<lambda>(op, v). op_holds op v (map_of m field)) ops" for m
    using * by simp
  have one: "matches (case ?ps of [] \<Rightarrow> F_All | [p] \<Rightarrow> p | _ \<Rightarrow> F_And ?ps) m
             = list_all (\<lambda>p. matches p m) ?ps" for m
    by (cases ?ps; cases "tl ?ps") auto
  show "parses_as ((\<lambda>(parts, range).
          let parts = (if range_any range
                    then parts @ [F_Range field (rb_gte range) (rb_gt range) (rb_lte range) (rb_lt range)]
                    else parts)
          in Inr (case parts of [] \<Rightarrow> F_All | [p] \<Rightarrow> p | _ \<Rightarrow> F_And parts)) st) True
          (\<lambda>f. \<forall>m. matches f m = list_all (\<lambda>(op, v). op_holds op v (map_of m field)) ops)"
    using one all by (simp only: st Let_def split_conv parses_as_simps) simp
qed

lemma parse_field_spec:
  assumes "distinct_keys v"
  shows "parses_as (parse_field field v) (field_accepted v) (\<lambda>f. \<forall>m. matches f m = field_holds field v m)"
proof (cases v)
  case (JObject ops)
  with assms have "parses_as (parse_field_ops field ops) (list_all (\<lambda>(op, v). op_accepted op v) ops)
           (\<lambda>f. \<forall>m. matches f m = list_all (\<lambda>(op, v). op_holds op v (map_of m field)) ops)"
    by (intro parse_field_ops_spec) simp
  with JObject show ?thesis
    by (cases "has_any_op ops") (auto simp: parse_field_def field_accepted_def field_holds_def)
qed (simp_all add: parse_field_def field_accepted_def field_holds_def)

definition array_accepted :: "json \<Rightarrow> bool" where
  "array_accepted v = (case v of JArray arr \<Rightarrow> list_all doc_accepted arr | _ \<Rightarrow> False)"

definition array_meaning :: "json \<Rightarrow> Filter list \<Rightarrow> bool" where
  "array_meaning v fs =
     (\<exists>arr. v = JArray arr
        \<and> (\<forall>m. list_all (\<lambda>p. matches p m) fs = list_all (\<lambda>v. doc_holds v m) arr
             \<and> list_ex (\<lambda>p. matches p m) fs = list_ex (\<lambda>v. doc_holds v m) arr))"

lemma entry_compound:
  "entry_accepted ''$and'' v = array_accepted v"
  "entry_accepted ''$or'' v = array_accepted v"
  "entry_accepted ''$not'' v = doc_accepted v"
  "array_meaning v fs \<Longrightarrow> entry_holds ''$and'' v m = list_all (\<lambda>p. matches p m) fs"
  "array_meaning v fs \<Longrightarrow> entry_holds ''$or'' v m = list_ex (\<lambda>p. matches p m) fs"
  "doc_accepted v \<Longrightarrow> entry_holds ''$not'' v m = (\<not> doc_holds v m)"
  by (cases v; auto simp: array_accepted_def array_meaning_def starts_with_def)+

lemma entry_plain:
  assumes "key \<noteq> ''$and''" "key \<noteq> ''$or''" "key \<noteq> ''$not''"
  shows "entry_accepted key v = (\<not> starts_with key ''$'' \<and> field_accepted v)"
    "entry_holds key v m = field_holds key v m"
  using assms by (cases v; simp add: field_accepted_def)+

lemma parse_kv_compound:
  "parse_kv ''$and'' v = bindR (parse_compound v ''and'') (\<lambda>fs. Inr (F_And fs))"
  "parse_kv ''$or'' v = bindR (parse_compound v ''or'') (\<lambda>fs. Inr (F_Or fs))"
  "parse_kv ''$not'' v = bindR (from_json v) (\<lambda>f. Inr (F_Not f))"
  by (simp_all add: parse_kv.simps)

lemma parse_kv_plain:
  assumes "key \<noteq> ''$and''" "key \<noteq> ''$or''" "key \<noteq> ''$not''"
  shows "parse_kv key v = (if starts_with key ''$'' then Inl (UnknownOperator key) else parse_field key v)"
  using assms by (simp add: parse_kv.simps)

lemma from_json_spec:
  "distinct_keys v \<Longrightarrow>
     parses_as (from_json v) (doc_accepted v) (\<lambda>f. \<forall>m. matches f m = doc_holds v m)"
  "distinct_keys v \<Longrightarrow>
     parses_as (parse_kv key v) (entry_accepted key v) (\<lambda>f. \<forall>m. matches f m = entry_holds key v m)"
  "distinct_keys v \<Longrightarrow> parses_as (parse_compound v name) (array_accepted v) (array_meaning v)"
proof (induction v and key v and v name rule: from_json_parse_kv_parse_compound.induct)
  case (1 obj)
  show ?case
  proof (cases "obj = []")
    case True
    have "matches F_All = (\<lambda>m. True)" by (rule ext) simp
    with True show ?thesis by simp
  next
    case False
    have "parses_as (mapR (\<lambda>(key, value). parse_kv key value) obj)
        (list_all (\<lambda>(key, value). entry_accepted key value) obj)
        (\<lambda>ys. length ys = length obj
              \<and> (\<forall>m. list_all (\<lambda>y. matches y m) ys = list_all (\<lambda>x. (\<lambda>(k, v). entry_holds k v m) x) obj
                   \<and> list_ex (\<lambda>y. matches y m) ys = list_ex (\<lambda>x. (\<lambda>(k, v). entry_holds k v m) x) obj))"
    proof (rule parses_as_mapR)
      fix e assume e: "e \<in> set obj"
      obtain k w where kw: "e = (k, w)" by (cases e)
      have "distinct_keys w" using "1.prems" e kw by (auto simp: list_all_iff)
      then show "parses_as ((\<lambda>(key, value). parse_kv key value) e)
            ((\<lambda>(key, value). entry_accepted key value) e)
            (\<lambda>y. \<forall>m. matches y m = (\<lambda>(k, v). entry_holds k v m) e)"
        using "1.IH" [OF False e kw [symmetric]] kw by simp
    qed
    note all = this
    show ?thesis
    proof (cases "mapR (\<lambda>(key, value). parse_kv key value) obj")
      case (Inl err)
      with all False show ?thesis by simp
    next
      case (Inr ys)
      have "matches (if length ys = 1 then hd ys else F_And ys) m = list_all (\<lambda>y. matches y m) ys" for m
        by (cases ys; cases "tl ys") auto
      with all Inr False show ?thesis by (simp del: One_nat_def)
    qed
  qed
next
  case (3 key v)
  then show ?case
  proof -
    consider (con) "key = ''$and''" | (dis) "key = ''$or''" | (neg) "key = ''$not''"
      | (plain) "key \<noteq> ''$and''" "key \<noteq> ''$or''" "key \<noteq> ''$not''" by blast
    then show ?thesis
    proof cases
      case plain
      with parse_field_spec [OF "3.prems", of key] show ?thesis
        by (auto simp: entry_plain parse_kv_plain)
    next
      case con
      then show ?thesis
        using "3.IH"(1) [OF con "3.prems"]
        by (cases "parse_compound v ''and''") (auto simp: entry_compound parse_kv_compound)
    next
      case dis
      then show ?thesis
        using "3.IH"(2) [OF _ dis "3.prems"]
        by (cases "parse_compound v ''or''") (auto simp: entry_compound parse_kv_compound)
    next
      case neg
      then show ?thesis
        using "3.IH"(3) [OF _ _ neg "3.prems"]
        by (cases "from_json v") (auto simp: entry_compound parse_kv_compound)
    qed
  qed
next
  case (4 arr name)
  have "parses_as (mapR from_json arr) (list_all doc_accepted arr)
        (\<lambda>ys. length ys = length arr
              \<and> (\<forall>m. list_all (\<lambda>y. matches y m) ys = list_all (\<lambda>x. doc_holds x m) arr
                   \<and> list_ex (\<lambda>y. matches y m) ys = list_ex (\<lambda>x. doc_holds x m) arr))"
    by (rule parses_as_mapR) (use 4 in \<open>auto simp: list_all_iff\<close>)
  then show ?case
    by (cases "mapR from_json arr") (auto simp: array_accepted_def array_meaning_def)
qed (simp_all add: array_accepted_def)

section \<open>Properties\<close>

text \<open>
  C19: the parser of vector-store filters accepts exactly the documented wire format
  (operators with arguments of the right shape, arrays under \<open>$and\<close> and \<open>$or\<close>, no unknown
  operator), and evaluating the filter it returns on the metadata of a chunk decides the
  condition the document states: entries and operators hold together, ranges merged
  from separate operators included.
\<close>

theorem filter_parser_correct:
  assumes "distinct_keys v"
  shows "case from_json v of
           Inl e \<Rightarrow> \<not> doc_accepted v
         | Inr f \<Rightarrow> doc_accepted v \<and> (\<forall>m. matches f m = doc_holds v m)"
  using from_json_spec(1) [OF assms] by (cases "from_json v") auto

definition sample_filter :: json where
  "sample_filter = JObject
     [(''$or'', JArray [JObject [(''owner'', JString ''alice'')], JObject [(''owner'', JString ''bob'')]]),
      (''priority'', JObject [(''$lt'', JNumber (JFloat 0x4020000000000000)), (''$gte'', JNumber (JFloat 0x4008000000000000))]),
      (''tenant'', JString ''acme'')]"

definition sample_metadata :: metadata where
  "sample_metadata =
     [(''owner'', JString ''bob''), (''priority'', JNumber (JFloat 0x4008000000000000)), (''tenant'', JString ''acme'')]"

lemma sample_filter_holds:
  "doc_holds sample_filter sample_metadata \<and> \<not> doc_holds sample_filter [(''owner'', JString ''bob'')]"
  by code_simp

theorem filter_parser_correct_witness:
  "case from_json sample_filter of
     Inl e \<Rightarrow> False
   | Inr f \<Rightarrow> matches f sample_metadata \<and> \<not> matches f [(''owner'', JString ''bob'')]"
proof -
  have ok: "distinct_keys sample_filter" "doc_accepted sample_filter" by code_simp+
  show ?thesis
  proof (cases "from_json sample_filter")
    case (Inl e)
    with filter_parser_correct [OF ok(1)] ok(2) show ?thesis by simp
  next
    case (Inr f)
    with filter_parser_correct [OF ok(1)] have "matches f m = doc_holds sample_filter m" for m
      by simp
    with Inr sample_filter_holds show ?thesis by simp
  qed
qed

end
