(* ===== verification/Float32.thy ===== *)
theory Float32
  imports Float64
begin

text \<open>
  The IEEE 754 binary32 operations of Rust's \<open>f32\<close> the scoring code uses, on bit patterns:
  comparisons, the casts from integers, addition, subtraction, multiplication, division
  and square root with one rounding to nearest, ties to even, and \<open>max\<close> and \<open>clamp\<close>. A
  finite number is the exact dyadic rational \<open>m * 2 ^ e\<close>; an operation computes its exact
  result and rounds it once. An operation that yields a NaN yields the quiet NaN with
  an empty payload (the payload is unspecified in Rust).
\<close>

unbundle bit_operations_syntax

type_synonym f32 = "32 word"

definition f32_mag :: "f32 \<Rightarrow> nat" where
  "f32_mag x = unat x mod 2 ^ 31"

definition f32_neg :: "f32 \<Rightarrow> bool" where
  "f32_neg x \<longleftrightarrow> 2 ^ 31 \<le> unat x"

definition f32_inf_mag :: nat where
  "f32_inf_mag = 0x7F800000"

definition f32_nan :: f32 where
  "f32_nan = 0x7FC00000"

definition f32_is_nan :: "f32 \<Rightarrow> bool" where
  "f32_is_nan x \<longleftrightarrow> f32_inf_mag < f32_mag x"

definition f32_is_inf :: "f32 \<Rightarrow> bool" where
  "f32_is_inf x \<longleftrightarrow> f32_mag x = f32_inf_mag"

definition f32_key :: "f32 \<Rightarrow> int" where
  "f32_key x = (if f32_neg x then - int (f32_mag x) else int (f32_mag x))"

definition f32_eq :: "f32 \<Rightarrow> f32 \<Rightarrow> bool" where
  "f32_eq x y \<longleftrightarrow> \<not> f32_is_nan x \<and> \<not> f32_is_nan y \<and> f32_key x = f32_key y"

definition f32_lt :: "f32 \<Rightarrow> f32 \<Rightarrow> bool" where
  "f32_lt x y \<longleftrightarrow> \<not> f32_is_nan x \<and> \<not> f32_is_nan y \<and> f32_key x < f32_key y"

definition f32_le :: "f32 \<Rightarrow> f32 \<Rightarrow> bool" where
  "f32_le x y \<longleftrightarrow> \<not> f32_is_nan x \<and> \<not> f32_is_nan y \<and> f32_key x \<le> f32_key y"

section \<open>Rounding\<close>

definition f32_make :: "bool \<Rightarrow> nat \<Rightarrow> f32" where
  "f32_make neg m = word_of_nat (if neg then 2 ^ 31 + m else m)"

text \<open>The number nearest to \<open>m * 2 ^ e\<close>; a zero takes the given sign.\<close>

definition f32_round :: "bool \<Rightarrow> nat \<Rightarrow> int \<Rightarrow> f32" where
  "f32_round neg m e =
     f32_make neg
       (if m = 0 then 0
        else if 0 \<le> e then round_mag 23 149 f32_inf_mag (m * 2 ^ nat e) 1
        else round_mag 23 149 f32_inf_mag m (2 ^ nat (- e)))"

text \<open>Significand and exponent of a finite number.\<close>

definition f32_sig :: "f32 \<Rightarrow> nat" where
  "f32_sig x = (let ex = f32_mag x div 2 ^ 23; fr = f32_mag x mod 2 ^ 23
                in if ex = 0 then fr else 2 ^ 23 + fr)"

definition f32_exp :: "f32 \<Rightarrow> int" where
  "f32_exp x = (let ex = f32_mag x div 2 ^ 23 in if ex = 0 then - 149 else int ex - 150)"

text \<open>\<open>x as f32\<close> for an integer \<open>x\<close>.\<close>

definition f32_of_int :: "int \<Rightarrow> f32" where
  "f32_of_int i = f32_round (i < 0) (nat \<bar>i\<bar>) 0"

definition f32_of_nat :: "nat \<Rightarrow> f32" where
  "f32_of_nat n = f32_round False n 0"

section \<open>Arithmetic\<close>

definition f32_minus :: "f32 \<Rightarrow> f32" where
  "f32_minus x = x XOR 0x80000000"

definition f32_add_finite :: "f32 \<Rightarrow> f32 \<Rightarrow> f32" where
  "f32_add_finite x y =
     (let e = min (f32_exp x) (f32_exp y);
          a = (if f32_neg x then -1 else 1) * int (f32_sig x * 2 ^ nat (f32_exp x - e));
          b = (if f32_neg y then -1 else 1) * int (f32_sig y * 2 ^ nat (f32_exp y - e));
          s = a + b
      in f32_round (if s = 0 then f32_neg x \<and> f32_neg y else s < 0) (nat \<bar>s\<bar>) e)"

definition f32_add :: "f32 \<Rightarrow> f32 \<Rightarrow> f32" where
  "f32_add x y =
     (if f32_is_nan x \<or> f32_is_nan y then f32_nan
      else if f32_is_inf x then (if f32_is_inf y \<and> f32_neg x \<noteq> f32_neg y then f32_nan else x)
      else if f32_is_inf y then y
      else if f32_mag y = 0 \<and> f32_mag x \<noteq> 0 then x
      else if f32_mag x = 0 \<and> f32_mag y \<noteq> 0 then y
      else f32_add_finite x y)"

definition f32_sub :: "f32 \<Rightarrow> f32 \<Rightarrow> f32" where
  "f32_sub x y = f32_add x (f32_minus y)"

definition f32_mul :: "f32 \<Rightarrow> f32 \<Rightarrow> f32" where
  "f32_mul x y =
     (let neg = (f32_neg x \<noteq> f32_neg y)
      in if f32_is_nan x \<or> f32_is_nan y then f32_nan
         else if f32_is_inf x \<or> f32_is_inf y then
           (if f32_mag x = 0 \<or> f32_mag y = 0 then f32_nan else f32_make neg f32_inf_mag)
         else f32_round neg (f32_sig x * f32_sig y) (f32_exp x + f32_exp y))"

definition f32_div :: "f32 \<Rightarrow> f32 \<Rightarrow> f32" where
  "f32_div x y =
     (let neg = (f32_neg x \<noteq> f32_neg y)
      in if f32_is_nan x \<or> f32_is_nan y then f32_nan
         else if f32_is_inf x then (if f32_is_inf y then f32_nan else f32_make neg f32_inf_mag)
         else if f32_is_inf y then f32_make neg 0
         else if f32_mag y = 0 then (if f32_mag x = 0 then f32_nan else f32_make neg f32_inf_mag)
         else if f32_mag x = 0 then f32_make neg 0
         else let d = f32_exp x - f32_exp y
              in f32_make neg
                   (if 0 \<le> d then round_mag 23 149 f32_inf_mag (f32_sig x * 2 ^ nat d) (f32_sig y)
                    else round_mag 23 149 f32_inf_mag (f32_sig x) (f32_sig y * 2 ^ nat (- d))))"

text \<open>The integer square root.\<close>

fun isqrt :: "nat \<Rightarrow> nat" where
  "isqrt n = (if n = 0 then 0
              else let r = 2 * isqrt (n div 4) in if (r + 1) * (r + 1) \<le> n then r + 1 else r)"

declare isqrt.simps [simp del]

text \<open>
  The root of \<open>m * 2 ^ e\<close> with \<open>e\<close> made even and \<open>m\<close> scaled by \<open>2 ^ 64\<close>: the integer
  root has more than 32 bits, and when it is not exact half a unit is added, which puts
  the value on the right side of every midpoint.
\<close>

definition f32_sqrt :: "f32 \<Rightarrow> f32" where
  "f32_sqrt x =
     (if f32_is_nan x then f32_nan
      else if f32_mag x = 0 then x
      else if f32_neg x then f32_nan
      else if f32_is_inf x then x
      else let e = f32_exp x; m = (if even e then f32_sig x else 2 * f32_sig x);
               h = (if even e then e else e - 1) div 2;
               n = m * 2 ^ 64; r = isqrt n
           in f32_round False (if r * r = n then 2 * r else 2 * r + 1) (h - 33))"

text \<open>\<open>f32::max\<close> (a NaN operand yields the other one) and \<open>f32::clamp\<close>.\<close>

definition f32_max :: "f32 \<Rightarrow> f32 \<Rightarrow> f32" where
  "f32_max x y = (if f32_is_nan x then y else if f32_is_nan y then x
                  else if f32_lt x y then y else x)"

definition f32_clamp :: "f32 \<Rightarrow> f32 \<Rightarrow> f32 \<Rightarrow> f32" where
  "f32_clamp lo hi x = (if f32_lt x lo then lo else if f32_lt hi x then hi else x)"

text \<open>\<open>Iterator::sum\<close> of \<open>f32\<close> folds from negative zero.\<close>

definition f32_sum :: "f32 list \<Rightarrow> f32" where
  "f32_sum xs = foldl f32_add 0x80000000 xs"

definition f32_one :: f32 where "f32_one = 0x3F800000"
definition f32_half :: f32 where "f32_half = 0x3F000000"

section \<open>Order laws\<close>

lemma f32_lt_irrefl [simp]: "\<not> f32_lt x x"
  by (simp add: f32_lt_def)

lemma f32_lt_trans: "f32_lt x y \<Longrightarrow> f32_lt y z \<Longrightarrow> f32_lt x z"
  by (auto simp: f32_lt_def)

lemma f32_lt_asym: "f32_lt x y \<Longrightarrow> \<not> f32_lt y x"
  by (auto simp: f32_lt_def)

lemma f32_not_lt: "\<not> f32_is_nan x \<Longrightarrow> \<not> f32_is_nan y \<Longrightarrow> \<not> f32_lt x y \<longleftrightarrow> f32_le y x"
  by (auto simp: f32_lt_def f32_le_def)

lemma f32_le_trans: "f32_le x y \<Longrightarrow> f32_le y z \<Longrightarrow> f32_le x z"
  by (auto simp: f32_le_def)

lemma f32_le_refl: "\<not> f32_is_nan x \<Longrightarrow> f32_le x x"
  by (simp add: f32_le_def)

text \<open>Negation flips the sign bit, so it reverses the order.\<close>

lemma f32_mag_bits: "f32_mag x = unat (take_bit 31 x)"
proof -
  have "unat (take_bit 31 x) = take_bit 31 (unat x)" by (simp add: unsigned_take_bit_eq)
  then show ?thesis by (simp only: f32_mag_def take_bit_eq_mod)
qed

lemma f32_neg_bit: "f32_neg x \<longleftrightarrow> bit x 31"
proof -
  have "unat x < 2 ^ 32" using unsigned_less [of x] by simp
  then have "unat x div 2 ^ 31 < 2" by (simp add: less_mult_imp_div_less)
  then have "unat x div 2 ^ 31 = 0 \<or> unat x div 2 ^ 31 = 1" by linarith
  then have "odd (unat x div 2 ^ 31) \<longleftrightarrow> 1 \<le> unat x div 2 ^ 31" by (elim disjE) simp_all
  moreover have "1 \<le> unat x div 2 ^ 31 \<longleftrightarrow> 2 ^ 31 \<le> unat x"
    by (simp add: Suc_le_eq div_greater_zero_iff)
  moreover have "bit (unat x) 31 \<longleftrightarrow> bit x 31" by (simp only: bit_unsigned_iff possible_bit_word) simp
  ultimately show ?thesis unfolding f32_neg_def bit_iff_odd [of "unat x"] by blast
qed

lemma f32_minus_parts: "f32_mag (f32_minus x) = f32_mag x" "f32_neg (f32_minus x) \<longleftrightarrow> \<not> f32_neg x"
proof -
  have "take_bit 31 (0x80000000 :: f32) = 0" by simp
  then show "f32_mag (f32_minus x) = f32_mag x" by (simp add: f32_mag_bits f32_minus_def)
  have "bit (0x80000000 :: f32) 31" by code_simp
  then show "f32_neg (f32_minus x) \<longleftrightarrow> \<not> f32_neg x"
    unfolding f32_neg_bit f32_minus_def bit_xor_iff by simp
qed

lemma f32_minus_order:
  "f32_le (f32_minus y) (f32_minus x) \<longleftrightarrow> f32_le x y" "f32_is_nan (f32_minus x) \<longleftrightarrow> f32_is_nan x"
  by (auto simp: f32_le_def f32_is_nan_def f32_key_def f32_minus_parts)

lemma isqrt_correct: "isqrt n * isqrt n \<le> n \<and> n < (isqrt n + 1) * (isqrt n + 1)"
proof (induction n rule: isqrt.induct)
  case (1 n)
  show ?case
  proof (cases "n = 0")
    case True
    then show ?thesis by (simp add: isqrt.simps)
  next
    case False
    let ?s = "isqrt (n div 4)"
    have IH: "?s * ?s \<le> n div 4" "n div 4 < (?s + 1) * (?s + 1)"
      using 1 [OF False] by simp_all
    have lo: "(2 * ?s) * (2 * ?s) \<le> n"
      using IH(1) by (simp add: algebra_simps)
    have "n div 4 + 1 \<le> (?s + 1) * (?s + 1)" using IH(2) by linarith
    moreover have "n < 4 * (n div 4 + 1)" by presburger
    ultimately have hi: "n < (2 * ?s + 2) * (2 * ?s + 2)"
      by (simp add: algebra_simps)
    show ?thesis
      using False lo hi by (subst (1 2 3 4) isqrt.simps) (simp add: Let_def)
  qed
qed

end
