(* ===== verification/Common.thy ===== *)
theory Common
  imports Rust_Std
begin

text \<open>
  The error type every backend returns (\<open>sealstack-common/src/lib.rs\<close>) with its text, and
  \<open>core::time::Duration\<close> with the \<open>Debug\<close> format the text uses. A duration is a number
  of nanoseconds.
\<close>

type_synonym duration = nat

definition dur_secs :: "duration \<Rightarrow> nat" where "dur_secs d = d div 10 ^ 9"
definition dur_nanos :: "duration \<Rightarrow> nat" where "dur_nanos d = d mod 10 ^ 9"
definition secs :: "nat \<Rightarrow> duration" where "secs n = n * 10 ^ 9"
definition millis :: "nat \<Rightarrow> duration" where "millis n = n * 10 ^ 6"

text \<open>The largest \<open>Duration\<close>: \<open>u64::MAX\<close> seconds and 999999999 nanoseconds.\<close>

definition dur_max :: duration where "dur_max = 2 ^ 64 * 10 ^ 9 - 1"

text \<open>A fraction of \<open>k\<close> digits without its trailing zeros.\<close>

fun frac_digits :: "nat \<Rightarrow> nat \<Rightarrow> string" where
  "frac_digits 0 n = []"
| "frac_digits (Suc k) n =
     (if n = 0 then [] else char_of (48 + n div 10 ^ k) # frac_digits k (n mod 10 ^ k))"

definition dur_decimal :: "nat \<Rightarrow> nat \<Rightarrow> nat \<Rightarrow> string" where
  "dur_decimal whole k frac =
     show_nat whole @ (if frac = 0 then [] else ''.'' @ frac_digits k frac)"

definition dur_debug :: "duration \<Rightarrow> string" where
  "dur_debug d =
     (let s = dur_secs d; n = dur_nanos d
      in if 0 < s then dur_decimal s 9 n @ ''s''
         else if 10 ^ 6 \<le> n then dur_decimal (n div 10 ^ 6) 6 (n mod 10 ^ 6) @ ''ms''
         else if 1000 \<le> n then dur_decimal (n div 1000) 3 (n mod 1000) @ byte_str [0xC2, 0xB5] @ ''s''
         else dur_decimal n 0 0 @ ''ns'')"

datatype SealStackError =
    SeNotFound string
  | SeUnauthorized string
  | SeValidation string
  | SeBackend string
  | SePolicy string
  | SeConfig string
  | SeRateLimited
  | SeOther string
  | SeRetryExhausted u32 duration SealStackError
  | SeBodyTooLarge nat
  | SePaginatorCursorLoop string
  | SeHttpStatus u16 "(string \<times> string) list" string

fun show_error :: "SealStackError \<Rightarrow> string" where
  "show_error (SeNotFound s) = ''not found: '' @ s"
| "show_error (SeUnauthorized s) = ''unauthorized: '' @ s"
| "show_error (SeValidation s) = ''invalid argument: '' @ s"
| "show_error (SeBackend s) = ''backend: '' @ s"
| "show_error (SePolicy s) = ''policy denied: '' @ s"
| "show_error (SeConfig s) = ''config: '' @ s"
| "show_error SeRateLimited = ''rate limited''"
| "show_error (SeOther s) = s"
| "show_error (SeRetryExhausted n d e) =
     ''retry exhausted after '' @ show_nat (unat n) @ '' attempts over '' @ dur_debug d @ '': ''
     @ show_error e"
| "show_error (SeBodyTooLarge n) = ''response body exceeded cap: '' @ show_nat n @ '' bytes''"
| "show_error (SePaginatorCursorLoop c) = ''paginator cursor did not advance: '' @ c"
| "show_error (SeHttpStatus s hs b) = ''HTTP '' @ show_nat (unat s)"

end
