(* ===== verification/Vector_Memory.thy ===== *)
theory Vector_Memory
  imports Vector_Filter Float32 Common
begin

text \<open>
  The vector-store interface (\<open>sealstack-vectorstore/src/lib.rs\<close>) and the in-process store
  (\<open>memory.rs\<close>). The concurrent map of collections is a partial map; an operation takes
  the state and returns the new state with its result, so the mutations an error path
  leaves behind are visible. A ULID is its 128-bit value.
\<close>

type_synonym ulid = "128 word"

record Chunk =
  ch_id :: ulid
  ch_content :: string
  ch_embedding :: "f32 list"
  ch_metadata :: metadata

record SearchResult =
  sr_id :: ulid
  sr_score :: f32
  sr_content :: string
  sr_metadata :: metadata

datatype Distance = Cosine | Dot | Euclidean

definition distance_default :: Distance where
  "distance_default = Cosine"

record CollectionSpec =
  cs_name :: string
  cs_dims :: nat
  cs_distance :: Distance

text \<open>The trait object: one operation per method, on a store of type \<open>'vs\<close>.\<close>

record 'vs VectorStore =
  vs_kind :: string
  vs_ensure_collection :: "'vs \<Rightarrow> string \<Rightarrow> nat \<Rightarrow> 'vs \<times> (SealStackError + unit)"
  vs_upsert :: "'vs \<Rightarrow> string \<Rightarrow> Chunk list \<Rightarrow> 'vs \<times> (SealStackError + unit)"
  vs_search :: "'vs \<Rightarrow> string \<Rightarrow> f32 list \<Rightarrow> nat \<Rightarrow> json option \<Rightarrow> SealStackError + SearchResult list"
  vs_delete :: "'vs \<Rightarrow> string \<Rightarrow> ulid list \<Rightarrow> 'vs \<times> (SealStackError + unit)"
  vs_count :: "'vs \<Rightarrow> string \<Rightarrow> SealStackError + nat"
  vs_drop_collection :: "'vs \<Rightarrow> string \<Rightarrow> 'vs \<times> (SealStackError + unit)"

text \<open>The default method of the trait.\<close>

definition default_ensure_collection_spec ::
  "'vs VectorStore \<Rightarrow> 'vs \<Rightarrow> CollectionSpec \<Rightarrow> 'vs \<times> (SealStackError + unit)" where
  "default_ensure_collection_spec V st spec = vs_ensure_collection V st (cs_name spec) (cs_dims spec)"

section \<open>Similarity\<close>

definition dot :: "f32 list \<Rightarrow> f32 list \<Rightarrow> f32" where
  "dot a b = f32_sum (map (\<lambda>(x, y). f32_mul x y) (zip a b))"

definition norm32 :: "f32 list \<Rightarrow> f32" where
  "norm32 a = f32_sqrt (dot a a)"

definition cosine_similarity :: "f32 list \<Rightarrow> f32 list \<Rightarrow> f32" where
  "cosine_similarity a b =
     (let denom = f32_mul (norm32 a) (norm32 b)
      in if f32_eq denom 0 then 0
         else f32_clamp (f32_minus f32_one) f32_one (f32_div (dot a b) denom))"

text \<open>\<open>powi(2)\<close> is one multiplication.\<close>

definition euclidean :: "f32 list \<Rightarrow> f32 list \<Rightarrow> f32" where
  "euclidean a b = f32_sqrt (f32_sum (map (\<lambda>(x, y). f32_mul (f32_sub x y) (f32_sub x y)) (zip a b)))"

section \<open>The store\<close>

record CollectionState =
  co_dims :: nat
  co_distance :: Distance
  co_chunks :: "Chunk list"

type_synonym InMemoryStore = "string \<Rightarrow> CollectionState option"

definition mem_new :: InMemoryStore where
  "mem_new = Map.empty"

definition not_found :: "string \<Rightarrow> SealStackError" where
  "not_found name = SeNotFound (''collection `'' @ name @ ''` not found'')"

definition mem_ensure :: "InMemoryStore \<Rightarrow> string \<Rightarrow> nat \<Rightarrow> Distance
    \<Rightarrow> InMemoryStore \<times> (SealStackError + unit)" where
  "mem_ensure st name dims distance =
     (case st name of
        Some existing \<Rightarrow>
          if co_dims existing \<noteq> dims
          then (st, Inl (SeValidation (''collection `'' @ name @ ''` exists with dims=''
                  @ show_nat (co_dims existing) @ '', requested '' @ show_nat dims)))
          else (st, Inr ())
      | None \<Rightarrow> (st(name \<mapsto> \<lparr>co_dims = dims, co_distance = distance, co_chunks = []\<rparr>), Inr ()))"

definition mem_ensure_collection :: "InMemoryStore \<Rightarrow> string \<Rightarrow> nat
    \<Rightarrow> InMemoryStore \<times> (SealStackError + unit)" where
  "mem_ensure_collection st name dims = mem_ensure st name dims distance_default"

definition mem_ensure_collection_spec :: "InMemoryStore \<Rightarrow> CollectionSpec
    \<Rightarrow> InMemoryStore \<times> (SealStackError + unit)" where
  "mem_ensure_collection_spec st spec = mem_ensure st (cs_name spec) (cs_dims spec) (cs_distance spec)"

text \<open>Replace the first chunk with the same id, or push.\<close>

fun upsert_chunk :: "Chunk \<Rightarrow> Chunk list \<Rightarrow> Chunk list" where
  "upsert_chunk c [] = [c]"
| "upsert_chunk c (d # ds) = (if ch_id d = ch_id c then c # ds else d # upsert_chunk c ds)"

text \<open>The loop of \<open>upsert\<close>: a chunk of the wrong length stops it, the earlier ones stay.\<close>

fun upsert_loop :: "nat \<Rightarrow> Chunk list \<Rightarrow> Chunk list \<Rightarrow> Chunk list \<times> (SealStackError + unit)" where
  "upsert_loop dims ds [] = (ds, Inr ())"
| "upsert_loop dims ds (c # cs) =
     (if length (ch_embedding c) \<noteq> dims
      then (ds, Inl (SeValidation (''embedding dim '' @ show_nat (length (ch_embedding c))
              @ '' != collection dims '' @ show_nat dims)))
      else upsert_loop dims (upsert_chunk c ds) cs)"

definition mem_upsert :: "InMemoryStore \<Rightarrow> string \<Rightarrow> Chunk list
    \<Rightarrow> InMemoryStore \<times> (SealStackError + unit)" where
  "mem_upsert st name new =
     (case st name of
        None \<Rightarrow> (st, Inl (not_found name))
      | Some entry \<Rightarrow>
          (let (ds, r) = upsert_loop (co_dims entry) (co_chunks entry) new
           in (st(name \<mapsto> entry\<lparr>co_chunks := ds\<rparr>), r)))"

text \<open>The typed filter of a search: an unparseable one is logged and dropped.\<close>

definition filter_typed :: "json option \<Rightarrow> Filter option" where
  "filter_typed flt =
     (case flt of
        None \<Rightarrow> None
      | Some v \<Rightarrow> (case from_json v of
            Inr F_All \<Rightarrow> None
          | Inr f \<Rightarrow> Some f
          | Inl e \<Rightarrow> None))"

definition filter_passes :: "Filter option \<Rightarrow> Chunk \<Rightarrow> bool" where
  "filter_passes flt c = (case flt of None \<Rightarrow> True | Some f \<Rightarrow> matches f (ch_metadata c))"

definition score_chunk :: "Distance \<Rightarrow> f32 list \<Rightarrow> Chunk \<Rightarrow> f32" where
  "score_chunk d q c =
     (case d of
        Cosine \<Rightarrow> cosine_similarity q (ch_embedding c)
      | Dot \<Rightarrow> dot q (ch_embedding c)
      | Euclidean \<Rightarrow> f32_minus (euclidean q (ch_embedding c)))"

text \<open>The comparison of the sort: \<open>a\<close> comes before \<open>b\<close> when its score is greater.\<close>

definition score_before :: "f32 \<times> 'a \<Rightarrow> f32 \<times> 'a \<Rightarrow> bool" where
  "score_before a b = f32_lt (fst b) (fst a)"

definition to_result :: "f32 \<times> Chunk \<Rightarrow> SearchResult" where
  "to_result = (\<lambda>(s, c). \<lparr>sr_id = ch_id c, sr_score = s, sr_content = ch_content c,
                          sr_metadata = ch_metadata c\<rparr>)"

definition mem_search :: "InMemoryStore \<Rightarrow> string \<Rightarrow> f32 list \<Rightarrow> nat \<Rightarrow> json option
    \<Rightarrow> SealStackError + SearchResult list" where
  "mem_search st name query_vec top_k flt =
     (case st name of
        None \<Rightarrow> Inl (not_found name)
      | Some entry \<Rightarrow>
          if length query_vec \<noteq> co_dims entry
          then Inl (SeValidation (''query vector dim '' @ show_nat (length query_vec)
                  @ '' != collection dims '' @ show_nat (co_dims entry)))
          else
            let f = filter_typed flt;
                scored = map (\<lambda>c. (score_chunk (co_distance entry) query_vec c, c))
                           (filter (filter_passes f) (co_chunks entry))
            in Inr (map to_result (take top_k (sort_by score_before scored))))"

definition mem_delete :: "InMemoryStore \<Rightarrow> string \<Rightarrow> ulid list
    \<Rightarrow> InMemoryStore \<times> (SealStackError + unit)" where
  "mem_delete st name ids =
     (if ids = [] then (st, Inr ())
      else case st name of
        None \<Rightarrow> (st, Inl (not_found name))
      | Some entry \<Rightarrow>
          (st(name \<mapsto> entry\<lparr>co_chunks := filter (\<lambda>c. ch_id c \<notin> set ids) (co_chunks entry)\<rparr>), Inr ()))"

definition mem_count :: "InMemoryStore \<Rightarrow> string \<Rightarrow> SealStackError + nat" where
  "mem_count st name =
     (case st name of None \<Rightarrow> Inl (not_found name) | Some entry \<Rightarrow> Inr (length (co_chunks entry)))"

definition mem_drop_collection :: "InMemoryStore \<Rightarrow> string \<Rightarrow> InMemoryStore \<times> (SealStackError + unit)" where
  "mem_drop_collection st name = (st(name := None), Inr ())"

definition memory_store :: "InMemoryStore VectorStore" where
  "memory_store = \<lparr>vs_kind = ''memory'', vs_ensure_collection = mem_ensure_collection,
     vs_upsert = mem_upsert, vs_search = mem_search, vs_delete = mem_delete,
     vs_count = mem_count, vs_drop_collection = mem_drop_collection\<rparr>"

section \<open>The contract of a vector store\<close>

text \<open>
  What the engine relies on: a collection is a finite map from chunk ids to chunks. An
  upsert writes some of its chunks in order, all of them when it succeeds; a hit of a
  search is a stored chunk, and meets the filter document when that is a well-formed one.
\<close>

type_synonym abstract_store = "string \<Rightarrow> (nat \<times> (ulid \<Rightarrow> Chunk option)) option"

definition write_chunks :: "(ulid \<Rightarrow> Chunk option) \<Rightarrow> Chunk list \<Rightarrow> (ulid \<Rightarrow> Chunk option)" where
  "write_chunks m cs = foldl (\<lambda>m c. m(ch_id c \<mapsto> c)) m cs"

definition hit_of :: "SearchResult \<Rightarrow> Chunk \<Rightarrow> bool" where
  "hit_of h c \<longleftrightarrow> sr_content h = ch_content c \<and> sr_metadata h = ch_metadata c"

definition meets_filter :: "json option \<Rightarrow> metadata \<Rightarrow> bool" where
  "meets_filter flt m =
     (case flt of
        None \<Rightarrow> True
      | Some v \<Rightarrow> doc_accepted v \<longrightarrow> distinct_keys v \<longrightarrow> doc_holds v m)"

locale vector_store =
  fixes V :: "'vs VectorStore"
    and collections :: "'vs \<Rightarrow> abstract_store"
    and valid :: "'vs \<Rightarrow> bool"
  assumes ensure_valid: "valid st \<Longrightarrow> valid (fst (vs_ensure_collection V st n d))"
    and ensure_ok: "valid st \<Longrightarrow> vs_ensure_collection V st n d = (st', Inr ()) \<Longrightarrow>
          collections st' = (case collections st n of
             None \<Rightarrow> (collections st)(n \<mapsto> (d, Map.empty)) | Some x \<Rightarrow> collections st)"
    and ensure_err: "valid st \<Longrightarrow> vs_ensure_collection V st n d = (st', Inl e) \<Longrightarrow>
          collections st' = collections st"
    and upsert_valid: "valid st \<Longrightarrow> valid (fst (vs_upsert V st n cs))"
    and upsert_missing: "valid st \<Longrightarrow> collections st n = None \<Longrightarrow> vs_upsert V st n cs = (st', r) \<Longrightarrow>
          r \<noteq> Inr () \<and> collections st' = collections st"
    and upsert_writes: "valid st \<Longrightarrow> collections st n = Some (d, m) \<Longrightarrow> vs_upsert V st n cs = (st', r) \<Longrightarrow>
          \<exists>k. collections st' = (collections st)(n \<mapsto> (d, write_chunks m (take k cs)))
              \<and> (r = Inr () \<longrightarrow> length cs \<le> k)"
    and search_missing: "valid st \<Longrightarrow> collections st n = None \<Longrightarrow> vs_search V st n q k flt \<noteq> Inr hits"
    and search_sound: "valid st \<Longrightarrow> collections st n = Some (d, m) \<Longrightarrow> vs_search V st n q k flt = Inr hits \<Longrightarrow>
          h \<in> set hits \<Longrightarrow> \<exists>c. m (sr_id h) = Some c \<and> hit_of h c \<and> meets_filter flt (ch_metadata c)"
    and search_limit: "valid st \<Longrightarrow> vs_search V st n q k flt = Inr hits \<Longrightarrow> length hits \<le> k"
    and delete_valid: "valid st \<Longrightarrow> valid (fst (vs_delete V st n ids))"
    and delete_ok: "valid st \<Longrightarrow> collections st n = Some (d, m) \<Longrightarrow> vs_delete V st n ids = (st', Inr ()) \<Longrightarrow>
          collections st' = (collections st)(n \<mapsto> (d, m |` (- set ids)))"
    and count_ok: "valid st \<Longrightarrow> collections st n = Some (d, m) \<Longrightarrow> vs_count V st n = Inr (card (dom m))"
    and drop_valid: "valid st \<Longrightarrow> valid (fst (vs_drop_collection V st n))"
    and drop_ok: "valid st \<Longrightarrow> vs_drop_collection V st n = (st', Inr ()) \<Longrightarrow>
          collections st' = (collections st)(n := None)"
begin

definition all_chunks :: "'vs \<Rightarrow> (string \<Rightarrow> Chunk \<Rightarrow> bool) \<Rightarrow> bool" where
  "all_chunks st P \<longleftrightarrow> (\<forall>n d m i c. collections st n = Some (d, m) \<longrightarrow> m i = Some c \<longrightarrow> P n c)"

lemma write_chunks_source:
  "write_chunks m cs i = Some c \<Longrightarrow> c \<in> set cs \<or> m i = Some c"
  unfolding write_chunks_def
  by (induction cs arbitrary: m) (force split: if_splits)+

lemma ensure_all_chunks:
  assumes "valid st" "all_chunks st P"
  shows "all_chunks (fst (vs_ensure_collection V st n d)) P"
proof -
  obtain st' r where r: "vs_ensure_collection V st n d = (st', r)" by fastforce
  show ?thesis
  proof (cases r)
    case (Inl e)
    with r assms ensure_err show ?thesis by (simp add: all_chunks_def)
  next
    case (Inr u)
    with r assms(2) ensure_ok [OF assms(1), of n d st'] show ?thesis
      by (auto simp: all_chunks_def split: option.splits if_splits)
  qed
qed

text \<open>An upsert adds only chunks it was given, whether it succeeds or not.\<close>

lemma upsert_all_chunks:
  assumes "valid st" "all_chunks st P" "\<forall>c \<in> set cs. P n c"
  shows "all_chunks (fst (vs_upsert V st n cs)) P"
proof -
  obtain st' r where r: "vs_upsert V st n cs = (st', r)" by fastforce
  show ?thesis
  proof (cases "collections st n")
    case None
    with r assms upsert_missing show ?thesis by (simp add: all_chunks_def)
  next
    case (Some dm)
    then obtain d m where dm: "collections st n = Some (d, m)" by (cases dm) auto
    obtain k where k: "collections st' = (collections st)(n \<mapsto> (d, write_chunks m (take k cs)))"
      using upsert_writes [OF assms(1) dm r] by blast
    have "P n c" if "write_chunks m (take k cs) i = Some c" for i c
      using write_chunks_source [OF that] assms(2, 3) dm
      by (auto simp: all_chunks_def dest: in_set_takeD)
    with r k assms(2) show ?thesis by (auto simp: all_chunks_def)
  qed
qed

text \<open>Hence a hit of a search was written to that collection.\<close>

lemma search_all_chunks:
  assumes "valid st" "all_chunks st P" "vs_search V st n q k flt = Inr hits" "h \<in> set hits"
  shows "\<exists>c. P n c \<and> hit_of h c \<and> meets_filter flt (ch_metadata c)"
proof (cases "collections st n")
  case None
  with assms search_missing show ?thesis by blast
next
  case (Some dm)
  then obtain d m where dm: "collections st n = Some (d, m)" by (cases dm) auto
  obtain c where c: "m (sr_id h) = Some c" "hit_of h c" "meets_filter flt (ch_metadata c)"
    using search_sound [OF assms(1) dm assms(3, 4)] by blast
  have "P n c" using assms(2) dm c(1) unfolding all_chunks_def by blast
  with c show ?thesis by blast
qed

end

section \<open>The in-process store fulfils the contract\<close>

definition chunk_map :: "Chunk list \<Rightarrow> ulid \<Rightarrow> Chunk option" where
  "chunk_map cs i = find (\<lambda>c. ch_id c = i) cs"

definition mem_collections :: "InMemoryStore \<Rightarrow> abstract_store" where
  "mem_collections st n = map_option (\<lambda>e. (co_dims e, chunk_map (co_chunks e))) (st n)"

definition collection_ok :: "CollectionState \<Rightarrow> bool" where
  "collection_ok e \<longleftrightarrow> distinct (map ch_id (co_chunks e))
     \<and> (\<forall>c \<in> set (co_chunks e). length (ch_embedding c) = co_dims e)"

definition mem_ok :: "InMemoryStore \<Rightarrow> bool" where
  "mem_ok st \<longleftrightarrow> (\<forall>n e. st n = Some e \<longrightarrow> collection_ok e)"

lemma chunk_map_upsert: "chunk_map (upsert_chunk c cs) = (chunk_map cs)(ch_id c \<mapsto> c)"
  by (rule ext) (induction cs, auto simp: chunk_map_def)

lemma upsert_chunk_ids: "set (map ch_id (upsert_chunk c cs)) = insert (ch_id c) (set (map ch_id cs))"
  by (induction cs) auto

lemma upsert_chunk_distinct: "distinct (map ch_id cs) \<Longrightarrow> distinct (map ch_id (upsert_chunk c cs))"
proof (induction cs)
  case (Cons d cs)
  have "ch_id d \<notin> set (map ch_id (upsert_chunk c cs))" if "ch_id d \<noteq> ch_id c"
    using Cons.prems that by (simp only: upsert_chunk_ids) simp
  with Cons show ?case by auto
qed simp

lemma upsert_chunk_set: "set (upsert_chunk c cs) \<subseteq> insert c (set cs)"
  by (induction cs) auto

lemma upsert_loop_spec:
  assumes "upsert_loop d ds cs = (ds', r)"
  shows "\<exists>k. chunk_map ds' = write_chunks (chunk_map ds) (take k cs) \<and> (r = Inr () \<longrightarrow> length cs \<le> k)"
  using assms
proof (induction cs arbitrary: ds)
  case Nil
  then show ?case by (simp add: write_chunks_def)
next
  case (Cons c cs)
  show ?case
  proof (cases "length (ch_embedding c) = d")
    case False
    with Cons.prems show ?thesis
      by (intro exI [of _ 0]) (auto simp: write_chunks_def)
  next
    case True
    with Cons.prems have "upsert_loop d (upsert_chunk c ds) cs = (ds', r)" by simp
    from Cons.IH [OF this] obtain k where
      "chunk_map ds' = write_chunks (chunk_map (upsert_chunk c ds)) (take k cs)"
      "r = Inr () \<longrightarrow> length cs \<le> k" by blast
    then show ?thesis
      by (intro exI [of _ "Suc k"]) (simp add: write_chunks_def chunk_map_upsert)
  qed
qed

lemma upsert_loop_ok:
  assumes "upsert_loop d ds cs = (ds', r)" "distinct (map ch_id ds)"
    "\<forall>c \<in> set ds. length (ch_embedding c) = d"
  shows "distinct (map ch_id ds') \<and> (\<forall>c \<in> set ds'. length (ch_embedding c) = d)"
  using assms
proof (induction cs arbitrary: ds)
  case (Cons c cs)
  show ?case
  proof (cases "length (ch_embedding c) = d")
    case False
    with Cons.prems show ?thesis by auto
  next
    case True
    show ?thesis
    proof (rule Cons.IH)
      show "upsert_loop d (upsert_chunk c ds) cs = (ds', r)" using Cons.prems(1) True by simp
      show "distinct (map ch_id (upsert_chunk c ds))" by (rule upsert_chunk_distinct) (rule Cons.prems(2))
      show "\<forall>c \<in> set (upsert_chunk c ds). length (ch_embedding c) = d"
        using Cons.prems(3) True upsert_chunk_set [of c ds] by blast
    qed
  qed
qed auto

lemma mem_upsert_ok: "mem_ok st \<Longrightarrow> mem_ok (fst (mem_upsert st n cs))"
  using upsert_loop_ok
  by (fastforce simp: mem_upsert_def mem_ok_def collection_ok_def
      split: option.splits prod.splits if_splits)

lemma mem_upsert_writes:
  assumes "mem_collections st n = Some (d, m)" "mem_upsert st n cs = (st', r)"
  shows "\<exists>k. mem_collections st' = (mem_collections st)(n \<mapsto> (d, write_chunks m (take k cs)))
              \<and> (r = Inr () \<longrightarrow> length cs \<le> k)"
proof -
  obtain e where e: "st n = Some e" "d = co_dims e" "m = chunk_map (co_chunks e)"
    using assms(1) by (auto simp: mem_collections_def)
  obtain ds where ds: "upsert_loop d (co_chunks e) cs = (ds, r)"
    "st' = st(n \<mapsto> e\<lparr>co_chunks := ds\<rparr>)"
    using assms(2) e by (auto simp: mem_upsert_def split: prod.splits)
  obtain k where "chunk_map ds = write_chunks m (take k cs)" "r = Inr () \<longrightarrow> length cs \<le> k"
    using upsert_loop_spec [OF ds(1)] e by blast
  with e ds(2) show ?thesis
    by (intro exI [of _ k]) (auto simp: mem_collections_def fun_eq_iff)
qed

lemma chunk_map_elem:
  "distinct (map ch_id cs) \<Longrightarrow> chunk_map cs i = Some c \<longleftrightarrow> c \<in> set cs \<and> ch_id c = i"
  unfolding chunk_map_def
  by (induction cs) (auto simp: find_Some_iff image_iff)

lemma filter_typed_sound:
  assumes "filter_passes (filter_typed flt) c"
  shows "meets_filter flt (ch_metadata c)"
proof (cases flt)
  case (Some v)
  show ?thesis
  proof (cases "doc_accepted v \<and> distinct_keys v")
    case True
    with from_json_spec(1) [of v] obtain f where f: "from_json v = Inr f"
      "\<And>m. matches f m = doc_holds v m"
      by (cases "from_json v") auto
    then have "matches f (ch_metadata c)"
      using assms Some by (cases f) (auto simp: filter_passes_def filter_typed_def)
    with f Some show ?thesis by (simp add: meets_filter_def)
  qed (auto simp: meets_filter_def Some)
qed (simp add: meets_filter_def)

lemma mem_search_hits:
  assumes "st n = Some e" "mem_search st n q k flt = Inr hits" "h \<in> set hits"
  shows "\<exists>c \<in> set (co_chunks e). sr_id h = ch_id c \<and> hit_of h c \<and> filter_passes (filter_typed flt) c"
proof -
  let ?xs = "map (\<lambda>c. (score_chunk (co_distance e) q c, c))
               (filter (filter_passes (filter_typed flt)) (co_chunks e))"
  have "hits = map to_result (take k (sort_by score_before ?xs))"
    using assms by (auto simp: mem_search_def Let_def split: if_splits)
  then obtain s c where sc: "(s, c) \<in> set (take k (sort_by score_before ?xs))" "h = to_result (s, c)"
    using assms(3) by auto
  have "(s, c) \<in> set ?xs"
    using in_set_takeD [OF sc(1)] by simp
  then show ?thesis
    using sc(2) by (auto simp: to_result_def hit_of_def)
qed

lemma card_chunk_map: "distinct (map ch_id cs) \<Longrightarrow> card (dom (chunk_map cs)) = length cs"
proof -
  assume d: "distinct (map ch_id cs)"
  have "dom (chunk_map cs) = set (map ch_id cs)"
    by (auto simp: dom_def chunk_map_elem [OF d])
  then show ?thesis using d by (metis distinct_card length_map)
qed

lemma chunk_map_filter:
  assumes "distinct (map ch_id cs)"
  shows "chunk_map (filter (\<lambda>c. ch_id c \<notin> I) cs) = chunk_map cs |` (- I)"
proof
  fix i
  have d: "distinct (map ch_id (filter (\<lambda>c. ch_id c \<notin> I) cs))"
    using assms by (rule distinct_map_filter)
  have "chunk_map (filter (\<lambda>c. ch_id c \<notin> I) cs) i = Some c \<longleftrightarrow> (chunk_map cs |` (- I)) i = Some c" for c
    using chunk_map_elem [OF d] chunk_map_elem [OF assms] by (auto simp: restrict_map_def)
  then show "chunk_map (filter (\<lambda>c. ch_id c \<notin> I) cs) i = (chunk_map cs |` (- I)) i"
    by (metis not_Some_eq)
qed

lemma mem_ensure_valid: "mem_ok st \<Longrightarrow> mem_ok (fst (mem_ensure st n d dist))"
  by (auto simp: mem_ensure_def mem_ok_def collection_ok_def split: option.splits)

lemma mem_delete_valid: "mem_ok st \<Longrightarrow> mem_ok (fst (mem_delete st n ids))"
  by (auto simp: mem_delete_def mem_ok_def collection_ok_def distinct_map_filter split: option.splits)

lemma mem_drop_valid: "mem_ok st \<Longrightarrow> mem_ok (fst (mem_drop_collection st n))"
  by (auto simp: mem_drop_collection_def mem_ok_def)

lemma memory_store_fields [simp]:
  "vs_ensure_collection memory_store = mem_ensure_collection"
  "vs_upsert memory_store = mem_upsert" "vs_search memory_store = mem_search"
  "vs_delete memory_store = mem_delete" "vs_count memory_store = mem_count"
  "vs_drop_collection memory_store = mem_drop_collection"
  by (simp_all add: memory_store_def)

lemma mem_ensure_collections:
  "mem_ensure_collection st n d = (st', Inr ()) \<Longrightarrow>
     mem_collections st' = (case mem_collections st n of
        None \<Rightarrow> (mem_collections st)(n \<mapsto> (d, Map.empty)) | Some x \<Rightarrow> mem_collections st)"
  "mem_ensure_collection st n d = (st', Inl e) \<Longrightarrow> mem_collections st' = mem_collections st"
  by (rule ext, auto simp: mem_ensure_collection_def mem_ensure_def mem_collections_def chunk_map_def
      split: option.splits if_splits)+

lemma mem_upsert_missing:
  "mem_collections st n = None \<Longrightarrow> mem_upsert st n cs = (st', r) \<Longrightarrow>
     r \<noteq> Inr () \<and> mem_collections st' = mem_collections st"
  by (auto simp: mem_collections_def mem_upsert_def)

lemma mem_search_missing: "mem_collections st n = None \<Longrightarrow> mem_search st n q k flt \<noteq> Inr hits"
  by (auto simp: mem_collections_def mem_search_def)

lemma mem_search_sound:
  assumes "mem_ok st" "mem_collections st n = Some (d, m)" "mem_search st n q k flt = Inr hits"
    "h \<in> set hits"
  shows "\<exists>c. m (sr_id h) = Some c \<and> hit_of h c \<and> meets_filter flt (ch_metadata c)"
proof -
  obtain e where e: "st n = Some e" "m = chunk_map (co_chunks e)"
    using assms(2) by (auto simp: mem_collections_def)
  obtain c where c: "c \<in> set (co_chunks e)" "sr_id h = ch_id c" "hit_of h c"
    "filter_passes (filter_typed flt) c"
    using mem_search_hits [OF e(1) assms(3, 4)] by blast
  have "distinct (map ch_id (co_chunks e))"
    using assms(1) e(1) by (simp add: mem_ok_def collection_ok_def)
  then have "m (sr_id h) = Some c" using c e(2) by (simp add: chunk_map_elem)
  with c filter_typed_sound show ?thesis by blast
qed

lemma mem_search_limit: "mem_search st n q k flt = Inr hits \<Longrightarrow> length hits \<le> k"
  by (auto simp: mem_search_def Let_def split: option.splits if_splits)

lemma mem_delete_collections:
  assumes "mem_ok st" "mem_collections st n = Some (d, m)" "mem_delete st n ids = (st', Inr ())"
  shows "mem_collections st' = (mem_collections st)(n \<mapsto> (d, m |` (- set ids)))"
proof -
  obtain e where e: "st n = Some e" "d = co_dims e" "m = chunk_map (co_chunks e)"
    using assms(2) by (auto simp: mem_collections_def)
  have "distinct (map ch_id (co_chunks e))"
    using assms(1) e(1) by (simp add: mem_ok_def collection_ok_def)
  note f = chunk_map_filter [OF this, of "set ids"]
  show ?thesis
  proof (cases "ids = []")
    case True
    have "m |` UNIV = m" by (simp add: restrict_map_def)
    with True assms(2, 3) show ?thesis by (simp add: mem_delete_def map_upd_triv)
  next
    case False
    then have st': "st' = st(n \<mapsto> e\<lparr>co_chunks := filter (\<lambda>c. ch_id c \<notin> set ids) (co_chunks e)\<rparr>)"
      using assms(3) e(1) by (simp add: mem_delete_def)
    show ?thesis
      by (rule ext) (simp add: st' e mem_collections_def f)
  qed
qed

lemma mem_count_card:
  assumes "mem_ok st" "mem_collections st n = Some (d, m)"
  shows "mem_count st n = Inr (card (dom m))"
  using assms by (auto simp: mem_collections_def mem_count_def mem_ok_def collection_ok_def card_chunk_map)

interpretation mem: vector_store memory_store mem_collections mem_ok
proof (unfold_locales, goal_cases)
  case (1 st n d)
  then show ?case by (simp add: mem_ensure_collection_def mem_ensure_valid)
next
  case (2 st n d st')
  then show ?case by (simp add: mem_ensure_collections)
next
  case (3 st n d st' e)
  then show ?case by (simp add: mem_ensure_collections)
next
  case (4 st n cs)
  then show ?case by (simp add: mem_upsert_ok)
next
  case (5 st n cs st' r)
  then show ?case using mem_upsert_missing by simp
next
  case (6 st n d m cs st' r)
  then show ?case using mem_upsert_writes by simp
next
  case (7 st n q k flt hits)
  then show ?case using mem_search_missing by simp
next
  case (8 st n d m q k flt hits h)
  then show ?case using mem_search_sound by simp
next
  case (9 st n q k flt hits)
  then show ?case using mem_search_limit by simp
next
  case (10 st n ids)
  then show ?case by (simp add: mem_delete_valid)
next
  case (11 st n d m ids st')
  then show ?case using mem_delete_collections by simp
next
  case (12 st n d m)
  then show ?case using mem_count_card by simp
next
  case (13 st n)
  then show ?case by (simp add: mem_drop_valid)
next
  case (14 st n st')
  then show ?case by (intro ext) (auto simp: mem_drop_collection_def mem_collections_def)
qed

section \<open>Properties\<close>

text \<open>Operations as a sequence: what a client may do to the store.\<close>

datatype mem_op =
    Ensure string nat
  | EnsureSpec CollectionSpec
  | Upsert string "Chunk list"
  | Delete string "ulid list"
  | DropCollection string

fun mem_step :: "mem_op \<Rightarrow> InMemoryStore \<Rightarrow> InMemoryStore" where
  "mem_step (Ensure n d) st = fst (mem_ensure_collection st n d)"
| "mem_step (EnsureSpec spec) st = fst (mem_ensure_collection_spec st spec)"
| "mem_step (Upsert n cs) st = fst (mem_upsert st n cs)"
| "mem_step (Delete n ids) st = fst (mem_delete st n ids)"
| "mem_step (DropCollection n) st = fst (mem_drop_collection st n)"

text \<open>
  Whatever sequence of operations a fresh in-memory store goes through, failing ones
  included, the chunks of every collection have distinct ids and embeddings of the
  collection's length.
\<close>

theorem memory_store_invariant: "mem_ok (fold mem_step ops mem_new)"
proof -
  have step: "mem_ok (mem_step op st)" if "mem_ok st" for op st
    using that
    by (cases op) (simp_all add: mem_ensure_collection_def mem_ensure_collection_spec_def
        mem_ensure_valid mem_upsert_ok mem_delete_valid mem_drop_valid)
  have "mem_ok (fold mem_step ops st)" if "mem_ok st" for st
    using that by (induction ops arbitrary: st) (simp_all add: step)
  moreover have "mem_ok mem_new" by (simp add: mem_ok_def mem_new_def)
  ultimately show ?thesis by blast
qed

lemma score_before_weak:
  assumes "\<forall>x \<in> A. \<not> f32_is_nan (fst x)"
  shows "weak_order_on A score_before"
  using assms by (auto simp: weak_order_on_def score_before_def f32_lt_def)

section \<open>What a search is for\<close>

text \<open>
  The nearness of two vectors, from their components: the scalar product, the cosine of their
  angle (zero when a norm is zero), and the Euclidean distance. \<open>as_near d q a b\<close> says that \<open>a\<close>
  is at least as near to \<open>q\<close> as \<open>b\<close>: a greater product or cosine, and a smaller distance.
\<close>

definition common_indexes :: "f32 list \<Rightarrow> f32 list \<Rightarrow> nat list" where
  "common_indexes a b = [0..<min (length a) (length b)]"

definition scalar_product :: "f32 list \<Rightarrow> f32 list \<Rightarrow> f32" where
  "scalar_product a b = f32_sum (map (\<lambda>i. f32_mul (a ! i) (b ! i)) (common_indexes a b))"

definition angle_cosine :: "f32 list \<Rightarrow> f32 list \<Rightarrow> f32" where
  "angle_cosine a b =
     (let norms = f32_mul (f32_sqrt (scalar_product a a)) (f32_sqrt (scalar_product b b));
          c = f32_div (scalar_product a b) norms
      in if f32_key norms = 0 then 0
         else if f32_lt c 0xBF800000 then 0xBF800000
         else if f32_lt 0x3F800000 c then 0x3F800000 else c)"

definition l2_distance :: "f32 list \<Rightarrow> f32 list \<Rightarrow> f32" where
  "l2_distance a b = f32_sqrt (f32_sum (map (\<lambda>i. f32_mul (f32_sub (a ! i) (b ! i)) (f32_sub (a ! i) (b ! i)))
     (common_indexes a b)))"

fun as_near :: "Distance \<Rightarrow> f32 list \<Rightarrow> f32 list \<Rightarrow> f32 list \<Rightarrow> bool" where
  "as_near Cosine q a b = f32_le (angle_cosine q b) (angle_cosine q a)"
| "as_near Dot q a b = f32_le (scalar_product q b) (scalar_product q a)"
| "as_near Euclidean q a b = f32_le (l2_distance q a) (l2_distance q b)"

text \<open>The score a hit shows: the negated distance under the Euclidean metric.\<close>

fun shown_score :: "Distance \<Rightarrow> f32 list \<Rightarrow> f32 list \<Rightarrow> f32 \<Rightarrow> bool" where
  "shown_score Cosine q a s = (s = angle_cosine q a)"
| "shown_score Dot q a s = (s = scalar_product q a)"
| "shown_score Euclidean q a s = (f32_minus s = l2_distance q a)"

text \<open>A filter document the language does not accept filters nothing.\<close>

definition wanted :: "json option \<Rightarrow> metadata \<Rightarrow> bool" where
  "wanted flt m = (case flt of None \<Rightarrow> True | Some v \<Rightarrow> if doc_accepted v then doc_holds v m else True)"

lemma zip_nth_common: "map (\<lambda>(x, y). f x y) (zip a b) = map (\<lambda>i. f (a ! i) (b ! i)) (common_indexes a b)"
  by (rule nth_equalityI) (simp_all add: common_indexes_def)

lemma dot_scalar_product: "dot a b = scalar_product a b"
  by (simp add: dot_def scalar_product_def zip_nth_common)

lemma euclidean_l2: "euclidean a b = l2_distance a b"
  by (simp add: euclidean_def l2_distance_def zip_nth_common)

lemma f32_eq_zero: "\<not> f32_is_nan x \<Longrightarrow> f32_eq x 0 \<longleftrightarrow> f32_key x = 0"
  by (simp add: f32_eq_def f32_key_def f32_mag_def f32_neg_def f32_is_nan_def f32_inf_mag_def)

lemma f32_nan_key: "f32_is_nan x \<Longrightarrow> f32_key x \<noteq> 0"
  by (auto simp: f32_is_nan_def f32_key_def f32_inf_mag_def)

lemma cosine_angle: "cosine_similarity a b = angle_cosine a b"
proof -
  have "f32_minus f32_one = 0xBF800000" by code_simp
  moreover have "f32_eq x 0 \<longleftrightarrow> f32_key x = 0" for x
    using f32_eq_zero [of x] f32_nan_key [of x] by (auto simp: f32_eq_def)
  ultimately show ?thesis
    by (simp add: cosine_similarity_def angle_cosine_def norm32_def dot_scalar_product f32_clamp_def
        f32_one_def Let_def)
qed

lemma f32_minus_minus: "f32_minus (f32_minus x) = x"
  by (simp add: f32_minus_def xor.assoc)

lemma score_shown: "shown_score d q (ch_embedding c) (score_chunk d q c)"
  by (cases d) (simp_all add: score_chunk_def cosine_angle dot_scalar_product euclidean_l2 f32_minus_minus)

lemma score_nearness:
  "f32_le (score_chunk d q b) (score_chunk d q a) \<longleftrightarrow> as_near d q (ch_embedding a) (ch_embedding b)"
  by (cases d) (simp_all add: score_chunk_def cosine_angle dot_scalar_product euclidean_l2 f32_minus_order)

lemma score_number: "\<not> f32_is_nan (score_chunk d q c) \<longleftrightarrow> as_near d q (ch_embedding c) (ch_embedding c)"
  by (cases d) (auto simp: score_chunk_def cosine_angle dot_scalar_product euclidean_l2 f32_minus_order f32_le_def)

lemma filter_wanted:
  assumes "pred_option distinct_keys flt"
  shows "filter_passes (filter_typed flt) c \<longleftrightarrow> wanted flt (ch_metadata c)"
proof (cases flt)
  case (Some v)
  with assms have "distinct_keys v" by simp
  note spec = from_json_spec(1) [OF this, unfolded parses_as_def]
  show ?thesis
  proof (cases "from_json v")
    case (Inl e)
    with spec Some show ?thesis by (simp add: filter_typed_def filter_passes_def wanted_def)
  next
    case (Inr f)
    with spec Some show ?thesis by (cases f) (auto simp: filter_typed_def filter_passes_def wanted_def)
  qed
qed (simp add: filter_typed_def filter_passes_def wanted_def)

lemma mem_search_ranked:
  assumes "st name = Some e" "length q = co_dims e"
    "\<forall>c \<in> set (co_chunks e). \<not> f32_is_nan (score_chunk (co_distance e) q c)"
  shows "\<exists>top rest.
     mem_search st name q k flt
       = Inr (map (\<lambda>c. to_result (score_chunk (co_distance e) q c, c)) top)
     \<and> mset top + mset rest = mset (filter (filter_passes (filter_typed flt)) (co_chunks e))
     \<and> length top = min k (length top + length rest)
     \<and> sorted_wrt (\<lambda>a b. f32_le (score_chunk (co_distance e) q b) (score_chunk (co_distance e) q a))
         (top @ rest)"
proof -
  let ?s = "score_chunk (co_distance e) q"
  let ?cs = "filter (filter_passes (filter_typed flt)) (co_chunks e)"
  let ?xs = "map (\<lambda>c. (?s c, c)) ?cs"
  let ?ys = "sort_by score_before ?xs"
  let ?zs = "map snd ?ys"
  have el: "fst x = ?s (snd x) \<and> snd x \<in> set (co_chunks e)" if "x \<in> set ?ys" for x
    using that by auto
  have "mset ?zs = mset (map snd ?xs)"
    by (simp only: mset_map mset_sort_by)
  then have ms: "mset ?zs = mset ?cs" by (simp add: comp_def)
  have "weak_order_on (set ?xs) score_before"
    by (rule score_before_weak) (use assms(3) in auto)
  then have "sorted_wrt (\<lambda>a b. \<not> score_before b a) ?ys" by (rule sort_by_sorted)
  then have "sorted_wrt (\<lambda>a b. f32_le (?s (snd b)) (?s (snd a))) ?ys"
  proof (rule sorted_wrt_mono_rel [rotated])
    fix x y assume xy: "x \<in> set ?ys" "y \<in> set ?ys" "\<not> score_before y x"
    have "fst x = ?s (snd x)" "fst y = ?s (snd y)"
      using el [OF xy(1)] el [OF xy(2)] by simp_all
    moreover have "\<not> f32_is_nan (?s (snd x))" "\<not> f32_is_nan (?s (snd y))"
      using el xy assms(3) by blast+
    ultimately show "f32_le (?s (snd y)) (?s (snd x))"
      using xy(3) by (simp add: score_before_def f32_not_lt)
  qed
  then have so: "sorted_wrt (\<lambda>a b. f32_le (?s b) (?s a)) ?zs" by (simp add: sorted_wrt_map)
  have "map (\<lambda>x. (?s (snd x), snd x)) ?ys = ?ys"
    by (rule map_idI) (simp add: el prod_eq_iff del: set_sort_by)
  then have ys: "?ys = map (\<lambda>c. (?s c, c)) ?zs" by (simp add: comp_def)
  have "take k ?ys = take k (map (\<lambda>c. (?s c, c)) ?zs)" by (rule arg_cong [OF ys])
  also have "\<dots> = map (\<lambda>c. (?s c, c)) (take k ?zs)" by (rule take_map)
  finally have "take k ?ys = map (\<lambda>c. (?s c, c)) (take k ?zs)" .
  then have "mem_search st name q k flt = Inr (map (\<lambda>c. to_result (?s c, c)) (take k ?zs))"
    using assms(1, 2) by (simp add: mem_search_def Let_def comp_def)
  moreover have "mset (take k ?zs) + mset (drop k ?zs) = mset ?cs"
    using ms by (metis append_take_drop_id mset_append)
  moreover have "length (take k ?zs) = min k (length (take k ?zs) + length (drop k ?zs))" by simp
  moreover have "sorted_wrt (\<lambda>a b. f32_le (?s b) (?s a)) (take k ?zs @ drop k ?zs)"
    using so by simp
  ultimately show ?thesis by blast
qed

text \<open>
  C20: a search of the in-memory store with a query of the right length returns the \<open>top_k\<close>
  nearest chunks that meet the filter, nearest first, by the metric of the collection: greater
  cosine or scalar product, or smaller Euclidean distance. The returned chunks and the others
  together are the matching chunks, as many as asked are returned, none left out is nearer than
  a returned one, and a hit shows the chunk with its cosine, product or negated distance. A
  filter document outside the language filters nothing. No chunk is at a distance that is NaN,
  as the sort has no order on those (\<open>as_near d q a a\<close> says just that), and the objects
  of the filter have distinct keys, as parsed ones do.
\<close>

theorem search_ranks_matching_chunks:
  assumes "st name = Some e" "length q = co_dims e"
    "\<forall>c \<in> set (co_chunks e). as_near (co_distance e) q (ch_embedding c) (ch_embedding c)"
    "pred_option distinct_keys flt"
  shows "\<exists>top rest hits.
     mem_search st name q k flt = Inr hits
     \<and> mset top + mset rest = mset (filter (\<lambda>c. wanted flt (ch_metadata c)) (co_chunks e))
     \<and> length top = min k (length top + length rest)
     \<and> sorted_wrt (\<lambda>a b. as_near (co_distance e) q (ch_embedding a) (ch_embedding b)) (top @ rest)
     \<and> list_all2 (\<lambda>h c. sr_id h = ch_id c \<and> sr_content h = ch_content c \<and> sr_metadata h = ch_metadata c
         \<and> shown_score (co_distance e) q (ch_embedding c) (sr_score h)) hits top"
proof -
  have "\<forall>c \<in> set (co_chunks e). \<not> f32_is_nan (score_chunk (co_distance e) q c)"
    using assms(3) by (simp add: score_number)
  from mem_search_ranked [of st name e q k flt, OF assms(1,2) this] obtain top rest where ranked:
    "mem_search st name q k flt = Inr (map (\<lambda>c. to_result (score_chunk (co_distance e) q c, c)) top)"
    "mset top + mset rest = mset (filter (filter_passes (filter_typed flt)) (co_chunks e))"
    "length top = min k (length top + length rest)"
    "sorted_wrt (\<lambda>a b. f32_le (score_chunk (co_distance e) q b) (score_chunk (co_distance e) q a)) (top @ rest)"
    by blast
  have "filter_passes (filter_typed flt) = (\<lambda>c. wanted flt (ch_metadata c))"
    by (rule ext) (rule filter_wanted [OF assms(4)])
  with ranked show ?thesis
    by (intro exI [of _ top] exI [of _ rest]
          exI [of _ "map (\<lambda>c. to_result (score_chunk (co_distance e) q c, c)) top"])
      (simp add: score_nearness score_shown list_all2_conv_all_nth to_result_def)
qed

definition sample_chunk :: "ulid \<Rightarrow> string \<Rightarrow> f32 list \<Rightarrow> Chunk" where
  "sample_chunk i t e = \<lparr>ch_id = i, ch_content = ''text'', ch_embedding = e,
     ch_metadata = [(''tenant'', JString t)]\<rparr>"

definition sample_collection :: CollectionState where
  "sample_collection = \<lparr>co_dims = 2, co_distance = Dot,
     co_chunks = [sample_chunk 1 ''acme'' [0x3F800000, 0], sample_chunk 2 ''acme'' [0x40000000, 0],
                  sample_chunk 3 ''other'' [0x40400000, 0]]\<rparr>"

definition sample_store :: InMemoryStore where
  "sample_store = [''docs'' \<mapsto> sample_collection]"

lemma sample_products:
  "scalar_product [0x3F800000, 0] [0x3F800000, 0] = 0x3F800000"
  "scalar_product [0x3F800000, 0] [0x40000000, 0] = 0x40000000"
  "scalar_product [0x3F800000, 0] [0x40400000, 0] = 0x40400000"
  by code_simp+

lemma sample_order: "f32_le 0x3F800000 0x3F800000" "f32_le 0x40000000 0x40000000" "f32_le 0x40400000 0x40400000"
  by code_simp+

theorem search_ranks_matching_chunks_witness:
  "\<exists>top (rest :: Chunk list) hits.
     mem_search sample_store ''docs'' [0x3F800000, 0] 1 (Some (JObject [(''tenant'', JString ''acme'')])) = Inr hits
     \<and> sorted_wrt (\<lambda>a b. as_near Dot [0x3F800000, 0] (ch_embedding a) (ch_embedding b)) (top @ rest)
     \<and> map sr_id hits = map ch_id top \<and> length top = 1 \<and> length rest = 1"
proof -
  let ?flt = "Some (JObject [(''tenant'', JString ''acme'')])"
  have h: "sample_store ''docs'' = Some sample_collection" "length [0x3F800000 :: f32, 0] = co_dims sample_collection"
    by (simp_all add: sample_store_def sample_collection_def)
  have n: "\<forall>c \<in> set (co_chunks sample_collection). as_near (co_distance sample_collection) [0x3F800000, 0] (ch_embedding c) (ch_embedding c)"
    by (simp add: sample_collection_def sample_chunk_def sample_products sample_order)
  have f: "pred_option distinct_keys ?flt" by simp
  have "length (filter (\<lambda>c. wanted ?flt (ch_metadata c)) (co_chunks sample_collection)) = 2" by code_simp
  moreover from search_ranks_matching_chunks [where st = sample_store and name = "''docs''" and e = sample_collection
      and q = "[0x3F800000, 0]" and k = 1, OF h n f]
  obtain top rest hits where r: "mem_search sample_store ''docs'' [0x3F800000, 0] 1 ?flt = Inr hits"
    "mset top + mset rest = mset (filter (\<lambda>c. wanted ?flt (ch_metadata c)) (co_chunks sample_collection))"
    "length top = min 1 (length top + length rest)"
    "sorted_wrt (\<lambda>a b. as_near (co_distance sample_collection) [0x3F800000, 0] (ch_embedding a) (ch_embedding b)) (top @ rest)"
    "list_all2 (\<lambda>h c. sr_id h = ch_id c \<and> sr_content h = ch_content c \<and> sr_metadata h = ch_metadata c
         \<and> shown_score (co_distance sample_collection) [0x3F800000, 0] (ch_embedding c) (sr_score h)) hits top"
    by blast
  moreover from r(5) have "map sr_id hits = map ch_id top" by (induction rule: list_all2_induct) auto
  moreover from r(2) have "length top + length rest
      = length (filter (\<lambda>c. wanted ?flt (ch_metadata c)) (co_chunks sample_collection))"
    by (metis size_mset size_union)
  moreover have "co_distance sample_collection = Dot" by (simp add: sample_collection_def)
  ultimately show ?thesis
    by (intro exI [of _ top] exI [of _ rest] exI [of _ hits]) auto
qed

lemma upsert_loop_prefix:
  assumes "\<forall>c \<in> set good. length (ch_embedding c) = d" "length (ch_embedding bad) \<noteq> d"
  shows "\<exists>err. upsert_loop d ds (good @ bad # rest) = (fst (upsert_loop d ds good), Inl err)"
  using assms by (induction good arbitrary: ds) auto

text \<open>
  An upsert is not atomic. When a chunk of the batch has an embedding of the wrong
  length the call fails, and the store is left with every chunk before it written, as if
  only those had been sent.
\<close>

theorem upsert_error_keeps_prefix:
  assumes "st name = Some e" "\<forall>c \<in> set good. length (ch_embedding c) = co_dims e"
    "length (ch_embedding bad) \<noteq> co_dims e"
  shows "\<exists>err. mem_upsert st name (good @ bad # rest) = (fst (mem_upsert st name good), Inl err)
     \<and> mem_collections (fst (mem_upsert st name good)) name
       = Some (co_dims e, write_chunks (chunk_map (co_chunks e)) good)"
proof -
  obtain err where err: "upsert_loop (co_dims e) (co_chunks e) (good @ bad # rest)
      = (fst (upsert_loop (co_dims e) (co_chunks e) good), Inl err)"
    using upsert_loop_prefix [OF assms(2, 3)] by blast
  have "snd (upsert_loop d ds good) = Inr ()" if "\<forall>c \<in> set good. length (ch_embedding c) = d" for d ds
    using that by (induction good arbitrary: ds) auto
  then obtain ds where ds: "upsert_loop (co_dims e) (co_chunks e) good = (ds, Inr ())"
    using assms(2) by (metis prod.collapse)
  have "chunk_map ds = write_chunks (chunk_map (co_chunks e)) good"
    using upsert_loop_spec [OF ds] by auto
  with err ds assms(1) show ?thesis
    by (auto simp: mem_upsert_def mem_collections_def)
qed

theorem upsert_error_keeps_prefix_witness:
  "\<exists>err. mem_upsert sample_store ''docs'' [sample_chunk 4 ''acme'' [0, 0], sample_chunk 5 ''acme'' [0]]
     = (fst (mem_upsert sample_store ''docs'' [sample_chunk 4 ''acme'' [0, 0]]), Inl err)"
  using upsert_error_keeps_prefix [of sample_store "''docs''" sample_collection
      "[sample_chunk 4 ''acme'' [0, 0]]" "sample_chunk 5 ''acme'' [0]" "[]"]
  by (simp add: sample_store_def sample_collection_def sample_chunk_def)

text \<open>A filter the parser rejects filters nothing, although the module says it is rejected.\<close>

lemma rejected_filter_is_dropped:
  "from_json v = Inl e \<Longrightarrow> mem_search st name q k (Some v) = mem_search st name q k None"
proof -
  assume "from_json v = Inl e"
  then have "filter_typed (Some v) = filter_typed None" by (simp add: filter_typed_def)
  then show ?thesis by (simp only: mem_search_def)
qed

end
