(* ===== verification/Engine_Api.thy ===== *)
theory Engine_Api
  imports Vector_Memory
begin

text \<open>
  The surface of the engine (\<open>sealstack-engine/src/api.rs\<close>, \<open>schema_registry.rs\<close>,
  \<open>util.rs\<close>, \<open>config.rs\<close>): callers, errors, requests and responses, the schema metadata,
  the in-memory schema registry and the guard on SQL identifiers. A moment is a number
  of nanoseconds since the Unix epoch.
\<close>

type_synonym timestamp = int

section \<open>Callers and errors\<close>

record Caller =
  cl_id :: string
  cl_tenant :: string
  cl_groups :: "string list"
  cl_roles :: "string list"
  cl_attrs :: metadata

definition caller_test :: "string \<Rightarrow> Caller" where
  "caller_test i = \<lparr>cl_id = i, cl_tenant = [], cl_groups = [], cl_roles = [], cl_attrs = []\<rparr>"

definition has_role :: "Caller \<Rightarrow> string \<Rightarrow> bool" where
  "has_role c role \<longleftrightarrow> list_ex (\<lambda>r. r = role) (cl_roles c)"

definition in_group :: "Caller \<Rightarrow> string \<Rightarrow> bool" where
  "in_group c grp \<longleftrightarrow> list_ex (\<lambda>g. g = grp) (cl_groups c)"

text \<open>The serialization of a caller.\<close>

definition caller_json :: "Caller \<Rightarrow> json" where
  "caller_json c = JObject
     [(''id'', JString (cl_id c)), (''tenant'', JString (cl_tenant c)),
      (''groups'', JArray (map JString (cl_groups c))), (''roles'', JArray (map JString (cl_roles c))),
      (''attrs'', JObject (cl_attrs c))]"

datatype EngineError =
    EeNotFound
  | EePolicyDenied string
  | EeInvalidArgument string
  | EeBackend string
  | EeUnknownSchema string string

fun show_engine_error :: "EngineError \<Rightarrow> string" where
  "show_engine_error EeNotFound = ''record not found''"
| "show_engine_error (EePolicyDenied r) = ''policy denied: '' @ r"
| "show_engine_error (EeInvalidArgument s) = ''invalid argument: '' @ s"
| "show_engine_error (EeBackend s) = ''backend failure: '' @ s"
| "show_engine_error (EeUnknownSchema ns s) = ''unknown schema `'' @ ns @ ''.'' @ s @ ''`''"

section \<open>Requests and responses\<close>

record SearchRequest =
  sq_caller :: Caller
  sq_namespace :: string
  sq_schema :: string
  sq_query :: string
  sq_top_k :: nat
  sq_filters :: json

record SearchHit =
  sh_id :: string
  sh_score :: f32
  sh_excerpt :: string
  sh_record :: json

record SearchResponse =
  sp_receipt_id :: string
  sp_results :: "SearchHit list"

record GetRequest =
  gq_caller :: Caller
  gq_namespace :: string
  gq_schema :: string
  gq_id :: string

record ListRequest =
  lq_caller :: Caller
  lq_namespace :: string
  lq_schema :: string
  lq_filters :: json
  lq_cursor :: "string option"
  lq_limit :: nat

record ListRelationRequest =
  rq_caller :: Caller
  rq_namespace :: string
  rq_schema :: string
  rq_relation :: string
  rq_parent_id :: string
  rq_cursor :: "string option"
  rq_limit :: nat

record ListResponse =
  lp_items :: "json list"
  lp_next_cursor :: "string option"

record AggregateRequest =
  aq_caller :: Caller
  aq_namespace :: string
  aq_schema :: string
  aq_facet :: string
  aq_filters :: json
  aq_limit :: nat

record AggregateBucket =
  ab_key :: json
  ab_count :: u64

record AggregateResponse =
  ap_buckets :: "AggregateBucket list"

section \<open>Schema metadata\<close>

record FieldMeta =
  fm_name :: string
  fm_column :: string
  fm_ty :: string
  fm_primary :: bool
  fm_indexed :: bool
  fm_searchable :: bool
  fm_chunked :: bool
  fm_facet :: bool
  fm_optional :: bool
  fm_boost :: "f32 option"
  fm_pii :: "string option"

datatype RelationKind = KindOne | KindMany

record RelationMeta =
  rm_name :: string
  rm_kind :: RelationKind
  rm_target_namespace :: string
  rm_target_schema :: string
  rm_foreign_key :: string

datatype ChunkingStrategy =
    Semantic nat nat
  | Fixed nat
  | Recursive "string list" nat

definition chunking_default :: ChunkingStrategy where
  "chunking_default = Semantic 512 64"

datatype FreshnessDecay =
    FreshNone
  | Exponential u64
  | Linear u64
  | Step "u64 list" "f32 list"

record ContextMeta =
  cm_embedder :: string
  cm_vector_dims :: nat
  cm_chunking :: ChunkingStrategy
  cm_freshness_decay :: FreshnessDecay
  cm_default_top_k :: "nat option"

record SchemaMeta =
  sm_namespace :: string
  sm_name :: string
  sm_version :: u32
  sm_primary_key :: string
  sm_fields :: "FieldMeta list"
  sm_relations :: "string \<Rightarrow> RelationMeta option"
  sm_facets :: "string list"
  sm_chunked_fields :: "string list"
  sm_context :: ContextMeta
  sm_collection :: string
  sm_table :: string
  sm_hybrid_alpha :: "f32 option"

definition qualified_name :: "SchemaMeta \<Rightarrow> string" where
  "qualified_name m = sm_namespace m @ ''.'' @ sm_name m"

section \<open>The registry\<close>

type_synonym SchemaRegistry = "string \<times> string \<Rightarrow> SchemaMeta option"

definition registry_empty :: SchemaRegistry where
  "registry_empty = Map.empty"

definition registry_insert :: "SchemaMeta \<Rightarrow> SchemaRegistry \<Rightarrow> SchemaRegistry" where
  "registry_insert m reg = reg((sm_namespace m, sm_name m) \<mapsto> m)"

definition registry_get :: "SchemaRegistry \<Rightarrow> string \<Rightarrow> string \<Rightarrow> EngineError + SchemaMeta" where
  "registry_get reg ns schema = ok_or (reg (ns, schema)) (EeUnknownSchema ns schema)"

definition resolve_relation :: "SchemaRegistry \<Rightarrow> string \<Rightarrow> string \<Rightarrow> string
    \<Rightarrow> EngineError + (SchemaMeta \<times> RelationMeta)" where
  "resolve_relation reg ns schema relation =
     bindR (registry_get reg ns schema) (\<lambda>meta.
       bindR (ok_or (sm_relations meta relation)
                (EeInvalidArgument (''unknown relation `'' @ relation @ ''`''))) (\<lambda>rel.
         Inr (meta, rel)))"

text \<open>
  Loading a compiler output directory: entries that are not JSON files are skipped, an
  unreadable or malformed file aborts the load. An entry is its file name and the result
  of reading and parsing it.
\<close>

definition split_file_name :: "string \<Rightarrow> string \<times> string option" where
  "split_file_name name =
     (if name = ''..'' then (name, None)
      else case rsplit_once (CHR ''.'') name of
        None \<Rightarrow> (name, None)
      | Some (before, after) \<Rightarrow> if before = [] then (name, None) else (before, Some after))"

fun registry_load :: "(string \<times> (string + SchemaMeta)) list \<Rightarrow> SchemaRegistry \<Rightarrow> string + SchemaRegistry" where
  "registry_load [] reg = Inr reg"
| "registry_load ((name, content) # entries) reg =
     (if snd (split_file_name name) \<noteq> Some ''json'' then registry_load entries reg
      else bindR content (\<lambda>meta. registry_load entries (registry_insert meta reg)))"

definition registry_load_from_dir :: "(string \<times> (string + SchemaMeta)) list option \<Rightarrow> string + SchemaRegistry" where
  "registry_load_from_dir dir =
     (case dir of None \<Rightarrow> Inr registry_empty | Some entries \<Rightarrow> registry_load entries registry_empty)"

text \<open>Hydration from the rows of the database, in their order.\<close>

definition hydrate :: "(EngineError + SchemaMeta list) \<Rightarrow> SchemaRegistry \<Rightarrow> SchemaRegistry \<times> (EngineError + nat)" where
  "hydrate rows reg =
     (case rows of
        Inl e \<Rightarrow> (reg, Inl e)
      | Inr metas \<Rightarrow> (foldl (\<lambda>r m. registry_insert m r) reg metas, Inr (length metas)))"

section \<open>Identifiers in SQL\<close>

definition ascii_alnum :: "char \<Rightarrow> bool" where
  "ascii_alnum c \<longleftrightarrow> (let n = (of_char c :: nat)
     in 48 \<le> n \<and> n \<le> 57 \<or> 65 \<le> n \<and> n \<le> 90 \<or> 97 \<le> n \<and> n \<le> 122)"

definition ascii_digit :: "char \<Rightarrow> bool" where
  "ascii_digit c \<longleftrightarrow> (let n = (of_char c :: nat) in 48 \<le> n \<and> n \<le> 57)"

definition is_safe_ident :: "string \<Rightarrow> bool" where
  "is_safe_ident s \<longleftrightarrow> s \<noteq> [] \<and> list_all (\<lambda>c. ascii_alnum c \<or> c = CHR ''_'') s \<and> \<not> ascii_digit (hd s)"

section \<open>Configuration\<close>

record RetrievalConfig =
  rc_default_hybrid_alpha :: f32
  rc_candidate_k :: nat
  rc_default_top_k :: nat
  rc_retrieval_timeout :: duration

definition retrieval_config_default :: RetrievalConfig where
  "retrieval_config_default = \<lparr>rc_default_hybrid_alpha = 0x3F19999A, rc_candidate_k = 64,
     rc_default_top_k = 16, rc_retrieval_timeout = secs 10\<rparr>"

section \<open>Laws of the registry\<close>

lemma registry_get_insert:
  "registry_get (registry_insert m reg) ns s
   = (if ns = sm_namespace m \<and> s = sm_name m then Inr m else registry_get reg ns s)"
  by (auto simp: registry_get_def registry_insert_def)

text \<open>The last of the inserted schemas with a name is the one found.\<close>

lemma registry_fold_get:
  "registry_get (foldl (\<lambda>r m. registry_insert m r) reg metas) ns s
   = (case find (\<lambda>m. sm_namespace m = ns \<and> sm_name m = s) (rev metas) of
        None \<Rightarrow> registry_get reg ns s | Some m \<Rightarrow> Inr m)"
proof (induction metas rule: rev_induct)
  case (snoc m metas)
  then show ?case by (auto simp: registry_get_insert)
qed simp

end
