(* ===== verification/Csl_Ast.thy ===== *)
theory Csl_Ast
  imports Float64
begin

text \<open>
  The abstract syntax of the Context Schema Language (\<open>sealstack-csl/src/ast.rs\<close> and
  \<open>span.rs\<close>): declarations, types, expressions, with the source spans every node
  carries. Structs are records, enums are datatypes with the source's constructors.
\<close>

section \<open>Spans\<close>

record span =
  span_start :: nat
  span_end :: nat

definition span_new :: "nat \<Rightarrow> nat \<Rightarrow> span" where
  "span_new s e = \<lparr>span_start = s, span_end = e\<rparr>"

definition span_point :: "nat \<Rightarrow> span" where
  "span_point at = span_new at at"

definition span_merge :: "span \<Rightarrow> span \<Rightarrow> span" where
  "span_merge a b = span_new (min (span_start a) (span_start b)) (max (span_end a) (span_end b))"

definition span_is_empty :: "span \<Rightarrow> bool" where
  "span_is_empty s \<longleftrightarrow> span_start s = span_end s"

lemma span_merge_assoc: "span_merge (span_merge a b) c = span_merge a (span_merge b c)"
  by (simp add: span_merge_def span_new_def min.assoc max.assoc)

lemma span_merge_commute: "span_merge a b = span_merge b a"
  by (simp add: span_merge_def min.commute max.commute)

section \<open>Paths\<close>

record path =
  segments :: "string list"
  path_span :: span

definition joined :: "path \<Rightarrow> string" where
  "joined p = join_with ''.'' (segments p)"

section \<open>Types\<close>

datatype primitive_type =
    PString | PText | PUlid | PUuid | PI32 | PI64 | PF32 | PF64 | PBool | PInstant | PDuration | PJson

definition primitive_from_name :: "string \<Rightarrow> primitive_type option" where
  "primitive_from_name name =
     (if name = ''String'' then Some PString
      else if name = ''Text'' then Some PText
      else if name = ''Ulid'' then Some PUlid
      else if name = ''Uuid'' then Some PUuid
      else if name = ''I32'' then Some PI32
      else if name = ''I64'' then Some PI64
      else if name = ''F32'' then Some PF32
      else if name = ''F64'' then Some PF64
      else if name = ''Bool'' then Some PBool
      else if name = ''Instant'' then Some PInstant
      else if name = ''Duration'' then Some PDuration
      else if name = ''Json'' then Some PJson
      else None)"

fun primitive_display_name :: "primitive_type \<Rightarrow> string" where
  "primitive_display_name PString = ''String''"
| "primitive_display_name PText = ''Text''"
| "primitive_display_name PUlid = ''Ulid''"
| "primitive_display_name PUuid = ''Uuid''"
| "primitive_display_name PI32 = ''I32''"
| "primitive_display_name PI64 = ''I64''"
| "primitive_display_name PF32 = ''F32''"
| "primitive_display_name PF64 = ''F64''"
| "primitive_display_name PBool = ''Bool''"
| "primitive_display_name PInstant = ''Instant''"
| "primitive_display_name PDuration = ''Duration''"
| "primitive_display_name PJson = ''Json''"

lemma primitive_name_roundtrip [simp]: "primitive_from_name (primitive_display_name p) = Some p"
  by (cases p) (simp_all add: primitive_from_name_def)

datatype type_expr =
    TPrimitive primitive_type span
  | TRef string span
  | TList type_expr span
  | TMap type_expr type_expr span
  | TNamed string span
  | TOptional type_expr span
  | TVector u32 span

fun type_span :: "type_expr \<Rightarrow> span" where
  "type_span (TPrimitive _ s) = s"
| "type_span (TRef _ s) = s"
| "type_span (TList _ s) = s"
| "type_span (TMap _ _ s) = s"
| "type_span (TNamed _ s) = s"
| "type_span (TOptional _ s) = s"
| "type_span (TVector _ s) = s"

fun is_optional :: "type_expr \<Rightarrow> bool" where
  "is_optional (TOptional _ _) = True"
| "is_optional _ = False"

section \<open>Expressions\<close>

datatype duration_unit = DuNs | DuUs | DuMs | DuS | DuM | DuH | DuD | DuW | DuMo | DuY

fun duration_as_str :: "duration_unit \<Rightarrow> string" where
  "duration_as_str DuNs = ''ns''"
| "duration_as_str DuUs = ''us''"
| "duration_as_str DuMs = ''ms''"
| "duration_as_str DuS = ''s''"
| "duration_as_str DuM = ''m''"
| "duration_as_str DuH = ''h''"
| "duration_as_str DuD = ''d''"
| "duration_as_str DuW = ''w''"
| "duration_as_str DuMo = ''mo''"
| "duration_as_str DuY = ''y''"

datatype literal =
    LInteger i64
  | LFloat f64
  | LString string
  | LDuration i64 duration_unit
  | LBool bool
  | LNull

datatype unary_op = UNot | UNeg

datatype binary_op =
    BEq | BNe | BLt | BLe | BGt | BGe | BAnd | BOr | BIn | BNotIn | BAdd | BSub | BMul | BDiv

datatype expr =
    ELiteral literal span
  | EPath path
  | EUnary unary_op expr span
  | EBinary binary_op expr expr span
  | ECall path "expr list" span
  | EList "expr list" span

fun expr_span :: "expr \<Rightarrow> span" where
  "expr_span (ELiteral _ s) = s"
| "expr_span (EUnary _ _ s) = s"
| "expr_span (EBinary _ _ _ s) = s"
| "expr_span (ECall _ _ s) = s"
| "expr_span (EList _ s) = s"
| "expr_span (EPath p) = path_span p"

section \<open>Declarations\<close>

record decorator =
  dec_path :: path
  dec_args :: "expr list"
  dec_assign :: "expr option"
  dec_span :: span

definition decorator_is :: "decorator \<Rightarrow> string \<Rightarrow> bool" where
  "decorator_is d name \<longleftrightarrow> joined (dec_path d) = name"

record field_decl =
  field_name :: string
  field_ty :: type_expr
  field_decorators :: "decorator list"
  field_span :: span

datatype cardinality = COne | CMany

datatype delete_policy = Cascade | Restrict | SetNull

record relation_decl =
  rel_name :: string
  rel_cardinality :: cardinality
  rel_target :: string
  rel_via :: path
  rel_on_delete :: "delete_policy option"
  rel_span :: span

record context_stmt =
  ctx_key :: string
  ctx_value :: expr
  ctx_span :: span

record context_block =
  ctx_stmts :: "context_stmt list"
  ctx_block_span :: span

text \<open>
  \<open>IndexMap::insert\<close> keeps the position of a key that is already there and replaces its
  value, so \<open>as_map\<close> is insertion ordered with the last value winning.
\<close>

fun index_insert :: "'k \<Rightarrow> 'v \<Rightarrow> ('k \<times> 'v) list \<Rightarrow> ('k \<times> 'v) list" where
  "index_insert k v [] = [(k, v)]"
| "index_insert k v ((k', v') # kvs) = (if k' = k then (k, v) # kvs else (k', v') # index_insert k v kvs)"

definition context_as_map :: "context_block \<Rightarrow> (string \<times> expr) list" where
  "context_as_map cb = fold (\<lambda>st m. index_insert (ctx_key st) (ctx_value st) m) (ctx_stmts cb) []"

datatype action = ActRead | ActList | ActWrite | ActDelete

fun action_display_name :: "action \<Rightarrow> string" where
  "action_display_name ActRead = ''read''"
| "action_display_name ActList = ''list''"
| "action_display_name ActWrite = ''write''"
| "action_display_name ActDelete = ''delete''"

record policy_rule =
  rule_name :: "string option"
  rule_actions :: "action list"
  rule_predicate :: expr
  rule_span :: span

record policy_block =
  block_rules :: "policy_rule list"
  block_span :: span

record schema_decl =
  schema_name :: string
  schema_version :: "u32 option"
  schema_fields :: "field_decl list"
  schema_relations :: "relation_decl list"
  schema_context :: "context_block option"
  schema_policy :: "policy_block option"
  schema_decorators :: "decorator list"
  schema_span :: span

record enum_variant =
  variant_name :: string
  variant_wire :: "string option"
  variant_span :: span

record enum_decl =
  enum_name :: string
  enum_variants :: "enum_variant list"
  enum_span :: span

record policy_decl =
  pdecl_name :: string
  pdecl_rules :: "policy_rule list"
  pdecl_span :: span

record context_profile_decl =
  profile_name :: string
  profile_stmts :: "context_stmt list"
  profile_span :: span

datatype top_decl =
    TopSchema schema_decl
  | TopEnum enum_decl
  | TopPolicy policy_decl
  | TopContextProfile context_profile_decl

record namespace_decl =
  ns_path :: path
  ns_span :: span

record import_stmt =
  import_path :: string
  import_alias :: "string option"
  import_span :: span

record csl_file =
  file_namespace :: "namespace_decl option"
  file_imports :: "import_stmt list"
  file_decls :: "top_decl list"
  file_filename :: "string option"
  file_source :: string

section \<open>Facts\<close>

lemma map_of_index_insert [simp]: "map_of (index_insert k v m) = (map_of m)(k \<mapsto> v)"
  by (induction m) auto

lemma keys_index_insert:
  "map fst (index_insert k v m) = (if k \<in> fst ` set m then map fst m else map fst m @ [k])"
  by (induction m) (force simp: image_iff)+

lemma distinct_index_insert: "distinct (map fst m) \<Longrightarrow> distinct (map fst (index_insert k v m))"
  by (auto simp: keys_index_insert)

end
