(* ===== verification/Csl_Types.thy ===== *)
theory Csl_Types
  imports Csl_Ast
begin

text \<open>
  The type checker of the schema language (\<open>sealstack-csl/src/types.rs\<close>) and the error
  type of the compiler (\<open>error.rs\<close>). A \<open>HashMap\<close> or \<open>HashSet\<close> is a list without
  duplicate keys; the order in which the code iterates over it is not specified by Rust,
  so it is a parameter \<open>it\<close> of the checker that rearranges the list of keys.
\<close>

section \<open>Errors\<close>

record named_source =
  src_name :: string
  src_text :: string

datatype csl_error =
    CslParse string named_source span
  | CslType string named_source span string "string option"
  | MissingPrimaryKey string named_source span
  | DuplicatePrimaryKey string "string list" named_source span
  | UnknownRefTarget string named_source span
  | DuplicateSchema string string named_source span
  | Codegen string
  | CslIo string

definition named_source_new :: "string option \<Rightarrow> string \<Rightarrow> named_source" where
  "named_source_new name text =
     \<lparr>src_name = (case name of None \<Rightarrow> ''<input>'' | Some n \<Rightarrow> n), src_text = text\<rparr>"

definition csl_error_parse :: "string option \<Rightarrow> string \<Rightarrow> span \<Rightarrow> string \<Rightarrow> csl_error" where
  "csl_error_parse filename source sp message = CslParse message (named_source_new filename source) sp"

section \<open>Typed files\<close>

record typed_schema =
  ts_decl :: schema_decl
  ts_primary_idx :: nat
  ts_refs_to :: "string list"
  ts_decorator_index :: "string list list"

record typed_file =
  tf_namespace :: string
  tf_filename :: "string option"
  tf_source :: string
  tf_schemas :: "(string \<times> typed_schema) list"
  tf_enums :: "(string \<times> enum_decl) list"
  tf_decl_order :: "string list"

text \<open>\<open>primary_field\<close> indexes the declared fields; out of range is a panic.\<close>

definition primary_field :: "typed_schema \<Rightarrow> field_decl option" where
  "primary_field ts = nth_opt (schema_fields (ts_decl ts)) (ts_primary_idx ts)"

definition set_insert :: "'a \<Rightarrow> 'a list \<Rightarrow> 'a list" where
  "set_insert x xs = (if x \<in> set xs then xs else xs @ [x])"

fun collect_refs :: "type_expr \<Rightarrow> string list \<Rightarrow> string list" where
  "collect_refs (TRef name _) out = set_insert name out"
| "collect_refs (TNamed name _) out = set_insert name out"
| "collect_refs (TList inner _) out = collect_refs inner out"
| "collect_refs (TOptional inner _) out = collect_refs inner out"
| "collect_refs (TMap k v _) out = collect_refs v (collect_refs k out)"
| "collect_refs (TPrimitive _ _) out = out"
| "collect_refs (TVector _ _) out = out"

fun find_ref_span :: "type_expr \<Rightarrow> string \<Rightarrow> span option" where
  "find_ref_span (TRef name sp) target = (if name = target then Some sp else None)"
| "find_ref_span (TNamed name sp) target = (if name = target then Some sp else None)"
| "find_ref_span (TList inner _) target = find_ref_span inner target"
| "find_ref_span (TOptional inner _) target = find_ref_span inner target"
| "find_ref_span (TMap k v _) target =
     (case find_ref_span k target of Some sp \<Rightarrow> Some sp | None \<Rightarrow> find_ref_span v target)"
| "find_ref_span (TPrimitive _ _) target = None"
| "find_ref_span (TVector _ _) target = None"

text \<open>The first \<open>Some\<close> of \<open>Iterator::find_map\<close>.\<close>

fun find_map :: "('a \<Rightarrow> 'b option) \<Rightarrow> 'a list \<Rightarrow> 'b option" where
  "find_map f [] = None"
| "find_map f (x # xs) = (case f x of Some y \<Rightarrow> Some y | None \<Rightarrow> find_map f xs)"

section \<open>Pass 1: indexing\<close>

definition index_decl :: "csl_file \<Rightarrow> top_decl \<Rightarrow> typed_file \<Rightarrow> csl_error + typed_file" where
  "index_decl f d t =
     (case d of
        TopSchema s \<Rightarrow>
          if map_of (tf_schemas t) (schema_name s) \<noteq> None then
            Inl (DuplicateSchema (schema_name s) (tf_namespace t)
                  (named_source_new (file_filename f) (file_source f)) (schema_span s))
          else Inr (t\<lparr>tf_decl_order := tf_decl_order t @ [schema_name s],
                      tf_schemas := tf_schemas t @ [(schema_name s,
                        \<lparr>ts_decl = s, ts_primary_idx = 0, ts_refs_to = [], ts_decorator_index = []\<rparr>)]\<rparr>)
      | TopEnum e \<Rightarrow> Inr (t\<lparr>tf_enums := index_insert (enum_name e) e (tf_enums t)\<rparr>)
      | TopPolicy _ \<Rightarrow> Inr t
      | TopContextProfile _ \<Rightarrow> Inr t)"

fun index_decls :: "csl_file \<Rightarrow> top_decl list \<Rightarrow> typed_file \<Rightarrow> csl_error + typed_file" where
  "index_decls f [] t = Inr t"
| "index_decls f (d # ds) t = bindR (index_decl f d t) (index_decls f ds)"

fun index_files :: "csl_file list \<Rightarrow> typed_file \<Rightarrow> csl_error + typed_file" where
  "index_files [] t = Inr t"
| "index_files (f # fs) t = bindR (index_decls f (file_decls f) t) (index_files fs)"

section \<open>Pass 2: one schema\<close>

definition declares_schema :: "string \<Rightarrow> csl_file \<Rightarrow> bool" where
  "declares_schema name f =
     list_ex (\<lambda>d. case d of TopSchema s \<Rightarrow> schema_name s = name | _ \<Rightarrow> False) (file_decls f)"

definition schema_source :: "csl_file list \<Rightarrow> string \<Rightarrow> named_source" where
  "schema_source files name =
     (case find (declares_schema name) files of
        None \<Rightarrow> named_source_new None []
      | Some f \<Rightarrow> named_source_new (file_filename f) (file_source f))"

definition is_primary :: "field_decl \<Rightarrow> bool" where
  "is_primary f = list_ex (\<lambda>d. decorator_is d ''primary'') (field_decorators f)"

definition primary_fields :: "schema_decl \<Rightarrow> (nat \<times> field_decl) list" where
  "primary_fields s = filter (\<lambda>(i, f). is_primary f) (enumerate 0 (schema_fields s))"

definition schema_refs :: "schema_decl \<Rightarrow> string list" where
  "schema_refs s = fold (\<lambda>f out. collect_refs (field_ty f) out) (schema_fields s) []"

definition decorator_index :: "schema_decl \<Rightarrow> string list list" where
  "decorator_index s =
     map (\<lambda>f. fold (\<lambda>d out. set_insert (joined (dec_path d)) out) (field_decorators f) []) (schema_fields s)"

definition check_primary :: "csl_file list \<Rightarrow> string \<Rightarrow> schema_decl \<Rightarrow> csl_error + nat" where
  "check_primary files name s =
     (case primary_fields s of
        [] \<Rightarrow> Inl (MissingPrimaryKey name (schema_source files (schema_name s)) (schema_span s))
      | [(i, f)] \<Rightarrow> Inr i
      | fs \<Rightarrow> Inl (DuplicatePrimaryKey name (map (\<lambda>(i, f). field_name f) fs)
                    (schema_source files (schema_name s)) (schema_span s)))"

fun check_refs ::
  "csl_file list \<Rightarrow> string list \<Rightarrow> string list \<Rightarrow> schema_decl \<Rightarrow> string list \<Rightarrow> csl_error + unit" where
  "check_refs files schema_names enum_names s [] = Inr ()"
| "check_refs files schema_names enum_names s (r # rs) =
     (if r \<notin> set schema_names \<and> r \<notin> set enum_names then
        Inl (UnknownRefTarget r (schema_source files (schema_name s))
              (case find_map (\<lambda>f. find_ref_span (field_ty f) r) (schema_fields s) of
                 Some sp \<Rightarrow> sp | None \<Rightarrow> schema_span s))
      else check_refs files schema_names enum_names s rs)"

definition check_schema ::
  "(string list \<Rightarrow> string list) \<Rightarrow> csl_file list \<Rightarrow> string list \<Rightarrow> string list \<Rightarrow> string \<Rightarrow> typed_schema
     \<Rightarrow> csl_error + typed_schema" where
  "check_schema it files schema_names enum_names name ts =
     bindR (check_primary files name (ts_decl ts)) (\<lambda>idx.
     bindR (check_refs files schema_names enum_names (ts_decl ts) (it (schema_refs (ts_decl ts)))) (\<lambda>_.
     Inr (ts\<lparr>ts_primary_idx := idx, ts_refs_to := schema_refs (ts_decl ts),
             ts_decorator_index := decorator_index (ts_decl ts)\<rparr>)))"

fun check_all ::
  "(string list \<Rightarrow> string list) \<Rightarrow> csl_file list \<Rightarrow> string list \<Rightarrow> string list \<Rightarrow> string list \<Rightarrow> typed_file
     \<Rightarrow> csl_error + typed_file" where
  "check_all it files schema_names enum_names [] t = Inr t"
| "check_all it files schema_names enum_names (n # ns) t =
     (case map_of (tf_schemas t) n of
        None \<Rightarrow> check_all it files schema_names enum_names ns t
      | Some ts \<Rightarrow>
          bindR (check_schema it files schema_names enum_names n ts) (\<lambda>ts'.
          check_all it files schema_names enum_names ns
            (t\<lparr>tf_schemas := index_insert n ts' (tf_schemas t)\<rparr>)))"

section \<open>The checker\<close>

definition project_namespace :: "csl_file list \<Rightarrow> string" where
  "project_namespace files =
     (case find_map (\<lambda>f. map_option (\<lambda>n. joined (ns_path n)) (file_namespace f)) files of
        Some n \<Rightarrow> n | None \<Rightarrow> [])"

definition typed_init :: "csl_file list \<Rightarrow> typed_file" where
  "typed_init files =
     \<lparr>tf_namespace = project_namespace files,
      tf_filename = (case files of [] \<Rightarrow> None | f # _ \<Rightarrow> file_filename f),
      tf_source = (case files of [] \<Rightarrow> [] | f # _ \<Rightarrow> file_source f),
      tf_schemas = [], tf_enums = [], tf_decl_order = []\<rparr>"

definition check_project :: "(string list \<Rightarrow> string list) \<Rightarrow> csl_file list \<Rightarrow> csl_error + typed_file" where
  "check_project it files =
     bindR (index_files files (typed_init files)) (\<lambda>t.
       let schema_names = map fst (tf_schemas t); enum_names = map fst (tf_enums t)
       in check_all it files schema_names enum_names (it schema_names) t)"

definition check :: "(string list \<Rightarrow> string list) \<Rightarrow> csl_file \<Rightarrow> csl_error + typed_file" where
  "check it f = check_project it [f]"

section \<open>Pass 1 collects the declarations\<close>

fun decl_schemas :: "top_decl list \<Rightarrow> schema_decl list" where
  "decl_schemas [] = []"
| "decl_schemas (TopSchema s # ds) = s # decl_schemas ds"
| "decl_schemas (_ # ds) = decl_schemas ds"

fun decl_enums :: "top_decl list \<Rightarrow> enum_decl list" where
  "decl_enums [] = []"
| "decl_enums (TopEnum e # ds) = e # decl_enums ds"
| "decl_enums (_ # ds) = decl_enums ds"

definition all_schemas :: "csl_file list \<Rightarrow> schema_decl list" where
  "all_schemas files = concat (map (\<lambda>f. decl_schemas (file_decls f)) files)"

definition all_enums :: "csl_file list \<Rightarrow> enum_decl list" where
  "all_enums files = concat (map (\<lambda>f. decl_enums (file_decls f)) files)"

definition untyped :: "schema_decl \<Rightarrow> typed_schema" where
  "untyped s = \<lparr>ts_decl = s, ts_primary_idx = 0, ts_refs_to = [], ts_decorator_index = []\<rparr>"

text \<open>What indexing a list of schemas and enums adds to a typed file.\<close>

definition indexed :: "schema_decl list \<Rightarrow> enum_decl list \<Rightarrow> typed_file \<Rightarrow> typed_file \<Rightarrow> bool" where
  "indexed ss es t t' \<longleftrightarrow>
     tf_schemas t' = tf_schemas t @ map (\<lambda>s. (schema_name s, untyped s)) ss
     \<and> tf_decl_order t' = tf_decl_order t @ map schema_name ss
     \<and> fst ` set (tf_enums t') = fst ` set (tf_enums t) \<union> enum_name ` set es"

lemma fst_set_index_insert: "fst ` set (index_insert k v m) = insert k (fst ` set m)"
  by (metis insert_absorb keys_index_insert list.set_map list.simps(15) rotate1.simps(2) set_rotate1)

definition schema_keys :: "typed_file \<Rightarrow> string set" where
  "schema_keys t = fst ` set (tf_schemas t)"

lemma all_schemas_simps [simp]:
  "all_schemas [] = []" "all_schemas (f # fs) = decl_schemas (file_decls f) @ all_schemas fs"
  by (simp_all add: all_schemas_def)

lemma all_enums_simps [simp]:
  "all_enums [] = []" "all_enums (f # fs) = decl_enums (file_decls f) @ all_enums fs"
  by (simp_all add: all_enums_def)

lemma indexed_refl [simp]: "indexed [] [] t t"
  by (simp add: indexed_def)

lemma indexed_trans:
  "indexed ss es t t1 \<Longrightarrow> indexed ss' es' t1 t' \<Longrightarrow> indexed (ss @ ss') (es @ es') t t'"
  by (simp add: indexed_def image_Un Un_assoc)

lemma indexed_keys: "indexed ss es t t' \<Longrightarrow> schema_keys t' = schema_keys t \<union> schema_name ` set ss"
  by (simp add: indexed_def schema_keys_def image_Un image_image)

lemma decl_Cons:
  "decl_schemas (d # ds) = decl_schemas [d] @ decl_schemas ds"
  "decl_enums (d # ds) = decl_enums [d] @ decl_enums ds"
  by (cases d; simp)+

lemma index_decl_schema:
  "index_decl f (TopSchema s) t = Inr t' \<Longrightarrow>
   indexed [s] [] t t' \<and> schema_name s \<notin> schema_keys t"
  by (simp add: index_decl_def indexed_def untyped_def schema_keys_def map_of_eq_None_iff split: if_splits)
     (clarsimp simp: image_iff)

lemma index_decl_ok:
  "index_decl f d t = Inr t' \<Longrightarrow>
   indexed (decl_schemas [d]) (decl_enums [d]) t t'
   \<and> schema_name ` set (decl_schemas [d]) \<inter> schema_keys t = {}"
proof (cases d)
  case (TopSchema s)
  assume "index_decl f d t = Inr t'"
  then have "index_decl f (TopSchema s) t = Inr t'" using TopSchema by simp
  from index_decl_schema [OF this] show ?thesis using TopSchema by simp
next
  case (TopEnum e)
  assume "index_decl f d t = Inr t'"
  with TopEnum have "t' = t\<lparr>tf_enums := index_insert (enum_name e) e (tf_enums t)\<rparr>"
    by (simp add: index_decl_def)
  with TopEnum show ?thesis by (simp add: indexed_def fst_set_index_insert)
qed (simp_all add: index_decl_def)

lemma index_decls_ok:
  "index_decls f ds t = Inr t' \<Longrightarrow>
   indexed (decl_schemas ds) (decl_enums ds) t t'
   \<and> distinct (map schema_name (decl_schemas ds))
   \<and> schema_name ` set (decl_schemas ds) \<inter> schema_keys t = {}"
proof (induction ds arbitrary: t)
  case Nil
  then show ?case by simp
next
  case (Cons d ds)
  then obtain t1 where t1: "index_decl f d t = Inr t1" "index_decls f ds t1 = Inr t'"
    by (auto simp: result_simps)
  note h = index_decl_ok [OF t1(1)] and r = Cons.IH [OF t1(2)]
  have keys: "schema_keys t1 = schema_keys t \<union> schema_name ` set (decl_schemas [d])"
    using h indexed_keys by blast
  have "distinct (map schema_name (decl_schemas [d]))"
    by (cases d) auto
  then show ?case
    unfolding decl_Cons(1) [of d ds] decl_Cons(2) [of d ds]
    using h r keys indexed_trans [of "decl_schemas [d]" "decl_enums [d]" t t1]
    by (simp only: map_append distinct_append set_append set_map image_Un) blast
qed

lemma index_decls_total:
  "distinct (map schema_name (decl_schemas ds)) \<Longrightarrow>
   schema_name ` set (decl_schemas ds) \<inter> schema_keys t = {} \<Longrightarrow>
   \<exists>t'. index_decls f ds t = Inr t'"
proof (induction ds arbitrary: t)
  case Nil
  then show ?case by simp
next
  case (Cons d ds)
  then show ?case
    by (cases d)
       (auto simp: index_decl_def map_of_eq_None_iff schema_keys_def intro!: Cons.IH)
qed

lemma index_files_ok:
  "index_files fs t = Inr t' \<Longrightarrow>
   indexed (all_schemas fs) (all_enums fs) t t'
   \<and> distinct (map schema_name (all_schemas fs))
   \<and> schema_name ` set (all_schemas fs) \<inter> schema_keys t = {}"
proof (induction fs arbitrary: t)
  case Nil
  then show ?case by simp
next
  case (Cons f fs)
  then obtain t1 where t1: "index_decls f (file_decls f) t = Inr t1" "index_files fs t1 = Inr t'"
    by (auto simp: result_simps)
  note h = index_decls_ok [OF t1(1)] and r = Cons.IH [OF t1(2)]
  have keys: "schema_keys t1 = schema_keys t \<union> schema_name ` set (decl_schemas (file_decls f))"
    using h indexed_keys by blast
  show ?case
    unfolding all_schemas_simps all_enums_simps
    using h r keys indexed_trans [of "decl_schemas (file_decls f)" "decl_enums (file_decls f)" t t1]
    by (simp only: map_append distinct_append set_append set_map image_Un) blast
qed

lemma index_files_total:
  "distinct (map schema_name (all_schemas fs)) \<Longrightarrow>
   schema_name ` set (all_schemas fs) \<inter> schema_keys t = {} \<Longrightarrow>
   \<exists>t'. index_files fs t = Inr t'"
proof (induction fs arbitrary: t)
  case Nil
  then show ?case by simp
next
  case (Cons f fs)
  have "\<exists>t1. index_decls f (file_decls f) t = Inr t1"
    using Cons.prems by (intro index_decls_total) auto
  then obtain t1 where t1: "index_decls f (file_decls f) t = Inr t1" ..
  have "schema_keys t1 = schema_keys t \<union> schema_name ` set (decl_schemas (file_decls f))"
    using index_decls_ok [OF t1] indexed_keys by blast
  then have "\<exists>t'. index_files fs t1 = Inr t'"
    using Cons.prems
    by (intro Cons.IH) (simp_all only: all_schemas_simps map_append distinct_append set_append set_map image_Un, blast)
  with t1 show ?case by simp
qed

section \<open>What a well-formed schema is\<close>

fun type_refs :: "type_expr \<Rightarrow> string set" where
  "type_refs (TRef name _) = {name}"
| "type_refs (TNamed name _) = {name}"
| "type_refs (TList inner _) = type_refs inner"
| "type_refs (TOptional inner _) = type_refs inner"
| "type_refs (TMap k v _) = type_refs k \<union> type_refs v"
| "type_refs (TPrimitive _ _) = {}"
| "type_refs (TVector _ _) = {}"

definition schema_ok :: "string set \<Rightarrow> schema_decl \<Rightarrow> bool" where
  "schema_ok known s \<longleftrightarrow>
     (\<exists>!i. i < length (schema_fields s) \<and> is_primary (schema_fields s ! i))
     \<and> (\<forall>f \<in> set (schema_fields s). type_refs (field_ty f) \<subseteq> known)"

lemma set_set_insert [simp]: "set (set_insert x xs) = insert x (set xs)"
  by (auto simp: set_insert_def)

lemma set_collect_refs [simp]: "set (collect_refs ty out) = set out \<union> type_refs ty"
  by (induction ty out rule: collect_refs.induct) auto

lemma set_fold_refs:
  "set (fold (\<lambda>f out. collect_refs (field_ty f) out) fs out) = set out \<union> (\<Union>f \<in> set fs. type_refs (field_ty f))"
  by (induction fs arbitrary: out) auto

lemma set_schema_refs: "set (schema_refs s) = (\<Union>f \<in> set (schema_fields s). type_refs (field_ty f))"
  by (simp add: schema_refs_def set_fold_refs)

lemma check_refs_ok:
  "check_refs files ns es s rs = Inr () \<longleftrightarrow> set rs \<subseteq> set ns \<union> set es"
  by (induction rs) auto

lemma primary_fields_mem:
  "(i, f) \<in> set (primary_fields s) \<longleftrightarrow>
     i < length (schema_fields s) \<and> schema_fields s ! i = f \<and> is_primary f"
  by (auto simp: primary_fields_def in_set_enumerate_eq)

lemma distinct_primary_fields: "distinct (primary_fields s)"
  unfolding primary_fields_def
  by (rule distinct_filter) (metis distinct_enumerate distinct_map map_fst_enumerate distinct_upt)

lemma check_primary_ok:
  "check_primary files name s = Inr i \<longleftrightarrow>
     i < length (schema_fields s) \<and> is_primary (schema_fields s ! i)
     \<and> (\<forall>j < length (schema_fields s). is_primary (schema_fields s ! j) \<longrightarrow> j = i)"
proof -
  have mem: "\<And>j. (j, schema_fields s ! j) \<in> set (primary_fields s) \<longleftrightarrow>
      j < length (schema_fields s) \<and> is_primary (schema_fields s ! j)"
    by (simp add: primary_fields_mem)
  consider (none) "primary_fields s = []" | (one) k f where "primary_fields s = [(k, f)]"
    | (more) k f k' f' r where "primary_fields s = (k, f) # (k', f') # r"
    by (metis neq_Nil_conv surj_pair)
  then show ?thesis
  proof cases
    case none
    with mem show ?thesis by (auto simp: check_primary_def)
  next
    case one
    then have "f = schema_fields s ! k" using primary_fields_mem [of k f s] by auto
    with one mem show ?thesis by (auto simp: check_primary_def)
  next
    case more
    then have "(k, f) \<in> set (primary_fields s)" "(k', f') \<in> set (primary_fields s)" "(k, f) \<noteq> (k', f')"
      using distinct_primary_fields [of s] by auto
    then have "k \<noteq> k'" and two: "k < length (schema_fields s)" "is_primary (schema_fields s ! k)"
      "k' < length (schema_fields s)" "is_primary (schema_fields s ! k')"
      by (auto simp: primary_fields_mem)
    then have "\<not> (\<forall>j < length (schema_fields s). is_primary (schema_fields s ! j) \<longrightarrow> j = i)"
      by metis
    with more show ?thesis by (simp add: check_primary_def)
  qed
qed

section \<open>Pass 2 checks every schema\<close>

definition typed_ok :: "string set \<Rightarrow> typed_schema \<Rightarrow> bool" where
  "typed_ok known ts \<longleftrightarrow>
     schema_ok known (ts_decl ts)
     \<and> (\<exists>f. primary_field ts = Some f \<and> is_primary f)
     \<and> set (ts_refs_to ts) = (\<Union>f \<in> set (schema_fields (ts_decl ts)). type_refs (field_ty f))
     \<and> ts_decorator_index ts = decorator_index (ts_decl ts)"

lemma check_schema_ok:
  assumes "\<And>xs. set (it xs) = set xs"
    and "check_schema it files ns es name ts = Inr ts'"
  shows "ts_decl ts' = ts_decl ts \<and> typed_ok (set ns \<union> set es) ts'"
proof -
  from assms(2) obtain i where i: "check_primary files name (ts_decl ts) = Inr i"
    and r: "check_refs files ns es (ts_decl ts) (it (schema_refs (ts_decl ts))) = Inr ()"
    and ts': "ts' = ts\<lparr>ts_primary_idx := i, ts_refs_to := schema_refs (ts_decl ts),
             ts_decorator_index := decorator_index (ts_decl ts)\<rparr>"
    by (auto simp: check_schema_def result_simps)
  have "\<exists>!j. j < length (schema_fields (ts_decl ts)) \<and> is_primary (schema_fields (ts_decl ts) ! j)"
    using i by (auto simp: check_primary_ok)
  moreover have "\<forall>f \<in> set (schema_fields (ts_decl ts)). type_refs (field_ty f) \<subseteq> set ns \<union> set es"
    using r assms(1) by (auto simp: check_refs_ok set_schema_refs)
  ultimately show ?thesis
    using ts' i by (auto simp: typed_ok_def schema_ok_def primary_field_def nth_opt_def check_primary_ok set_schema_refs)
qed

lemma check_schema_total:
  assumes "\<And>xs. set (it xs) = set xs" and "schema_ok (set ns \<union> set es) (ts_decl ts)"
  shows "\<exists>ts'. check_schema it files ns es name ts = Inr ts' \<and> ts_decl ts' = ts_decl ts"
proof -
  from assms(2) obtain i where "check_primary files name (ts_decl ts) = Inr i"
    unfolding schema_ok_def check_primary_ok by blast
  moreover have "check_refs files ns es (ts_decl ts) (it (schema_refs (ts_decl ts))) = Inr ()"
    using assms by (auto simp: check_refs_ok set_schema_refs schema_ok_def)
  ultimately show ?thesis by (simp add: check_schema_def)
qed

text \<open>Checking keeps the declared schemas; it fills in what is derived from each.\<close>

definition same_decls :: "typed_file \<Rightarrow> typed_file \<Rightarrow> bool" where
  "same_decls t t' \<longleftrightarrow>
     map fst (tf_schemas t') = map fst (tf_schemas t) \<and> tf_decl_order t' = tf_decl_order t
     \<and> tf_enums t' = tf_enums t \<and> tf_namespace t' = tf_namespace t
     \<and> (\<forall>n. map_option ts_decl (map_of (tf_schemas t') n) = map_option ts_decl (map_of (tf_schemas t) n))"

lemma same_decls_step:
  assumes "map_of (tf_schemas t) n = Some ts" and "ts_decl ts' = ts_decl ts"
  shows "same_decls t (t\<lparr>tf_schemas := index_insert n ts' (tf_schemas t)\<rparr>)"
proof -
  have "n \<in> fst ` set (tf_schemas t)"
    using assms(1) by (metis map_of_eq_None_iff option.distinct(1))
  with assms show ?thesis by (simp add: same_decls_def keys_index_insert)
qed

lemma same_decls_trans: "same_decls a b \<Longrightarrow> same_decls b c \<Longrightarrow> same_decls a c"
  by (simp add: same_decls_def)

lemma check_all_ok:
  assumes it: "\<And>xs. set (it xs) = set xs"
  shows "check_all it files ns es names t = Inr t' \<Longrightarrow>
    same_decls t t' \<and>
    (\<forall>n ts'. (n \<in> set names \<or> (\<forall>ts. map_of (tf_schemas t) n = Some ts \<longrightarrow> typed_ok (set ns \<union> set es) ts)) \<longrightarrow>
       map_of (tf_schemas t') n = Some ts' \<longrightarrow> typed_ok (set ns \<union> set es) ts')"
proof (induction names arbitrary: t)
  case Nil
  then show ?case by (simp add: same_decls_def)
next
  case (Cons n names)
  show ?case
  proof (cases "map_of (tf_schemas t) n")
    case None
    with Cons.prems have "check_all it files ns es names t = Inr t'" by simp
    from Cons.IH [OF this] None show ?thesis by (metis option.distinct(1) set_ConsD)
  next
    case (Some ts)
    with Cons.prems obtain ts1 where ts1: "check_schema it files ns es n ts = Inr ts1"
      and rest: "check_all it files ns es names (t\<lparr>tf_schemas := index_insert n ts1 (tf_schemas t)\<rparr>) = Inr t'"
      by (auto simp: result_simps)
    note ok = check_schema_ok [OF it ts1]
    have "same_decls t (t\<lparr>tf_schemas := index_insert n ts1 (tf_schemas t)\<rparr>)"
      using same_decls_step Some ok by blast
    with Cons.IH [OF rest] have "same_decls t t'" using same_decls_trans by blast
    moreover have "typed_ok (set ns \<union> set es) ts'"
      if "m \<in> set (n # names) \<or> (\<forall>ts. map_of (tf_schemas t) m = Some ts \<longrightarrow> typed_ok (set ns \<union> set es) ts)"
        and "map_of (tf_schemas t') m = Some ts'" for m ts'
    proof (rule conjunct2 [OF Cons.IH [OF rest], rule_format, OF _ that(2)])
      show "m \<in> set names \<or> (\<forall>ts. map_of (tf_schemas (t\<lparr>tf_schemas := index_insert n ts1 (tf_schemas t)\<rparr>)) m = Some ts
          \<longrightarrow> typed_ok (set ns \<union> set es) ts)"
        using that(1) ok by (cases "m = n") simp_all
    qed
    ultimately show ?thesis by blast
  qed
qed

lemma check_all_total:
  assumes it: "\<And>xs. set (it xs) = set xs"
    and "\<forall>n \<in> set names. \<forall>ts. map_of (tf_schemas t) n = Some ts \<longrightarrow> schema_ok (set ns \<union> set es) (ts_decl ts)"
  shows "\<exists>t'. check_all it files ns es names t = Inr t'"
  using assms(2)
proof (induction names arbitrary: t)
  case Nil
  then show ?case by simp
next
  case (Cons n names)
  show ?case
  proof (cases "map_of (tf_schemas t) n")
    case None
    with Cons show ?thesis by auto
  next
    case (Some ts)
    with Cons.prems have "schema_ok (set ns \<union> set es) (ts_decl ts)" by auto
    from check_schema_total [OF it this] obtain ts1
      where ts1: "check_schema it files ns es n ts = Inr ts1" "ts_decl ts1 = ts_decl ts" by blast
    have "\<exists>t'. check_all it files ns es names (t\<lparr>tf_schemas := index_insert n ts1 (tf_schemas t)\<rparr>) = Inr t'"
      using Cons.prems ts1(2) Some by (intro Cons.IH) (auto split: if_splits)
    with Some ts1 show ?thesis by simp
  qed
qed

definition known_types :: "csl_file list \<Rightarrow> string set" where
  "known_types files = schema_name ` set (all_schemas files) \<union> enum_name ` set (all_enums files)"

lemma indexed_init:
  assumes "indexed (all_schemas files) (all_enums files) (typed_init files) t"
  shows "map fst (tf_schemas t) = map schema_name (all_schemas files)"
    and "set (map fst (tf_schemas t)) \<union> set (map fst (tf_enums t)) = known_types files"
    and "tf_decl_order t = map schema_name (all_schemas files)"
    and "tf_schemas t = map (\<lambda>s. (schema_name s, untyped s)) (all_schemas files)"
  using assms by (simp_all add: indexed_def typed_init_def known_types_def image_image o_def)

lemma map_of_indexed:
  assumes "distinct (map schema_name ss)"
  shows "map_of (map (\<lambda>s. (schema_name s, untyped s)) ss) n = Some ts
     \<longleftrightarrow> (\<exists>s \<in> set ss. schema_name s = n \<and> ts = untyped s)"
  using assms by (subst map_of_eq_Some_iff) (auto simp: o_def)

lemma check_project_sound:
  assumes it: "\<And>xs. set (it xs) = set xs" and run: "check_project it files = Inr t'"
  shows "distinct (map schema_name (all_schemas files))"
    and "tf_decl_order t' = map schema_name (all_schemas files)"
    and "map fst (tf_schemas t') = map schema_name (all_schemas files)"
    and "\<forall>s \<in> set (all_schemas files). \<exists>ts. map_of (tf_schemas t') (schema_name s) = Some ts
           \<and> ts_decl ts = s \<and> typed_ok (known_types files) ts"
proof -
  from run obtain t where t: "index_files files (typed_init files) = Inr t"
    and c: "check_all it files (map fst (tf_schemas t)) (map fst (tf_enums t)) (it (map fst (tf_schemas t))) t = Inr t'"
    by (auto simp: check_project_def result_simps Let_def)
  note idx = index_files_ok [OF t]
  then have ind: "indexed (all_schemas files) (all_enums files) (typed_init files) t" by blast
  show d: "distinct (map schema_name (all_schemas files))" using idx by blast
  note all = check_all_ok [OF it c]
  show "tf_decl_order t' = map schema_name (all_schemas files)"
    using all indexed_init(3) [OF ind] by (simp add: same_decls_def)
  show "map fst (tf_schemas t') = map schema_name (all_schemas files)"
    using all indexed_init(1) [OF ind] by (simp add: same_decls_def)
  show "\<forall>s \<in> set (all_schemas files). \<exists>ts. map_of (tf_schemas t') (schema_name s) = Some ts
           \<and> ts_decl ts = s \<and> typed_ok (known_types files) ts"
  proof
    fix s assume s: "s \<in> set (all_schemas files)"
    then have "map_of (tf_schemas t) (schema_name s) = Some (untyped s)"
      using map_of_indexed [OF d] indexed_init(4) [OF ind] by auto
    moreover have "map_option ts_decl (map_of (tf_schemas t') (schema_name s))
        = map_option ts_decl (map_of (tf_schemas t) (schema_name s))"
      using all by (simp add: same_decls_def)
    ultimately obtain ts where ts: "map_of (tf_schemas t') (schema_name s) = Some ts" "ts_decl ts = s"
      by (auto simp: untyped_def)
    moreover have "schema_name s \<in> set (it (map fst (tf_schemas t)))"
      using s it indexed_init(1) [OF ind] by simp
    ultimately have "typed_ok (known_types files) ts"
      using all indexed_init(2) [OF ind] by metis
    with ts show "\<exists>ts. map_of (tf_schemas t') (schema_name s) = Some ts
           \<and> ts_decl ts = s \<and> typed_ok (known_types files) ts" by blast
  qed
qed

lemma check_project_complete:
  assumes it: "\<And>xs. set (it xs) = set xs"
    and d: "distinct (map schema_name (all_schemas files))"
    and ok: "\<forall>s \<in> set (all_schemas files). schema_ok (known_types files) s"
  shows "\<exists>t. check_project it files = Inr t"
proof -
  have "\<exists>t. index_files files (typed_init files) = Inr t"
    using d by (intro index_files_total) (simp_all add: schema_keys_def typed_init_def)
  then obtain t where t: "index_files files (typed_init files) = Inr t" ..
  then have ind: "indexed (all_schemas files) (all_enums files) (typed_init files) t"
    using index_files_ok by blast
  have "\<exists>t'. check_all it files (map fst (tf_schemas t)) (map fst (tf_enums t)) (it (map fst (tf_schemas t))) t = Inr t'"
  proof (rule check_all_total [OF it], intro ballI allI impI)
    fix n ts assume "map_of (tf_schemas t) n = Some ts"
    then have "\<exists>s \<in> set (all_schemas files). ts = untyped s"
      using map_of_indexed [OF d] indexed_init(4) [OF ind] by auto
    then show "schema_ok (set (map fst (tf_schemas t)) \<union> set (map fst (tf_enums t))) (ts_decl ts)"
      using ok indexed_init(2) [OF ind] by (auto simp: untyped_def)
  qed
  with t show ?thesis by (simp add: check_project_def Let_def)
qed

section \<open>Properties\<close>

text \<open>
  The parts of a project the checker never looks at, erased: namespaces and imports, relations
  with their \<open>via\<close> paths, contexts, policies, the decorators of schemas, and of the fields all
  decorators but \<open>@primary\<close>, whose arguments go too.
\<close>

definition bare_field :: "field_decl \<Rightarrow> field_decl" where
  "bare_field f = f\<lparr>field_decorators :=
     map (\<lambda>d. d\<lparr>dec_args := [], dec_assign := None\<rparr>) (filter (\<lambda>d. decorator_is d ''primary'') (field_decorators f))\<rparr>"

definition bare_schema :: "schema_decl \<Rightarrow> schema_decl" where
  "bare_schema s = s\<lparr>schema_fields := map bare_field (schema_fields s), schema_relations := [],
     schema_context := None, schema_policy := None, schema_decorators := []\<rparr>"

fun bare_decl :: "top_decl \<Rightarrow> top_decl" where
  "bare_decl (TopSchema s) = TopSchema (bare_schema s)"
| "bare_decl d = d"

definition bare_file :: "csl_file \<Rightarrow> csl_file" where
  "bare_file f = f\<lparr>file_namespace := None, file_imports := [], file_decls := map bare_decl (file_decls f)\<rparr>"

lemma bare_field_simps [simp]: "field_ty (bare_field f) = field_ty f" "is_primary (bare_field f) = is_primary f"
  by (auto simp: bare_field_def is_primary_def list_ex_iff decorator_is_def)

lemma bare_decls [simp]: "decl_schemas (map bare_decl ds) = map bare_schema (decl_schemas ds)"
    "decl_enums (map bare_decl ds) = decl_enums ds"
  by (induction ds rule: decl_schemas.induct) simp_all

lemma bare_schemas: "all_schemas (map bare_file files) = map bare_schema (all_schemas files)"
  by (induction files) (simp_all add: all_schemas_def bare_file_def)

lemma bare_known: "known_types (map bare_file files) = known_types files"
proof -
  have "all_enums (map bare_file files) = all_enums files"
    by (simp add: all_enums_def bare_file_def comp_def)
  then show ?thesis by (simp add: known_types_def bare_schemas image_image bare_schema_def)
qed

lemma bare_schema_ok: "schema_ok known (bare_schema s) \<longleftrightarrow> schema_ok known s"
proof -
  have "(i < length (schema_fields (bare_schema s)) \<and> is_primary (schema_fields (bare_schema s) ! i))
      \<longleftrightarrow> (i < length (schema_fields s) \<and> is_primary (schema_fields s ! i))" for i
    by (auto simp: bare_schema_def)
  then show ?thesis by (simp add: schema_ok_def) (simp add: bare_schema_def)
qed

lemma check_project_iff:
  assumes "\<And>xs. set (it xs) = set xs"
  shows "(\<exists>t. check_project it files = Inr t) \<longleftrightarrow>
     distinct (map schema_name (all_schemas files))
     \<and> (\<forall>s \<in> set (all_schemas files). schema_ok (known_types files) s)"
  using check_project_sound [OF assms] check_project_complete [OF assms]
  by (fastforce simp: typed_ok_def)


text \<open>
  What the checker hands to code generation is well formed: the schemas are the
  declared ones in declaration order, and each has an index that points at its primary
  field, the set of type names it refers to, and one decorator set per field.
\<close>

theorem check_project_typed:
  assumes "\<And>xs. set (it xs) = set xs" and "check_project it files = Inr t"
  shows "tf_decl_order t = map schema_name (all_schemas files)
     \<and> map fst (tf_schemas t) = tf_decl_order t \<and> distinct (tf_decl_order t)
     \<and> (\<forall>s \<in> set (all_schemas files). \<exists>ts. map_of (tf_schemas t) (schema_name s) = Some ts
           \<and> ts_decl ts = s \<and> typed_ok (known_types files) ts)"
  using check_project_sound [OF assms] by simp

section \<open>A sample project\<close>

text \<open>Two schemas, one of which refers to the other and to an enum.\<close>

definition sample_path :: "string list \<Rightarrow> path" where
  "sample_path segs = \<lparr>segments = segs, path_span = span_new 0 0\<rparr>"

definition sample_field :: "string \<Rightarrow> type_expr \<Rightarrow> string list \<Rightarrow> field_decl" where
  "sample_field name ty decs =
     \<lparr>field_name = name, field_ty = ty,
      field_decorators = map (\<lambda>d. \<lparr>dec_path = sample_path [d], dec_args = [], dec_assign = None, dec_span = span_new 0 0\<rparr>) decs,
      field_span = span_new 0 0\<rparr>"

definition sample_schema :: "string \<Rightarrow> field_decl list \<Rightarrow> policy_block option \<Rightarrow> schema_decl" where
  "sample_schema name fs pol =
     \<lparr>schema_name = name, schema_version = None, schema_fields = fs, schema_relations = [],
      schema_context = None, schema_policy = pol, schema_decorators = [], schema_span = span_new 0 0\<rparr>"

definition sample_file :: "policy_block option \<Rightarrow> csl_file" where
  "sample_file pol =
     \<lparr>file_namespace = Some \<lparr>ns_path = sample_path [''acme''], ns_span = span_new 0 0\<rparr>,
      file_imports = [],
      file_decls =
        [TopEnum \<lparr>enum_name = ''Tier'', enum_variants = [], enum_span = span_new 0 0\<rparr>,
         TopSchema (sample_schema ''Customer''
           [sample_field ''id'' (TPrimitive PUlid (span_new 0 0)) [''primary''],
            sample_field ''tier'' (TNamed ''Tier'' (span_new 0 0)) []] pol),
         TopSchema (sample_schema ''Ticket''
           [sample_field ''title'' (TPrimitive PString (span_new 0 0)) [''searchable''],
            sample_field ''id'' (TPrimitive PUlid (span_new 0 0)) [''primary''],
            sample_field ''customer'' (TRef ''Customer'' (span_new 0 0)) []] None)],
      file_filename = None, file_source = []\<rparr>"


lemma check_project_typed_witness:
  "\<exists>t. check_project rev [sample_file None] = Inr t
     \<and> tf_decl_order t = [''Customer'', ''Ticket'']
     \<and> (\<exists>ts. map_of (tf_schemas t) ''Ticket'' = Some ts \<and> typed_ok (known_types [sample_file None]) ts)"
proof -
  have "\<not> isl (check_project rev [sample_file None])"
    by code_simp
  then have "\<exists>t. check_project rev [sample_file None] = Inr t"
    by (cases "check_project rev [sample_file None]") simp_all
  then obtain t where t: "check_project rev [sample_file None] = Inr t" ..
  from check_project_typed [OF _ t]
  have "tf_decl_order t = map schema_name (all_schemas [sample_file None])"
    "\<forall>s \<in> set (all_schemas [sample_file None]). \<exists>ts. map_of (tf_schemas t) (schema_name s) = Some ts
           \<and> ts_decl ts = s \<and> typed_ok (known_types [sample_file None]) ts"
    by simp_all
  with t show ?thesis by (auto simp: sample_file_def sample_schema_def)
qed

end
