(* ===== verification/Policy_Ir.thy ===== *)
theory Policy_Ir
  imports Float64
begin

text \<open>
  The policy IR shared by emitter and interpreters (\<open>sealstack-policy-ir/src/lib.rs\<close>):
  section layout, action bits and opcode tags; and the operand readers, which the host
  interpreter and the wasm runtime spell alike except for the error they return.
\<close>

section \<open>Layout, actions, opcodes\<close>

definition IR_MAX_BYTES :: nat where
  "IR_MAX_BYTES = 4096"

definition IR_SECTION_BYTES :: nat where
  "IR_SECTION_BYTES = 8 + IR_MAX_BYTES"

definition MAGIC :: "u8 list" where
  "MAGIC = [0x53, 0x4C, 0x49, 0x52]"

definition bit_READ :: u8 where "bit_READ = 0x01"

definition bit_LIST :: u8 where "bit_LIST = 0x02"

definition bit_WRITE :: u8 where "bit_WRITE = 0x04"

definition bit_DELETE :: u8 where "bit_DELETE = 0x08"

definition action_bit_for :: "u8 list \<Rightarrow> u8 option" where
  "action_bit_for name =
     (if name = bytes_of ''read'' then Some bit_READ
      else if name = bytes_of ''list'' then Some bit_LIST
      else if name = bytes_of ''write'' then Some bit_WRITE
      else if name = bytes_of ''delete'' then Some bit_DELETE
      else None)"

definition LIT_NULL :: u8 where "LIT_NULL = 0x01"

definition LIT_BOOL :: u8 where "LIT_BOOL = 0x02"

definition LIT_I64 :: u8 where "LIT_I64 = 0x03"

definition LIT_F64 :: u8 where "LIT_F64 = 0x04"

definition LIT_STR :: u8 where "LIT_STR = 0x05"

definition LIT_DURATION_SECS :: u8 where "LIT_DURATION_SECS = 0x06"

definition LOAD_CALLER :: u8 where "LOAD_CALLER = 0x10"

definition LOAD_SELF :: u8 where "LOAD_SELF = 0x11"

definition OP_EQ :: u8 where "OP_EQ = 0x20"

definition OP_NE :: u8 where "OP_NE = 0x21"

definition OP_LT :: u8 where "OP_LT = 0x22"

definition OP_LE :: u8 where "OP_LE = 0x23"

definition OP_GT :: u8 where "OP_GT = 0x24"

definition OP_GE :: u8 where "OP_GE = 0x25"

definition OP_AND :: u8 where "OP_AND = 0x30"

definition OP_OR :: u8 where "OP_OR = 0x31"

definition OP_NOT :: u8 where "OP_NOT = 0x32"

definition OP_IN :: u8 where "OP_IN = 0x40"

definition OP_NOT_IN :: u8 where "OP_NOT_IN = 0x41"

definition CALL_HAS_ROLE :: u8 where "CALL_HAS_ROLE = 0x50"

definition CALL_TENANT_MATCH :: u8 where "CALL_TENANT_MATCH = 0x51"

definition OP_RESULT :: u8 where "OP_RESULT = 0xFD"

definition OP_DENY :: u8 where "OP_DENY = 0xFE"

definition OP_ALLOW :: u8 where "OP_ALLOW = 0xFF"

lemmas opcode_defs =
  LIT_NULL_def LIT_BOOL_def LIT_I64_def LIT_F64_def LIT_STR_def LIT_DURATION_SECS_def
  LOAD_CALLER_def LOAD_SELF_def OP_EQ_def OP_NE_def OP_LT_def OP_LE_def OP_GT_def OP_GE_def
  OP_AND_def OP_OR_def OP_NOT_def OP_IN_def OP_NOT_IN_def CALL_HAS_ROLE_def
  CALL_TENANT_MATCH_def OP_RESULT_def OP_DENY_def OP_ALLOW_def

lemmas action_bit_defs = bit_READ_def bit_LIST_def bit_WRITE_def bit_DELETE_def

section \<open>Operand readers\<close>

text \<open>
  Each reader takes the error its caller reports at the end of the bytecode, the bytes and
  the instruction pointer, and returns the value and the advanced pointer.
\<close>

definition read_u8 :: "'e \<Rightarrow> u8 list \<Rightarrow> nat \<Rightarrow> 'e + (u8 \<times> nat)" where
  "read_u8 eof ir ip = bindR (ok_or (nth_opt ir ip) eof) (\<lambda>b. Inr (b, ip + 1))"

definition read_u16 :: "'e \<Rightarrow> u8 list \<Rightarrow> nat \<Rightarrow> 'e + (u16 \<times> nat)" where
  "read_u16 eof ir ip =
     bindR (ok_or (nth_opt ir ip) eof) (\<lambda>b0.
     bindR (ok_or (nth_opt ir (ip + 1)) eof) (\<lambda>b1.
     Inr (from_le [b0, b1], ip + 2)))"

fun read_buf :: "'e \<Rightarrow> u8 list \<Rightarrow> nat \<Rightarrow> nat \<Rightarrow> 'e + (u8 list \<times> nat)" where
  "read_buf eof ir 0 ip = Inr ([], ip)"
| "read_buf eof ir (Suc n) ip =
     bindR (ok_or (nth_opt ir ip) eof) (\<lambda>b.
     bindR (read_buf eof ir n (ip + 1)) (\<lambda>(bs, ip'). Inr (b # bs, ip')))"

definition read_i64 :: "'e \<Rightarrow> u8 list \<Rightarrow> nat \<Rightarrow> 'e + (i64 \<times> nat)" where
  "read_i64 eof ir ip = bindR (read_buf eof ir 8 ip) (\<lambda>(buf, ip'). Inr (from_le buf, ip'))"

definition read_f64 :: "'e \<Rightarrow> u8 list \<Rightarrow> nat \<Rightarrow> 'e + (f64 \<times> nat)" where
  "read_f64 eof ir ip = bindR (read_buf eof ir 8 ip) (\<lambda>(buf, ip'). Inr (from_le buf, ip'))"

text \<open>A reader that succeeds moves the pointer forward by the width of its field.\<close>

lemma read_u8_ip: "read_u8 eof ir ip = Inr (b, ip') \<Longrightarrow> ip' = ip + 1 \<and> ip < length ir"
  by (auto simp: read_u8_def result_simps byte_simps)

lemma read_u16_ip: "read_u16 eof ir ip = Inr (w, ip') \<Longrightarrow> ip' = ip + 2 \<and> ip' \<le> length ir"
  by (auto simp: read_u16_def result_simps byte_simps)

lemma read_buf_ip: "read_buf eof ir n ip = Inr (bs, ip') \<Longrightarrow> ip' = ip + n"
  by (induction n arbitrary: ip bs) (fastforce simp: result_simps)+

lemma read_i64_ip: "read_i64 eof ir ip = Inr (w, ip') \<Longrightarrow> ip' = ip + 8"
  by (auto simp: read_i64_def result_simps dest: read_buf_ip)

lemma read_f64_ip: "read_f64 eof ir ip = Inr (w, ip') \<Longrightarrow> ip' = ip + 8"
  by (auto simp: read_f64_def result_simps dest: read_buf_ip)

text \<open>Reading back a field that was written at the pointer.\<close>

lemma read_u8_mid [byte_simps]:
  "read_u8 eof (pre @ b # post) (length pre) = Inr (b, length pre + 1)"
  by (simp add: read_u8_def)

lemma read_buf_mid: "read_buf eof (pre @ bs @ post) (length bs) (length pre) = Inr (bs, length pre + length bs)"
proof (induction bs arbitrary: pre)
  case Nil
  then show ?case by simp
next
  case (Cons b bs)
  have "read_buf eof ((pre @ [b]) @ bs @ post) (length bs) (length (pre @ [b]))
      = Inr (bs, length (pre @ [b]) + length bs)"
    by (rule Cons)
  then show ?case by simp
qed

lemma read_u16_mid [byte_simps]:
  "read_u16 eof (pre @ le_bytes 2 w @ post) (length pre) = Inr (w, length pre + 2)"
proof -
  have "read_u16 eof (pre @ le_bytes 2 w @ post) (length pre) = Inr (from_le (le_bytes 2 w), length pre + 2)"
    by (simp add: read_u16_def numeral_2_eq_2 nth_opt_def nth_append)
  then show ?thesis by simp
qed

lemma read_i64_mid [byte_simps]:
  "read_i64 eof (pre @ le_bytes 8 (w :: i64) @ post) (length pre) = Inr (w, length pre + 8)"
  using read_buf_mid [of eof pre "le_bytes 8 w" post] by (simp add: read_i64_def)

lemma read_f64_mid [byte_simps]:
  "read_f64 eof (pre @ le_bytes 8 (w :: f64) @ post) (length pre) = Inr (w, length pre + 8)"
  using read_buf_mid [of eof pre "le_bytes 8 w" post] by (simp add: read_f64_def)

section \<open>Section header and action table\<close>

text \<open>\<open>usize::checked_add\<close> on a machine whose largest \<open>usize\<close> is \<open>m\<close>.\<close>

definition checked_add_usize :: "nat \<Rightarrow> nat \<Rightarrow> nat \<Rightarrow> nat option" where
  "checked_add_usize m a b = (if a + b \<le> m then Some (a + b) else None)"

definition host_usize_max :: nat where
  "host_usize_max = 2 ^ 64 - 1"

definition wasm_usize_max :: nat where
  "wasm_usize_max = 2 ^ 32 - 1"

definition declared_len :: "u8 list \<Rightarrow> nat" where
  "declared_len ir_full = unat (from_le (take 4 (drop 4 ir_full)) :: u32)"

text \<open>
  The scan of the action table: the first entry whose mask shares a bit with the action
  gives the entry point, relative to the end of the table.
\<close>

definition table_entry :: "u8 list \<Rightarrow> nat \<Rightarrow> nat \<Rightarrow> u8 \<Rightarrow> nat option" where
  "table_entry ir count table_end act =
     map_option (\<lambda>i. table_end + unat (from_le [ir ! (2 + i * 3), ir ! (3 + i * 3)] :: u16))
       (find (\<lambda>i. ir ! (1 + i * 3) AND act \<noteq> 0) [0..<count])"

text \<open>One step of a policy machine: go on in a new state, or stop with a verdict.\<close>

datatype 's outcome = Next 's | Done bool

definition MAX_STACK :: nat where
  "MAX_STACK = 32"

end
