(* ===== verification/Policy_Host.thy ===== *)
theory Policy_Host
  imports Policy_Ir Json_Value
begin

text \<open>
  The native policy interpreter (\<open>sealstack-policy-ir/src/host.rs\<close>): a stack machine over
  the IR bytes that reads the caller and the record as JSON values. The operand stack is a
  list with its top at the head. Each opcode arm of \<open>run\<close> is a definition of its own.
\<close>

datatype ir_error =
    BadMagic
  | BadLength
  | UnknownOpcode u8
  | StackUnderflow
  | StackOverflow
  | TypeMismatch
  | UnexpectedEof
  | UnknownAction

datatype native_val =
    NNull
  | NBool bool
  | NI64 i64
  | NF64 f64
  | NStr string
  | NArray "json list"

fun native_of :: "json \<Rightarrow> native_val" where
  "native_of JNull = NNull"
| "native_of (JObject _) = NNull"
| "native_of (JBool b) = NBool b"
| "native_of (JNumber n) =
     (case num_as_i64 n of
        Some i \<Rightarrow> NI64 i
      | None \<Rightarrow> (case num_as_f64 n of Some x \<Rightarrow> NF64 x | None \<Rightarrow> NNull))"
| "native_of (JString s) = NStr s"
| "native_of (JArray a) = NArray a"

fun eq_native :: "native_val \<Rightarrow> native_val \<Rightarrow> bool" where
  "eq_native NNull NNull = True"
| "eq_native (NBool x) (NBool y) = (x = y)"
| "eq_native (NI64 x) (NI64 y) = (x = y)"
| "eq_native (NF64 x) (NF64 y) = f64_eq x y"
| "eq_native (NI64 x) (NF64 y) = f64_eq (f64_of_i64 x) y"
| "eq_native (NF64 y) (NI64 x) = f64_eq (f64_of_i64 x) y"
| "eq_native (NStr x) (NStr y) = (x = y)"
| "eq_native _ _ = False"

section \<open>The operand stack\<close>

type_synonym host_state = "nat \<times> native_val list"

definition host_push :: "native_val \<Rightarrow> nat \<Rightarrow> native_val list \<Rightarrow> ir_error + host_state outcome" where
  "host_push v ip st = (if MAX_STACK \<le> length st then Inl StackOverflow else Inr (Next (ip, v # st)))"

definition host_pop :: "native_val list \<Rightarrow> ir_error + (native_val \<times> native_val list)" where
  "host_pop st = (case st of [] \<Rightarrow> Inl StackUnderflow | v # rest \<Rightarrow> Inr (v, rest))"

definition host_pop_bool :: "native_val list \<Rightarrow> ir_error + (bool \<times> native_val list)" where
  "host_pop_bool st =
     bindR (host_pop st) (\<lambda>(v, rest). case v of NBool b \<Rightarrow> Inr (b, rest) | _ \<Rightarrow> Inl TypeMismatch)"

lemma case_NBool_Inr [result_simps]:
  "(case v of NBool b \<Rightarrow> f b | _ \<Rightarrow> Inl e) = Inr y \<longleftrightarrow> (\<exists>b. v = NBool b \<and> f b = Inr y)"
  by (cases v) auto

lemma case_NStr_Inr [result_simps]:
  "(case v of NStr r \<Rightarrow> f r | _ \<Rightarrow> Inl e) = Inr y \<longleftrightarrow> (\<exists>r. v = NStr r \<and> f r = Inr y)"
  by (cases v) auto

lemma case_NArray_Inr [result_simps]:
  "(case v of NArray r \<Rightarrow> f r | _ \<Rightarrow> Inl e) = Inr y \<longleftrightarrow> (\<exists>r. v = NArray r \<and> f r = Inr y)"
  by (cases v) auto

section \<open>Path loads\<close>

text \<open>
  The loop of \<open>load_path\<close>: a missing key returns null at once, from the middle of the
  operand, with the pointer after the segment just read.
\<close>

fun host_load_segs :: "u8 list \<Rightarrow> nat \<Rightarrow> nat \<Rightarrow> json \<Rightarrow> ir_error + (native_val \<times> nat)" where
  "host_load_segs ir 0 ip cursor = Inr (native_of cursor, ip)"
| "host_load_segs ir (Suc n) ip cursor =
     bindR (read_u16 UnexpectedEof ir ip) (\<lambda>(len, ip).
     bindR (ok_or (slice_opt ir ip (ip + unat len)) UnexpectedEof) (\<lambda>bytes.
     bindR (ok_or (from_utf8 bytes) TypeMismatch) (\<lambda>seg.
     case json_get cursor seg of
       Some v \<Rightarrow> host_load_segs ir n (ip + unat len) v
     | None \<Rightarrow> Inr (NNull, ip + unat len))))"

definition host_load_path :: "u8 list \<Rightarrow> nat \<Rightarrow> json \<Rightarrow> ir_error + (native_val \<times> nat)" where
  "host_load_path ir ip root =
     bindR (read_u8 UnexpectedEof ir ip) (\<lambda>(n, ip). host_load_segs ir (unat n) ip root)"

section \<open>Opcode arms\<close>

definition host_lit_str :: "u8 list \<Rightarrow> nat \<Rightarrow> native_val list \<Rightarrow> ir_error + host_state outcome" where
  "host_lit_str ir ip st =
     bindR (read_u16 UnexpectedEof ir ip) (\<lambda>(len, ip).
     bindR (ok_or (slice_opt ir ip (ip + unat len)) UnexpectedEof) (\<lambda>bytes.
     bindR (ok_or (from_utf8 bytes) TypeMismatch) (\<lambda>s.
     host_push (NStr s) (ip + unat len) st)))"

definition host_eq :: "bool \<Rightarrow> nat \<Rightarrow> native_val list \<Rightarrow> ir_error + host_state outcome" where
  "host_eq positive ip st =
     bindR (host_pop st) (\<lambda>(b, st).
     bindR (host_pop st) (\<lambda>(a, st).
     host_push (NBool (if positive then eq_native a b else \<not> eq_native a b)) ip st))"

fun host_widen :: "native_val \<Rightarrow> f64 option" where
  "host_widen (NI64 x) = Some (f64_of_i64 x)"
| "host_widen (NF64 x) = Some x"
| "host_widen _ = None"

definition ord_holds :: "u8 \<Rightarrow> f64 \<Rightarrow> f64 \<Rightarrow> bool" where
  "ord_holds tag x y =
     (if tag = OP_LT then f64_lt x y
      else if tag = OP_LE then f64_le x y
      else if tag = OP_GT then f64_lt y x
      else f64_le y x)"

definition host_ord :: "u8 \<Rightarrow> nat \<Rightarrow> native_val list \<Rightarrow> ir_error + host_state outcome" where
  "host_ord tag ip st =
     bindR (host_pop st) (\<lambda>(b, st).
     bindR (host_pop st) (\<lambda>(a, st).
     case (host_widen a, host_widen b) of
       (Some x, Some y) \<Rightarrow> host_push (NBool (ord_holds tag x y)) ip st
     | _ \<Rightarrow> Inl TypeMismatch))"

definition host_logic :: "(bool \<Rightarrow> bool \<Rightarrow> bool) \<Rightarrow> nat \<Rightarrow> native_val list \<Rightarrow> ir_error + host_state outcome" where
  "host_logic f ip st =
     bindR (host_pop_bool st) (\<lambda>(b, st).
     bindR (host_pop_bool st) (\<lambda>(a, st).
     host_push (NBool (f a b)) ip st))"

definition host_not :: "nat \<Rightarrow> native_val list \<Rightarrow> ir_error + host_state outcome" where
  "host_not ip st = bindR (host_pop_bool st) (\<lambda>(a, st). host_push (NBool (\<not> a)) ip st)"

definition native_in :: "native_val \<Rightarrow> json list \<Rightarrow> bool" where
  "native_in needle arr = list_ex (\<lambda>v. eq_native needle (native_of v)) arr"

definition host_in :: "bool \<Rightarrow> nat \<Rightarrow> native_val list \<Rightarrow> ir_error + host_state outcome" where
  "host_in positive ip st =
     bindR (host_pop st) (\<lambda>(haystack, st).
     bindR (host_pop st) (\<lambda>(needle, st).
     case haystack of
       NArray arr \<Rightarrow> host_push (NBool (if positive then native_in needle arr else \<not> native_in needle arr)) ip st
     | _ \<Rightarrow> Inl TypeMismatch))"

definition caller_has_role :: "json \<Rightarrow> string \<Rightarrow> bool" where
  "caller_has_role caller role =
     (case Option.bind (json_get caller ''roles'') json_as_array of
        None \<Rightarrow> False
      | Some arr \<Rightarrow> list_ex (\<lambda>r. json_as_str r = Some role) arr)"

definition host_has_role :: "json \<Rightarrow> nat \<Rightarrow> native_val list \<Rightarrow> ir_error + host_state outcome" where
  "host_has_role caller ip st =
     bindR (host_pop st) (\<lambda>(role, st).
     bindR (host_pop st) (\<lambda>(_, st).
     case role of
       NStr r \<Rightarrow> host_push (NBool (caller_has_role caller r)) ip st
     | _ \<Rightarrow> Inl TypeMismatch))"

definition tenants_match :: "json \<Rightarrow> json \<Rightarrow> bool" where
  "tenants_match caller rec =
     (case (Option.bind (json_get caller ''tenant'') json_as_str,
            Option.bind (json_get rec ''tenant'') json_as_str) of
        (Some a, Some b) \<Rightarrow> a = b
      | _ \<Rightarrow> False)"

definition host_tenant_match :: "json \<Rightarrow> json \<Rightarrow> nat \<Rightarrow> native_val list \<Rightarrow> ir_error + host_state outcome" where
  "host_tenant_match caller rec ip st =
     bindR (host_pop st) (\<lambda>(_, st).
     bindR (host_pop st) (\<lambda>(_, st).
     host_push (NBool (tenants_match caller rec)) ip st))"

section \<open>The dispatch loop\<close>

definition host_exec ::
  "u8 list \<Rightarrow> json \<Rightarrow> json \<Rightarrow> u8 \<Rightarrow> nat \<Rightarrow> native_val list \<Rightarrow> ir_error + host_state outcome" where
  "host_exec ir caller rec tag ip st =
     (if tag = LIT_NULL then host_push NNull ip st
      else if tag = LIT_BOOL then
        bindR (read_u8 UnexpectedEof ir ip) (\<lambda>(b, ip). host_push (NBool (b \<noteq> 0)) ip st)
      else if tag = LIT_I64 \<or> tag = LIT_DURATION_SECS then
        bindR (read_i64 UnexpectedEof ir ip) (\<lambda>(v, ip). host_push (NI64 v) ip st)
      else if tag = LIT_F64 then
        bindR (read_f64 UnexpectedEof ir ip) (\<lambda>(v, ip). host_push (NF64 v) ip st)
      else if tag = LIT_STR then host_lit_str ir ip st
      else if tag = LOAD_CALLER then
        bindR (host_load_path ir ip caller) (\<lambda>(v, ip). host_push v ip st)
      else if tag = LOAD_SELF then
        bindR (host_load_path ir ip rec) (\<lambda>(v, ip). host_push v ip st)
      else if tag = OP_EQ \<or> tag = OP_NE then host_eq (tag = OP_EQ) ip st
      else if tag = OP_LT \<or> tag = OP_LE \<or> tag = OP_GT \<or> tag = OP_GE then host_ord tag ip st
      else if tag = OP_AND then host_logic (\<and>) ip st
      else if tag = OP_OR then host_logic (\<or>) ip st
      else if tag = OP_NOT then host_not ip st
      else if tag = OP_IN \<or> tag = OP_NOT_IN then host_in (tag = OP_IN) ip st
      else if tag = CALL_HAS_ROLE then host_has_role caller ip st
      else if tag = CALL_TENANT_MATCH then host_tenant_match caller rec ip st
      else if tag = OP_RESULT then bindR (host_pop_bool st) (\<lambda>(b, _). Inr (Done b))
      else if tag = OP_DENY then Inr (Done False)
      else if tag = OP_ALLOW then Inr (Done True)
      else Inl (UnknownOpcode tag))"

definition host_step :: "u8 list \<Rightarrow> json \<Rightarrow> json \<Rightarrow> host_state \<Rightarrow> ir_error + host_state outcome" where
  "host_step ir caller rec s =
     (case s of (ip, st) \<Rightarrow>
        bindR (ok_or (nth_opt ir ip) UnexpectedEof) (\<lambda>tag. host_exec ir caller rec tag (ip + 1) st))"

subsection \<open>Every step moves the instruction pointer forward\<close>

lemma host_push_Next [result_simps]:
  "host_push v ip st = Inr (Next (ip', st')) \<longleftrightarrow> length st < MAX_STACK \<and> ip' = ip \<and> st' = v # st"
  by (auto simp: host_push_def)

lemma host_load_segs_ip: "host_load_segs ir n ip cur = Inr (v, ip') \<Longrightarrow> ip \<le> ip'"
  by (induction n arbitrary: ip cur)
     (fastforce simp: result_simps dest: read_u16_ip split: option.splits prod.splits)+

lemma host_load_path_ip: "host_load_path ir ip root = Inr (v, ip') \<Longrightarrow> ip \<le> ip'"
  by (auto simp: host_load_path_def result_simps dest!: read_u8_ip host_load_segs_ip)

lemmas host_arm_defs =
  host_lit_str_def host_eq_def host_ord_def host_logic_def host_not_def host_in_def
  host_has_role_def host_tenant_match_def

lemma host_arm_ip:
  "host_lit_str ir ip st = Inr (Next (ip', st')) \<Longrightarrow> ip \<le> ip'"
  "host_eq pos ip st = Inr (Next (ip', st')) \<Longrightarrow> ip \<le> ip'"
  "host_ord tag ip st = Inr (Next (ip', st')) \<Longrightarrow> ip \<le> ip'"
  "host_logic f ip st = Inr (Next (ip', st')) \<Longrightarrow> ip \<le> ip'"
  "host_not ip st = Inr (Next (ip', st')) \<Longrightarrow> ip \<le> ip'"
  "host_in pos ip st = Inr (Next (ip', st')) \<Longrightarrow> ip \<le> ip'"
  "host_has_role caller ip st = Inr (Next (ip', st')) \<Longrightarrow> ip \<le> ip'"
  "host_tenant_match caller rec ip st = Inr (Next (ip', st')) \<Longrightarrow> ip \<le> ip'"
  by (auto simp: host_arm_defs result_simps dest!: read_u16_ip)

lemma host_exec_ip: "host_exec ir caller rec tag ip st = Inr (Next (ip', st')) \<Longrightarrow> ip \<le> ip'"
  unfolding host_exec_def
  by (auto simp: result_simps split: if_split_asm
        dest: host_arm_ip dest!: read_u8_ip read_i64_ip read_f64_ip host_load_path_ip)

lemma host_step_ip:
  "host_step ir caller rec (ip, st) = Inr (Next (ip', st')) \<Longrightarrow> ip < ip' \<and> ip < length ir"
  by (auto simp: host_step_def result_simps byte_simps dest!: host_exec_ip)

text \<open>The stack cap is an invariant of every step.\<close>

lemma host_exec_stack:
  "host_exec ir caller rec tag ip st = Inr (Next (ip', st')) \<Longrightarrow> length st' \<le> MAX_STACK"
  unfolding host_exec_def
  by (auto simp: host_arm_defs result_simps split: if_split_asm)

function host_run :: "u8 list \<Rightarrow> json \<Rightarrow> json \<Rightarrow> host_state \<Rightarrow> ir_error + bool" where
  "host_run ir caller rec s =
     (case host_step ir caller rec s of
        Inl e \<Rightarrow> Inl e
      | Inr (Done b) \<Rightarrow> Inr b
      | Inr (Next s') \<Rightarrow> host_run ir caller rec s')"
  by pat_completeness auto
termination
proof (relation "measure (\<lambda>(ir, caller, rec, s). length ir - fst s)")
  fix ir caller rec and s :: host_state and x2 s'
  assume "host_step ir caller rec s = Inr x2" "x2 = Next s'"
  then show "((ir, caller, rec, s'), ir, caller, rec, s) \<in> measure (\<lambda>(ir, caller, rec, s). length ir - fst s)"
    using host_step_ip [of ir caller rec "fst s" "snd s" "fst s'" "snd s'"] by auto
qed auto

declare host_run.simps [simp del]

lemma host_run_Next: "host_step ir caller rec s = Inr (Next s') \<Longrightarrow> host_run ir caller rec s = host_run ir caller rec s'"
  by (simp add: host_run.simps [of ir caller rec s])

lemma host_run_Done: "host_step ir caller rec s = Inr (Done b) \<Longrightarrow> host_run ir caller rec s = Inr b"
  by (simp add: host_run.simps [of ir caller rec s])

lemma host_run_Err: "host_step ir caller rec s = Inl e \<Longrightarrow> host_run ir caller rec s = Inl e"
  by (simp add: host_run.simps [of ir caller rec s])

section \<open>The entry point\<close>

definition host_interpret :: "u8 list \<Rightarrow> json \<Rightarrow> json \<Rightarrow> u8 \<Rightarrow> ir_error + bool" where
  "host_interpret ir_full caller rec act =
     (if length ir_full < 8 \<or> take 4 ir_full \<noteq> MAGIC then Inl BadMagic
      else case checked_add_usize host_usize_max (declared_len ir_full) 8 of
        None \<Rightarrow> Inl BadLength
      | Some total_len \<Rightarrow>
          if length ir_full < total_len then Inl BadLength
          else let ir = take (declared_len ir_full) (drop 8 ir_full) in
            if ir = [] then Inr False
            else let count = unat (ir ! 0); table_end = 1 + count * 3 in
              if count = 0 then Inr False
              else if length ir < table_end then Inl BadLength
              else case table_entry ir count table_end act of
                None \<Rightarrow> Inr False
              | Some ip \<Rightarrow> host_run ir caller rec (ip, []))"

definition action_from_wire :: "string \<Rightarrow> ir_error + u8" where
  "action_from_wire name = ok_or (action_bit_for (bytes_of name)) UnknownAction"

end
