(* ===== verification/Policy_Codegen.thy ===== *)
theory Policy_Codegen
  imports Csl_Types Policy_Host
begin

text \<open>
  The policy backend of the schema compiler (\<open>sealstack-csl/src/codegen/policy.rs\<close>):
  lowering of predicates to IR bytes, layout of the action table, stamping of the IR into
  the runtime's reserved section, and the emission of one bundle per schema with its
  self-pass. The wasm runtime asset and the parser that lists its data segments
  (the crate \<open>wasmparser\<close>) are parameters.
\<close>

section \<open>Lowering predicates\<close>

fun lower_literal :: "literal \<Rightarrow> csl_error + u8 list" where
  "lower_literal LNull = Inr [LIT_NULL]"
| "lower_literal (LBool b) = Inr [LIT_BOOL, if b then 1 else 0]"
| "lower_literal (LInteger i) = Inr (LIT_I64 # le_bytes 8 i)"
| "lower_literal (LFloat f) = Inr (LIT_F64 # le_bytes 8 f)"
| "lower_literal (LString s) =
     (if length s < 2 ^ 16 then Inr (LIT_STR # le_bytes 2 (word_of_nat (length s) :: u16) @ bytes_of s)
      else Inl (Codegen ''string literal exceeds 65535 bytes''))"
| "lower_literal (LDuration n u) =
     Inl (Codegen ''duration literals not supported in policy predicates yet'')"

definition lower_segment :: "string \<Rightarrow> csl_error + u8 list" where
  "lower_segment seg =
     (if length seg < 2 ^ 16 then Inr (le_bytes 2 (word_of_nat (length seg) :: u16) @ bytes_of seg)
      else Inl (Codegen ''path segment exceeds 65535 bytes''))"

definition lower_path_from :: "u8 \<Rightarrow> string list \<Rightarrow> csl_error + u8 list" where
  "lower_path_from load_op rest =
     (if length rest < 2 ^ 8 then
        bindR (mapR lower_segment rest) (\<lambda>segs. Inr (load_op # word_of_nat (length rest) # concat segs))
      else Inl (Codegen ''path too deep (max 255 segments)''))"

definition lower_path :: "path \<Rightarrow> csl_error + u8 list" where
  "lower_path p =
     (case segments p of
        [] \<Rightarrow> Inl (Codegen ''empty path'')
      | root # rest \<Rightarrow>
          if root = ''caller'' then lower_path_from LOAD_CALLER rest
          else if root = ''self'' then lower_path_from LOAD_SELF rest
          else Inl (Codegen (''unsupported path root `'' @ root @ ''` in policy predicate'')))"

fun binary_tag :: "binary_op \<Rightarrow> u8 option" where
  "binary_tag BEq = Some OP_EQ"
| "binary_tag BNe = Some OP_NE"
| "binary_tag BLt = Some OP_LT"
| "binary_tag BLe = Some OP_LE"
| "binary_tag BGt = Some OP_GT"
| "binary_tag BGe = Some OP_GE"
| "binary_tag BAnd = Some OP_AND"
| "binary_tag BOr = Some OP_OR"
| "binary_tag BIn = Some OP_IN"
| "binary_tag BNotIn = Some OP_NOT_IN"
| "binary_tag BAdd = None"
| "binary_tag BSub = None"
| "binary_tag BMul = None"
| "binary_tag BDiv = None"

fun unary_tag :: "unary_op \<Rightarrow> u8 option" where
  "unary_tag UNot = Some OP_NOT"
| "unary_tag UNeg = None"

text \<open>The built-ins of \<open>lower_call\<close>: the opcode each compiles to.\<close>

definition builtin_tag :: "string \<Rightarrow> u8 option" where
  "builtin_tag name =
     (if name = ''has_role'' then Some CALL_HAS_ROLE
      else if name = ''tenant_match'' then Some CALL_TENANT_MATCH
      else None)"

fun lower_expr :: "expr \<Rightarrow> csl_error + u8 list" where
  "lower_expr (ELiteral lit _) = lower_literal lit"
| "lower_expr (EPath p) = lower_path p"
| "lower_expr (EBinary bop a b _) =
     bindR (lower_expr a) (\<lambda>ca.
     bindR (lower_expr b) (\<lambda>cb.
     case binary_tag bop of
       None \<Rightarrow> Inl (Codegen ''arithmetic operators not supported in policy predicates'')
     | Some tag \<Rightarrow> Inr (ca @ cb @ [tag])))"
| "lower_expr (EUnary uop inner _) =
     bindR (lower_expr inner) (\<lambda>c.
     case unary_tag uop of
       None \<Rightarrow> Inl (Codegen ''unary minus not supported in policy predicates'')
     | Some tag \<Rightarrow> Inr (c @ [tag]))"
| "lower_expr (ECall p args _) =
     (case builtin_tag (joined p) of
        None \<Rightarrow> Inl (Codegen (''unknown built-in `'' @ joined p @ ''` in policy predicate''))
      | Some tag \<Rightarrow>
          (case args of
             [a, b] \<Rightarrow> bindR (lower_expr a) (\<lambda>ca. bindR (lower_expr b) (\<lambda>cb. Inr (ca @ cb @ [tag])))
           | _ \<Rightarrow> Inl (Codegen (joined p @ '' takes exactly 2 arguments''))))"
| "lower_expr (EList _ _) =
     Inl (Codegen ''inline list literals not supported in policy predicates yet'')"

section \<open>Action table\<close>

fun action_bit :: "action \<Rightarrow> u8" where
  "action_bit ActRead = bit_READ"
| "action_bit ActList = bit_LIST"
| "action_bit ActWrite = bit_WRITE"
| "action_bit ActDelete = bit_DELETE"

definition action_mask :: "action list \<Rightarrow> u8" where
  "action_mask acts = fold (\<lambda>a m. m OR action_bit a) acts 0"

definition lower_rule :: "policy_rule \<Rightarrow> csl_error + (u8 \<times> u8 list)" where
  "lower_rule rule =
     bindR (lower_expr (rule_predicate rule)) (\<lambda>code. Inr (action_mask (rule_actions rule), code @ [OP_RESULT]))"

text \<open>
  Offsets of the rule bodies, as 16-bit sums of the lengths so far; the sum is also formed
  after the last rule.
\<close>

fun table_offsets :: "nat \<Rightarrow> (u8 \<times> u8 list) list \<Rightarrow> csl_error + nat list" where
  "table_offsets running [] = Inr []"
| "table_offsets running ((msk, stream) # rest) =
     (if 2 ^ 16 \<le> length stream then Inl (Codegen ''rule bytecode exceeds 64 KiB'')
      else if 2 ^ 16 \<le> running + length stream then Inl (Codegen ''cumulative rule bytecode exceeds 64 KiB'')
      else bindR (table_offsets (running + length stream) rest) (\<lambda>offs. Inr (running # offs)))"

definition table_bytes :: "(u8 \<times> u8 list) list \<Rightarrow> nat list \<Rightarrow> u8 list" where
  "table_bytes rules offs =
     concat (map (\<lambda>((msk, _), off). msk # le_bytes 2 (word_of_nat off :: u16)) (zip rules offs))"

definition build_action_table_and_rules :: "policy_block \<Rightarrow> csl_error + u8 list" where
  "build_action_table_and_rules block =
     bindR (mapR lower_rule (block_rules block)) (\<lambda>rules.
     if 2 ^ 8 \<le> length rules then Inl (Codegen ''too many policy rules (max 255)'')
     else bindR (table_offsets 0 rules) (\<lambda>offs.
       Inr (word_of_nat (length rules) # table_bytes rules offs @ concat (map snd rules))))"

definition lower_policy_block_body :: "schema_decl \<Rightarrow> csl_error + u8 list" where
  "lower_policy_block_body decl =
     (case schema_policy decl of None \<Rightarrow> Inr [0] | Some block \<Rightarrow> build_action_table_and_rules block)"

definition ir_section :: "u8 list \<Rightarrow> u8 list" where
  "ir_section body = MAGIC @ le_bytes 4 (word_of_nat (length body) :: u32) @ body"

definition lower_schema_to_ir :: "typed_file \<Rightarrow> string \<Rightarrow> csl_error + u8 list" where
  "lower_schema_to_ir typed name =
     (case map_of (tf_schemas typed) name of
        None \<Rightarrow> Inl (Codegen (''schema `'' @ name @ ''` not found''))
      | Some schema \<Rightarrow>
          bindR (lower_policy_block_body (ts_decl schema)) (\<lambda>body.
          if length body < 2 ^ 32 then Inr (ir_section body)
          else Inl (Codegen ''policy IR exceeds u32::MAX'')))"

section \<open>Stamping the runtime\<close>

text \<open>
  \<open>parse_segments\<close> stands for \<open>wasmparser\<close>: the items its readers yield one after the other,
  errors of the module and of a data segment included; a segment has the offset of its bytes in
  the module.
\<close>

datatype segment_item = ModuleError string | SegmentError string | Segment nat "u8 list"

definition slot_at :: "u8 list \<Rightarrow> nat \<Rightarrow> bool" where
  "slot_at hay i \<longleftrightarrow>
     take 4 (drop i hay) = MAGIC
     \<and> list_all (\<lambda>b. b = 0) (take (IR_SECTION_BYTES - 4) (drop (i + 4) hay))"

definition scan_segment :: "u8 list \<Rightarrow> nat option" where
  "scan_segment hay =
     (if length hay < IR_SECTION_BYTES then None
      else find (slot_at hay) (map (\<lambda>k. 4 * k) [0..<Suc ((length hay - IR_SECTION_BYTES) div 4)]))"

fun scan_items :: "segment_item list \<Rightarrow> csl_error + nat" where
  "scan_items [] = Inl (Codegen ''could not find .sealstack_predicate_ir data segment in runtime wasm'')"
| "scan_items (ModuleError e # items) = Inl (Codegen (''parse runtime wasm: '' @ e))"
| "scan_items (SegmentError e # items) = Inl (Codegen (''parse data segment: '' @ e))"
| "scan_items (Segment base hay # items) =
     (case scan_segment hay of Some i \<Rightarrow> Inr (base + i) | None \<Rightarrow> scan_items items)"

definition locate_predicate_section :: "(u8 list \<Rightarrow> segment_item list) \<Rightarrow> u8 list \<Rightarrow> csl_error + nat" where
  "locate_predicate_section parse_segments wasm = scan_items (parse_segments wasm)"

definition patch_runtime ::
  "(u8 list \<Rightarrow> segment_item list) \<Rightarrow> u8 list \<Rightarrow> u8 list \<Rightarrow> csl_error + u8 list" where
  "patch_runtime parse_segments runtime_wasm ir =
     (if IR_SECTION_BYTES < length ir then
        Inl (Codegen (''policy IR exceeds '' @ show_nat IR_SECTION_BYTES @ '' bytes (got '' @ show_nat (length ir) @ '')''))
      else bindR (locate_predicate_section parse_segments runtime_wasm) (\<lambda>start.
        Inr (take start runtime_wasm @ ir @ replicate (IR_SECTION_BYTES - length ir) 0
             @ drop (start + IR_SECTION_BYTES) runtime_wasm)))"

section \<open>Bundles\<close>

record policy_bundle =
  bundle_namespace :: string
  bundle_schema :: string
  bundle_wasm :: "u8 list"

definition empty_caller :: json where
  "empty_caller = JObject
     [(''id'', JString []), (''email'', JString []), (''groups'', JArray []), (''team'', JString []),
      (''tenant'', JString []), (''roles'', JArray []), (''attrs'', JObject [])]"

definition empty_record :: json where
  "empty_record = JObject [(''tenant'', JString [])]"

text \<open>
  The self-pass: the IR is interpreted for every action against the empty caller and record.
  The error message prints the action bit and the interpreter's error; its text is
  represented by the name of the schema, the bit and the error.
\<close>

fun self_pass :: "u8 list \<Rightarrow> u8 list \<Rightarrow> (u8 \<times> ir_error) option" where
  "self_pass ir [] = None"
| "self_pass ir (abit # bits) =
     (case host_interpret ir empty_caller empty_record abit of
        Inl e \<Rightarrow> Some (abit, e)
      | Inr _ \<Rightarrow> self_pass ir bits)"

definition all_action_bits :: "u8 list" where
  "all_action_bits = [bit_READ, bit_LIST, bit_WRITE, bit_DELETE]"

datatype emit_error = LowerError csl_error | SelfPassError string u8 ir_error

fun emit_bundles ::
  "(u8 list \<Rightarrow> segment_item list) \<Rightarrow> u8 list \<Rightarrow> typed_file \<Rightarrow> string list
     \<Rightarrow> emit_error + policy_bundle list" where
  "emit_bundles parse_segments wasm typed [] = Inr []"
| "emit_bundles parse_segments wasm typed (name # names) =
     (if map_of (tf_schemas typed) name = None then emit_bundles parse_segments wasm typed names
      else case lower_schema_to_ir typed name of
        Inl e \<Rightarrow> Inl (LowerError e)
      | Inr ir \<Rightarrow>
          (case self_pass ir all_action_bits of
             Some (abit, e) \<Rightarrow> Inl (SelfPassError name abit e)
           | None \<Rightarrow>
               (case patch_runtime parse_segments wasm ir of
                  Inl e \<Rightarrow> Inl (LowerError e)
                | Inr out \<Rightarrow>
                    bindR (emit_bundles parse_segments wasm typed names) (\<lambda>rest.
                    Inr (\<lparr>bundle_namespace = (if tf_namespace typed = [] then ''default'' else tf_namespace typed),
                          bundle_schema = name, bundle_wasm = out\<rparr> # rest)))))"

definition emit_policy_bundles ::
  "(u8 list \<Rightarrow> segment_item list) \<Rightarrow> u8 list \<Rightarrow> typed_file \<Rightarrow> emit_error + policy_bundle list" where
  "emit_policy_bundles parse_segments wasm typed = emit_bundles parse_segments wasm typed (tf_decl_order typed)"

end
