(* ===== verification/Policy_Machine.thy ===== *)
theory Policy_Machine
  imports Policy_Codegen
begin

text \<open>
  The meaning of predicates and policy blocks on the syntax tree, and the correctness of
  the emitted code for any machine that obeys a few laws: the locale \<open>policy_machine\<close> is
  the interface between the emitter and the two interpreters, the native one and the wasm
  runtime, which are its interpretations.
\<close>

section \<open>The meaning of predicates\<close>

fun literal_value :: "literal \<Rightarrow> ir_error + native_val" where
  "literal_value LNull = Inr NNull"
| "literal_value (LBool b) = Inr (NBool b)"
| "literal_value (LInteger i) = Inr (NI64 i)"
| "literal_value (LFloat f) = Inr (NF64 f)"
| "literal_value (LString s) = Inr (NStr s)"
| "literal_value (LDuration n u) = Inl TypeMismatch"

text \<open>A path that does not resolve is null.\<close>

definition path_value :: "json \<Rightarrow> string list \<Rightarrow> native_val" where
  "path_value root ks = (case json_path root ks of None \<Rightarrow> NNull | Some v \<Rightarrow> native_of v)"

definition path_root :: "json \<Rightarrow> json \<Rightarrow> path \<Rightarrow> json" where
  "path_root caller rec p = (if hd (segments p) = ''caller'' then caller else rec)"

fun as_bool :: "native_val \<Rightarrow> ir_error + bool" where
  "as_bool (NBool b) = Inr b"
| "as_bool _ = Inl TypeMismatch"

definition compare_values :: "u8 \<Rightarrow> native_val \<Rightarrow> native_val \<Rightarrow> ir_error + native_val" where
  "compare_values tag a b =
     (case (host_widen a, host_widen b) of
        (Some x, Some y) \<Rightarrow> Inr (NBool (ord_holds tag x y))
      | _ \<Rightarrow> Inl TypeMismatch)"

definition member_value :: "native_val \<Rightarrow> native_val \<Rightarrow> ir_error + bool" where
  "member_value a b = (case b of NArray xs \<Rightarrow> Inr (native_in a xs) | _ \<Rightarrow> Inl TypeMismatch)"

fun binary_value :: "binary_op \<Rightarrow> native_val \<Rightarrow> native_val \<Rightarrow> ir_error + native_val" where
  "binary_value BEq a b = Inr (NBool (eq_native a b))"
| "binary_value BNe a b = Inr (NBool (\<not> eq_native a b))"
| "binary_value BLt a b = compare_values OP_LT a b"
| "binary_value BLe a b = compare_values OP_LE a b"
| "binary_value BGt a b = compare_values OP_GT a b"
| "binary_value BGe a b = compare_values OP_GE a b"
| "binary_value BAnd a b = bindR (as_bool b) (\<lambda>y. bindR (as_bool a) (\<lambda>x. Inr (NBool (x \<and> y))))"
| "binary_value BOr a b = bindR (as_bool b) (\<lambda>y. bindR (as_bool a) (\<lambda>x. Inr (NBool (x \<or> y))))"
| "binary_value BIn a b = bindR (member_value a b) (\<lambda>r. Inr (NBool r))"
| "binary_value BNotIn a b = bindR (member_value a b) (\<lambda>r. Inr (NBool (\<not> r)))"
| "binary_value BAdd a b = Inl TypeMismatch"
| "binary_value BSub a b = Inl TypeMismatch"
| "binary_value BMul a b = Inl TypeMismatch"
| "binary_value BDiv a b = Inl TypeMismatch"

definition call_value :: "json \<Rightarrow> json \<Rightarrow> string \<Rightarrow> native_val \<Rightarrow> native_val \<Rightarrow> ir_error + native_val" where
  "call_value caller rec name a b =
     (if name = ''has_role'' then
        (case b of NStr r \<Rightarrow> Inr (NBool (caller_has_role caller r)) | _ \<Rightarrow> Inl TypeMismatch)
      else if name = ''tenant_match'' then Inr (NBool (tenants_match caller rec))
      else Inl TypeMismatch)"

text \<open>
  Operands are evaluated from left to right, both of them always. Forms the emitter
  rejects have no meaning; they are type errors here.
\<close>

fun pred_value :: "json \<Rightarrow> json \<Rightarrow> expr \<Rightarrow> ir_error + native_val" where
  "pred_value caller rec (ELiteral lit _) = literal_value lit"
| "pred_value caller rec (EPath p) = Inr (path_value (path_root caller rec p) (tl (segments p)))"
| "pred_value caller rec (EBinary bop a b _) =
     bindR (pred_value caller rec a) (\<lambda>x. bindR (pred_value caller rec b) (\<lambda>y. binary_value bop x y))"
| "pred_value caller rec (EUnary uop a _) =
     bindR (pred_value caller rec a) (\<lambda>x. bindR (as_bool x) (\<lambda>b. Inr (NBool (\<not> b))))"
| "pred_value caller rec (ECall p args _) =
     (case args of
        [a, b] \<Rightarrow> bindR (pred_value caller rec a) (\<lambda>x. bindR (pred_value caller rec b) (\<lambda>y.
                   call_value caller rec (joined p) x y))
      | _ \<Rightarrow> Inl TypeMismatch)"
| "pred_value caller rec (EList _ _) = Inl TypeMismatch"

text \<open>The stack a predicate needs, the strings it holds, and the paths it loads.\<close>

fun stack_depth :: "expr \<Rightarrow> nat" where
  "stack_depth (ELiteral _ _) = 1"
| "stack_depth (EPath _) = 1"
| "stack_depth (EBinary _ a b _) = max (stack_depth a) (1 + stack_depth b)"
| "stack_depth (EUnary _ a _) = stack_depth a"
| "stack_depth (ECall _ args _) =
     (case args of [a, b] \<Rightarrow> max (stack_depth a) (1 + stack_depth b) | _ \<Rightarrow> 1)"
| "stack_depth (EList _ _) = 1"

fun expr_strings :: "expr \<Rightarrow> string list" where
  "expr_strings (ELiteral (LString s) _) = [s]"
| "expr_strings (ELiteral _ _) = []"
| "expr_strings (EPath p) = segments p"
| "expr_strings (EBinary _ a b _) = expr_strings a @ expr_strings b"
| "expr_strings (EUnary _ a _) = expr_strings a"
| "expr_strings (ECall _ args _) = concat (map expr_strings args)"
| "expr_strings (EList _ _) = []"

lemma stack_depth_pos: "0 < stack_depth e"
  by (induction e rule: stack_depth.induct) (auto split: list.splits)

section \<open>Reading code at an address\<close>

lemma code_at_u8: "code_at ir ip [b] \<Longrightarrow> read_u8 eof ir ip = Inr (b, ip + 1)"
  by (simp add: read_u8_def code_at_nth)

lemma code_at_u16: "code_at ir ip (le_bytes 2 w) \<Longrightarrow> read_u16 eof ir ip = Inr (w, ip + 2)"
  by (auto simp: code_at_def byte_simps)

lemma code_at_i64: "code_at ir ip (le_bytes 8 w) \<Longrightarrow> read_i64 eof ir ip = Inr (w, ip + 8)"
  by (auto simp: code_at_def byte_simps)

lemma code_at_f64: "code_at ir ip (le_bytes 8 w) \<Longrightarrow> read_f64 eof ir ip = Inr (w, ip + 8)"
  by (auto simp: code_at_def byte_simps)

lemmas code_at_reads = code_at_u8 code_at_u16 code_at_i64 code_at_f64

lemma lower_segment_at:
  assumes "lower_segment seg = Inr bs" and "code_at ir ip bs"
  shows "read_u16 eof ir ip = Inr (word_of_nat (length seg), ip + 2)"
    and "unat (word_of_nat (length seg) :: u16) = length seg"
    and "slice_opt ir (ip + 2) (ip + 2 + length seg) = Some (bytes_of seg)"
    and "length bs = 2 + length seg"
proof -
  from assms(1) have len: "length seg < 2 ^ 16"
    and bs: "bs = le_bytes 2 (word_of_nat (length seg) :: u16) @ bytes_of seg"
    by (auto simp: lower_segment_def split: if_splits)
  with assms(2) have at: "code_at ir ip (le_bytes 2 (word_of_nat (length seg) :: u16))"
    "code_at ir (ip + 2) (bytes_of seg)"
    by (simp_all add: code_at_append)
  show "read_u16 eof ir ip = Inr (word_of_nat (length seg), ip + 2)"
    by (rule code_at_u16 [OF at(1)])
  show "unat (word_of_nat (length seg) :: u16) = length seg"
    using len by (simp add: unat_of_nat take_bit_nat_eq_self)
  show "slice_opt ir (ip + 2) (ip + 2 + length seg) = Some (bytes_of seg)"
    using code_at_slice [OF at(2)] by simp
  show "length bs = 2 + length seg" using bs by simp
qed

text \<open>The shape of a compiled path and of a compiled literal.\<close>

definition load_op :: "path \<Rightarrow> u8" where
  "load_op p = (if hd (segments p) = ''caller'' then LOAD_CALLER else LOAD_SELF)"

lemma lower_path_shape:
  assumes "lower_path p = Inr code" and "code_at ir ip code"
  obtains ks segs where "segments p = hd (segments p) # ks" "hd (segments p) \<in> {''caller'', ''self''}"
    "mapR lower_segment ks = Inr segs" "code_at ir ip [load_op p]"
    "read_u8 eof ir (ip + 1) = Inr (word_of_nat (length ks), ip + 2)"
    "unat (word_of_nat (length ks) :: u8) = length ks"
    "code_at ir (ip + 2) (concat segs)" "length code = 2 + length (concat segs)"
proof -
  from assms(1) obtain root ks where p: "segments p = root # ks"
    by (auto simp: lower_path_def split: list.splits)
  from assms(1) p obtain segs where segs: "mapR lower_segment ks = Inr segs" "length ks < 2 ^ 8"
    and code: "code = load_op p # word_of_nat (length ks) # concat segs"
    and root: "root = ''caller'' \<or> root = ''self''"
    by (auto simp: lower_path_def lower_path_from_def load_op_def result_simps split: if_splits)
  have at: "code_at ir ip [load_op p]" "code_at ir (ip + 1) [word_of_nat (length ks)]"
    "code_at ir (ip + 2) (concat segs)"
    using assms(2) code code_at_append [of ir ip "[load_op p]" "[word_of_nat (length ks)] @ concat segs"]
      code_at_append [of ir "ip + 1" "[word_of_nat (length ks)]" "concat segs"]
    by simp_all
  have "unat (word_of_nat (length ks) :: u8) = length ks"
    using segs(2) by (simp add: unat_of_nat take_bit_nat_eq_self)
  with p root segs(1) at code code_at_u8 [OF at(2)] show ?thesis
    by (intro that [of ks segs]) auto
qed

lemma lower_literal_shape:
  assumes "lower_literal lit = Inr code" and "code_at ir ip code"
  obtains tag args where "code = tag # args" "code_at ir ip [tag]" "code_at ir (Suc ip) args"
proof -
  obtain tag args where code: "code = tag # args"
    using assms(1) by (cases lit) (auto split: if_splits)
  with assms(2) show ?thesis
    using code_at_Cons [of ir ip tag args] by (intro that [of tag args]) simp_all
qed

section \<open>The interface of a policy machine\<close>

text \<open>
  \<open>delivers run rel err ip st r R\<close>: the result \<open>R\<close> of a run is the error \<open>r\<close> stands for, or
  the result of going on at \<open>ip\<close> with the value of \<open>r\<close> on the stack \<open>st\<close>.
\<close>

definition delivers ::
  "(nat \<Rightarrow> 'v list \<Rightarrow> 'e + bool) \<Rightarrow> (native_val \<Rightarrow> 'v \<Rightarrow> bool) \<Rightarrow> (ir_error \<Rightarrow> 'e) \<Rightarrow>
     nat \<Rightarrow> 'v list \<Rightarrow> ir_error + native_val \<Rightarrow> 'e + bool \<Rightarrow> bool" where
  "delivers run rel err ip st r R \<longleftrightarrow>
     (case r of Inl e \<Rightarrow> R = Inl (err e) | Inr x \<Rightarrow> \<exists>v. rel x v \<and> R = run ip (v # st))"

lemma delivers_simps [simp]:
  "delivers run rel err ip st (Inl e) R \<longleftrightarrow> R = Inl (err e)"
  "delivers run rel err ip st (Inr x) R \<longleftrightarrow> (\<exists>v. rel x v \<and> R = run ip (v # st))"
  by (simp_all add: delivers_def)

locale policy_machine =
  fixes run :: "nat \<Rightarrow> 'v list \<Rightarrow> 'e + bool"
    and ir :: "u8 list"
    and caller :: json
    and rec :: json
    and rel :: "native_val \<Rightarrow> 'v \<Rightarrow> bool"
    and err :: "ir_error \<Rightarrow> 'e"
    and fine :: "expr \<Rightarrow> bool"
  assumes fine_binary: "fine (EBinary bop a b sp) \<Longrightarrow> fine a \<and> fine b"
    and fine_unary: "fine (EUnary uop a sp) \<Longrightarrow> fine a"
    and fine_call: "fine (ECall p [a, b] sp) \<Longrightarrow> fine a \<and> fine b"
    and literal_law:
      "lower_literal lit = Inr code \<Longrightarrow> code_at ir ip code \<Longrightarrow> fine (ELiteral lit sp) \<Longrightarrow>
       length st < MAX_STACK \<Longrightarrow> delivers run rel err (ip + length code) st (literal_value lit) (run ip st)"
    and path_law:
      "lower_path p = Inr code \<Longrightarrow> code_at ir ip code \<Longrightarrow> fine (EPath p) \<Longrightarrow> length st < MAX_STACK \<Longrightarrow>
       delivers run rel err (ip + length code) st (Inr (path_value (path_root caller rec p) (tl (segments p)))) (run ip st)"
    and binary_law:
      "binary_tag bop = Some tag \<Longrightarrow> code_at ir ip [tag] \<Longrightarrow> fine (EBinary bop a b sp) \<Longrightarrow>
       pred_value caller rec a = Inr x \<Longrightarrow> pred_value caller rec b = Inr y \<Longrightarrow> rel x v \<Longrightarrow> rel y w \<Longrightarrow>
       length st < MAX_STACK \<Longrightarrow> delivers run rel err (ip + 1) st (binary_value bop x y) (run ip (w # v # st))"
    and not_law:
      "code_at ir ip [OP_NOT] \<Longrightarrow> rel x v \<Longrightarrow> length st < MAX_STACK \<Longrightarrow>
       delivers run rel err (ip + 1) st (bindR (as_bool x) (\<lambda>b. Inr (NBool (\<not> b)))) (run ip (v # st))"
    and call_law:
      "builtin_tag (joined p) = Some tag \<Longrightarrow> code_at ir ip [tag] \<Longrightarrow> fine (ECall p [a, b] sp) \<Longrightarrow>
       pred_value caller rec a = Inr x \<Longrightarrow> pred_value caller rec b = Inr y \<Longrightarrow> rel x v \<Longrightarrow> rel y w \<Longrightarrow>
       length st < MAX_STACK \<Longrightarrow>
       delivers run rel err (ip + 1) st (call_value caller rec (joined p) x y) (run ip (w # v # st))"
    and result_law:
      "code_at ir ip [OP_RESULT] \<Longrightarrow> rel x v \<Longrightarrow>
       run ip [v] = (case as_bool x of Inl e \<Rightarrow> Inl (err e) | Inr b \<Rightarrow> Inr b)"
begin

lemma two_operands:
  assumes "delivers run rel err ip1 st ra (run ip st)"
    and "\<And>v. delivers run rel err ip2 (v # st) rb (run ip1 (v # st))"
    and "\<And>x y v w. ra = Inr x \<Longrightarrow> rb = Inr y \<Longrightarrow> rel x v \<Longrightarrow> rel y w \<Longrightarrow>
           delivers run rel err ip3 st (f x y) (run ip2 (w # v # st))"
  shows "delivers run rel err ip3 st (bindR ra (\<lambda>x. bindR rb (\<lambda>y. f x y))) (run ip st)"
proof (cases ra)
  case (Inr x)
  with assms(1) obtain v where v: "rel x v" "run ip st = run ip1 (v # st)" by auto
  show ?thesis
  proof (cases rb)
    case (Inr y)
    with assms(2) [of v] obtain w where "rel y w" "run ip1 (v # st) = run ip2 (w # v # st)" by auto
    with assms(3) [OF \<open>ra = Inr x\<close> Inr v(1)] v(2) \<open>ra = Inr x\<close> Inr show ?thesis by simp
  qed (use assms(2) [of v] v(2) Inr in simp)
qed (use assms(1) in simp)

text \<open>Compiled predicates compute their meaning.\<close>

lemma lower_expr_runs:
  assumes "lower_expr e = Inr code" and "code_at ir ip code" and "fine e"
    and "length st + stack_depth e \<le> MAX_STACK"
  shows "delivers run rel err (ip + length code) st (pred_value caller rec e) (run ip st)"
  using assms
proof (induction e arbitrary: code ip st)
  case (ELiteral lit sp)
  then show ?case using literal_law [of lit code ip sp st] by simp
next
  case (EPath p)
  then show ?case using path_law [of p code ip st] by simp
next
  case (EUnary uop a sp)
  then obtain c where c: "lower_expr a = Inr c" "uop = UNot" "code = c @ [OP_NOT]"
    by (cases uop) (auto simp: result_simps)
  with EUnary.prems(2) have at: "code_at ir ip c" "code_at ir (ip + length c) [OP_NOT]"
    by (simp_all add: code_at_append)
  have "length st < MAX_STACK"
    using EUnary.prems(4) stack_depth_pos [of a] by simp
  moreover have "delivers run rel err (ip + length c) st (pred_value caller rec a) (run ip st)"
    using EUnary.prems fine_unary by (intro EUnary.IH [OF c(1) at(1)]) auto
  ultimately show ?case
    using not_law [OF at(2)] c(3) by (cases "pred_value caller rec a") auto
next
  case (EBinary bop a b sp)
  then obtain ca cb tag where c: "lower_expr a = Inr ca" "lower_expr b = Inr cb" "binary_tag bop = Some tag"
    "code = ca @ cb @ [tag]"
    by (auto simp: result_simps)
  from EBinary.prems(2) c(4) have at: "code_at ir ip ca" "code_at ir (ip + length ca) cb"
    "code_at ir (ip + length ca + length cb) [tag]"
    by (simp_all add: code_at_append)
  have fine: "fine a" "fine b" using fine_binary EBinary.prems(3) by blast+
  have depth: "length st + stack_depth a \<le> MAX_STACK" "length st + 1 + stack_depth b \<le> MAX_STACK"
    "length st < MAX_STACK"
    using EBinary.prems(4) by simp_all
  have "delivers run rel err (ip + length ca + length cb + 1) st
      (bindR (pred_value caller rec a) (\<lambda>x. bindR (pred_value caller rec b) (\<lambda>y. binary_value bop x y))) (run ip st)"
  proof (rule two_operands)
    show "delivers run rel err (ip + length ca) st (pred_value caller rec a) (run ip st)"
      by (rule EBinary.IH(1) [OF c(1) at(1) fine(1) depth(1)])
    show "delivers run rel err (ip + length ca + length cb) (v # st) (pred_value caller rec b) (run (ip + length ca) (v # st))" for v
      using EBinary.IH(2) [OF c(2) at(2) fine(2), of "v # st"] depth(2) by simp
  qed (use binary_law [OF c(3) at(3) EBinary.prems(3)] depth(3) in blast)
  then show ?case by (simp add: c(4) add.assoc)
next
  case (ECall p args sp)
  then obtain a b tag where args: "args = [a, b]" and tag: "builtin_tag (joined p) = Some tag"
    by (auto split: option.splits list.splits)
  with ECall.prems(1) obtain ca cb where c: "lower_expr a = Inr ca" "lower_expr b = Inr cb" "code = ca @ cb @ [tag]"
    by (auto simp: result_simps)
  from ECall.prems(2) c(3) have at: "code_at ir ip ca" "code_at ir (ip + length ca) cb"
    "code_at ir (ip + length ca + length cb) [tag]"
    by (simp_all add: code_at_append)
  have fine: "fine a" "fine b" using fine_call ECall.prems(3) args by blast+
  have depth: "length st + stack_depth a \<le> MAX_STACK" "length st + 1 + stack_depth b \<le> MAX_STACK"
    "length st < MAX_STACK"
    using ECall.prems(4) args by simp_all
  have "delivers run rel err (ip + length ca) st (pred_value caller rec a) (run ip st)"
    by (rule ECall.IH [OF _ c(1) at(1) fine(1) depth(1)]) (simp add: args)
  moreover have "delivers run rel err (ip + length ca + length cb) (v # st) (pred_value caller rec b)
      (run (ip + length ca) (v # st))" for v
    by (rule ECall.IH [OF _ c(2) at(2) fine(2)]) (use depth(2) in \<open>simp_all add: args\<close>)
  ultimately have "delivers run rel err (ip + length ca + length cb + 1) st
      (bindR (pred_value caller rec a) (\<lambda>x. bindR (pred_value caller rec b) (\<lambda>y. call_value caller rec (joined p) x y)))
      (run ip st)"
    by (rule two_operands) (use call_law [OF tag at(3) ECall.prems(3) [unfolded args]] depth(3) in blast)
  then show ?case by (simp add: c(3) args add.assoc)
next
  case (EList es sp)
  then show ?case by simp
qed

end

section \<open>Rules and the action table\<close>

definition rule_verdict :: "json \<Rightarrow> json \<Rightarrow> policy_rule \<Rightarrow> ir_error + bool" where
  "rule_verdict caller rec rule = bindR (pred_value caller rec (rule_predicate rule)) as_bool"

text \<open>The verdict of a policy block: the first rule that lists the action decides.\<close>

definition block_verdict :: "policy_block \<Rightarrow> json \<Rightarrow> json \<Rightarrow> action \<Rightarrow> ir_error + bool" where
  "block_verdict block caller rec a =
     (case find (\<lambda>r. a \<in> set (rule_actions r)) (block_rules block) of
        None \<Rightarrow> Inr False
      | Some rule \<Rightarrow> rule_verdict caller rec rule)"

context policy_machine
begin

lemma lower_rule_runs:
  assumes "lower_rule rule = Inr (msk, stream)" and "code_at ir ip stream"
    and "fine (rule_predicate rule)" and "stack_depth (rule_predicate rule) \<le> MAX_STACK"
  shows "run ip [] = (case rule_verdict caller rec rule of Inl e \<Rightarrow> Inl (err e) | Inr b \<Rightarrow> Inr b)"
proof -
  from assms(1) obtain code where code: "lower_expr (rule_predicate rule) = Inr code" "stream = code @ [OP_RESULT]"
    by (auto simp: lower_rule_def result_simps)
  with assms(2) have at: "code_at ir ip code" "code_at ir (ip + length code) [OP_RESULT]"
    by (simp_all add: code_at_append)
  have "delivers run rel err (ip + length code) [] (pred_value caller rec (rule_predicate rule)) (run ip [])"
    using assms(4) by (intro lower_expr_runs [OF code(1) at(1) assms(3)]) simp
  then show ?thesis
    using result_law [OF at(2)] by (cases "pred_value caller rec (rule_predicate rule)") (auto simp: rule_verdict_def)
qed

end

lemma code_at_concat:
  "code_at ir ip (concat xss) \<Longrightarrow> i < length xss \<Longrightarrow> code_at ir (ip + length (concat (take i xss))) (xss ! i)"
proof (induction xss arbitrary: ip i)
  case (Cons xs xss)
  then show ?case by (cases i) (auto simp: code_at_append simp flip: add.assoc)
qed simp

lemma table_offsets_nth:
  "table_offsets r rules = Inr offs \<Longrightarrow>
     length offs = length rules \<and>
     (\<forall>i < length rules. offs ! i = r + length (concat (take i (map snd rules))) \<and> offs ! i < 2 ^ 16)"
proof (induction r rules arbitrary: offs rule: table_offsets.induct)
  case (2 running msk stream rest)
  then obtain os where os: "table_offsets (running + length stream) rest = Inr os" "offs = running # os"
    "running + length stream < 2 ^ 16"
    by (auto simp: result_simps split: if_splits)
  with 2 have "length os = length rest \<and>
     (\<forall>i < length rest. os ! i = running + length stream + length (concat (take i (map snd rest))) \<and> os ! i < 2 ^ 16)"
    by (auto split: if_splits)
  with os(2,3) show ?case by (auto simp: nth_Cons split: nat.splits)
qed simp

lemma length_concat_triples:
  "\<forall>xs \<in> set xss. length xs = 3 \<Longrightarrow> length (concat xss) = 3 * length xss"
  by (induction xss) auto

lemma table_bytes_at:
  assumes "code_at ir ip (table_bytes rules offs)" and "length offs = length rules" and "i < length rules"
  shows "code_at ir (ip + 3 * i) (fst (rules ! i) # le_bytes 2 (word_of_nat (offs ! i) :: u16))"
proof -
  let ?xss = "map (\<lambda>((msk, _), off). msk # le_bytes 2 (word_of_nat off :: u16)) (zip rules offs)"
  have "code_at ir (ip + length (concat (take i ?xss))) (?xss ! i)"
    using assms by (intro code_at_concat) (simp_all add: table_bytes_def)
  moreover have "length (concat (take i ?xss)) = 3 * i"
    using assms(2,3) by (subst length_concat_triples) (auto dest!: in_set_takeD)
  moreover have "?xss ! i = fst (rules ! i) # le_bytes 2 (word_of_nat (offs ! i) :: u16)"
    using assms(2,3) by (simp add: case_prod_unfold)
  ultimately show ?thesis by simp
qed

lemma length_table_bytes: "length offs = length rules \<Longrightarrow> length (table_bytes rules offs) = 3 * length rules"
  unfolding table_bytes_def by (subst length_concat_triples) auto

lemma code_at_index:
  assumes "code_at ir ip [a, b, c]"
  shows "ir ! ip = a" and "ir ! (ip + 1) = b" and "ir ! (ip + 2) = c"
  using assms by (auto simp: code_at_def nth_append)

lemma find_upt_nth: "map_option ((!) xs) (find (\<lambda>i. P (xs ! i)) [0..<length xs]) = find P xs"
proof -
  have "find P (map f ys) = map_option f (find (\<lambda>y. P (f y)) ys)" for f :: "nat \<Rightarrow> 'a" and ys
    by (induction ys) auto
  from this [of "(!) xs" "[0..<length xs]"] show ?thesis by (simp add: map_nth)
qed

lemma find_upt_Some_less: "find P [0..<n] = Some i \<Longrightarrow> i < n \<and> P i"
  by (auto simp: find_Some_iff)

lemma action_bit_disjoint: "action_bit b AND action_bit a \<noteq> 0 \<longleftrightarrow> a = b"
  by (cases a; cases b) (simp_all add: action_bit_defs)

lemma action_mask_bit: "action_mask acts AND action_bit a \<noteq> 0 \<longleftrightarrow> a \<in> set acts"
proof -
  have "fold (\<lambda>b m. m OR action_bit b) acts m AND action_bit a \<noteq> 0
      \<longleftrightarrow> m AND action_bit a \<noteq> 0 \<or> a \<in> set acts" for m
    by (induction acts arbitrary: m)
       (auto simp: bit.conj_disj_distrib2 or_eq_0_iff simp flip: action_bit_disjoint)
  from this [of 0] show ?thesis by (simp add: action_mask_def)
qed

lemma section_header:
  assumes "length body < 2 ^ 32"
  shows "take 4 (ir_section body) = MAGIC" and "declared_len (ir_section body) = length body"
    and "take (length body) (drop 8 (ir_section body)) = body" and "length (ir_section body) = length body + 8"
proof -
  have m: "length MAGIC = 4" by (simp add: MAGIC_def)
  show "take 4 (ir_section body) = MAGIC" by (simp add: ir_section_def m)
  have "take 4 (drop 4 (ir_section body)) = le_bytes 4 (word_of_nat (length body) :: u32)"
    by (simp add: ir_section_def m)
  then show "declared_len (ir_section body) = length body"
    using assms by (simp add: declared_len_def unat_of_nat take_bit_nat_eq_self)
  show "take (length body) (drop 8 (ir_section body)) = body"
    by (simp add: ir_section_def m)
  show "length (ir_section body) = length body + 8"
    by (simp add: ir_section_def m)
qed

text \<open>The body: its count, the entry the scan finds, and the code at that entry.\<close>

definition table_layout :: "u8 list \<Rightarrow> (u8 \<times> u8 list) list \<Rightarrow> bool" where
  "table_layout body rules \<longleftrightarrow>
     unat (body ! 0) = length rules \<and> body \<noteq> [] \<and> 1 + length rules * 3 \<le> length body
     \<and> (\<forall>act. case find (\<lambda>i. fst (rules ! i) AND act \<noteq> 0) [0..<length rules] of
           None \<Rightarrow> table_entry body (length rules) (1 + length rules * 3) act = None
         | Some i \<Rightarrow> (\<exists>ip. table_entry body (length rules) (1 + length rules * 3) act = Some ip
                         \<and> code_at body ip (snd (rules ! i))))"

lemma build_layout:
  assumes "table_offsets 0 rules = Inr offs" and "length rules < 2 ^ 8"
    and body: "body = word_of_nat (length rules) # table_bytes rules offs @ concat (map snd rules)"
  shows "table_layout body rules"
proof -
  have offs: "length offs = length rules" "\<And>i. i < length rules \<Longrightarrow> offs ! i < 2 ^ 16"
    "\<And>i. i < length rules \<Longrightarrow> offs ! i = length (concat (take i (map snd rules)))"
    using table_offsets_nth [OF assms(1)] by auto
  have "code_at body 0 ([word_of_nat (length rules)] @ table_bytes rules offs @ concat (map snd rules))"
    unfolding code_at_def body by auto
  then have at: "code_at body 1 (table_bytes rules offs)"
    "code_at body (1 + length rules * 3) (concat (map snd rules))"
    by (simp_all only: code_at_append) (simp_all add: length_table_bytes [OF offs(1)] mult.commute)
  have entry: "body ! (1 + i * 3) = fst (rules ! i)"
    "unat (from_le [body ! (2 + i * 3), body ! (3 + i * 3)] :: u16) = offs ! i" if "i < length rules" for i
  proof -
    let ?w = "word_of_nat (offs ! i) :: u16"
    from table_bytes_at [OF at(1) offs(1) that]
    have c: "code_at body (1 + i * 3) [fst (rules ! i), ucast ?w, ucast (drop_bit 8 ?w)]"
      by (simp add: numeral_2_eq_2 mult.commute)
    note ix = code_at_index [OF c]
    show "body ! (1 + i * 3) = fst (rules ! i)" by (rule ix(1))
    have "[body ! (2 + i * 3), body ! (3 + i * 3)] = le_bytes 2 ?w"
      using ix(2,3) by (simp add: numeral_2_eq_2 numeral_3_eq_3)
    then show "unat (from_le [body ! (2 + i * 3), body ! (3 + i * 3)] :: u16) = offs ! i"
      using offs(2) [OF that] by (simp add: unat_of_nat take_bit_nat_eq_self del: from_le.simps)
  qed
  have "find (\<lambda>i. body ! (1 + i * 3) AND act \<noteq> 0) [0..<length rules]
      = find (\<lambda>i. fst (rules ! i) AND act \<noteq> 0) [0..<length rules]" for act
    using entry(1) by (intro find_cong) auto
  moreover have "code_at body (1 + length rules * 3 + offs ! i) (snd (rules ! i))" if "i < length rules" for i
    using code_at_concat [OF at(2), of i] offs(3) that by simp
  ultimately show ?thesis
    using entry(2) assms(2) offs(1)
    by (auto simp: table_layout_def table_entry_def body length_table_bytes unat_of_nat take_bit_nat_eq_self
      split: option.splits dest!: find_upt_Some_less simp del: from_le.simps)
qed

text \<open>
  The entry the action table gives for an action is the code of the first rule that lists
  the action; without such a rule there is none.
\<close>

lemma block_entry:
  assumes "build_action_table_and_rules block = Inr body"
  shows "body \<noteq> []" and "unat (body ! 0) = length (block_rules block)"
    and "1 + length (block_rules block) * 3 \<le> length body"
    and "case find (\<lambda>r. a \<in> set (rule_actions r)) (block_rules block) of
        None \<Rightarrow> table_entry body (length (block_rules block)) (1 + length (block_rules block) * 3) (action_bit a) = None
      | Some rule \<Rightarrow> \<exists>ip msk stream.
          table_entry body (length (block_rules block)) (1 + length (block_rules block) * 3) (action_bit a) = Some ip
          \<and> lower_rule rule = Inr (msk, stream) \<and> code_at body ip stream"
proof -
  from assms obtain rules offs where rules: "mapR lower_rule (block_rules block) = Inr rules"
    "length rules < 2 ^ 8" "table_offsets 0 rules = Inr offs"
    "body = word_of_nat (length rules) # table_bytes rules offs @ concat (map snd rules)"
    by (auto simp: build_action_table_and_rules_def result_simps split: if_splits)
  note lay = build_layout [OF rules(3,2,4)]
  have len: "length rules = length (block_rules block)" by (rule mapR_length [OF rules(1)])
  with lay show "body \<noteq> []" "unat (body ! 0) = length (block_rules block)"
    "1 + length (block_rules block) * 3 \<le> length body"
    by (simp_all add: table_layout_def)
  have nth: "lower_rule (block_rules block ! i) = Inr (rules ! i)" if "i < length rules" for i
    using mapR_nth [OF rules(1)] that len by simp
  then have bit: "fst (rules ! i) AND action_bit a \<noteq> 0 \<longleftrightarrow> a \<in> set (rule_actions (block_rules block ! i))"
    if "i < length rules" for i
  proof -
    have "fst (rules ! i) = action_mask (rule_actions (block_rules block ! i))"
      using nth [OF that] by (cases "rules ! i") (auto simp: lower_rule_def result_simps)
    then show ?thesis by (simp add: action_mask_bit)
  qed
  have "find (\<lambda>i. fst (rules ! i) AND action_bit a \<noteq> 0) [0..<length rules]
      = find (\<lambda>i. a \<in> set (rule_actions (block_rules block ! i))) [0..<length (block_rules block)]"
    using bit len by (intro find_cong) auto
  then have f: "find (\<lambda>r. a \<in> set (rule_actions r)) (block_rules block) = map_option ((!) (block_rules block))
      (find (\<lambda>i. fst (rules ! i) AND action_bit a \<noteq> 0) [0..<length rules])"
    by (simp add: find_upt_nth [of "block_rules block" "\<lambda>r. a \<in> set (rule_actions r)"])
  show "case find (\<lambda>r. a \<in> set (rule_actions r)) (block_rules block) of
        None \<Rightarrow> table_entry body (length (block_rules block)) (1 + length (block_rules block) * 3) (action_bit a) = None
      | Some rule \<Rightarrow> \<exists>ip msk stream.
          table_entry body (length (block_rules block)) (1 + length (block_rules block) * 3) (action_bit a) = Some ip
          \<and> lower_rule rule = Inr (msk, stream) \<and> code_at body ip stream"
  proof (cases "find (\<lambda>i. fst (rules ! i) AND action_bit a \<noteq> 0) [0..<length rules]")
    case None
    with lay f len show ?thesis by (auto simp: table_layout_def dest!: spec [of _ "action_bit a"])
  next
    case (Some i)
    then have "i < length rules" using find_upt_Some_less by blast
    moreover obtain ip where "table_entry body (length rules) (1 + length rules * 3) (action_bit a) = Some ip"
      "code_at body ip (snd (rules ! i))"
      using lay Some by (auto simp: table_layout_def dest!: spec [of _ "action_bit a"])
    moreover have "find (\<lambda>r. a \<in> set (rule_actions r)) (block_rules block) = Some (block_rules block ! i)"
      using f Some by simp
    ultimately show ?thesis
      using len nth [of i] by (cases "rules ! i") auto
  qed
qed

end
