(* ===== verification/Rust_Parse.thy ===== *)
theory Rust_Parse
  imports Float64
begin

text \<open>
  The integer and float parsers of Rust's standard library (\<open>str::parse\<close>) that the code
  relies on, and the decimal formatting of integers, with the round trip between them.
\<close>

definition is_digit :: "char \<Rightarrow> bool" where
  "is_digit c \<longleftrightarrow> 48 \<le> (of_char c :: nat) \<and> (of_char c :: nat) \<le> 57"

definition digit_val :: "char \<Rightarrow> nat" where
  "digit_val c = of_char c - 48"

definition dec_value :: "string \<Rightarrow> nat" where
  "dec_value ds = foldl (\<lambda>n c. 10 * n + digit_val c) 0 ds"

text \<open>A leading sign; the sign of an unsigned number is positive.\<close>

definition strip_sign :: "string \<Rightarrow> bool \<times> string" where
  "strip_sign s =
     (case s of
        c # cs \<Rightarrow> if c = CHR ''-'' then (True, cs) else if c = CHR ''+'' then (False, cs) else (False, s)
      | [] \<Rightarrow> (False, []))"

definition all_digits :: "string \<Rightarrow> bool" where
  "all_digits ds \<longleftrightarrow> ds \<noteq> [] \<and> list_all is_digit ds"

definition signed_value :: "bool \<Rightarrow> nat \<Rightarrow> int" where
  "signed_value neg n = (if neg then - int n else int n)"

definition parse_i64 :: "string \<Rightarrow> i64 option" where
  "parse_i64 s =
     (case strip_sign s of (neg, ds) \<Rightarrow>
        if all_digits ds \<and> - (2 ^ 63) \<le> signed_value neg (dec_value ds) \<and> signed_value neg (dec_value ds) < 2 ^ 63
        then Some (word_of_int (signed_value neg (dec_value ds))) else None)"

text \<open>\<open>parse::<u64>\<close> accepts a plus sign and no minus sign.\<close>

definition parse_u64 :: "string \<Rightarrow> u64 option" where
  "parse_u64 s =
     (let ds = (case s of c # cs \<Rightarrow> if c = CHR ''+'' then cs else s | [] \<Rightarrow> []) in
      if all_digits ds \<and> dec_value ds < 2 ^ 64 then Some (word_of_nat (dec_value ds)) else None)"

definition lower_char :: "char \<Rightarrow> char" where
  "lower_char c = (if 65 \<le> (of_char c :: nat) \<and> (of_char c :: nat) \<le> 90 then char_of (of_char c + 32 :: nat) else c)"

definition f64_special :: "bool \<Rightarrow> string \<Rightarrow> f64 option" where
  "f64_special neg s =
     (let l = map lower_char s in
      if l = ''nan'' then Some 0x7FF8000000000000
      else if l = ''inf'' \<or> l = ''infinity'' then Some (f64_make neg f64_inf_mag)
      else None)"

text \<open>The exponent part: empty, or the letter, an optional sign and digits.\<close>

definition parse_exponent :: "string \<Rightarrow> int option" where
  "parse_exponent r =
     (case r of
        [] \<Rightarrow> Some 0
      | c # t \<Rightarrow>
          if c = CHR ''e'' \<or> c = CHR ''E'' then
            (case strip_sign t of (neg, ds) \<Rightarrow>
               if all_digits ds then Some (signed_value neg (dec_value ds)) else None)
          else None)"

definition parse_f64 :: "string \<Rightarrow> f64 option" where
  "parse_f64 s =
     (case strip_sign s of (neg, u) \<Rightarrow>
        (case f64_special neg u of
           Some x \<Rightarrow> Some x
         | None \<Rightarrow>
             (let ip = takeWhile is_digit u; r = dropWhile is_digit u;
                  (fp, r2) = (case r of c # t \<Rightarrow> if c = CHR ''.'' then (takeWhile is_digit t, dropWhile is_digit t) else ([], r)
                              | [] \<Rightarrow> ([], []))
              in if ip = [] \<and> fp = [] then None
                 else map_option (\<lambda>e. f64_of_decimal neg (dec_value (ip @ fp)) (e - int (length fp)))
                        (parse_exponent r2))))"

section \<open>Formatting\<close>

definition show_i64 :: "i64 \<Rightarrow> string" where
  "show_i64 x = (if sint x < 0 then CHR ''-'' # show_nat (nat (- sint x)) else show_nat (nat (sint x)))"

lemma is_digit_char: "(d :: nat) < 10 \<Longrightarrow> is_digit (char_of (48 + d))"
  by (simp add: is_digit_def)

lemma digit_val_char: "(d :: nat) < 10 \<Longrightarrow> digit_val (char_of (48 + d)) = d"
  by (simp add: digit_val_def)

lemma dec_value_snoc: "dec_value (ds @ [c]) = 10 * dec_value ds + digit_val c"
  by (simp add: dec_value_def)

lemma show_nat_digits: "all_digits (show_nat n)"
proof (induction n rule: show_nat.induct)
  case (1 n)
  then show ?case
    by (subst show_nat.simps) (auto simp: all_digits_def is_digit_char)
qed

lemma dec_value_show_nat [simp]: "dec_value (show_nat n) = n"
proof (induction n rule: show_nat.induct)
  case (1 n)
  then show ?case
    by (subst show_nat.simps)
       (auto simp: dec_value_snoc digit_val_char mod_mult_div_eq [simplified mult.commute]
             simp: dec_value_def [of "[_]"])
qed

lemma strip_sign_digits: "all_digits ds \<Longrightarrow> strip_sign ds = (False, ds)"
  by (cases ds) (auto simp: strip_sign_def all_digits_def is_digit_def)

lemma parse_show_i64 [simp]: "parse_i64 (show_i64 x) = Some x"
proof -
  have b: "- (2 ^ 63) \<le> sint x" "sint x < 2 ^ 63"
    using sint_range_size [of x] by (simp_all add: word_size)
  show ?thesis
  proof (cases "sint x < 0")
    case True
    then have "strip_sign (show_i64 x) = (True, show_nat (nat (- sint x)))"
      by (simp add: show_i64_def strip_sign_def)
    with True b show ?thesis by (simp add: parse_i64_def signed_value_def show_nat_digits)
  next
    case False
    then have "strip_sign (show_i64 x) = (False, show_nat (nat (sint x)))"
      by (simp add: show_i64_def strip_sign_digits show_nat_digits)
    with False b show ?thesis by (simp add: parse_i64_def signed_value_def show_nat_digits)
  qed
qed

end
