(* ===== verification/Runtime_Json.thy ===== *)
theory Runtime_Json
  imports Rust_Parse
begin

text \<open>
  The JSON scanner of the wasm policy runtime
  (\<open>sealstack-policy-runtime/src/json.rs\<close>): positions in a byte buffer, no allocation.
  A function returns \<open>Inl JErr\<close> where the code returns \<open>Err(())\<close> and \<open>Inl Panic\<close> where an
  index or a slice would be out of range, which in the wasm module is a trap. Positions
  are natural numbers: a buffer is shorter than 2 GiB and no position exceeds its length
  by more than a string operand.
\<close>

datatype rt_err = JErr | Panic

abbreviation b_quote :: u8 where "b_quote \<equiv> 0x22"
abbreviation b_backslash :: u8 where "b_backslash \<equiv> 0x5C"
abbreviation b_comma :: u8 where "b_comma \<equiv> 0x2C"
abbreviation b_colon :: u8 where "b_colon \<equiv> 0x3A"
abbreviation b_minus :: u8 where "b_minus \<equiv> 0x2D"
abbreviation b_lbrace :: u8 where "b_lbrace \<equiv> 0x7B"
abbreviation b_rbrace :: u8 where "b_rbrace \<equiv> 0x7D"
abbreviation b_lbrack :: u8 where "b_lbrack \<equiv> 0x5B"
abbreviation b_rbrack :: u8 where "b_rbrack \<equiv> 0x5D"
abbreviation b_u :: u8 where "b_u \<equiv> 0x75"

definition is_ws :: "u8 \<Rightarrow> bool" where
  "is_ws b \<longleftrightarrow> b = 0x20 \<or> b = 0x09 \<or> b = 0x0A \<or> b = 0x0D"

definition is_num_char :: "u8 \<Rightarrow> bool" where
  "is_num_char b \<longleftrightarrow> (0x30 \<le> b \<and> b \<le> 0x39) \<or> b = 0x2E \<or> b = 0x65 \<or> b = 0x45 \<or> b = b_minus \<or> b = 0x2B"

definition is_digit_byte :: "u8 \<Rightarrow> bool" where
  "is_digit_byte b \<longleftrightarrow> 0x30 \<le> b \<and> b \<le> 0x39"

text \<open>\<open>&bytes[i..j]\<close> and \<open>bytes[i..].starts_with(kw)\<close>, which panic out of range.\<close>

definition slice_or_panic :: "u8 list \<Rightarrow> nat \<Rightarrow> nat \<Rightarrow> rt_err + u8 list" where
  "slice_or_panic bytes i j = ok_or (slice_opt bytes i j) Panic"

definition starts_with_at :: "u8 list \<Rightarrow> nat \<Rightarrow> u8 list \<Rightarrow> rt_err + bool" where
  "starts_with_at bytes at kw =
     bindR (slice_or_panic bytes at (length bytes)) (\<lambda>rest. Inr (take (length kw) rest = kw))"

section \<open>Scanning loops\<close>

function skip_ws :: "u8 list \<Rightarrow> nat \<Rightarrow> nat" where
  "skip_ws bytes at = (if at < length bytes \<and> is_ws (bytes ! at) then skip_ws bytes (at + 1) else at)"
  by pat_completeness auto
termination by (relation "measure (\<lambda>(bytes, at). length bytes - at)") auto

declare skip_ws.simps [simp del]

function as_str_scan :: "u8 list \<Rightarrow> nat \<Rightarrow> nat \<Rightarrow> rt_err + u8 list" where
  "as_str_scan bytes start i =
     (if i < length bytes then
        if bytes ! i = b_backslash then
          if nth_opt bytes (i + 1) = Some b_u then Inl JErr else as_str_scan bytes start (i + 2)
        else if bytes ! i = b_quote then slice_or_panic bytes start i
        else as_str_scan bytes start (i + 1)
      else Inl JErr)"
  by pat_completeness auto
termination by (relation "measure (\<lambda>(bytes, start, i). length bytes - i)") auto

declare as_str_scan.simps [simp del]

definition as_str :: "u8 list \<Rightarrow> nat \<Rightarrow> rt_err + u8 list" where
  "as_str bytes at =
     (if nth_opt bytes at \<noteq> Some b_quote then Inl JErr else as_str_scan bytes (at + 1) (at + 1))"

function num_end :: "u8 list \<Rightarrow> nat \<Rightarrow> nat" where
  "num_end bytes i = (if i < length bytes \<and> is_num_char (bytes ! i) then num_end bytes (i + 1) else i)"
  by pat_completeness auto
termination by (relation "measure (\<lambda>(bytes, i). length bytes - i)") auto

declare num_end.simps [simp del]

definition skip_number :: "u8 list \<Rightarrow> nat \<Rightarrow> rt_err + nat" where
  "skip_number bytes at =
     (let sign_consumed = (nth_opt bytes at = Some b_minus);
          digits_start = (if sign_consumed then at + 1 else at);
          i = num_end bytes digits_start
      in if i = digits_start then Inl JErr
         else if \<not> sign_consumed \<and> i = at then Inl JErr
         else Inr i)"

text \<open>The loop of \<open>skip_container\<close>, with its depth and its in-string flag.\<close>

function container_scan :: "u8 list \<Rightarrow> u8 \<Rightarrow> u8 \<Rightarrow> int \<Rightarrow> nat \<Rightarrow> bool \<Rightarrow> rt_err + nat" where
  "container_scan bytes opener closer depth i in_str =
     (if i < length bytes then
        (let b = bytes ! i in
         if in_str then
           if b = b_backslash then container_scan bytes opener closer depth (i + 2) True
           else container_scan bytes opener closer depth (i + 1) (b \<noteq> b_quote)
         else if b = b_quote then container_scan bytes opener closer depth (i + 1) True
         else if b = opener then container_scan bytes opener closer (depth + 1) (i + 1) False
         else if b = closer then
           if depth - 1 = 0 then Inr (i + 1)
           else container_scan bytes opener closer (depth - 1) (i + 1) False
         else container_scan bytes opener closer depth (i + 1) False)
      else Inl JErr)"
  by pat_completeness auto
termination by (relation "measure (\<lambda>(bytes, opener, closer, depth, i, in_str). length bytes - i)") auto

declare container_scan.simps [simp del]

definition skip_container :: "u8 list \<Rightarrow> nat \<Rightarrow> u8 \<Rightarrow> u8 \<Rightarrow> rt_err + nat" where
  "skip_container bytes at opener closer = container_scan bytes opener closer 0 at False"

fun skip_keyword :: "u8 list \<Rightarrow> nat \<Rightarrow> u8 list list \<Rightarrow> rt_err + nat" where
  "skip_keyword bytes at [] = Inl JErr"
| "skip_keyword bytes at (kw # kws) =
     bindR (starts_with_at bytes at kw) (\<lambda>yes.
     if yes then Inr (at + length kw) else skip_keyword bytes at kws)"

definition kw_true :: "u8 list" where "kw_true = bytes_of ''true''"

definition kw_false :: "u8 list" where "kw_false = bytes_of ''false''"

definition kw_null :: "u8 list" where "kw_null = bytes_of ''null''"

definition skip_value :: "u8 list \<Rightarrow> nat \<Rightarrow> rt_err + nat" where
  "skip_value bytes at =
     (case nth_opt bytes at of
        None \<Rightarrow> Inl JErr
      | Some b \<Rightarrow>
          if b = b_quote then bindR (as_str bytes at) (\<lambda>s. Inr (at + 2 + length s))
          else if b = b_lbrace then skip_container bytes at b_lbrace b_rbrace
          else if b = b_lbrack then skip_container bytes at b_lbrack b_rbrack
          else if b = 0x74 \<or> b = 0x66 \<or> b = 0x6E then skip_keyword bytes at [kw_true, kw_false, kw_null]
          else if b = b_minus \<or> is_digit_byte b then skip_number bytes at
          else Inl JErr)"

subsection \<open>A scan that succeeds moves forward and stays in the buffer\<close>

lemma skip_ws_ge: "at \<le> skip_ws bytes at"
proof (induction bytes at rule: skip_ws.induct)
  case (1 bytes at)
  then show ?case by (subst skip_ws.simps) auto
qed

lemma skip_ws_le: "at \<le> length bytes \<Longrightarrow> skip_ws bytes at \<le> length bytes"
proof (induction bytes at rule: skip_ws.induct)
  case (1 bytes at)
  then show ?case by (subst skip_ws.simps) auto
qed

lemma num_end_bounds: "i \<le> num_end bytes i \<and> (i \<le> length bytes \<longrightarrow> num_end bytes i \<le> length bytes)"
proof (induction bytes i rule: num_end.induct)
  case (1 bytes i)
  then show ?case by (auto simp: num_end.simps [of bytes i])
qed

lemma skip_number_bounds: "skip_number bytes at = Inr i \<Longrightarrow> at < i \<and> i \<le> length bytes"
  using num_end_bounds [of at bytes] num_end_bounds [of "at + 1" bytes] num_end.simps [of bytes at]
  by (auto simp: skip_number_def Let_def byte_simps split: if_splits)

lemma as_str_scan_len:
  "as_str_scan bytes start i = Inr s \<Longrightarrow> start \<le> i \<Longrightarrow> start + length s < length bytes \<and> i \<le> start + length s"
proof (induction bytes start i rule: as_str_scan.induct)
  case (1 bytes start i)
  then show ?case
    by (subst (asm) (3) as_str_scan.simps)
       (auto simp: slice_or_panic_def result_simps split: if_splits dest!: slice_opt_SomeD)
qed

lemma as_str_len: "as_str bytes at = Inr s \<Longrightarrow> at + 2 + length s \<le> length bytes"
  by (auto simp: as_str_def split: if_splits dest!: as_str_scan_len)

lemma container_scan_bounds:
  "container_scan bytes opener closer depth i in_str = Inr j \<Longrightarrow> i < j \<and> j \<le> length bytes"
proof (induction bytes opener closer depth i in_str rule: container_scan.induct)
  case (1 bytes opener closer depth i in_str)
  then show ?case
    by (subst (asm) (7) container_scan.simps) (fastforce simp: Let_def split: if_splits)
qed

lemma starts_with_at_True: "starts_with_at bytes at kw = Inr True \<Longrightarrow> at + length kw \<le> length bytes"
proof -
  assume "starts_with_at bytes at kw = Inr True"
  then have le: "at \<le> length bytes" and pre: "take (length kw) (drop at bytes) = kw"
    by (auto simp: starts_with_at_def slice_or_panic_def slice_opt_def result_simps split: if_splits)
  from arg_cong [OF pre, of length] le show ?thesis by simp
qed

lemma skip_keyword_bounds:
  "skip_keyword bytes at kws = Inr j \<Longrightarrow> [] \<notin> set kws \<Longrightarrow> at < j \<and> j \<le> length bytes"
  by (induction kws) (auto simp: result_simps dest!: starts_with_at_True split: if_splits)

lemma keywords_nonempty [simp]: "kw_true \<noteq> []" "kw_false \<noteq> []" "kw_null \<noteq> []"
  by (simp_all add: kw_true_def kw_false_def kw_null_def bytes_of_def)

lemma skip_value_bounds:
  assumes "skip_value bytes at = Inr j"
  shows "at < j \<and> j \<le> length bytes"
proof -
  have "at < j \<and> j \<le> length bytes" if "skip_keyword bytes at [kw_true, kw_false, kw_null] = Inr j"
    using skip_keyword_bounds [OF that] keywords_nonempty by auto
  with assms show ?thesis
    unfolding skip_value_def skip_container_def
    by (auto simp: result_simps split: if_splits option.splits simp del: skip_keyword.simps
      dest!: as_str_len container_scan_bounds skip_number_bounds)
qed

section \<open>Objects and arrays\<close>

function find_key_loop :: "u8 list \<Rightarrow> u8 list \<Rightarrow> nat \<Rightarrow> rt_err + nat option" where
  "find_key_loop bytes key i =
     (if nth_opt bytes i \<noteq> Some b_quote then Inl JErr
      else case as_str bytes i of
        Inl e \<Rightarrow> Inl e
      | Inr k \<Rightarrow>
          let i1 = skip_ws bytes (i + 2 + length k) in
          if nth_opt bytes i1 \<noteq> Some b_colon then Inl JErr
          else let i2 = skip_ws bytes (i1 + 1) in
            if k = key then Inr (Some i2)
            else case skip_value bytes i2 of
              Inl e \<Rightarrow> Inl e
            | Inr i3 \<Rightarrow>
                let i4 = skip_ws bytes i3 in
                case nth_opt bytes i4 of
                  None \<Rightarrow> Inl JErr
                | Some c \<Rightarrow>
                    if c = b_comma then find_key_loop bytes key (skip_ws bytes (i4 + 1))
                    else if c = b_rbrace then Inr None
                    else Inl JErr)"
  by pat_completeness auto
termination
proof (relation "measure (\<lambda>(bytes, key, i). length bytes - i)", goal_cases)
  case 1
  show ?case by simp
next
  case (2 bytes key i k i1 i2 i3 i4 c)
  then have "i < length bytes" by (simp add: nth_opt_def split: if_splits)
  moreover have "i < skip_ws bytes (i4 + 1)"
    using 2 skip_value_bounds [of bytes i2 i3] skip_ws_ge [of "i + 2 + length k" bytes]
      skip_ws_ge [of "i1 + 1" bytes] skip_ws_ge [of i3 bytes] skip_ws_ge [of "i4 + 1" bytes]
    by simp
  ultimately show ?case by simp
qed

declare find_key_loop.simps [simp del]

definition find_key_in_object :: "u8 list \<Rightarrow> nat \<Rightarrow> u8 list \<Rightarrow> rt_err + nat option" where
  "find_key_in_object bytes at key =
     (let i = skip_ws bytes (at + 1) in
      if nth_opt bytes i = Some b_rbrace then Inr None else find_key_loop bytes key i)"

fun find_path_walk :: "u8 list \<Rightarrow> nat \<Rightarrow> u8 list list \<Rightarrow> rt_err + nat option" where
  "find_path_walk bytes cursor [] = Inr (Some cursor)"
| "find_path_walk bytes cursor (key # keys) =
     (if nth_opt bytes cursor \<noteq> Some b_lbrace then Inr None
      else bindR (find_key_in_object bytes cursor key) (\<lambda>r.
        case r of None \<Rightarrow> Inr None | Some value_start \<Rightarrow> find_path_walk bytes value_start keys))"

definition find_path :: "u8 list \<Rightarrow> u8 list list \<Rightarrow> rt_err + (nat \<times> nat) option" where
  "find_path bytes path =
     bindR (find_path_walk bytes (skip_ws bytes 0) path) (\<lambda>r.
     case r of
       None \<Rightarrow> Inr None
     | Some cursor \<Rightarrow> bindR (skip_value bytes cursor) (\<lambda>e. Inr (Some (cursor, e))))"

text \<open>
  \<open>each_element\<close> with its closure as a function on the state \<open>'s\<close> it captures: the
  closure returns the new state and whether to go on.
\<close>

function each_loop ::
  "(nat \<Rightarrow> nat \<Rightarrow> 's \<Rightarrow> rt_err + ('s \<times> bool)) \<Rightarrow> u8 list \<Rightarrow> nat \<Rightarrow> 's \<Rightarrow> rt_err + 's" where
  "each_loop f bytes i s =
     (case skip_value bytes i of
        Inl e \<Rightarrow> Inl e
      | Inr j \<Rightarrow>
          (case f i j s of
             Inl e \<Rightarrow> Inl e
           | Inr (s', go) \<Rightarrow>
               if \<not> go then Inr s'
               else let i1 = skip_ws bytes j in
                 case nth_opt bytes i1 of
                   None \<Rightarrow> Inl JErr
                 | Some c \<Rightarrow>
                     if c = b_comma then each_loop f bytes (skip_ws bytes (i1 + 1)) s'
                     else if c = b_rbrack then Inr s'
                     else Inl JErr))"
  by pat_completeness auto
termination
proof (relation "measure (\<lambda>(f, bytes, i, s). length bytes - i)", goal_cases)
  case 1
  show ?case by simp
next
  case (2 f bytes i s j x s' go i1 c)
  then have "i < j \<and> j \<le> length bytes" using skip_value_bounds by blast
  then have "i < length bytes" by simp
  moreover have "i < skip_ws bytes (i1 + 1)"
    using 2 \<open>i < j \<and> j \<le> length bytes\<close> skip_ws_ge [of j bytes] skip_ws_ge [of "i1 + 1" bytes] by simp
  ultimately show ?case by simp
qed

declare each_loop.simps [simp del]

definition each_element ::
  "(nat \<Rightarrow> nat \<Rightarrow> 's \<Rightarrow> rt_err + ('s \<times> bool)) \<Rightarrow> u8 list \<Rightarrow> nat \<Rightarrow> 's \<Rightarrow> rt_err + 's" where
  "each_element f bytes at s =
     (if nth_opt bytes at \<noteq> Some b_lbrack then Inl JErr
      else let i = skip_ws bytes (at + 1) in
        if nth_opt bytes i = Some b_rbrack then Inr s else each_loop f bytes i s)"

section \<open>Scalars\<close>

definition as_bool_at :: "u8 list \<Rightarrow> nat \<Rightarrow> rt_err + bool" where
  "as_bool_at bytes at =
     bindR (starts_with_at bytes at kw_true) (\<lambda>t.
     if t then Inr True
     else bindR (starts_with_at bytes at kw_false) (\<lambda>f. if f then Inr False else Inl JErr))"

definition as_i64 :: "u8 list \<Rightarrow> nat \<Rightarrow> rt_err + i64" where
  "as_i64 bytes at =
     bindR (skip_number bytes at) (\<lambda>e.
     bindR (slice_or_panic bytes at e) (\<lambda>slice.
     ok_or (Option.bind (from_utf8 slice) (\<lambda>s.
       case parse_i64 s of Some i \<Rightarrow> Some i | None \<Rightarrow> map_option i64_of_f64 (parse_f64 s))) JErr))"

definition as_f64 :: "u8 list \<Rightarrow> nat \<Rightarrow> rt_err + f64" where
  "as_f64 bytes at =
     bindR (skip_number bytes at) (\<lambda>e.
     bindR (slice_or_panic bytes at e) (\<lambda>slice.
     ok_or (Option.bind (from_utf8 slice) parse_f64) JErr))"

end
