(* ===== verification/Runtime_Interp.thy ===== *)
theory Runtime_Interp
  imports Runtime_Json Policy_Ir
begin

text \<open>
  The wasm policy runtime: the interpreter (\<open>sealstack-policy-runtime/src/interp.rs\<close>) over
  the raw JSON input, and the exported functions (\<open>lib.rs\<close>). Values refer to the input by
  slices and offsets. The operand stack, an array with a fill index in the code, is a list
  with its top at the head. \<open>Inl Panic\<close> is a trap of the module.
\<close>

datatype rt_val =
    VNull
  | VBool bool
  | VI64 i64
  | VF64 f64
  | VRaw "u8 list"
  | VArrayAt nat

record interp =
  it_ir :: "u8 list"
  it_ip :: nat
  it_stack :: "rt_val list"
  it_input :: "u8 list"
  it_caller_at :: nat
  it_self_at :: nat

datatype verdict = Allow | Deny | VError

datatype rt_ord = OLt | OLe | OGt | OGe

text \<open>\<open>usize::MAX\<close> on wasm32 marks a missing root.\<close>

definition no_root :: nat where
  "no_root = wasm_usize_max"

text \<open>\<open>Result::ok\<close>: an error becomes \<open>None\<close>, a trap stays a trap.\<close>

fun catchR :: "rt_err + 'a \<Rightarrow> ('a option \<Rightarrow> rt_err + 'b) \<Rightarrow> rt_err + 'b" where
  "catchR (Inl Panic) f = Inl Panic"
| "catchR (Inl JErr) f = f None"
| "catchR (Inr x) f = f (Some x)"

definition skip_ws_fwd :: "u8 list \<Rightarrow> nat \<Rightarrow> nat" where
  "skip_ws_fwd bytes at = skip_ws bytes at"

definition find_path_from :: "u8 list \<Rightarrow> nat \<Rightarrow> u8 list list \<Rightarrow> rt_err + (nat \<times> nat) option" where
  "find_path_from input cursor path =
     bindR (slice_or_panic input cursor (length input)) (\<lambda>rest. find_path rest path)"

section \<open>The operand stack and the operand readers\<close>

definition rt_push :: "rt_val \<Rightarrow> interp \<Rightarrow> rt_err + interp" where
  "rt_push v s =
     (if MAX_STACK \<le> length (it_stack s) then Inl JErr else Inr (s\<lparr>it_stack := v # it_stack s\<rparr>))"

definition rt_pop :: "interp \<Rightarrow> rt_err + (rt_val \<times> interp)" where
  "rt_pop s = (case it_stack s of [] \<Rightarrow> Inl JErr | v # rest \<Rightarrow> Inr (v, s\<lparr>it_stack := rest\<rparr>))"

definition rt_pop_bool :: "interp \<Rightarrow> rt_err + (bool \<times> interp)" where
  "rt_pop_bool s =
     bindR (rt_pop s) (\<lambda>(v, s). case v of VBool b \<Rightarrow> Inr (b, s) | _ \<Rightarrow> Inl JErr)"

text \<open>Reading an operand and continuing with the pointer behind it.\<close>

definition rt_read ::
  "(u8 list \<Rightarrow> nat \<Rightarrow> rt_err + ('a \<times> nat)) \<Rightarrow> interp \<Rightarrow> rt_err + ('a \<times> interp)" where
  "rt_read rd s = bindR (rd (it_ir s) (it_ip s)) (\<lambda>(v, ip). Inr (v, s\<lparr>it_ip := ip\<rparr>))"

section \<open>Loads\<close>

definition MAX_SEGS :: nat where
  "MAX_SEGS = 8"

definition path_push :: "u8 list \<Rightarrow> u8 list list \<Rightarrow> rt_err + u8 list list" where
  "path_push seg segs = (if MAX_SEGS \<le> length segs then Inl JErr else Inr (segs @ [seg]))"

fun rt_read_segs :: "u8 list \<Rightarrow> nat \<Rightarrow> nat \<Rightarrow> u8 list list \<Rightarrow> rt_err + (u8 list list \<times> nat)" where
  "rt_read_segs ir 0 ip segs = Inr (segs, ip)"
| "rt_read_segs ir (Suc n) ip segs =
     bindR (read_u16 JErr ir ip) (\<lambda>(len, ip).
     bindR (ok_or (slice_opt ir ip (ip + unat len)) JErr) (\<lambda>slice.
     bindR (path_push slice segs) (\<lambda>segs.
     rt_read_segs ir n (ip + unat len) segs)))"

fun rt_resolve :: "u8 list \<Rightarrow> u8 list list \<Rightarrow> nat \<Rightarrow> rt_err + nat option" where
  "rt_resolve input [] cursor = Inr (Some cursor)"
| "rt_resolve input (seg # segs) cursor =
     bindR (find_path_from input cursor [seg]) (\<lambda>r.
     case r of None \<Rightarrow> Inr None | Some (s, _) \<Rightarrow> rt_resolve input segs (cursor + s))"

definition rt_value_at :: "u8 list \<Rightarrow> nat \<Rightarrow> rt_err + rt_val" where
  "rt_value_at input start =
     bindR (ok_or (nth_opt input start) JErr) (\<lambda>b.
     if b = 0x74 \<or> b = 0x66 then bindR (as_bool_at input start) (\<lambda>x. Inr (VBool x))
     else if b = 0x6E then Inr VNull
     else if b = b_quote then bindR (as_str input start) (\<lambda>s. Inr (VRaw s))
     else if b = b_lbrack then Inr (VArrayAt start)
     else if b = b_lbrace then Inr VNull
     else if b = b_minus \<or> is_digit_byte b then
       catchR (as_i64 input start) (\<lambda>r. case r of
         Some i \<Rightarrow> Inr (VI64 i)
       | None \<Rightarrow> bindR (as_f64 input start) (\<lambda>x. Inr (VF64 x)))
     else Inl JErr)"

definition rt_load_path :: "bool \<Rightarrow> interp \<Rightarrow> rt_err + interp" where
  "rt_load_path from_caller s =
     bindR (rt_read (read_u8 JErr) s) (\<lambda>(nseg, s).
     bindR (rt_read_segs (it_ir s) (unat nseg) (it_ip s) []) (\<lambda>(segs, ip).
     let s = s\<lparr>it_ip := ip\<rparr>; root_at = (if from_caller then it_caller_at s else it_self_at s) in
     if root_at = no_root then rt_push VNull s
     else if segs = [] then rt_push VNull s
     else bindR (rt_resolve (it_input s) segs root_at) (\<lambda>r.
       case r of
         None \<Rightarrow> rt_push VNull s
       | Some cursor \<Rightarrow>
           bindR (rt_value_at (it_input s) (skip_ws_fwd (it_input s) cursor)) (\<lambda>v. rt_push v s))))"

section \<open>Comparisons and logic\<close>

fun rt_eq :: "rt_val \<Rightarrow> rt_val \<Rightarrow> bool" where
  "rt_eq VNull VNull = True"
| "rt_eq (VBool x) (VBool y) = (x = y)"
| "rt_eq (VI64 x) (VI64 y) = (x = y)"
| "rt_eq (VF64 x) (VF64 y) = f64_eq x y"
| "rt_eq (VI64 x) (VF64 y) = f64_eq (f64_of_i64 x) y"
| "rt_eq (VF64 y) (VI64 x) = f64_eq (f64_of_i64 x) y"
| "rt_eq (VRaw x) (VRaw y) = (x = y)"
| "rt_eq _ _ = False"

definition rt_cmp_eq :: "bool \<Rightarrow> interp \<Rightarrow> rt_err + interp" where
  "rt_cmp_eq invert s =
     bindR (rt_pop s) (\<lambda>(b, s).
     bindR (rt_pop s) (\<lambda>(a, s).
     rt_push (VBool (if invert then \<not> rt_eq a b else rt_eq a b)) s))"

fun rt_operands :: "rt_val \<Rightarrow> rt_val \<Rightarrow> (f64 \<times> f64) option" where
  "rt_operands (VI64 x) (VI64 y) = Some (f64_of_i64 x, f64_of_i64 y)"
| "rt_operands (VF64 x) (VF64 y) = Some (x, y)"
| "rt_operands (VI64 x) (VF64 y) = Some (f64_of_i64 x, y)"
| "rt_operands (VF64 x) (VI64 y) = Some (x, f64_of_i64 y)"
| "rt_operands _ _ = None"

fun rt_ord_holds :: "rt_ord \<Rightarrow> f64 \<Rightarrow> f64 \<Rightarrow> bool" where
  "rt_ord_holds OLt x y = f64_lt x y"
| "rt_ord_holds OLe x y = f64_le x y"
| "rt_ord_holds OGt x y = f64_lt y x"
| "rt_ord_holds OGe x y = f64_le y x"

definition rt_cmp_ord :: "rt_ord \<Rightarrow> interp \<Rightarrow> rt_err + interp" where
  "rt_cmp_ord ord s =
     bindR (rt_pop s) (\<lambda>(b, s).
     bindR (rt_pop s) (\<lambda>(a, s).
     case rt_operands a b of
       None \<Rightarrow> Inl JErr
     | Some (x, y) \<Rightarrow> rt_push (VBool (rt_ord_holds ord x y)) s))"

definition rt_logic :: "(bool \<Rightarrow> bool \<Rightarrow> bool) \<Rightarrow> interp \<Rightarrow> rt_err + interp" where
  "rt_logic f s =
     bindR (rt_pop_bool s) (\<lambda>(b, s).
     bindR (rt_pop_bool s) (\<lambda>(a, s).
     rt_push (VBool (f a b)) s))"

definition rt_not :: "interp \<Rightarrow> rt_err + interp" where
  "rt_not s = bindR (rt_pop_bool s) (\<lambda>(a, s). rt_push (VBool (\<not> a)) s)"

section \<open>Membership and the built-in calls\<close>

text \<open>The closure of \<open>in_op\<close>: one element against the needle; a match stops the iteration.\<close>

definition in_element :: "u8 list \<Rightarrow> rt_val \<Rightarrow> nat \<Rightarrow> rt_err + bool" where
  "in_element input needle start =
     (case nth_opt input start of
        None \<Rightarrow> Inr False
      | Some b \<Rightarrow>
          if b = b_quote then
            catchR (as_str input start) (\<lambda>r. Inr (case (needle, r) of (VRaw n, Some s) \<Rightarrow> n = s | _ \<Rightarrow> False))
          else if b = b_minus \<or> is_digit_byte b then
            catchR (as_i64 input start) (\<lambda>r. Inr (case (needle, r) of (VI64 n, Some v) \<Rightarrow> n = v | _ \<Rightarrow> False))
          else if b = 0x74 \<or> b = 0x66 then
            catchR (as_bool_at input start) (\<lambda>r. Inr (case (needle, r) of (VBool n, Some v) \<Rightarrow> n = v | _ \<Rightarrow> False))
          else Inr False)"

definition in_closure :: "u8 list \<Rightarrow> rt_val \<Rightarrow> nat \<Rightarrow> nat \<Rightarrow> bool \<Rightarrow> rt_err + (bool \<times> bool)" where
  "in_closure input needle start e found =
     bindR (in_element input needle (skip_ws_fwd input start)) (\<lambda>matches.
     Inr (if matches then (True, False) else (found, True)))"

definition rt_in :: "bool \<Rightarrow> interp \<Rightarrow> rt_err + interp" where
  "rt_in invert s =
     bindR (rt_pop s) (\<lambda>(haystack, s).
     bindR (rt_pop s) (\<lambda>(needle, s).
     case haystack of
       VArrayAt arr_at \<Rightarrow>
         bindR (each_element (in_closure (it_input s) needle) (it_input s) arr_at False) (\<lambda>found.
         rt_push (VBool (if invert then \<not> found else found)) s)
     | _ \<Rightarrow> Inl JErr))"

definition role_closure :: "u8 list \<Rightarrow> u8 list \<Rightarrow> nat \<Rightarrow> nat \<Rightarrow> bool \<Rightarrow> rt_err + (bool \<times> bool)" where
  "role_closure input role_bytes start e matched =
     catchR (as_str input (skip_ws_fwd input start)) (\<lambda>r.
     Inr (if r = Some role_bytes then (True, False) else (matched, True)))"

definition rt_has_role :: "interp \<Rightarrow> rt_err + interp" where
  "rt_has_role s =
     bindR (rt_pop s) (\<lambda>(role, s).
     bindR (rt_pop s) (\<lambda>(caller, s).
     case role of
       VRaw role_bytes \<Rightarrow>
         (case caller of
            VRaw _ \<Rightarrow> Inl JErr
          | VArrayAt _ \<Rightarrow> Inl JErr
          | _ \<Rightarrow>
              if it_caller_at s = no_root then rt_push (VBool False) s
              else catchR (find_path_from (it_input s) (it_caller_at s) [bytes_of ''roles'']) (\<lambda>r.
                case r of
                  Some (Some (roles_at, _)) \<Rightarrow>
                    bindR (each_element (role_closure (it_input s) role_bytes) (it_input s)
                             (it_caller_at s + roles_at) False) (\<lambda>matched.
                    rt_push (VBool matched) s)
                | _ \<Rightarrow> rt_push (VBool False) s))
     | _ \<Rightarrow> Inl JErr))"

text \<open>
  The tenants of caller and record: both keys must be found, and each value read as a
  string if it is one.
\<close>

definition rt_tenants :: "interp \<Rightarrow> rt_err + (u8 list option \<times> u8 list option)" where
  "rt_tenants s =
     catchR (find_path_from (it_input s) (it_caller_at s) [bytes_of ''tenant'']) (\<lambda>ct.
     catchR (find_path_from (it_input s) (it_self_at s) [bytes_of ''tenant'']) (\<lambda>st.
     case (ct, st) of
       (Some (Some (a, _)), Some (Some (b, _))) \<Rightarrow>
         catchR (as_str (it_input s) (skip_ws_fwd (it_input s) (it_caller_at s + a))) (\<lambda>x.
         catchR (as_str (it_input s) (skip_ws_fwd (it_input s) (it_self_at s + b))) (\<lambda>y.
         Inr (x, y)))
     | _ \<Rightarrow> Inr (None, None)))"

definition rt_tenant_match :: "interp \<Rightarrow> rt_err + interp" where
  "rt_tenant_match s =
     bindR (rt_pop s) (\<lambda>(_, s).
     bindR (rt_pop s) (\<lambda>(_, s).
     if it_caller_at s = no_root \<or> it_self_at s = no_root then rt_push (VBool False) s
     else bindR (rt_tenants s) (\<lambda>(ct, st).
       rt_push (VBool (case (ct, st) of (Some x, Some y) \<Rightarrow> x = y | _ \<Rightarrow> False)) s)))"

section \<open>The dispatch loop\<close>

definition rt_lit_str :: "interp \<Rightarrow> rt_err + interp" where
  "rt_lit_str s =
     bindR (rt_read (read_u16 JErr) s) (\<lambda>(len, s).
     bindR (ok_or (slice_opt (it_ir s) (it_ip s) (it_ip s + unat len)) JErr) (\<lambda>slice.
     rt_push (VRaw slice) (s\<lparr>it_ip := it_ip s + unat len\<rparr>)))"

definition rt_next :: "rt_err + interp \<Rightarrow> rt_err + interp outcome" where
  "rt_next r = bindR r (\<lambda>s. Inr (Next s))"

definition rt_exec :: "u8 \<Rightarrow> interp \<Rightarrow> rt_err + interp outcome" where
  "rt_exec opc s =
     (if opc = 0x01 then rt_next (rt_push VNull s)
      else if opc = 0x02 then
        rt_next (bindR (rt_read (read_u8 JErr) s) (\<lambda>(b, s). rt_push (VBool (b \<noteq> 0)) s))
      else if opc = 0x03 then rt_next (bindR (rt_read (read_i64 JErr) s) (\<lambda>(v, s). rt_push (VI64 v) s))
      else if opc = 0x04 then rt_next (bindR (rt_read (read_f64 JErr) s) (\<lambda>(v, s). rt_push (VF64 v) s))
      else if opc = 0x05 then rt_next (rt_lit_str s)
      else if opc = 0x06 then rt_next (bindR (rt_read (read_i64 JErr) s) (\<lambda>(v, s). rt_push (VI64 v) s))
      else if opc = 0x10 then rt_next (rt_load_path True s)
      else if opc = 0x11 then rt_next (rt_load_path False s)
      else if opc = 0x20 then rt_next (rt_cmp_eq False s)
      else if opc = 0x21 then rt_next (rt_cmp_eq True s)
      else if opc = 0x22 then rt_next (rt_cmp_ord OLt s)
      else if opc = 0x23 then rt_next (rt_cmp_ord OLe s)
      else if opc = 0x24 then rt_next (rt_cmp_ord OGt s)
      else if opc = 0x25 then rt_next (rt_cmp_ord OGe s)
      else if opc = 0x30 then rt_next (rt_logic (\<and>) s)
      else if opc = 0x31 then rt_next (rt_logic (\<or>) s)
      else if opc = 0x32 then rt_next (rt_not s)
      else if opc = 0x40 then rt_next (rt_in False s)
      else if opc = 0x41 then rt_next (rt_in True s)
      else if opc = 0x50 then rt_next (rt_has_role s)
      else if opc = 0x51 then rt_next (rt_tenant_match s)
      else if opc = 0xFD then bindR (rt_pop_bool s) (\<lambda>(b, _). Inr (Done b))
      else if opc = 0xFE then Inr (Done False)
      else if opc = 0xFF then Inr (Done True)
      else Inl JErr)"

definition rt_step :: "interp \<Rightarrow> rt_err + interp outcome" where
  "rt_step s =
     bindR (ok_or (nth_opt (it_ir s) (it_ip s)) JErr) (\<lambda>opc. rt_exec opc (s\<lparr>it_ip := it_ip s + 1\<rparr>))"

subsection \<open>What an opcode may change\<close>

text \<open>
  \<open>keeps s s'\<close>: the code, the input and the roots are those of \<open>s\<close>, the pointer has not
  moved back, and the stack is within its capacity.
\<close>

definition keeps :: "interp \<Rightarrow> interp \<Rightarrow> bool" where
  "keeps s s' \<longleftrightarrow>
     it_ir s' = it_ir s \<and> it_input s' = it_input s \<and> it_caller_at s' = it_caller_at s
     \<and> it_self_at s' = it_self_at s \<and> it_ip s \<le> it_ip s'
     \<and> (length (it_stack s) \<le> MAX_STACK \<longrightarrow> length (it_stack s') \<le> MAX_STACK)"

lemma keeps_refl [simp]: "keeps s s"
  by (simp add: keeps_def)

lemma keeps_trans: "keeps s s' \<Longrightarrow> keeps s' s'' \<Longrightarrow> keeps s s''"
  by (auto simp: keeps_def)

lemma catchR_Inr_iff [result_simps]:
  "catchR r f = Inr y \<longleftrightarrow> (r = Inl JErr \<and> f None = Inr y) \<or> (\<exists>x. r = Inr x \<and> f (Some x) = Inr y)"
  by (cases "(r, f)" rule: catchR.cases) auto

lemma case_VBool_Inr [result_simps]:
  "(case v of VBool b \<Rightarrow> f b | _ \<Rightarrow> Inl e) = Inr y \<longleftrightarrow> (\<exists>b. v = VBool b \<and> f b = Inr y)"
  by (cases v) auto

lemma case_VRaw_Inr [result_simps]:
  "(case v of VRaw b \<Rightarrow> f b | _ \<Rightarrow> Inl e) = Inr y \<longleftrightarrow> (\<exists>b. v = VRaw b \<and> f b = Inr y)"
  by (cases v) auto

lemma case_VArrayAt_Inr [result_simps]:
  "(case v of VArrayAt b \<Rightarrow> f b | _ \<Rightarrow> Inl e) = Inr y \<longleftrightarrow> (\<exists>b. v = VArrayAt b \<and> f b = Inr y)"
  by (cases v) auto

lemma rt_push_keeps: "rt_push v s = Inr s' \<Longrightarrow> keeps s s'"
  by (auto simp: rt_push_def keeps_def split: if_splits)

lemma rt_pop_keeps: "rt_pop s = Inr (v, s') \<Longrightarrow> keeps s s'"
  by (auto simp: rt_pop_def keeps_def split: list.splits)

lemma rt_pop_bool_keeps: "rt_pop_bool s = Inr (b, s') \<Longrightarrow> keeps s s'"
  by (auto simp: rt_pop_bool_def result_simps dest!: rt_pop_keeps)

lemma rt_read_keeps:
  assumes "rt_read rd s = Inr (v, s')" and "\<And>ip v ip'. rd (it_ir s) ip = Inr (v, ip') \<Longrightarrow> ip \<le> ip'"
  shows "keeps s s'"
  using assms by (auto simp: rt_read_def result_simps keeps_def)

lemma rt_read_u8_keeps: "rt_read (read_u8 e) s = Inr (v, s') \<Longrightarrow> keeps s s'"
  by (erule rt_read_keeps) (auto dest: read_u8_ip)

lemma rt_read_u16_keeps: "rt_read (read_u16 e) s = Inr (v, s') \<Longrightarrow> keeps s s'"
  by (erule rt_read_keeps) (auto dest: read_u16_ip)

lemma rt_read_i64_keeps: "rt_read (read_i64 e) s = Inr (v, s') \<Longrightarrow> keeps s s'"
  by (erule rt_read_keeps) (auto dest: read_i64_ip)

lemma rt_read_f64_keeps: "rt_read (read_f64 e) s = Inr (v, s') \<Longrightarrow> keeps s s'"
  by (erule rt_read_keeps) (auto dest: read_f64_ip)

lemma rt_read_segs_ip: "rt_read_segs ir n ip segs = Inr (segs', ip') \<Longrightarrow> ip \<le> ip'"
  by (induction n arbitrary: ip segs) (fastforce simp: result_simps dest: read_u16_ip)+

lemmas rt_keeps =
  rt_push_keeps rt_pop_keeps rt_pop_bool_keeps rt_read_u8_keeps rt_read_u16_keeps
  rt_read_i64_keeps rt_read_f64_keeps


lemma rt_load_path_keeps:
  assumes "rt_load_path from_caller s = Inr s'"
  shows "keeps s s'"
proof -
  from assms obtain nseg s1 segs ip v where s1: "rt_read (read_u8 JErr) s = Inr (nseg, s1)"
    and segs: "rt_read_segs (it_ir s1) (unat nseg) (it_ip s1) [] = Inr (segs, ip)"
    and "rt_push v (s1\<lparr>it_ip := ip\<rparr>) = Inr s'"
    by (auto simp: rt_load_path_def result_simps Let_def split: if_splits option.splits)
  moreover have "keeps s1 (s1\<lparr>it_ip := ip\<rparr>)"
    using rt_read_segs_ip [OF segs] by (simp add: keeps_def)
  ultimately show ?thesis
    using rt_keeps keeps_trans by meson
qed

lemma rt_cmp_keeps:
  "rt_cmp_eq neg s = Inr s' \<Longrightarrow> keeps s s'"
  "rt_cmp_ord ord s = Inr s' \<Longrightarrow> keeps s s'"
  "rt_logic f s = Inr s' \<Longrightarrow> keeps s s'"
  "rt_not s = Inr s' \<Longrightarrow> keeps s s'"
  unfolding rt_cmp_eq_def rt_cmp_ord_def rt_logic_def rt_not_def
  by (auto simp: result_simps split: option.splits) (meson rt_keeps keeps_trans)+

lemma pops_push_keeps:
  "rt_pop s = Inr (a, s1) \<Longrightarrow> rt_pop s1 = Inr (b, s2) \<Longrightarrow> rt_push v s2 = Inr s' \<Longrightarrow> keeps s s'"
  by (meson rt_push_keeps rt_pop_keeps keeps_trans)

lemma rt_in_keeps: "rt_in neg s = Inr s' \<Longrightarrow> keeps s s'"
  unfolding rt_in_def by (auto simp: result_simps dest: pops_push_keeps)

lemma rt_has_role_keeps:
  assumes "rt_has_role s = Inr s'"
  shows "keeps s s'"
proof -
  from assms obtain role s1 caller s2 where pops: "rt_pop s = Inr (role, s1)" "rt_pop s1 = Inr (caller, s2)"
    by (auto simp: rt_has_role_def result_simps)
  with assms have "\<exists>v. rt_push v s2 = Inr s'"
    by (cases caller) (auto simp: rt_has_role_def result_simps split: if_splits option.splits)
  with pops show ?thesis using pops_push_keeps by blast
qed

lemma rt_tenant_match_keeps: "rt_tenant_match s = Inr s' \<Longrightarrow> keeps s s'"
  unfolding rt_tenant_match_def by (auto simp: result_simps split: if_splits dest: pops_push_keeps)

lemma rt_lit_str_keeps:
  assumes "rt_lit_str s = Inr s'"
  shows "keeps s s'"
proof -
  from assms obtain len s1 slice where "rt_read (read_u16 JErr) s = Inr (len, s1)"
    and "rt_push (VRaw slice) (s1\<lparr>it_ip := it_ip s1 + unat len\<rparr>) = Inr s'"
    by (auto simp: rt_lit_str_def result_simps)
  moreover have "keeps s1 (s1\<lparr>it_ip := it_ip s1 + unat len\<rparr>)" by (simp add: keeps_def)
  ultimately show ?thesis using rt_keeps keeps_trans by meson
qed

lemma rt_next_iff [result_simps]: "rt_next r = Inr (Next s) \<longleftrightarrow> r = Inr s"
  by (cases r) (auto simp: rt_next_def)

lemma rt_exec_keeps: "rt_exec opc s = Inr (Next s') \<Longrightarrow> keeps s s'"
  unfolding rt_exec_def
  by (auto simp: result_simps split: if_split_asm
      dest: rt_keeps rt_load_path_keeps rt_cmp_keeps rt_in_keeps rt_has_role_keeps rt_tenant_match_keeps
        rt_lit_str_keeps)
    (meson rt_keeps keeps_trans)+

lemma rt_step_keeps:
  assumes "rt_step s = Inr (Next s')"
  shows "keeps s s'" and "it_ip s < it_ip s'" and "it_ip s < length (it_ir s)"
proof -
  from assms obtain opc where "it_ip s < length (it_ir s)"
    and "rt_exec opc (s\<lparr>it_ip := it_ip s + 1\<rparr>) = Inr (Next s')"
    by (auto simp: rt_step_def result_simps byte_simps)
  from this(1) rt_exec_keeps [OF this(2)]
  show "keeps s s'" "it_ip s < it_ip s'" "it_ip s < length (it_ir s)"
    by (auto simp: keeps_def)
qed

function rt_run :: "interp \<Rightarrow> rt_err + bool" where
  "rt_run s =
     (case rt_step s of
        Inl e \<Rightarrow> Inl e
      | Inr (Done b) \<Rightarrow> Inr b
      | Inr (Next s') \<Rightarrow> rt_run s')"
  by pat_completeness auto
termination
proof (relation "measure (\<lambda>s. length (it_ir s) - it_ip s)")
  fix s x2 s'
  assume "rt_step s = Inr x2" "x2 = Next s'"
  then have "rt_step s = Inr (Next s')" by simp
  from rt_step_keeps [OF this] show "(s', s) \<in> measure (\<lambda>s. length (it_ir s) - it_ip s)"
    by (auto simp: keeps_def)
qed auto

declare rt_run.simps [simp del]

section \<open>The entry point\<close>

fun root_start :: "(nat \<times> nat) option option \<Rightarrow> nat" where
  "root_start (Some (Some (start, _))) = start"
| "root_start _ = no_root"

text \<open>The interpreter proper: everything after the roots and the action have been found.\<close>

definition rt_dispatch :: "u8 list \<Rightarrow> u8 list \<Rightarrow> nat \<Rightarrow> nat \<Rightarrow> u8 list \<Rightarrow> rt_err + verdict" where
  "rt_dispatch input ir caller_at self_at action_name =
     (if ir = [] then Inr Deny
      else let count = unat (ir ! 0); table_end = 1 + count * 3 in
        if count = 0 then Inr Deny
        else if length ir < table_end then Inr VError
        else case action_bit_for action_name of
          None \<Rightarrow> Inr VError
        | Some abit \<Rightarrow>
            (case table_entry ir count table_end abit of
               None \<Rightarrow> Inr Deny
             | Some entry \<Rightarrow>
                 if length ir \<le> entry then Inr VError
                 else catchR (rt_run \<lparr>it_ir = ir, it_ip = entry, it_stack = [], it_input = input,
                                      it_caller_at = caller_at, it_self_at = self_at\<rparr>) (\<lambda>r.
                   Inr (case r of Some True \<Rightarrow> Allow | Some False \<Rightarrow> Deny | None \<Rightarrow> VError))))"

definition rt_evaluate :: "u8 list \<Rightarrow> u8 list \<Rightarrow> rt_err + verdict" where
  "rt_evaluate input ir_full =
     (if length ir_full < 8 \<or> take 4 ir_full \<noteq> MAGIC then Inr VError
      else case checked_add_usize wasm_usize_max (declared_len ir_full) 8 of
        None \<Rightarrow> Inr VError
      | Some total_len \<Rightarrow>
          if length ir_full < total_len then Inr VError
          else
            bindR (slice_or_panic ir_full 8 (8 + declared_len ir_full)) (\<lambda>ir.
            catchR (find_path input [bytes_of ''caller'']) (\<lambda>c.
            catchR (find_path input [bytes_of ''record'']) (\<lambda>r.
            catchR (find_path input [bytes_of ''action'']) (\<lambda>a.
            case a of
              Some (Some (start, _)) \<Rightarrow>
                catchR (as_str input start) (\<lambda>name.
                case name of
                  None \<Rightarrow> Inr VError
                | Some bytes \<Rightarrow> rt_dispatch input ir (root_start c) (root_start r) bytes)
            | _ \<Rightarrow> Inr VError)))))"

section \<open>The exported functions\<close>

type_synonym i32 = "32 word"

text \<open>\<open>PREDICATE_IR\<close> before it is stamped.\<close>

definition predicate_ir_init :: "u8 list" where
  "predicate_ir_init = MAGIC @ replicate (IR_SECTION_BYTES - 4) 0"

text \<open>The payload of a section, as the unused helper \<open>ir_payload\<close> reads it.\<close>

definition ir_payload :: "u8 list \<Rightarrow> u8 list option" where
  "ir_payload ir_slot =
     (if take 4 ir_slot \<noteq> MAGIC then None
      else if IR_MAX_BYTES < declared_len ir_slot then None
      else slice_opt ir_slot 8 (8 + declared_len ir_slot))"

definition BUMP_init :: nat where
  "BUMP_init = 1024"

text \<open>\<open>sealstack_alloc\<close>: the state is the bump pointer; the result is \<open>-1\<close> or an offset.\<close>

definition sealstack_alloc :: "i32 \<Rightarrow> nat \<Rightarrow> i32 \<times> nat" where
  "sealstack_alloc n bump =
     (if sint n < 0 then (-1, bump)
      else case checked_add_usize wasm_usize_max bump (unat n) of
        None \<Rightarrow> (-1, bump)
      | Some new_bump \<Rightarrow> if 2 ^ 31 - 1 < new_bump then (-1, bump) else (word_of_nat bump, new_bump))"

fun verdict_code :: "verdict \<Rightarrow> i32" where
  "verdict_code Allow = 1"
| "verdict_code Deny = 0"
| "verdict_code VError = -1"

text \<open>
  \<open>predicate_ir_slice\<close>: the stamped section is a static in the same linear memory the host
  writes to, at the offset \<open>slot_base\<close> the linker gave it.
\<close>

definition predicate_ir_slice :: "u8 list \<Rightarrow> nat \<Rightarrow> u8 list" where
  "predicate_ir_slice memory slot_base = take IR_SECTION_BYTES (drop slot_base memory)"

text \<open>
  \<open>sealstack_evaluate\<close> on the linear memory: the input is the slice the host wrote; reading
  beyond the memory traps.
\<close>

definition sealstack_evaluate :: "u8 list \<Rightarrow> nat \<Rightarrow> i32 \<Rightarrow> i32 \<Rightarrow> rt_err + i32" where
  "sealstack_evaluate memory slot_base ptr len =
     (if sint ptr < 0 \<or> sint len < 0 then Inr (-1)
      else bindR (slice_or_panic memory (unat ptr) (unat ptr + unat len)) (\<lambda>input.
        bindR (rt_evaluate input (predicate_ir_slice memory slot_base)) (\<lambda>v. Inr (verdict_code v))))"

end
