(* ===== verification/Runtime_Safety.thy ===== *)
theory Runtime_Safety
  imports Runtime_Interp
begin

text \<open>
  The runtime never traps: on any input bytes and any section bytes, every index and slice
  of the scanner and of the interpreter is in range, and evaluation ends with a verdict.
\<close>

named_theorems no_trap \<open>computations that do not trap\<close>

definition safe :: "rt_err + 'a \<Rightarrow> bool" where
  "safe r \<longleftrightarrow> r \<noteq> Inl Panic"

lemma safe_simps [simp, no_trap]: "safe (Inr x)" "safe (Inl JErr)" "\<not> safe (Inl Panic)"
  by (simp_all add: safe_def)

lemma safe_bindR [no_trap]: "safe r \<Longrightarrow> (\<And>v. r = Inr v \<Longrightarrow> safe (f v)) \<Longrightarrow> safe (bindR r f)"
  by (cases r) (auto simp: safe_def)

lemma safe_catchR [no_trap]:
  "safe r \<Longrightarrow> (r = Inl JErr \<Longrightarrow> safe (f None)) \<Longrightarrow> (\<And>v. r = Inr v \<Longrightarrow> safe (f (Some v))) \<Longrightarrow> safe (catchR r f)"
  by (cases "(r, f)" rule: catchR.cases) (auto simp: safe_def)

lemma safe_ok_or [no_trap, simp]: "safe (ok_or x JErr)"
  by (cases x) simp_all

lemma safe_slice [no_trap]: "i \<le> j \<Longrightarrow> j \<le> length bs \<Longrightarrow> safe (slice_or_panic bs i j)"
  by (simp add: slice_or_panic_def slice_opt_def)

lemma slice_or_panic_eq: "i \<le> j \<Longrightarrow> j \<le> length bs \<Longrightarrow> slice_or_panic bs i j = Inr (take (j - i) (drop i bs))"
  by (simp add: slice_or_panic_def slice_opt_def)

section \<open>The scanner\<close>

lemma safe_starts_with: "at \<le> length bytes \<Longrightarrow> safe (starts_with_at bytes at kw)"
  by (simp add: starts_with_at_def slice_or_panic_eq)

lemma safe_as_str_scan: "start \<le> i \<Longrightarrow> safe (as_str_scan bytes start i)"
proof (induction bytes start i rule: as_str_scan.induct)
  case (1 bytes start i)
  then show ?case
    by (subst as_str_scan.simps) (auto simp: slice_or_panic_eq)
qed

lemma safe_as_str [no_trap, simp]: "safe (as_str bytes at)"
  by (simp add: as_str_def safe_as_str_scan)

lemma safe_container_scan: "safe (container_scan bytes opener closer depth i in_str)"
proof (induction bytes opener closer depth i in_str rule: container_scan.induct)
  case (1 bytes opener closer depth i in_str)
  then show ?case
    by (subst container_scan.simps) (auto simp: Let_def)
qed

lemma safe_skip_keyword: "at \<le> length bytes \<Longrightarrow> safe (skip_keyword bytes at kws)"
  by (induction kws) (auto intro!: safe_bindR safe_starts_with)

lemma safe_skip_number [no_trap, simp]: "safe (skip_number bytes at)"
  by (simp add: skip_number_def Let_def)

lemma safe_skip_value [no_trap, simp]: "safe (skip_value bytes at)"
  unfolding skip_value_def skip_container_def
  by (auto simp: byte_simps safe_container_scan split: option.splits simp del: skip_keyword.simps
      intro!: safe_bindR safe_skip_keyword)

lemma safe_find_key_loop: "safe (find_key_loop bytes key i)"
proof (induction bytes key i rule: find_key_loop.induct)
  case (1 bytes key i)
  show ?case
  proof (cases "as_str bytes i")
    case (Inl e)
    then show ?thesis using safe_as_str [of bytes i]
      by (cases e) (simp_all add: find_key_loop.simps [of bytes key i])
  next
    case (Inr k)
    define i2 where "i2 = skip_ws bytes (skip_ws bytes (i + 2 + length k) + 1)"
    show ?thesis
    proof (cases "skip_value bytes i2")
      case (Inl e)
      then show ?thesis using safe_skip_value [of bytes i2] Inr
        by (cases e) (simp_all add: find_key_loop.simps [of bytes key i] Let_def i2_def)
    next
      case (Inr i3)
      then show ?thesis
        using 1 \<open>as_str bytes i = Inr k\<close>
        by (subst find_key_loop.simps) (simp add: i2_def Let_def split: option.splits)
    qed
  qed
qed

lemma safe_find_key [no_trap, simp]: "safe (find_key_in_object bytes at key)"
  by (simp add: find_key_in_object_def Let_def safe_find_key_loop)

lemma safe_find_path_walk: "safe (find_path_walk bytes cursor path)"
  by (induction path arbitrary: cursor) (auto intro!: safe_bindR split: option.splits)

lemma safe_find_path [no_trap, simp]: "safe (find_path bytes path)"
  unfolding find_path_def by (auto intro!: safe_bindR safe_find_path_walk split: option.splits)

lemma find_path_bounds: "find_path bytes path = Inr (Some (s, e)) \<Longrightarrow> s < e \<and> e \<le> length bytes"
  by (auto simp: find_path_def result_simps split: option.splits dest!: skip_value_bounds)

lemma safe_each_loop:
  "(\<And>i j s. i < length bytes \<Longrightarrow> safe (f i j s)) \<Longrightarrow> safe (each_loop f bytes i s)"
proof (induction f bytes i s rule: each_loop.induct)
  case (1 f bytes i s)
  show ?case
  proof (cases "skip_value bytes i")
    case (Inl e)
    then show ?thesis using safe_skip_value [of bytes i]
      by (cases e) (simp_all add: each_loop.simps [of f bytes i s])
  next
    case (Inr j)
    then have "i < length bytes" using skip_value_bounds by fastforce
    then have "safe (f i j s)" using 1 by blast
    then show ?thesis
    proof (cases "f i j s")
      case (Inl e)
      with \<open>safe (f i j s)\<close> Inr show ?thesis by (cases e) (simp_all add: each_loop.simps [of f bytes i s])
    next
      case (Inr r)
      then show ?thesis using 1 \<open>skip_value bytes i = Inr j\<close>
        by (subst each_loop.simps) (auto simp: Let_def split: prod.splits option.splits)
    qed
  qed
qed

lemma safe_each_element:
  "(\<And>i j s. i < length bytes \<Longrightarrow> safe (f i j s)) \<Longrightarrow> safe (each_element f bytes at s)"
  by (auto simp: each_element_def Let_def intro: safe_each_loop)

lemma safe_as_bool: "at \<le> length bytes \<Longrightarrow> safe (as_bool_at bytes at)"
  unfolding as_bool_at_def by (auto intro!: safe_bindR safe_starts_with)

lemma safe_number_slice: "skip_number bytes at = Inr e \<Longrightarrow> safe (slice_or_panic bytes at e)"
  using skip_number_bounds [of bytes at e] by (auto intro: safe_slice)

lemma safe_as_number [no_trap, simp]: "safe (as_i64 bytes at)" "safe (as_f64 bytes at)"
  unfolding as_i64_def as_f64_def by (auto intro!: safe_bindR intro: safe_number_slice)

section \<open>The interpreter\<close>

text \<open>The roots are missing or point into the input.\<close>

definition roots_ok :: "interp \<Rightarrow> bool" where
  "roots_ok s \<longleftrightarrow>
     (it_caller_at s = no_root \<or> it_caller_at s \<le> length (it_input s))
     \<and> (it_self_at s = no_root \<or> it_self_at s \<le> length (it_input s))"

lemma keeps_roots_ok: "keeps s s' \<Longrightarrow> roots_ok s \<Longrightarrow> roots_ok s'"
  by (simp add: keeps_def roots_ok_def)

lemma safe_find_path_from: "cursor \<le> length input \<Longrightarrow> safe (find_path_from input cursor path)"
  by (auto simp: find_path_from_def intro!: safe_bindR safe_slice)

lemma find_path_from_bounds:
  "find_path_from input cursor path = Inr (Some (s, e)) \<Longrightarrow> cursor + s < length input"
  by (auto simp: find_path_from_def result_simps slice_or_panic_def
      dest!: slice_opt_SomeD find_path_bounds)

lemma safe_rt_resolve: "cursor \<le> length input \<Longrightarrow> safe (rt_resolve input segs cursor)"
  by (induction segs arbitrary: cursor)
    (auto intro!: safe_bindR safe_find_path_from split: option.splits dest!: find_path_from_bounds)

lemma safe_rt_value_at: "safe (rt_value_at input start)"
  unfolding rt_value_at_def
  by (auto simp: result_simps byte_simps intro!: safe_bindR safe_catchR safe_as_bool)

lemma safe_stack [no_trap, simp]: "safe (rt_push v s)" "safe (rt_pop s)" "safe (rt_pop_bool s)"
  unfolding rt_push_def rt_pop_bool_def rt_pop_def
  by (auto intro!: safe_bindR split: list.splits rt_val.splits)

lemma safe_readers [no_trap, simp]:
  "safe (read_u8 JErr ir ip)" "safe (read_u16 JErr ir ip)" "safe (read_i64 JErr ir ip)"
  "safe (read_f64 JErr ir ip)"
proof -
  have buf: "safe (read_buf JErr ir n ip)" for n ip
    by (induction n arbitrary: ip) (auto intro!: safe_bindR)
  show "safe (read_u8 JErr ir ip)" "safe (read_u16 JErr ir ip)" "safe (read_i64 JErr ir ip)"
    "safe (read_f64 JErr ir ip)"
    unfolding read_u8_def read_u16_def read_i64_def read_f64_def by (auto intro!: safe_bindR buf)
qed

lemma safe_rt_read: "(\<And>ir ip. safe (rd ir ip)) \<Longrightarrow> safe (rt_read rd s)"
  by (auto simp: rt_read_def intro!: safe_bindR)

lemma safe_rt_read_segs: "safe (rt_read_segs ir n ip segs)"
  by (induction n arbitrary: ip segs) (auto simp: path_push_def intro!: safe_bindR)

lemma safe_resolve_roots:
  "roots_ok s \<Longrightarrow> it_caller_at s \<noteq> no_root \<Longrightarrow> safe (rt_resolve (it_input s) segs (it_caller_at s))"
  "roots_ok s \<Longrightarrow> it_self_at s \<noteq> no_root \<Longrightarrow> safe (rt_resolve (it_input s) segs (it_self_at s))"
  by (auto simp: roots_ok_def intro: safe_rt_resolve)

lemma safe_rt_load_path:
  assumes "roots_ok s"
  shows "safe (rt_load_path from_caller s)"
proof -
  have "roots_ok s1" if "rt_read (read_u8 JErr) s = Inr (n, s1)" for n s1
    using that assms rt_read_u8_keeps keeps_roots_ok by blast
  then show ?thesis
    unfolding rt_load_path_def Let_def
    by (auto intro!: safe_bindR safe_rt_read safe_rt_read_segs safe_rt_value_at safe_resolve_roots
        split: option.splits)
qed

lemma safe_in_closure: "i < length input \<Longrightarrow> safe (in_closure input needle i e found)"
  unfolding in_closure_def in_element_def
  by (auto simp: byte_simps intro!: safe_bindR safe_catchR safe_as_bool split: option.splits)

lemma safe_role_closure: "safe (role_closure input role i e matched)"
  unfolding role_closure_def by (auto intro!: safe_catchR)

lemma safe_rt_cmp:
  "safe (rt_cmp_eq neg s)" "safe (rt_cmp_ord ord s)" "safe (rt_logic f s)" "safe (rt_not s)" "safe (rt_lit_str s)"
  unfolding rt_cmp_eq_def rt_cmp_ord_def rt_logic_def rt_not_def rt_lit_str_def
  by (auto intro!: safe_bindR safe_rt_read split: option.splits)

lemma pops_keep: "rt_pop s = Inr (a, s1) \<Longrightarrow> rt_pop s1 = Inr (b, s2) \<Longrightarrow> roots_ok s \<Longrightarrow> roots_ok s2"
  using rt_pop_keeps keeps_roots_ok by blast

lemma safe_rt_in: "safe (rt_in neg s)"
  unfolding rt_in_def
  by (auto intro!: safe_bindR safe_each_element safe_in_closure split: rt_val.splits)

lemma safe_caller_path:
  "roots_ok s \<Longrightarrow> it_caller_at s \<noteq> no_root \<Longrightarrow> safe (find_path_from (it_input s) (it_caller_at s) path)"
  "roots_ok s \<Longrightarrow> it_self_at s \<noteq> no_root \<Longrightarrow> safe (find_path_from (it_input s) (it_self_at s) path)"
  by (auto simp: roots_ok_def intro: safe_find_path_from)

lemma safe_rt_has_role: "roots_ok s \<Longrightarrow> safe (rt_has_role s)"
  unfolding rt_has_role_def
  by (auto intro!: safe_bindR safe_catchR safe_each_element safe_role_closure
      safe_caller_path(1) split: rt_val.splits option.splits) (metis pops_keep)+

lemma safe_rt_tenants:
  "roots_ok s \<Longrightarrow> it_caller_at s \<noteq> no_root \<Longrightarrow> it_self_at s \<noteq> no_root \<Longrightarrow> safe (rt_tenants s)"
  unfolding rt_tenants_def
  by (auto intro!: safe_catchR intro: safe_caller_path split: option.splits)

lemma safe_rt_tenant_match: "roots_ok s \<Longrightarrow> safe (rt_tenant_match s)"
  unfolding rt_tenant_match_def
  by (auto intro!: safe_bindR intro!: safe_rt_tenants elim: pops_keep split: option.splits)

lemma safe_rt_next: "safe r \<Longrightarrow> safe (rt_next r)"
  by (auto simp: rt_next_def intro!: safe_bindR)

lemma safe_rt_exec:
  assumes "roots_ok s"
  shows "safe (rt_exec opc s)"
  unfolding rt_exec_def
  using assms
  by (auto intro!: safe_rt_next safe_bindR safe_rt_read safe_rt_load_path safe_rt_cmp safe_rt_in
      safe_rt_has_role safe_rt_tenant_match)

lemma safe_rt_step: "roots_ok s \<Longrightarrow> safe (rt_step s)"
  unfolding rt_step_def by (auto intro!: safe_bindR safe_rt_exec simp: roots_ok_def)

lemma safe_rt_run: "roots_ok s \<Longrightarrow> safe (rt_run s)"
proof (induction s rule: rt_run.induct)
  case (1 s)
  show ?case
  proof (cases "rt_step s")
    case (Inl e)
    with safe_rt_step [OF 1(2)] show ?thesis by (cases e) (simp_all add: rt_run.simps [of s])
  next
    case (Inr o')
    show ?thesis
    proof (cases o')
      case (Next s')
      with Inr have "roots_ok s'" using rt_step_keeps(1) 1(2) keeps_roots_ok by blast
      with 1(1) Inr Next show ?thesis by (simp add: rt_run.simps [of s])
    qed (simp add: rt_run.simps [of s] Inr)
  qed
qed

lemma safe_rt_dispatch:
  assumes "caller_at = no_root \<or> caller_at \<le> length input" and "self_at = no_root \<or> self_at \<le> length input"
  shows "safe (rt_dispatch input ir caller_at self_at name)"
  unfolding rt_dispatch_def Let_def
  using assms by (auto intro!: safe_catchR safe_rt_run simp: roots_ok_def split: option.splits)

lemma root_start_ok:
  "(case r of Some x \<Rightarrow> find_path input path = Inr x | None \<Rightarrow> True) \<Longrightarrow>
   root_start r = no_root \<or> root_start r \<le> length input"
  by (cases r rule: root_start.cases) (auto dest!: find_path_bounds)

lemma safe_rt_evaluate: "safe (rt_evaluate input ir_full)"
proof -
  have "safe (slice_or_panic ir_full 8 (8 + declared_len ir_full))"
    if "checked_add_usize wasm_usize_max (declared_len ir_full) 8 = Some n" "n \<le> length ir_full" for n
    using that by (auto simp: checked_add_usize_def intro!: safe_slice split: if_splits)
  then show ?thesis
    unfolding rt_evaluate_def
    by (auto intro!: safe_bindR safe_catchR safe_rt_dispatch root_start_ok split: option.splits)
qed

end
