(* ===== verification/Json_Text.thy ===== *)
theory Json_Text
  imports Runtime_Safety Json_Value
begin

text \<open>
  JSON texts of the values the policy runtime is given, and what the scanner finds in them.
  \<open>json_text v bs\<close> says that the bytes \<open>bs\<close> are a JSON text of \<open>v\<close>, with any white space
  between tokens, for values whose strings need no escapes and whose numbers are integers
  of \<open>i64\<close>.
\<close>

section \<open>The grammar\<close>

text \<open>A string whose JSON form is itself: no quote, no backslash, no control character.\<close>

definition plain :: "string \<Rightarrow> bool" where
  "plain s \<longleftrightarrow> list_all (\<lambda>b. b \<noteq> b_quote \<and> b \<noteq> b_backslash \<and> 0x20 \<le> b) (bytes_of s)"

definition quoted :: "string \<Rightarrow> u8 list" where
  "quoted s = b_quote # bytes_of s @ [b_quote]"

definition white :: "u8 list \<Rightarrow> bool" where
  "white bs \<longleftrightarrow> list_all is_ws bs"

definition int_text :: "i64 \<Rightarrow> u8 list \<Rightarrow> bool" where
  "int_text n bs \<longleftrightarrow>
     (\<exists>ds. ds \<noteq> [] \<and> list_all is_digit_byte ds \<and> (bs = ds \<or> bs = b_minus # ds)
       \<and> parse_i64 (chars_of bs) = Some n)"

inductive json_text :: "json \<Rightarrow> u8 list \<Rightarrow> bool"
  and elems_text :: "json list \<Rightarrow> u8 list \<Rightarrow> bool"
  and members_text :: "(string \<times> json) list \<Rightarrow> u8 list \<Rightarrow> bool"
where
  text_null: "json_text JNull kw_null"
| text_true: "json_text (JBool True) kw_true"
| text_false: "json_text (JBool False) kw_false"
| text_number: "num_as_i64 n = Some i \<Longrightarrow> int_text i bs \<Longrightarrow> json_text (JNumber n) bs"
| text_string: "plain s \<Longrightarrow> json_text (JString s) (quoted s)"
| text_empty_array: "white w \<Longrightarrow> json_text (JArray []) (b_lbrack # w @ [b_rbrack])"
| text_array: "elems_text xs bs \<Longrightarrow> json_text (JArray xs) (b_lbrack # bs @ [b_rbrack])"
| text_empty_object: "white w \<Longrightarrow> json_text (JObject []) (b_lbrace # w @ [b_rbrace])"
| text_object: "members_text kvs bs \<Longrightarrow> json_text (JObject kvs) (b_lbrace # bs @ [b_rbrace])"
| text_last_element: "white w \<Longrightarrow> json_text x bs \<Longrightarrow> white w' \<Longrightarrow> elems_text [x] (w @ bs @ w')"
| text_more_elements:
    "white w \<Longrightarrow> json_text x bs \<Longrightarrow> white w' \<Longrightarrow> elems_text xs cs \<Longrightarrow> xs \<noteq> [] \<Longrightarrow>
     elems_text (x # xs) (w @ bs @ w' @ b_comma # cs)"
| text_last_member:
    "white w1 \<Longrightarrow> plain k \<Longrightarrow> white w2 \<Longrightarrow> white w3 \<Longrightarrow> json_text v bs \<Longrightarrow> white w4 \<Longrightarrow>
     members_text [(k, v)] (w1 @ quoted k @ w2 @ b_colon # w3 @ bs @ w4)"
| text_more_members:
    "white w1 \<Longrightarrow> plain k \<Longrightarrow> white w2 \<Longrightarrow> white w3 \<Longrightarrow> json_text v bs \<Longrightarrow> white w4 \<Longrightarrow>
     members_text kvs cs \<Longrightarrow> kvs \<noteq> [] \<Longrightarrow>
     members_text ((k, v) # kvs) (w1 @ quoted k @ w2 @ b_colon # w3 @ bs @ w4 @ b_comma # cs)"

inductive_cases json_textE: "json_text v bs"
inductive_cases elems_textE: "elems_text xs bs"
inductive_cases members_textE: "members_text kvs bs"

section \<open>White space, strings and numbers\<close>

text \<open>\<open>follows bytes i P\<close>: the byte at \<open>i\<close>, if there is one, satisfies \<open>P\<close>.\<close>

definition follows :: "u8 list \<Rightarrow> nat \<Rightarrow> (u8 \<Rightarrow> bool) \<Rightarrow> bool" where
  "follows bytes i P \<longleftrightarrow> (\<forall>b. nth_opt bytes i = Some b \<longrightarrow> P b)"

lemma code_at_Nil [simp]: "code_at bytes i [] \<longleftrightarrow> i \<le> length bytes"
proof
  assume "i \<le> length bytes"
  then have "bytes = take i bytes @ [] @ drop i bytes \<and> length (take i bytes) = i" by simp
  then show "code_at bytes i []" unfolding code_at_def by blast
qed (auto simp: code_at_def)

lemma code_at_le: "code_at bytes i bs \<Longrightarrow> i + length bs \<le> length bytes"
  by (auto simp: code_at_def)

lemma code_at_hd: "code_at bytes i (b # bs) \<Longrightarrow> nth_opt bytes i = Some b"
  using code_at_Cons [of bytes i b bs] code_at_nth by blast

lemma code_at_tl: "code_at bytes i (b # bs) \<Longrightarrow> code_at bytes (Suc i) bs"
  using code_at_Cons [of bytes i b bs] by simp

lemma code_at_drop: "code_at (drop k bytes) i bs \<longleftrightarrow> code_at bytes (k + i) bs" if "k \<le> length bytes"
proof
  assume "code_at (drop k bytes) i bs"
  then obtain pre post where "drop k bytes = pre @ bs @ post" "length pre = i" by (auto simp: code_at_def)
  then have "bytes = (take k bytes @ pre) @ bs @ post" "length (take k bytes @ pre) = k + i"
    using that append_take_drop_id [of k bytes] by auto
  then show "code_at bytes (k + i) bs" unfolding code_at_def by blast
next
  assume "code_at bytes (k + i) bs"
  then obtain pre post where "bytes = pre @ bs @ post" "length pre = k + i" by (auto simp: code_at_def)
  then have "drop k bytes = drop k pre @ bs @ post" "length (drop k pre) = i" by simp_all
  then show "code_at (drop k bytes) i bs" unfolding code_at_def by blast
qed

lemma skip_ws_stop: "follows bytes i (\<lambda>b. \<not> is_ws b) \<Longrightarrow> skip_ws bytes i = i"
  by (subst skip_ws.simps) (auto simp: follows_def nth_opt_def)

lemma skip_ws_white:
  "code_at bytes i w \<Longrightarrow> white w \<Longrightarrow> follows bytes (i + length w) (\<lambda>b. \<not> is_ws b) \<Longrightarrow>
   skip_ws bytes i = i + length w"
proof (induction w arbitrary: i)
  case Nil
  then show ?case by (simp add: skip_ws_stop)
next
  case (Cons b w)
  then have "skip_ws bytes i = skip_ws bytes (Suc i)"
    using code_at_hd [OF Cons.prems(1)]
    by (subst skip_ws.simps) (simp add: white_def byte_simps)
  also have "\<dots> = Suc i + length w"
    using Cons.prems code_at_tl [OF Cons.prems(1)] by (intro Cons.IH) (simp_all add: white_def)
  finally show ?case by simp
qed

lemma follows_at: "nth_opt bytes i = Some b \<Longrightarrow> P b \<Longrightarrow> follows bytes i P"
  by (simp add: follows_def)

lemma as_str_scan_plain:
  "code_at bytes i (bs @ [b_quote]) \<Longrightarrow> list_all (\<lambda>b. b \<noteq> b_quote \<and> b \<noteq> b_backslash) bs \<Longrightarrow>
   code_at bytes start (cs @ bs @ [b_quote]) \<Longrightarrow> start + length cs = i \<Longrightarrow>
   as_str_scan bytes start i = Inr (cs @ bs)"
proof (induction bs arbitrary: i cs)
  case Nil
  then have "nth_opt bytes i = Some b_quote" by (auto intro: code_at_hd)
  moreover have "slice_opt bytes start (start + length cs) = Some cs"
    using Nil.prems(3) by (intro code_at_slice) (simp add: code_at_append)
  ultimately show ?case
    using Nil.prems(4) by (subst as_str_scan.simps) (simp add: byte_simps slice_or_panic_def)
next
  case (Cons b bs)
  have "nth_opt bytes i = Some b" using Cons.prems(1) code_at_hd by simp
  moreover have "as_str_scan bytes start (Suc i) = Inr ((cs @ [b]) @ bs)"
    using Cons.prems code_at_tl [of bytes i b "bs @ [b_quote]"] by (intro Cons.IH) simp_all
  ultimately show ?case
    using Cons.prems(2) by (subst as_str_scan.simps) (simp add: byte_simps)
qed

lemma as_str_quoted:
  assumes "code_at bytes i (quoted s)" and "plain s"
  shows "as_str bytes i = Inr (bytes_of s)"
proof -
  have "code_at bytes (Suc i) (bytes_of s @ [b_quote])"
    using assms(1) code_at_tl by (simp add: quoted_def)
  then have "as_str_scan bytes (Suc i) (Suc i) = Inr ([] @ bytes_of s)"
    using assms(2) by (intro as_str_scan_plain) (auto simp: plain_def list_all_iff)
  moreover have "nth_opt bytes i = Some b_quote"
    using assms(1) code_at_hd by (simp add: quoted_def)
  ultimately show ?thesis by (simp add: as_str_def)
qed

lemma num_end_digits:
  "code_at bytes i ds \<Longrightarrow> list_all is_num_char ds \<Longrightarrow> follows bytes (i + length ds) (\<lambda>b. \<not> is_num_char b) \<Longrightarrow>
   num_end bytes i = i + length ds"
proof (induction ds arbitrary: i)
  case Nil
  then show ?case by (subst num_end.simps) (auto simp: follows_def nth_opt_def)
next
  case (Cons b ds)
  then have "num_end bytes i = num_end bytes (Suc i)"
    using code_at_hd [OF Cons.prems(1)] by (subst num_end.simps) (simp add: byte_simps)
  also have "\<dots> = Suc i + length ds"
    using Cons.prems code_at_tl [OF Cons.prems(1)] by (intro Cons.IH) simp_all
  finally show ?case by simp
qed

lemma digit_num_char: "is_digit_byte b \<Longrightarrow> is_num_char b \<and> b \<noteq> b_minus"
  by (auto simp: is_digit_byte_def is_num_char_def word_le_nat_alt)

lemma skip_number_int:
  assumes "code_at bytes i bs" and "int_text n bs"
    and "follows bytes (i + length bs) (\<lambda>b. \<not> is_num_char b)"
  shows "skip_number bytes i = Inr (i + length bs)"
proof -
  from assms(2) obtain ds where ds: "ds \<noteq> []" "list_all is_digit_byte ds" "bs = ds \<or> bs = b_minus # ds"
    by (auto simp: int_text_def)
  then obtain d ds' where d: "ds = d # ds'" "is_digit_byte d" by (cases ds) auto
  have num: "list_all is_num_char ds" using ds(2) digit_num_char by (auto simp: list_all_iff)
  from ds(3) show ?thesis
  proof
    assume bs: "bs = ds"
    have "nth_opt bytes i \<noteq> Some b_minus"
      using assms(1) code_at_hd [of bytes i d ds'] d digit_num_char bs by auto
    then show ?thesis
      using num_end_digits [OF assms(1)] assms(3) num ds(1) bs by (simp add: skip_number_def Let_def)
  next
    assume bs: "bs = b_minus # ds"
    then have "code_at bytes (Suc i) ds" using assms(1) code_at_tl by blast
    then have "num_end bytes (Suc i) = Suc i + length ds"
      using assms(3) num bs by (intro num_end_digits) simp_all
    then show ?thesis
      using code_at_hd [of bytes i b_minus ds] assms(1) ds(1) bs by (simp add: skip_number_def Let_def)
  qed
qed

section \<open>Containers\<close>

text \<open>
  A byte string is neutral when the container scan runs over it without closing the
  container it is in, whichever kind of bracket it counts.
\<close>

definition bracket_pair :: "u8 \<Rightarrow> u8 \<Rightarrow> bool" where
  "bracket_pair opener closer \<longleftrightarrow>
     (opener = b_lbrace \<and> closer = b_rbrace) \<or> (opener = b_lbrack \<and> closer = b_rbrack)"

definition neutral :: "u8 list \<Rightarrow> bool" where
  "neutral bs \<longleftrightarrow>
     (\<forall>bytes opener closer depth i. bracket_pair opener closer \<longrightarrow> 1 \<le> depth \<longrightarrow> code_at bytes i bs \<longrightarrow>
        container_scan bytes opener closer depth i False
          = container_scan bytes opener closer depth (i + length bs) False)"

lemma neutralD:
  "neutral bs \<Longrightarrow> bracket_pair opener closer \<Longrightarrow> 1 \<le> depth \<Longrightarrow> code_at bytes i bs \<Longrightarrow>
   container_scan bytes opener closer depth i False
     = container_scan bytes opener closer depth (i + length bs) False"
  by (simp add: neutral_def)

lemma neutral_Nil [simp]: "neutral []"
  by (simp add: neutral_def)

lemma neutral_append [intro]: "neutral xs \<Longrightarrow> neutral ys \<Longrightarrow> neutral (xs @ ys)"
  by (simp add: neutral_def code_at_append add.assoc)

lemma neutral_Cons: "neutral [x] \<Longrightarrow> neutral xs \<Longrightarrow> neutral (x # xs)"
  using neutral_append [of "[x]" xs] by simp

definition ordinary :: "u8 \<Rightarrow> bool" where
  "ordinary b \<longleftrightarrow> b \<notin> {b_quote, b_lbrace, b_rbrace, b_lbrack, b_rbrack}"

lemma neutral_ordinary: "list_all ordinary bs \<Longrightarrow> neutral bs"
proof (induction bs)
  case (Cons b bs)
  have "neutral [b]"
    unfolding neutral_def
  proof (intro allI impI)
    fix opener closer and depth :: int and i and bytes :: "u8 list"
    assume a: "bracket_pair opener closer" "code_at bytes i [b]"
    from code_at_nth [OF a(2)] have "i < length bytes" "bytes ! i = b" by (simp_all add: byte_simps)
    with a(1) Cons.prems show "container_scan bytes opener closer depth i False
        = container_scan bytes opener closer depth (i + length [b]) False"
      by (subst container_scan.simps) (auto simp: ordinary_def bracket_pair_def Let_def)
  qed
  with Cons show ?case using neutral_Cons by simp
qed simp

lemma container_scan_in_string:
  "code_at bytes i (bs @ [b_quote]) \<Longrightarrow> list_all (\<lambda>b. b \<noteq> b_quote \<and> b \<noteq> b_backslash) bs \<Longrightarrow>
   container_scan bytes opener closer depth i True
     = container_scan bytes opener closer depth (i + length bs + 1) False"
proof (induction bs arbitrary: i)
  case Nil
  then have "nth_opt bytes i = Some b_quote" using code_at_nth by simp
  then show ?case by (subst container_scan.simps) (simp add: byte_simps Let_def)
next
  case (Cons b bs)
  have "nth_opt bytes i = Some b" using Cons.prems(1) code_at_hd by simp
  then have "container_scan bytes opener closer depth i True = container_scan bytes opener closer depth (Suc i) True"
    using Cons.prems(2) by (subst container_scan.simps) (simp add: byte_simps Let_def)
  also have "\<dots> = container_scan bytes opener closer depth (Suc i + length bs + 1) False"
    using Cons.prems code_at_tl [of bytes i b "bs @ [b_quote]"] by (intro Cons.IH) simp_all
  finally show ?case by simp
qed

lemma neutral_quoted: "plain s \<Longrightarrow> neutral (quoted s)"
  unfolding neutral_def
proof (intro allI impI)
  fix opener closer depth i and bytes :: "u8 list"
  assume p: "plain s" and b: "bracket_pair opener closer" and c: "code_at bytes i (quoted s)"
  have "nth_opt bytes i = Some b_quote" using c code_at_hd by (simp add: quoted_def)
  then have "container_scan bytes opener closer depth i False = container_scan bytes opener closer depth (Suc i) True"
    by (subst container_scan.simps) (simp add: byte_simps Let_def)
  also have "\<dots> = container_scan bytes opener closer depth (Suc i + length (bytes_of s) + 1) False"
    using c p code_at_tl [of bytes i b_quote "bytes_of s @ [b_quote]"]
    by (intro container_scan_in_string) (auto simp: quoted_def plain_def list_all_iff)
  finally show "container_scan bytes opener closer depth i False
      = container_scan bytes opener closer depth (i + length (quoted s)) False"
    by (simp add: quoted_def)
qed

lemma container_open:
  assumes "bracket_pair opener closer" and "code_at bytes i [opener]"
  shows "container_scan bytes opener closer depth i False = container_scan bytes opener closer (depth + 1) (Suc i) False"
  using code_at_nth [OF assms(2)] assms(1)
  by (subst container_scan.simps) (auto simp: byte_simps bracket_pair_def Let_def)

lemma container_close:
  assumes "bracket_pair opener closer" and "code_at bytes i [closer]"
  shows "container_scan bytes opener closer depth i False =
    (if depth = 1 then Inr (Suc i) else container_scan bytes opener closer (depth - 1) (Suc i) False)"
  using code_at_nth [OF assms(2)] assms(1)
  by (subst container_scan.simps) (auto simp: byte_simps bracket_pair_def Let_def)

lemma container_other:
  assumes "bracket_pair opener closer" and "code_at bytes i [b]" and "b \<noteq> b_quote" "b \<noteq> opener" "b \<noteq> closer"
  shows "container_scan bytes opener closer depth i False = container_scan bytes opener closer depth (Suc i) False"
  using code_at_nth [OF assms(2)] assms by (subst container_scan.simps) (auto simp: byte_simps Let_def)

lemma neutral_container:
  assumes "bracket_pair a z" and "neutral bs"
  shows "neutral (a # bs @ [z])"
  unfolding neutral_def
proof (intro allI impI)
  fix opener closer and depth :: int and i and bytes :: "u8 list"
  assume o: "bracket_pair opener closer" and d: "1 \<le> depth" and c: "code_at bytes i (a # bs @ [z])"
  have at: "code_at bytes i [a]" "code_at bytes (Suc i) bs" "code_at bytes (Suc i + length bs) [z]"
    using c code_at_append [of bytes i "[a]" "bs @ [z]"] by (simp_all add: code_at_append)
  note mid = neutralD [OF assms(2) o _ at(2)]
  show "container_scan bytes opener closer depth i False
      = container_scan bytes opener closer depth (i + length (a # bs @ [z])) False"
  proof (cases "opener = a")
    case True
    then have "closer = z" using o assms(1) by (auto simp: bracket_pair_def)
    with True d show ?thesis
      using container_open [OF o, of bytes i depth] container_close [OF o, of bytes _ "depth + 1"] at mid [of "depth + 1"]
      by simp
  next
    case False
    then have "a \<noteq> b_quote" "a \<noteq> opener" "a \<noteq> closer" "z \<noteq> b_quote" "z \<noteq> opener" "z \<noteq> closer"
      using o assms(1) by (auto simp: bracket_pair_def)
    with d show ?thesis
      using container_other [OF o at(1)] container_other [OF o at(3)] mid [OF d] by simp
  qed
qed

lemma skip_container_text:
  assumes "bracket_pair a z" and "neutral bs" and "code_at bytes i (a # bs @ [z])"
  shows "skip_container bytes i a z = Inr (i + length (a # bs @ [z]))"
proof -
  have at: "code_at bytes i [a]" "code_at bytes (Suc i) bs" "code_at bytes (Suc i + length bs) [z]"
    using assms(3) code_at_append [of bytes i "[a]" "bs @ [z]"] by (simp_all add: code_at_append)
  show ?thesis
    using container_open [OF assms(1) at(1)] neutralD [OF assms(2,1) _ at(2)]
      container_close [OF assms(1) at(3)]
    by (simp add: skip_container_def)
qed

lemma neutral_white: "white w \<Longrightarrow> neutral w"
  by (rule neutral_ordinary) (auto simp: white_def list_all_iff is_ws_def ordinary_def)

lemma digit_ordinary: "is_digit_byte b \<Longrightarrow> ordinary b"
  by (auto simp: is_digit_byte_def ordinary_def word_le_nat_alt)

lemma neutral_int: "int_text n bs \<Longrightarrow> neutral bs"
proof -
  assume "int_text n bs"
  then obtain ds where "list_all is_digit_byte ds" and bs: "bs = ds \<or> bs = b_minus # ds"
    by (auto simp: int_text_def)
  then have "list_all ordinary ds" using digit_ordinary by (auto simp: list_all_iff)
  with bs have "list_all ordinary bs" by (auto simp: ordinary_def)
  then show ?thesis by (rule neutral_ordinary)
qed

lemma neutral_keyword: "neutral kw_null" "neutral kw_true" "neutral kw_false"
  by (rule neutral_ordinary, simp add: kw_null_def kw_true_def kw_false_def bytes_of_def ordinary_def)+

lemma neutral_punctuation: "neutral [b_comma]" "neutral [b_colon]"
  by (rule neutral_ordinary, simp add: ordinary_def)+

lemma bracket_pairs [simp]: "bracket_pair b_lbrace b_rbrace" "bracket_pair b_lbrack b_rbrack"
  by (simp_all add: bracket_pair_def)

lemma json_text_neutral:
  "json_text v bs \<Longrightarrow> neutral bs"
  "elems_text xs cs \<Longrightarrow> neutral cs"
  "members_text kvs ds \<Longrightarrow> neutral ds"
proof (induction rule: json_text_elems_text_members_text.inducts)
  case (text_number n i bs)
  then show ?case using neutral_int by blast
qed (simp_all add: neutral_append neutral_container neutral_white neutral_quoted neutral_keyword
    neutral_Cons [OF neutral_punctuation(1)] neutral_Cons [OF neutral_punctuation(2)])

section \<open>Values\<close>

text \<open>A value stands at a position, and what follows it does not continue a number.\<close>

definition value_at :: "u8 list \<Rightarrow> nat \<Rightarrow> json \<Rightarrow> bool" where
  "value_at bytes i v \<longleftrightarrow>
     (\<exists>bs. json_text v bs \<and> code_at bytes i bs \<and> follows bytes (i + length bs) (\<lambda>b. \<not> is_num_char b))"

lemma starts_with_here: "code_at bytes i kw \<Longrightarrow> starts_with_at bytes i kw = Inr True"
  by (auto simp: starts_with_at_def slice_or_panic_def slice_opt_def code_at_def)

lemma starts_with_other:
  "nth_opt bytes i = Some b \<Longrightarrow> kw \<noteq> [] \<Longrightarrow> hd kw \<noteq> b \<Longrightarrow> starts_with_at bytes i kw = Inr False"
proof -
  assume b: "nth_opt bytes i = Some b" "kw \<noteq> []" "hd kw \<noteq> b"
  then have "i < length bytes" "drop i bytes = b # drop (Suc i) bytes"
    by (auto simp: byte_simps Cons_nth_drop_Suc)
  with b show ?thesis
    by (cases kw) (auto simp: starts_with_at_def slice_or_panic_def slice_opt_def)
qed

lemma keyword_bytes:
  "kw_true = [0x74, 0x72, 0x75, 0x65]" "kw_false = [0x66, 0x61, 0x6C, 0x73, 0x65]"
  "kw_null = [0x6E, 0x75, 0x6C, 0x6C]"
  by (simp_all add: kw_true_def kw_false_def kw_null_def bytes_of_def)

lemma skip_value_keyword:
  assumes "code_at bytes i kw" and "kw = kw_true \<or> kw = kw_false \<or> kw = kw_null"
  shows "skip_value bytes i = Inr (i + length kw)"
proof -
  have b: "nth_opt bytes i = Some (hd kw)"
    using assms code_at_hd [of bytes i "hd kw" "tl kw"] by (auto simp: keyword_bytes)
  have "skip_keyword bytes i [kw_true, kw_false, kw_null] = Inr (i + length kw)"
    using assms(2) starts_with_here [OF assms(1)] starts_with_other [OF b]
    by (auto simp: keyword_bytes)
  with b assms(2) show ?thesis by (auto simp: skip_value_def keyword_bytes)
qed

lemma int_text_hd: "int_text n bs \<Longrightarrow> \<exists>b r. bs = b # r \<and> (b = b_minus \<or> is_digit_byte b)"
  by (auto simp: int_text_def) (metis list.exhaust list.pred_inject(2))

lemma digit_byte_other:
  "is_digit_byte b \<Longrightarrow> b \<noteq> b_quote \<and> b \<noteq> b_lbrace \<and> b \<noteq> b_lbrack \<and> b \<noteq> 0x74 \<and> b \<noteq> 0x66 \<and> b \<noteq> 0x6E
     \<and> b \<noteq> b_rbrace \<and> b \<noteq> b_rbrack \<and> \<not> is_ws b"
  by (auto simp: is_digit_byte_def is_ws_def word_le_nat_alt)

text \<open>The first byte tells which kind of value it is; it is never white space or a closing bracket.\<close>

lemma json_text_hd:
  "json_text v bs \<Longrightarrow> \<exists>b r. bs = b # r \<and> \<not> is_ws b \<and> b \<noteq> b_rbrace \<and> b \<noteq> b_rbrack"
  by (erule json_textE) (auto simp: keyword_bytes quoted_def is_ws_def dest!: int_text_hd digit_byte_other)

lemma skip_value_text:
  assumes "json_text v bs" and "code_at bytes i bs" and "follows bytes (i + length bs) (\<lambda>b. \<not> is_num_char b)"
  shows "skip_value bytes i = Inr (i + length bs)"
  using assms(1)
proof (cases rule: json_text.cases)
  case (text_number n k)
  then obtain b r where b: "bs = b # r" "b = b_minus \<or> is_digit_byte b" using int_text_hd by blast
  then have "nth_opt bytes i = Some b" using assms(2) code_at_hd by blast
  moreover have "skip_number bytes i = Inr (i + length bs)"
    using text_number assms(2,3) by (intro skip_number_int)
  ultimately show ?thesis using b digit_byte_other by (auto simp: skip_value_def)
next
  case (text_string s)
  then have "nth_opt bytes i = Some b_quote" using assms(2) code_at_hd by (auto simp: quoted_def)
  with as_str_quoted assms(2) text_string show ?thesis by (simp add: skip_value_def) (simp add: quoted_def)
next
  case (text_empty_array w)
  then show ?thesis using assms(2) code_at_hd skip_container_text [of b_lbrack b_rbrack w bytes i] neutral_white
    by (simp add: skip_value_def)
next
  case (text_array xs cs)
  then show ?thesis
    using assms(2) code_at_hd skip_container_text [of b_lbrack b_rbrack cs bytes i] json_text_neutral(2)
    by (simp add: skip_value_def)
next
  case (text_empty_object w)
  then show ?thesis using assms(2) code_at_hd skip_container_text [of b_lbrace b_rbrace w bytes i] neutral_white
    by (simp add: skip_value_def)
next
  case (text_object kvs cs)
  then show ?thesis
    using assms(2) code_at_hd skip_container_text [of b_lbrace b_rbrace cs bytes i] json_text_neutral(3)
    by (simp add: skip_value_def)
qed (use assms(2) skip_value_keyword in auto)

lemma value_at_skip: "value_at bytes i v \<Longrightarrow> \<exists>j. skip_value bytes i = Inr j"
  using skip_value_text by (auto simp: value_at_def)

lemma value_at_start: "value_at bytes i v \<Longrightarrow> skip_ws bytes i = i"
  by (rule skip_ws_stop) (auto simp: value_at_def follows_def dest!: json_text_hd code_at_hd)

section \<open>Members of an object\<close>

lemma follows_white:
  assumes "code_at bytes i (w @ [c])" and "white w" and "P c" and "\<And>b. is_ws b \<Longrightarrow> P b"
  shows "follows bytes i P"
proof (cases w)
  case Nil
  with assms show ?thesis using code_at_nth follows_at by fastforce
next
  case (Cons b w')
  with assms(1) have "nth_opt bytes i = Some b" using code_at_hd by simp
  moreover have "P b" using assms(2,4) Cons by (simp add: white_def)
  ultimately show ?thesis by (rule follows_at)
qed

lemma ws_not_num: "is_ws b \<Longrightarrow> \<not> is_num_char b"
  by (auto simp: is_ws_def is_num_char_def)

lemma skip_ws_to:
  assumes "code_at bytes i (w @ [c])" and "white w" and "\<not> is_ws c"
  shows "skip_ws bytes i = i + length w"
proof (rule skip_ws_white)
  show "code_at bytes i w" using assms(1) by (simp add: code_at_append)
  show "white w" by (rule assms)
  have "code_at bytes (i + length w) [c]" using assms(1) by (simp add: code_at_append)
  then show "follows bytes (i + length w) (\<lambda>b. \<not> is_ws b)" using code_at_nth assms(3) by (intro follows_at) simp_all
qed

lemma punctuation_not_ws [simp]: "\<not> is_ws b_comma" "\<not> is_ws b_rbrace" "\<not> is_ws b_rbrack" "\<not> is_ws b_colon"
    "\<not> is_ws b_quote" "\<not> is_ws b_lbrace" "\<not> is_ws b_lbrack"
  by (simp_all add: is_ws_def)

lemma punctuation_not_num [simp]: "\<not> is_num_char b_comma" "\<not> is_num_char b_rbrace" "\<not> is_num_char b_rbrack"
  by (simp_all add: is_num_char_def word_le_nat_alt)

lemma value_then:
  assumes "code_at bytes j (bs @ w @ [c])" and "json_text v bs" and "white w"
    and "c = b_comma \<or> c = b_rbrace \<or> c = b_rbrack"
  shows "value_at bytes j v" and "skip_value bytes j = Inr (j + length bs)"
    and "skip_ws bytes (j + length bs) = j + length bs + length w"
    and "nth_opt bytes (j + length bs + length w) = Some c"
proof -
  have at: "code_at bytes j bs" "code_at bytes (j + length bs) (w @ [c])" "code_at bytes (j + length bs + length w) [c]"
    using assms(1) by (simp_all add: code_at_append add.assoc)
  have f: "follows bytes (j + length bs) (\<lambda>b. \<not> is_num_char b)"
    using follows_white [OF at(2) assms(3)] assms(4) ws_not_num by auto
  then show "value_at bytes j v" using assms(2) at(1) by (auto simp: value_at_def)
  show "skip_value bytes j = Inr (j + length bs)" by (rule skip_value_text [OF assms(2) at(1) f])
  show "skip_ws bytes (j + length bs) = j + length bs + length w"
    using skip_ws_to [OF at(2) assms(3)] assms(4) by auto
  show "nth_opt bytes (j + length bs + length w) = Some c" by (rule code_at_nth [OF at(3)])
qed

lemma find_key_member:
  fixes bytes i w1 k w2 w3
  defines "j \<equiv> i + length w1 + length (quoted k) + length w2 + 1 + length w3"
  assumes at: "code_at bytes i (w1 @ quoted k @ w2 @ b_colon # w3 @ bs @ w4 @ [c])"
    and white: "white w1" "white w2" "white w3" "white w4" and "plain k" and "json_text v bs"
    and c: "c = b_comma \<or> c = b_rbrace"
  shows "value_at bytes j v"
    and "find_key_loop bytes (bytes_of key) (skip_ws bytes i) =
      (if k = key then Inr (Some j)
       else if c = b_comma then find_key_loop bytes (bytes_of key) (skip_ws bytes (j + length bs + length w4 + 1))
       else Inr None)"
proof -
  let ?q = "i + length w1" and ?p = "i + length w1 + length (quoted k)"
  have "code_at bytes i (w1 @ quoted k @ w2 @ [b_colon] @ w3 @ bs @ w4 @ [c])" using at by simp
  note parts = this [unfolded code_at_append]
  have at2: "code_at bytes (?p + length w2 + 1) (w3 @ bs @ w4 @ [c])"
    using parts by (simp add: code_at_append add.assoc)
  have at1: "code_at bytes ?q (quoted k)" "code_at bytes ?p (w2 @ [b_colon])"
    "code_at bytes (?p + length w2) [b_colon]"
    using parts by (simp_all add: code_at_append add.assoc)
  have at0: "code_at bytes i (w1 @ [b_quote])"
    using parts code_at_Cons [of bytes ?q b_quote "bytes_of k @ [b_quote]"]
    by (simp add: code_at_append quoted_def)
  from at2 have val: "code_at bytes j (bs @ w4 @ [c])" by (simp add: code_at_append j_def add.assoc)
  obtain b r where b: "bs = b # r" "\<not> is_ws b" using json_text_hd assms by blast
  have vb: "code_at bytes (?p + length w2 + 1) (w3 @ [b])"
    using at2 code_at_Cons [of bytes "?p + length w2 + 1 + length w3" b "r @ w4 @ [c]"] b(1) by (simp add: code_at_append)
  have q: "skip_ws bytes i = ?q" by (rule skip_ws_to [OF at0 white(1)]) simp
  have "nth_opt bytes ?q = Some b_quote" using at1(1) code_at_hd by (simp add: quoted_def)
  moreover have "as_str bytes ?q = Inr (bytes_of k)" by (rule as_str_quoted [OF at1(1) \<open>plain k\<close>])
  moreover have "skip_ws bytes (?q + 2 + length (bytes_of k)) = ?p + length w2"
    using skip_ws_to [OF at1(2) white(2)] by (simp add: quoted_def)
  moreover have "nth_opt bytes (?p + length w2) = Some b_colon" by (rule code_at_nth [OF at1(3)])
  moreover have "skip_ws bytes (?p + length w2 + 1) = j"
    using skip_ws_to [OF vb white(3) b(2)] by (simp add: j_def)
  moreover note value_then [OF val \<open>json_text v bs\<close> white(4)]
  ultimately show "value_at bytes j v"
    and "find_key_loop bytes (bytes_of key) (skip_ws bytes i) =
      (if k = key then Inr (Some j)
       else if c = b_comma then find_key_loop bytes (bytes_of key) (skip_ws bytes (j + length bs + length w4 + 1))
       else Inr None)"
    using c q find_key_loop.simps [of bytes "bytes_of key" ?q] by (auto simp: Let_def)
qed

text \<open>What a lookup must return: nothing, or the position of the value.\<close>

definition found_at :: "u8 list \<Rightarrow> json option \<Rightarrow> rt_err + nat option \<Rightarrow> bool" where
  "found_at bytes w r \<longleftrightarrow>
     (case w of None \<Rightarrow> r = Inr None | Some v \<Rightarrow> \<exists>j. r = Inr (Some j) \<and> value_at bytes j v)"

lemma find_key_members:
  "members_text kvs bs \<Longrightarrow> code_at bytes i (bs @ [b_rbrace]) \<Longrightarrow>
   found_at bytes (map_of kvs key) (find_key_loop bytes (bytes_of key) (skip_ws bytes i))"
proof (induction kvs arbitrary: bs i)
  case Nil
  then show ?case by (auto elim: members_textE)
next
  case (Cons kv kvs)
  from Cons.prems(1) show ?case
  proof (cases rule: members_text.cases)
    case (text_last_member w1 k w2 w3 v cs w4)
    then have "code_at bytes i (w1 @ quoted k @ w2 @ b_colon # w3 @ cs @ w4 @ [b_rbrace])"
      using Cons.prems(2) by simp
    from find_key_member [OF this] text_last_member show ?thesis
      by (simp add: found_at_def)
  next
    case (text_more_members w1 k w2 w3 v cs w4 ds)
    define e where "e = i + length w1 + length (quoted k) + length w2 + 1 + length w3 + length cs + length w4 + 1"
    from text_more_members have at: "code_at bytes i (w1 @ quoted k @ w2 @ b_colon # w3 @ cs @ w4 @ [b_comma])"
      and rest: "code_at bytes e (ds @ [b_rbrace])"
      using Cons.prems(2) code_at_append [of bytes i "w1 @ quoted k @ w2 @ b_colon # w3 @ cs @ w4 @ [b_comma]" "ds @ [b_rbrace]"]
      by (simp_all add: e_def add.assoc)
    from text_more_members Cons.IH [OF _ rest]
    have "found_at bytes (map_of kvs key) (find_key_loop bytes (bytes_of key) (skip_ws bytes e))" by simp
    with find_key_member(1) [OF at] find_key_member(2) [OF at, where key = key, folded e_def] text_more_members show ?thesis
      by (simp add: found_at_def)
  qed
qed

lemma find_key_object:
  assumes "value_at bytes i (JObject kvs)"
  shows "nth_opt bytes i = Some b_lbrace"
    and "found_at bytes (map_of kvs key) (find_key_in_object bytes i (bytes_of key))"
proof -
  from assms obtain bs where bs: "json_text (JObject kvs) bs" "code_at bytes i bs"
    by (auto simp: value_at_def)
  from bs(1) show "nth_opt bytes i = Some b_lbrace" using bs(2) code_at_hd by (auto elim: json_textE)
  from bs(1) show "found_at bytes (map_of kvs key) (find_key_in_object bytes i (bytes_of key))"
  proof (cases rule: json_text.cases)
    case (text_empty_object w)
    then have at: "code_at bytes (i + 1) (w @ [b_rbrace])" using bs(2) code_at_tl by simp
    then have "skip_ws bytes (i + 1) = i + 1 + length w"
      using text_empty_object skip_ws_to [OF at] by simp
    moreover have "nth_opt bytes (i + 1 + length w) = Some b_rbrace"
      using at code_at_nth by (simp add: code_at_append)
    ultimately show ?thesis
      using text_empty_object by (simp add: find_key_in_object_def found_at_def)
  next
    case (text_object cs)
    then have at: "code_at bytes (i + 1) (cs @ [b_rbrace])" using bs(2) code_at_tl by simp
    from text_object(2) obtain w b r where w: "cs = w @ b # r" "white w" "b = b_quote"
      by (cases rule: members_textE) (auto simp: quoted_def)
    then have "code_at bytes (i + 1) (w @ [b])"
      using at code_at_append [of bytes "i + 1" "w @ [b]" "r @ [b_rbrace]"] by simp
    from skip_ws_to [OF this w(2)] w(3) code_at_nth this
    have "nth_opt bytes (skip_ws bytes (i + 1)) = Some b_quote"
      by (simp add: code_at_append)
    then show ?thesis
      using find_key_members [OF text_object(2) at, of key] by (simp add: find_key_in_object_def)
  qed
qed

lemma value_not_object:
  assumes "value_at bytes i v" and "\<And>kvs. v \<noteq> JObject kvs"
  shows "nth_opt bytes i \<noteq> Some b_lbrace"
proof -
  from assms(1) obtain bs where bs: "json_text v bs" "code_at bytes i bs" by (auto simp: value_at_def)
  from bs(1) obtain b r where "bs = b # r" "b \<noteq> b_lbrace"
    using assms(2)
    by (cases rule: json_textE) (auto simp: keyword_bytes quoted_def dest!: int_text_hd digit_byte_other)
  then show ?thesis using bs(2) code_at_hd by fastforce
qed

lemma value_at_drop: "k \<le> length bytes \<Longrightarrow> value_at (drop k bytes) i v \<longleftrightarrow> value_at bytes (k + i) v"
proof -
  assume k: "k \<le> length bytes"
  then have "nth_opt (drop k bytes) j = nth_opt bytes (k + j)" for j
    by (auto simp: nth_opt_def)
  with k show ?thesis by (simp add: value_at_def code_at_drop follows_def add.assoc)
qed

text \<open>One step along a path: the value at a key, or nothing.\<close>

lemma find_path_key:
  assumes "value_at bytes (skip_ws bytes 0) v"
  shows "case json_get v key of
      None \<Rightarrow> find_path bytes [bytes_of key] = Inr None
    | Some w \<Rightarrow> \<exists>s e. find_path bytes [bytes_of key] = Inr (Some (s, e)) \<and> value_at bytes s w"
proof (cases "\<exists>kvs. v = JObject kvs")
  case True
  then obtain kvs where v: "v = JObject kvs" ..
  from find_key_object(1) [OF assms [unfolded v]] find_key_object(2) [OF assms [unfolded v], of key] v show ?thesis
    using value_at_skip by (fastforce simp: find_path_def found_at_def split: option.splits)
next
  case False
  then have "json_get v key = None" by (cases v) auto
  with value_not_object [OF assms] False show ?thesis by (simp add: find_path_def)
qed

lemma value_at_le: "value_at bytes i v \<Longrightarrow> i < length bytes"
  by (auto simp: value_at_def dest!: json_text_hd code_at_le)

lemma find_path_from_key:
  assumes "value_at input i v"
  shows "case json_get v key of
      None \<Rightarrow> find_path_from input i [bytes_of key] = Inr None
    | Some w \<Rightarrow> \<exists>s e. find_path_from input i [bytes_of key] = Inr (Some (s, e)) \<and> value_at input (i + s) w"
proof -
  have le: "i \<le> length input" using value_at_le [OF assms] by simp
  then have "value_at (drop i input) 0 v" using assms value_at_drop [OF le, of 0] by simp
  then have "value_at (drop i input) (skip_ws (drop i input) 0) v" using value_at_start by simp
  from find_path_key [OF this, where key = key] le show ?thesis
    by (auto simp: find_path_from_def slice_or_panic_eq value_at_drop split: option.splits)
qed

lemma rt_resolve_path:
  "value_at input i v \<Longrightarrow> found_at input (json_path v ks) (rt_resolve input (map bytes_of ks) i)"
proof (induction ks arbitrary: i v)
  case Nil
  then show ?case by (simp add: found_at_def)
next
  case (Cons k ks)
  show ?case
  proof (cases "json_get v k")
    case None
    with find_path_from_key [OF Cons.prems, of k] show ?thesis by (simp add: found_at_def)
  next
    case (Some w)
    with find_path_from_key [OF Cons.prems, of k] obtain s e
      where "find_path_from input i [bytes_of k] = Inr (Some (s, e))" "value_at input (i + s) w" by auto
    with Some Cons.IH [of "i + s" w] show ?thesis by simp
  qed
qed

section \<open>Elements of an array\<close>

text \<open>
  A search over the elements: a closure that tests each element and stops at the first
  that passes computes whether one passes.
\<close>

lemma elems_parts:
  assumes "elems_text (x # xs) bs"
  shows "\<exists>w cs w' c ds. white w \<and> json_text x cs \<and> white w' \<and> bs @ [b_rbrack] = w @ cs @ w' @ c # ds
    \<and> ((c = b_rbrack \<and> xs = []) \<or> (c = b_comma \<and> xs \<noteq> [] \<and> (\<exists>es. elems_text xs es \<and> ds = es @ [b_rbrack])))"
  using assms
proof (cases rule: elems_text.cases)
  case (text_last_element w cs w')
  then show ?thesis
    by (intro exI [of _ w] exI [of _ cs] exI [of _ w'] exI [of _ b_rbrack] exI [of _ "[]"]) simp
next
  case (text_more_elements w cs w' es)
  then show ?thesis
    by (intro exI [of _ w] exI [of _ cs] exI [of _ w'] exI [of _ b_comma] exI [of _ "es @ [b_rbrack]"]) auto
qed

lemma each_loop_search:
  assumes f: "\<And>x j e s. x \<in> set xs \<Longrightarrow> value_at bytes j x \<Longrightarrow>
      f j e s = Inr (if P x then (True, False) else (s, True))"
    and "elems_text xs bs" and "code_at bytes i (bs @ [b_rbrack])"
  shows "each_loop f bytes (skip_ws bytes i) s = Inr (s \<or> list_ex P xs)"
  using assms
proof (induction xs arbitrary: bs i)
  case Nil
  then show ?case by (auto elim: elems_textE)
next
  case (Cons x xs)
  from elems_parts [OF Cons.prems(2)] obtain w cs w' c ds where parts: "white w" "json_text x cs" "white w'"
    "bs @ [b_rbrack] = w @ cs @ w' @ c # ds" "(c = b_rbrack \<and> xs = []) \<or> (c = b_comma \<and> xs \<noteq> [] \<and> (\<exists>es. elems_text xs es \<and> ds = es @ [b_rbrack]))"
    by blast
  let ?j = "i + length w"
  have at: "code_at bytes ?j (cs @ w' @ [c])" and rest: "code_at bytes (?j + length cs + length w' + 1) ds"
    and w: "code_at bytes i (w @ cs @ w' @ c # ds)"
    using Cons.prems(3) code_at_append [of bytes i "w @ cs @ w' @ [c]" ds]
    by (simp_all add: parts(4) code_at_append add.assoc)
  obtain b r where b: "cs = b # r" "\<not> is_ws b" using json_text_hd [OF parts(2)] by blast
  then have "code_at bytes i (w @ [b])" using w code_at_append [of bytes i "w @ [b]" "r @ w' @ c # ds"] by simp
  then have start: "skip_ws bytes i = ?j" using skip_ws_to parts(1) b(2) by blast
  note val = value_then [OF at parts(2,3)]
  have c: "c = b_comma \<or> c = b_rbrace \<or> c = b_rbrack" using parts(5) by auto
  have fx: "f ?j e s = Inr (if P x then (True, False) else (s, True))" for e s
    using val(1) [OF c] Cons.prems(1) by simp
  have "each_loop f bytes (skip_ws bytes (?j + length cs + length w' + 1)) s = Inr (s \<or> list_ex P xs)"
    if "c = b_comma"
  proof -
    from that parts(5) obtain es where es: "elems_text xs es" "ds = es @ [b_rbrack]" by auto
    show ?thesis by (rule Cons.IH [OF _ es(1)]) (use Cons.prems(1) rest es(2) in auto)
  qed
  then show ?case
    unfolding start each_loop.simps [of f bytes ?j s]
    using val(2-4) [OF c] fx parts(5) by (auto simp: Let_def)
qed

lemma each_element_search:
  assumes "value_at bytes i (JArray xs)"
    and f: "\<And>x j e s. x \<in> set xs \<Longrightarrow> value_at bytes j x \<Longrightarrow>
      f j e s = Inr (if P x then (True, False) else (s, True))"
  shows "each_element f bytes i s = Inr (s \<or> list_ex P xs)"
proof -
  from assms(1) obtain bs where bs: "json_text (JArray xs) bs" "code_at bytes i bs"
    by (auto simp: value_at_def)
  then have hd: "nth_opt bytes i = Some b_lbrack" using code_at_hd by (auto elim: json_textE)
  from bs(1) show ?thesis
  proof (cases rule: json_text.cases)
    case (text_empty_array w)
    then have at: "code_at bytes (i + 1) (w @ [b_rbrack])" using bs(2) code_at_tl by simp
    then have "skip_ws bytes (i + 1) = i + 1 + length w"
      using text_empty_array skip_ws_to [OF at] by simp
    moreover have "nth_opt bytes (i + 1 + length w) = Some b_rbrack"
      using at code_at_nth by (simp add: code_at_append)
    ultimately show ?thesis
      using text_empty_array hd by (simp add: each_element_def)
  next
    case (text_array cs)
    then have at: "code_at bytes (i + 1) (cs @ [b_rbrack])" using bs(2) code_at_tl by simp
    from text_array(2) obtain w x ds r where w: "cs = w @ ds @ r" "white w" "json_text x ds"
      by (cases rule: elems_textE) auto
    then obtain b r' where b: "cs = w @ b # r'" "\<not> is_ws b" "b \<noteq> b_rbrack"
      using json_text_hd [OF w(3)] by auto
    then have wb: "code_at bytes (i + 1) (w @ [b])"
      using at code_at_append [of bytes "i + 1" "w @ [b]" "r' @ [b_rbrack]"] b(1) by simp
    from skip_ws_to [OF this w(2) b(2)] wb code_at_nth
    have "nth_opt bytes (skip_ws bytes (i + 1)) = Some b"
      by (simp add: code_at_append)
    then show ?thesis
      using each_loop_search [OF f text_array(2) at, where s = s] b(3) hd
      by (simp add: each_element_def Let_def)
  qed
qed

section \<open>A printer\<close>

text \<open>
  The compact text of a value, as an inhabitant of the grammar: every value with plain
  strings and integer numbers has a text.
\<close>

fun commas :: "u8 list list \<Rightarrow> u8 list" where
  "commas [] = []"
| "commas [x] = x"
| "commas (x # y # ys) = x @ b_comma # commas (y # ys)"

fun json_print :: "json \<Rightarrow> u8 list" where
  "json_print JNull = kw_null"
| "json_print (JBool b) = (if b then kw_true else kw_false)"
| "json_print (JNumber n) = (case num_as_i64 n of Some i \<Rightarrow> bytes_of (show_i64 i) | None \<Rightarrow> [])"
| "json_print (JString s) = quoted s"
| "json_print (JArray xs) = b_lbrack # commas (map json_print xs) @ [b_rbrack]"
| "json_print (JObject kvs) = b_lbrace # commas (map (\<lambda>(k, v). quoted k @ b_colon # json_print v) kvs) @ [b_rbrace]"

fun printable :: "json \<Rightarrow> bool" where
  "printable JNull = True"
| "printable (JBool b) = True"
| "printable (JNumber n) = (num_as_i64 n \<noteq> None)"
| "printable (JString s) = plain s"
| "printable (JArray xs) = list_all printable xs"
| "printable (JObject kvs) = list_all (\<lambda>(k, v). plain k \<and> printable v) kvs"

lemma white_Nil [simp]: "white []"
  by (simp add: white_def)

lemma is_digit_of_char: "is_digit c \<Longrightarrow> is_digit_byte (of_char c)"
  by (simp add: is_digit_def is_digit_byte_def word_le_nat_alt unat_of_char)

lemma int_text_show: "int_text i (bytes_of (show_i64 i))"
proof -
  have d: "bytes_of (show_nat n) \<noteq> []" "list_all is_digit_byte (bytes_of (show_nat n))" for n
    using show_nat_digits [of n] is_digit_of_char by (auto simp: all_digits_def bytes_of_def list_all_iff)
  have "\<exists>n. bytes_of (show_i64 i) = bytes_of (show_nat n) \<or> bytes_of (show_i64 i) = b_minus # bytes_of (show_nat n)"
    by (auto simp: show_i64_def bytes_of_def)
  then obtain n where "bytes_of (show_i64 i) = bytes_of (show_nat n) \<or> bytes_of (show_i64 i) = b_minus # bytes_of (show_nat n)"
    by blast
  with d [of n] show ?thesis unfolding int_text_def by (intro exI [of _ "bytes_of (show_nat n)"]) simp
qed

lemma elems_print:
  "xs \<noteq> [] \<Longrightarrow> (\<And>x. x \<in> set xs \<Longrightarrow> json_text x (json_print x)) \<Longrightarrow> elems_text xs (commas (map json_print xs))"
proof (induction xs)
  case (Cons x xs)
  show ?case
  proof (cases xs)
    case Nil
    then show ?thesis using text_last_element [of "[]" x "json_print x" "[]"] Cons.prems by simp
  next
    case (Cons y ys)
    then show ?thesis
      using text_more_elements [of "[]" x "json_print x" "[]" xs "commas (map json_print xs)"] Cons.prems Cons.IH by simp
  qed
qed simp

lemma members_print:
  "kvs \<noteq> [] \<Longrightarrow> (\<And>k v. (k, v) \<in> set kvs \<Longrightarrow> plain k \<and> json_text v (json_print v)) \<Longrightarrow>
   members_text kvs (commas (map (\<lambda>(k, v). quoted k @ b_colon # json_print v) kvs))"
proof (induction kvs)
  case (Cons kv kvs)
  obtain k v where kv: "kv = (k, v)" by force
  with Cons.prems have ok: "plain k" "json_text v (json_print v)" by auto
  show ?case
  proof (cases kvs)
    case Nil
    then show ?thesis using text_last_member [of "[]" k "[]" "[]" v "json_print v" "[]"] ok kv by simp
  next
    case (Cons y ys)
    then have "members_text kvs (commas (map (\<lambda>(k, v). quoted k @ b_colon # json_print v) kvs))"
      using Cons.IH Cons.prems by auto
    with text_more_members [of "[]" k "[]" "[]" v "json_print v" "[]" kvs] ok kv Cons show ?thesis by simp
  qed
qed simp

lemma json_text_print: "printable v \<Longrightarrow> json_text v (json_print v)"
proof (induction v)
  case (JArray xs)
  then show ?case
    using elems_print [of xs] text_empty_array [of "[]"] by (cases "xs = []") (auto simp: list_all_iff intro: text_array)
next
  case (JObject kvs)
  have "members_text kvs (commas (map (\<lambda>(k, v). quoted k @ b_colon # json_print v) kvs))" if "kvs \<noteq> []"
  proof (rule members_print [OF that])
    fix k v assume "(k, v) \<in> set kvs"
    with JObject.IH [of "(k, v)" v] JObject.prems show "plain k \<and> json_text v (json_print v)"
      by (auto simp: list_all_iff)
  qed
  then show ?case
    using text_empty_object [of "[]"] by (cases "kvs = []") (auto intro: text_object)
next
  case (JNumber n)
  then show ?case using int_text_show by (auto intro: text_number)
qed (auto intro: json_text_elems_text_members_text.intros)

end
