(* ===== verification/Runtime_Correct.thy ===== *)
theory Runtime_Correct
  imports Policy_Machine Json_Text
begin

text \<open>
  The wasm runtime is a policy machine on the inputs it can read: a JSON text of the call,
  within the documented restrictions of its scanner. Evaluating the emitted section on
  such an input gives the verdict of the policy block.
\<close>

section \<open>Values\<close>

text \<open>A value of the semantics and the runtime value that stands for it in an input.\<close>

fun val_rel :: "u8 list \<Rightarrow> native_val \<Rightarrow> rt_val \<Rightarrow> bool" where
  "val_rel input NNull r = (r = VNull)"
| "val_rel input (NBool b) r = (r = VBool b)"
| "val_rel input (NI64 n) r = (r = VI64 n)"
| "val_rel input (NF64 x) r = (r = VF64 x)"
| "val_rel input (NStr s) r = (r = VRaw (bytes_of s))"
| "val_rel input (NArray xs) r = (\<exists>j. r = VArrayAt j \<and> value_at input j (JArray xs))"

lemma as_i64_text:
  assumes "code_at bytes i bs" and "int_text n bs" and "follows bytes (i + length bs) (\<lambda>b. \<not> is_num_char b)"
  shows "as_i64 bytes i = Inr n"
proof -
  from assms(2) obtain ds where ds: "list_all is_digit_byte ds" "bs = ds \<or> bs = b_minus # ds"
    and n: "parse_i64 (chars_of bs) = Some n"
    by (auto simp: int_text_def)
  have "list_all (\<lambda>b. b < 0x80) ds"
    using ds(1) by (auto simp: list_all_iff is_digit_byte_def word_le_nat_alt word_less_nat_alt)
  with ds(2) have "utf8_valid bs" by (intro utf8_ascii) auto
  with n show ?thesis
    using skip_number_int [OF assms] code_at_slice [OF assms(1)]
    by (simp add: as_i64_def slice_or_panic_def from_utf8_def)
qed

lemma as_bool_text:
  "code_at bytes i kw_true \<Longrightarrow> as_bool_at bytes i = Inr True"
  "code_at bytes i kw_false \<Longrightarrow> as_bool_at bytes i = Inr False"
proof -
  show "code_at bytes i kw_true \<Longrightarrow> as_bool_at bytes i = Inr True"
    by (simp add: as_bool_at_def starts_with_here)
  assume f: "code_at bytes i kw_false"
  then have "nth_opt bytes i = Some 0x66" using code_at_hd by (simp add: keyword_bytes)
  then have "starts_with_at bytes i kw_true = Inr False"
    by (rule starts_with_other) (simp_all add: keyword_bytes)
  with f show "as_bool_at bytes i = Inr False" by (simp add: as_bool_at_def starts_with_here)
qed

text \<open>What the first byte of a value says, and the scalar read at it.\<close>

lemma value_at_parts:
  assumes "value_at input i v"
  obtains
    "v = JNull" "nth_opt input i = Some 0x6E"
  | b where "v = JBool b" "nth_opt input i = Some (if b then 0x74 else 0x66)" "as_bool_at input i = Inr b"
  | n k c where "v = JNumber n" "num_as_i64 n = Some k" "nth_opt input i = Some c" "c = b_minus \<or> is_digit_byte c"
      "as_i64 input i = Inr k"
  | s where "v = JString s" "nth_opt input i = Some b_quote" "as_str input i = Inr (bytes_of s)"
  | xs where "v = JArray xs" "nth_opt input i = Some b_lbrack"
  | kvs where "v = JObject kvs" "nth_opt input i = Some b_lbrace"
proof -
  from assms obtain bs where bs: "json_text v bs" "code_at input i bs"
    "follows input (i + length bs) (\<lambda>b. \<not> is_num_char b)" by (auto simp: value_at_def)
  from bs(1) show ?thesis
  proof (cases rule: json_text.cases)
    case text_null
    with bs(2) code_at_hd show ?thesis by (intro that(1)) (auto simp: keyword_bytes)
  next
    case text_true
    with bs(2) code_at_hd as_bool_text show ?thesis by (intro that(2) [of True]) (auto simp: keyword_bytes)
  next
    case text_false
    with bs(2) code_at_hd as_bool_text show ?thesis by (intro that(2) [of False]) (auto simp: keyword_bytes)
  next
    case (text_number n k)
    then obtain c r where "bs = c # r" "c = b_minus \<or> is_digit_byte c" using int_text_hd by blast
    with text_number bs code_at_hd as_i64_text show ?thesis by (intro that(3) [of n k c]) blast+
  next
    case (text_string s)
    with bs(2) have "nth_opt input i = Some b_quote" using code_at_hd by (auto simp: quoted_def)
    with text_string bs(2) as_str_quoted show ?thesis by (intro that(4) [of s]) auto
  next
    case (text_empty_array w)
    with bs(2) code_at_hd show ?thesis by (intro that(5)) auto
  next
    case (text_array xs cs)
    with bs(2) code_at_hd show ?thesis by (intro that(5)) auto
  next
    case (text_empty_object w)
    with bs(2) code_at_hd show ?thesis by (intro that(6)) auto
  next
    case (text_object kvs cs)
    with bs(2) code_at_hd show ?thesis by (intro that(6)) auto
  qed
qed

lemma rt_value_of:
  assumes "value_at input i v"
  shows "\<exists>r. rt_value_at input (skip_ws_fwd input i) = Inr r \<and> val_rel input (native_of v) r"
proof -
  have w: "skip_ws_fwd input i = i" using value_at_start [OF assms] by (simp add: skip_ws_fwd_def)
  from assms show ?thesis
  proof (cases rule: value_at_parts)
    case (3 n k c)
    then show ?thesis using digit_byte_other [of c] by (auto simp: rt_value_at_def w)
  qed (use assms in \<open>auto simp: rt_value_at_def w\<close>)
qed

section \<open>Membership and roles\<close>

text \<open>
  Where \<open>in\<close> means the same in the runtime: a null needle matches null and object
  elements only in the semantics, a float needle matches equal integers only there.
\<close>

fun is_number :: "json \<Rightarrow> bool" where
  "is_number (JNumber _) = True"
| "is_number _ = False"

fun member_portable :: "native_val \<Rightarrow> native_val \<Rightarrow> bool" where
  "member_portable NNull (NArray xs) = list_all (\<lambda>e. native_of e \<noteq> NNull) xs"
| "member_portable (NF64 f) (NArray xs) = list_all (\<lambda>e. \<not> is_number e) xs"
| "member_portable _ _ = True"

lemma not_digits [simp]:
  "\<not> is_digit_byte 0x6E" "\<not> is_digit_byte 0x74" "\<not> is_digit_byte 0x66" "\<not> is_digit_byte b_quote"
  "\<not> is_digit_byte b_lbrack" "\<not> is_digit_byte b_lbrace"
  by (simp_all add: is_digit_byte_def word_le_nat_alt)

text \<open>A string value is read, anything else is refused.\<close>

lemma as_str_value:
  assumes "value_at input j e"
  shows "as_str input j = (case json_as_str e of Some s \<Rightarrow> Inr (bytes_of s) | None \<Rightarrow> Inl JErr)"
  using assms by (cases rule: value_at_parts) (auto simp: as_str_def)

lemma in_element_value:
  assumes "value_at input j e" and "val_rel input x r" and "member_portable x (NArray xs)" and "e \<in> set xs"
  shows "in_closure input r j end found = Inr (if eq_native x (native_of e) then (True, False) else (found, True))"
proof -
  have w: "skip_ws_fwd input j = j" using value_at_start [OF assms(1)] by (simp add: skip_ws_fwd_def)
  have "in_element input r j = Inr (eq_native x (native_of e))"
    using assms(1)
  proof (cases rule: value_at_parts)
    case 1
    then show ?thesis using assms by (cases x) (auto simp: in_element_def list_all_iff)
  next
    case (2 b)
    then show ?thesis using assms by (cases x) (auto simp: in_element_def)
  next
    case (3 n k c)
    then show ?thesis using assms digit_byte_other by (cases x) (auto simp: in_element_def list_all_iff)
  next
    case (4 s)
    then show ?thesis using assms by (cases x) (auto simp: in_element_def)
  next
    case (5 ys)
    then show ?thesis using assms by (cases x) (auto simp: in_element_def is_digit_byte_def)
  next
    case (6 kvs)
    then show ?thesis using assms by (cases x) (auto simp: in_element_def list_all_iff is_digit_byte_def word_le_nat_alt)
  qed
  then show ?thesis by (simp add: in_closure_def w)
qed

lemma role_element_value:
  assumes "value_at input j e"
  shows "role_closure input (bytes_of role) j end found
    = Inr (if json_as_str e = Some role then (True, False) else (found, True))"
proof -
  have w: "skip_ws_fwd input j = j" using value_at_start [OF assms] by (simp add: skip_ws_fwd_def)
  show ?thesis
    using as_str_value [OF assms] by (simp add: role_closure_def w split: option.splits)
qed

section \<open>The runtime as a policy machine\<close>

text \<open>
  The call the input describes: caller and record are objects that stand at the root
  offsets, and the roles of the caller, if any, are an array.
\<close>

definition is_object :: "json \<Rightarrow> bool" where
  "is_object v \<longleftrightarrow> json_as_object v \<noteq> None"

definition roles_listed :: "json \<Rightarrow> bool" where
  "roles_listed caller \<longleftrightarrow>
     (case json_get caller ''roles'' of None \<Rightarrow> True | Some v \<Rightarrow> json_as_array v \<noteq> None)"

definition placed :: "u8 list \<Rightarrow> nat \<Rightarrow> nat \<Rightarrow> json \<Rightarrow> json \<Rightarrow> bool" where
  "placed input c s caller rec \<longleftrightarrow>
     value_at input c caller \<and> value_at input s rec \<and> is_object caller \<and> is_object rec
     \<and> roles_listed caller \<and> length input < no_root"

text \<open>
  What the runtime needs to be right about a predicate: paths of at most eight segments, a
  membership test that does not depend on its treatment of null and float needles, and a
  first argument of \<open>has_role\<close> that is not a string or an array.
\<close>

fun portable :: "json \<Rightarrow> json \<Rightarrow> expr \<Rightarrow> bool" where
  "portable caller rec (ELiteral _ _) = True"
| "portable caller rec (EPath p) = (length (tl (segments p)) \<le> MAX_SEGS)"
| "portable caller rec (EBinary bop a b _) =
     (portable caller rec a \<and> portable caller rec b \<and>
      (bop = BIn \<or> bop = BNotIn \<longrightarrow>
         (case (pred_value caller rec a, pred_value caller rec b) of
            (Inr x, Inr y) \<Rightarrow> member_portable x y
          | _ \<Rightarrow> True)))"
| "portable caller rec (EUnary _ a _) = portable caller rec a"
| "portable caller rec (ECall p args _) =
     (list_all (portable caller rec) args \<and>
      (joined p = ''has_role'' \<longrightarrow>
         (case args of
            a # _ \<Rightarrow> (case pred_value caller rec a of Inr (NStr _) \<Rightarrow> False | Inr (NArray _) \<Rightarrow> False | _ \<Rightarrow> True)
          | [] \<Rightarrow> True)))"
| "portable caller rec (EList _ _) = True"

abbreviation rt_config :: "u8 list \<Rightarrow> u8 list \<Rightarrow> nat \<Rightarrow> nat \<Rightarrow> nat \<Rightarrow> rt_val list \<Rightarrow> interp" where
  "rt_config ir input c s ip st \<equiv>
     \<lparr>it_ir = ir, it_ip = ip, it_stack = st, it_input = input, it_caller_at = c, it_self_at = s\<rparr>"

abbreviation rt_machine :: "u8 list \<Rightarrow> u8 list \<Rightarrow> nat \<Rightarrow> nat \<Rightarrow> nat \<Rightarrow> rt_val list \<Rightarrow> rt_err + bool" where
  "rt_machine ir input c s \<equiv> (\<lambda>ip st. rt_run (rt_config ir input c s ip st))"

abbreviation to_jerr :: "ir_error \<Rightarrow> rt_err" where
  "to_jerr \<equiv> (\<lambda>_. JErr)"

lemma rt_run_at:
  assumes "code_at ir ip [tag]"
  shows "rt_run (rt_config ir input c s ip st) =
    (case rt_exec tag (rt_config ir input c s (ip + 1) st) of
       Inl e \<Rightarrow> Inl e
     | Inr (Done b) \<Rightarrow> Inr b
     | Inr (Next s') \<Rightarrow> rt_run s')"
  by (simp add: rt_run.simps [of "rt_config ir input c s ip st"] rt_step_def code_at_nth [OF assms])

lemma rt_push_room:
  "length (it_stack s) < MAX_STACK \<Longrightarrow> rt_push v s = Inr (s\<lparr>it_stack := v # it_stack s\<rparr>)"
  by (simp add: rt_push_def)

lemma rt_pop_Cons [simp]: "it_stack s = v # st \<Longrightarrow> rt_pop s = Inr (v, s\<lparr>it_stack := st\<rparr>)"
  by (simp add: rt_pop_def)

text \<open>An opcode that produces the value of \<open>r\<close>, or fails when \<open>r\<close> is an error.\<close>

lemma rt_operator:
  assumes "code_at ir ip [tag]"
    and "case r of
        Inl e \<Rightarrow> rt_exec tag (rt_config ir input c s (ip + 1) st') = Inl JErr
      | Inr x \<Rightarrow> \<exists>v. val_rel input x v \<and>
          rt_exec tag (rt_config ir input c s (ip + 1) st') = Inr (Next (rt_config ir input c s ip' (v # st)))"
  shows "delivers (rt_machine ir input c s) (val_rel input) to_jerr ip' st r (rt_run (rt_config ir input c s ip st'))"
  using assms(2) by (cases r) (auto simp: rt_run_at [OF assms(1)])

lemma rt_exec_simps:
  "rt_exec LIT_NULL s = rt_next (rt_push VNull s)"
  "rt_exec LIT_BOOL s = rt_next (bindR (rt_read (read_u8 JErr) s) (\<lambda>(b, s). rt_push (VBool (b \<noteq> 0)) s))"
  "rt_exec LIT_I64 s = rt_next (bindR (rt_read (read_i64 JErr) s) (\<lambda>(v, s). rt_push (VI64 v) s))"
  "rt_exec LIT_F64 s = rt_next (bindR (rt_read (read_f64 JErr) s) (\<lambda>(v, s). rt_push (VF64 v) s))"
  "rt_exec LIT_STR s = rt_next (rt_lit_str s)"
  "rt_exec LOAD_CALLER s = rt_next (rt_load_path True s)"
  "rt_exec LOAD_SELF s = rt_next (rt_load_path False s)"
  "rt_exec OP_EQ s = rt_next (rt_cmp_eq False s)"
  "rt_exec OP_NE s = rt_next (rt_cmp_eq True s)"
  "rt_exec OP_LT s = rt_next (rt_cmp_ord OLt s)"
  "rt_exec OP_LE s = rt_next (rt_cmp_ord OLe s)"
  "rt_exec OP_GT s = rt_next (rt_cmp_ord OGt s)"
  "rt_exec OP_GE s = rt_next (rt_cmp_ord OGe s)"
  "rt_exec OP_AND s = rt_next (rt_logic (\<and>) s)"
  "rt_exec OP_OR s = rt_next (rt_logic (\<or>) s)"
  "rt_exec OP_NOT s = rt_next (rt_not s)"
  "rt_exec OP_IN s = rt_next (rt_in False s)"
  "rt_exec OP_NOT_IN s = rt_next (rt_in True s)"
  "rt_exec CALL_HAS_ROLE s = rt_next (rt_has_role s)"
  "rt_exec CALL_TENANT_MATCH s = rt_next (rt_tenant_match s)"
  "rt_exec OP_RESULT s = bindR (rt_pop_bool s) (\<lambda>(b, _). Inr (Done b))"
  by (simp_all add: rt_exec_def opcode_defs)

lemma rt_next_simps [simp]: "rt_next (Inr s) = Inr (Next s)" "rt_next (Inl e) = Inl e"
  by (simp_all add: rt_next_def)

subsection \<open>Literals and paths\<close>

lemma rt_read_at: "rd (it_ir s) (it_ip s) = Inr (v, ip') \<Longrightarrow> rt_read rd s = Inr (v, s\<lparr>it_ip := ip'\<rparr>)"
  by (simp add: rt_read_def)

lemma rt_literal_law:
  assumes "lower_literal lit = Inr code" and "code_at ir ip code" and "length st < MAX_STACK"
  shows "delivers (rt_machine ir input c s) (val_rel input) to_jerr (ip + length code) st (literal_value lit)
    (rt_run (rt_config ir input c s ip st))"
proof -
  from lower_literal_shape [OF assms(1,2)] obtain tag args where
    code: "code = tag # args" and at: "code_at ir ip [tag]" "code_at ir (Suc ip) args" .
  have "case literal_value lit of
        Inl e \<Rightarrow> rt_exec tag (rt_config ir input c s (ip + 1) st) = Inl JErr
      | Inr x \<Rightarrow> \<exists>v. val_rel input x v \<and>
          rt_exec tag (rt_config ir input c s (ip + 1) st) = Inr (Next (rt_config ir input c s (ip + length code) (v # st)))"
  proof (cases lit)
    case (LString x)
    with assms(1) code have tag: "tag = LIT_STR" and seg: "lower_segment x = Inr args"
      by (auto simp: lower_segment_def split: if_splits)
    with lower_segment_at(1) [OF seg at(2), where eof = JErr] lower_segment_at(2-4) [OF seg at(2)] LString assms(3)
    show ?thesis by (simp add: rt_exec_simps rt_lit_str_def rt_read_at rt_push_room code)
  qed (use assms code at in \<open>auto simp: rt_exec_simps rt_read_at code_at_reads rt_push_room\<close>)
  then show ?thesis by (rule rt_operator [OF at(1)])
qed

lemma rt_read_segs_at:
  "mapR lower_segment ks = Inr segs \<Longrightarrow> code_at ir ip (concat segs) \<Longrightarrow> length done + length ks \<le> MAX_SEGS \<Longrightarrow>
   rt_read_segs ir (length ks) ip done = Inr (done @ map bytes_of ks, ip + length (concat segs))"
proof (induction ks arbitrary: segs ip "done")
  case Nil
  then show ?case by simp
next
  case (Cons k ks)
  from Cons.prems(1) obtain bs rest where bs: "lower_segment k = Inr bs" "mapR lower_segment ks = Inr rest"
    and segs: "segs = bs # rest" by (auto simp: result_simps)
  from Cons.prems(2) segs have at: "code_at ir ip bs" "code_at ir (ip + length bs) (concat rest)"
    by (simp_all add: code_at_append)
  have "rt_read_segs ir (length ks) (ip + length bs) (done @ [bytes_of k])
      = Inr ((done @ [bytes_of k]) @ map bytes_of ks, ip + length bs + length (concat rest))"
    using Cons.prems(3) by (intro Cons.IH [OF bs(2) at(2)]) simp
  with lower_segment_at(1) [OF bs(1) at(1), where eof = JErr] lower_segment_at(2-4) [OF bs(1) at(1)] Cons.prems(3) segs
  show ?case by (simp add: path_push_def add.assoc)
qed

lemma placed_roots:
  assumes "placed input c s caller rec"
  shows "value_at input c caller" "value_at input s rec" "c \<noteq> no_root" "s \<noteq> no_root"
    "native_of caller = NNull" "native_of rec = NNull"
  using assms value_at_le [of input c caller] value_at_le [of input s rec]
  by (auto simp: placed_def is_object_def split: json.splits elim!: json_as_object.elims)

lemma rt_load_path_at:
  assumes read: "read_u8 JErr ir ip = Inr (word_of_nat (length ks), ip + 1)"
    and n: "unat (word_of_nat (length ks) :: u8) = length ks"
    and segs: "mapR lower_segment ks = Inr segs" "code_at ir (ip + 1) (concat segs)" "length ks \<le> MAX_SEGS"
    and root: "value_at input (if from_caller then c else s) v" "(if from_caller then c else s) \<noteq> no_root"
      "native_of v = NNull"
    and room: "length st < MAX_STACK"
  shows "\<exists>r. val_rel input (path_value v ks) r \<and>
    rt_load_path from_caller (rt_config ir input c s ip st)
      = Inr (rt_config ir input c s (ip + 1 + length (concat segs)) (r # st))"
proof -
  let ?s = "rt_config ir input c s (Suc (ip + length (concat segs))) st"
  have "rt_read_segs ir (length ks) (ip + 1) [] = Inr (map bytes_of ks, ip + 1 + length (concat segs))"
    using rt_read_segs_at [OF segs(1,2), of "[]"] segs(3) by simp
  then have load: "rt_load_path from_caller (rt_config ir input c s ip st) =
      (if ks = [] then rt_push VNull ?s
       else bindR (rt_resolve input (map bytes_of ks) (if from_caller then c else s)) (\<lambda>r.
         case r of
           None \<Rightarrow> rt_push VNull ?s
         | Some cursor \<Rightarrow> bindR (rt_value_at input (skip_ws_fwd input cursor)) (\<lambda>v. rt_push v ?s)))"
    using read n root(2) by (cases from_caller) (simp_all add: rt_load_path_def rt_read_at Let_def)
  show ?thesis
  proof (cases "ks = []")
    case True
    with load root(3) room show ?thesis by (simp add: path_value_def rt_push_room)
  next
    case False
    note found = rt_resolve_path [OF root(1), of ks]
    show ?thesis
    proof (cases "json_path v ks")
      case None
      with found False load room show ?thesis by (simp add: found_at_def path_value_def rt_push_room)
    next
      case (Some w)
      with found obtain j where "rt_resolve input (map bytes_of ks) (if from_caller then c else s) = Inr (Some j)"
        "value_at input j w" by (auto simp: found_at_def)
      with rt_value_of [of input j w] Some False load room show ?thesis
        by (auto simp: path_value_def rt_push_room)
    qed
  qed
qed

lemma rt_path_law:
  assumes "lower_path p = Inr code" and "code_at ir ip code" and "length (tl (segments p)) \<le> MAX_SEGS"
    and "placed input c s caller rec" and "length st < MAX_STACK"
  shows "delivers (rt_machine ir input c s) (val_rel input) to_jerr (ip + length code) st
     (Inr (path_value (path_root caller rec p) (tl (segments p)))) (rt_run (rt_config ir input c s ip st))"
proof -
  from lower_path_shape [OF assms(1,2), of JErr] obtain ks segs where
    sh: "segments p = hd (segments p) # ks" "hd (segments p) \<in> {''caller'', ''self''}"
    "mapR lower_segment ks = Inr segs" "code_at ir ip [load_op p]"
    "read_u8 JErr ir (ip + 1) = Inr (word_of_nat (length ks), ip + 2)"
    "unat (word_of_nat (length ks) :: u8) = length ks"
    "code_at ir (ip + 2) (concat segs)" "length code = 2 + length (concat segs)" by blast
  have tl: "tl (segments p) = ks" using sh(1) by (metis list.sel(3))
  note root = placed_roots [OF assms(4)]
  define from_caller where "from_caller \<longleftrightarrow> hd (segments p) = ''caller''"
  have "\<exists>r. val_rel input (path_value (path_root caller rec p) ks) r \<and>
      rt_load_path from_caller (rt_config ir input c s (ip + 1) st)
        = Inr (rt_config ir input c s (ip + 1 + 1 + length (concat segs)) (r # st))"
    using sh(5,6,7) assms(3,5) root tl
    by (intro rt_load_path_at [OF _ _ sh(3)]) (auto simp: path_root_def from_caller_def)
  moreover have "rt_exec (load_op p) s' = rt_next (rt_load_path from_caller s')" for s'
    using sh(2) by (auto simp: load_op_def from_caller_def rt_exec_simps)
  ultimately show ?thesis
    unfolding tl using sh(8) by (intro rt_operator [OF sh(4)]) auto
qed

subsection \<open>Operators and calls\<close>

lemma rt_pop_bool_Cons:
  "it_stack s = v # st \<Longrightarrow> rt_pop_bool s = (case v of VBool b \<Rightarrow> Inr (b, s\<lparr>it_stack := st\<rparr>) | _ \<Rightarrow> Inl JErr)"
  by (simp add: rt_pop_bool_def)

lemma val_rel_bool:
  "val_rel input x v \<Longrightarrow> (case v of VBool b \<Rightarrow> f b | _ \<Rightarrow> Inl JErr) = (case as_bool x of Inl _ \<Rightarrow> Inl JErr | Inr b \<Rightarrow> f b)"
  by (cases x) auto

lemma rt_eq_rel: "val_rel input x v \<Longrightarrow> val_rel input y w \<Longrightarrow> rt_eq v w = eq_native x y"
  by (cases x; cases y) auto

lemma rt_operands_rel:
  "val_rel input x v \<Longrightarrow> val_rel input y w \<Longrightarrow>
   rt_operands v w = (case (host_widen x, host_widen y) of (Some p, Some q) \<Rightarrow> Some (p, q) | _ \<Rightarrow> None)"
  by (cases x; cases y) auto

lemma rt_cmp_eq_rel:
  assumes "val_rel input x v" and "val_rel input y w" and "length st < MAX_STACK"
  shows "rt_cmp_eq neg (rt_config ir input c s ip (w # v # st))
    = Inr (rt_config ir input c s ip (VBool (if neg then \<not> eq_native x y else eq_native x y) # st))"
  using assms by (simp add: rt_cmp_eq_def rt_push_room rt_eq_rel)

lemma rt_cmp_ord_rel:
  assumes "val_rel input x v" and "val_rel input y w" and "length st < MAX_STACK"
    and "\<And>p q. rt_ord_holds ord p q = ord_holds tag p q"
  shows "case compare_values tag x y of
      Inl e \<Rightarrow> rt_cmp_ord ord (rt_config ir input c s ip (w # v # st)) = Inl JErr
    | Inr z \<Rightarrow> \<exists>r. val_rel input z r \<and>
        rt_cmp_ord ord (rt_config ir input c s ip (w # v # st)) = Inr (rt_config ir input c s ip (r # st))"
  using assms
  by (auto simp: rt_cmp_ord_def compare_values_def rt_push_room rt_operands_rel split: option.splits)

lemma rt_logic_rel:
  assumes "val_rel input x v" and "val_rel input y w" and "length st < MAX_STACK"
  shows "case bindR (as_bool y) (\<lambda>b. bindR (as_bool x) (\<lambda>a. Inr (NBool (f a b)))) of
      Inl e \<Rightarrow> rt_logic f (rt_config ir input c s ip (w # v # st)) = Inl JErr
    | Inr z \<Rightarrow> \<exists>r. val_rel input z r \<and>
        rt_logic f (rt_config ir input c s ip (w # v # st)) = Inr (rt_config ir input c s ip (r # st))"
  using assms by (cases x; cases y) (auto simp: rt_logic_def rt_pop_bool_Cons rt_push_room)

lemma rt_in_rel:
  assumes "val_rel input x v" and "val_rel input y w" and "length st < MAX_STACK" and "member_portable x y"
  shows "case member_value x y of
      Inl e \<Rightarrow> rt_in neg (rt_config ir input c s ip (w # v # st)) = Inl JErr
    | Inr found \<Rightarrow> rt_in neg (rt_config ir input c s ip (w # v # st))
        = Inr (rt_config ir input c s ip (VBool (if neg then \<not> found else found) # st))"
proof (cases y)
  case (NArray xs)
  with assms(2) obtain j where j: "w = VArrayAt j" "value_at input j (JArray xs)" by auto
  have "each_element (in_closure input v) input j False = Inr (False \<or> list_ex (\<lambda>e. eq_native x (native_of e)) xs)"
    using assms(1,4) NArray in_element_value by (intro each_element_search [OF j(2)]) blast
  with NArray j assms(3) show ?thesis
    by (simp add: rt_in_def member_value_def native_in_def rt_push_room)
qed (use assms in \<open>simp_all add: rt_in_def member_value_def\<close>)

lemma rt_binary_rel:
  assumes tag: "binary_tag bop = Some tag" and rel: "val_rel input x v" "val_rel input y w"
    and room: "length st < MAX_STACK" and mem: "bop = BIn \<or> bop = BNotIn \<Longrightarrow> member_portable x y"
  shows "case binary_value bop x y of
      Inl e \<Rightarrow> rt_exec tag (rt_config ir input c s ip (w # v # st)) = Inl JErr
    | Inr z \<Rightarrow> \<exists>r. val_rel input z r \<and>
        rt_exec tag (rt_config ir input c s ip (w # v # st)) = Inr (Next (rt_config ir input c s ip (r # st)))"
proof -
  have ord: "\<And>p q. rt_ord_holds OLt p q = ord_holds OP_LT p q" "\<And>p q. rt_ord_holds OLe p q = ord_holds OP_LE p q"
    "\<And>p q. rt_ord_holds OGt p q = ord_holds OP_GT p q" "\<And>p q. rt_ord_holds OGe p q = ord_holds OP_GE p q"
    by (simp_all add: ord_holds_def opcode_defs)
  note cmp = rt_cmp_ord_rel [OF rel room]
  show ?thesis
  proof (cases bop)
    case BIn
    with tag rt_in_rel [OF rel room mem, of False ir ip c s] show ?thesis
      by (cases "member_value x y") (auto simp: rt_exec_simps)
  next
    case BNotIn
    with tag rt_in_rel [OF rel room mem, of True ir ip c s] show ?thesis
      by (cases "member_value x y") (auto simp: rt_exec_simps)
  next
    case BAnd
    with tag rt_logic_rel [OF rel room, of "(\<and>)" ir ip c s] show ?thesis
      by (auto simp: rt_exec_simps split: sum.splits)
  next
    case BOr
    with tag rt_logic_rel [OF rel room, of "(\<or>)" ir ip c s] show ?thesis
      by (auto simp: rt_exec_simps split: sum.splits)
  next
    case BLt
    with tag cmp [OF ord(1), of ir ip c s] show ?thesis by (auto simp: rt_exec_simps split: sum.splits)
  next
    case BLe
    with tag cmp [OF ord(2), of ir ip c s] show ?thesis by (auto simp: rt_exec_simps split: sum.splits)
  next
    case BGt
    with tag cmp [OF ord(3), of ir ip c s] show ?thesis by (auto simp: rt_exec_simps split: sum.splits)
  next
    case BGe
    with tag cmp [OF ord(4), of ir ip c s] show ?thesis by (auto simp: rt_exec_simps split: sum.splits)
  qed (use tag rel room rt_cmp_eq_rel [OF rel room] in \<open>auto simp: rt_exec_simps\<close>)
qed

lemma rt_has_role_rel:
  assumes placed: "placed input c s caller rec" and rel: "val_rel input x v" "val_rel input y w"
    and room: "length st < MAX_STACK" and arg: "\<And>t. x \<noteq> NStr t" "\<And>xs. x \<noteq> NArray xs"
  shows "case call_value caller rec ''has_role'' x y of
      Inl e \<Rightarrow> rt_has_role (rt_config ir input c s ip (w # v # st)) = Inl JErr
    | Inr z \<Rightarrow> \<exists>r. val_rel input z r \<and>
        rt_has_role (rt_config ir input c s ip (w # v # st)) = Inr (rt_config ir input c s ip (r # st))"
proof (cases y)
  case (NStr role)
  note root = placed_roots [OF placed]
  let ?s = "rt_config ir input c s ip st"
  have "rt_has_role (rt_config ir input c s ip (w # v # st)) =
      catchR (find_path_from input c [bytes_of ''roles'']) (\<lambda>r.
        case r of
          Some (Some (roles_at, _)) \<Rightarrow>
            bindR (each_element (role_closure input (bytes_of role)) input (c + roles_at) False) (\<lambda>matched.
              rt_push (VBool matched) ?s)
        | _ \<Rightarrow> rt_push (VBool False) ?s)"
    using rel NStr arg root(3) by (cases x) (auto simp: rt_has_role_def)
  also have "\<dots> = rt_push (VBool (caller_has_role caller role)) ?s"
  proof (cases "json_get caller ''roles''")
    case None
    with find_path_from_key [OF root(1), of "''roles''"] show ?thesis by (simp add: caller_has_role_def)
  next
    case (Some u)
    with placed obtain xs where "u = JArray xs"
      by (auto simp: placed_def roles_listed_def elim!: json_as_array.elims)
    with Some find_path_from_key [OF root(1), of "''roles''"] obtain a b
      where f: "find_path_from input c [bytes_of ''roles''] = Inr (Some (a, b))" "value_at input (c + a) (JArray xs)"
      by auto
    have "each_element (role_closure input (bytes_of role)) input (c + a) False
        = Inr (False \<or> list_ex (\<lambda>e. json_as_str e = Some role) xs)"
      using role_element_value by (intro each_element_search [OF f(2)]) blast
    with f(1) Some \<open>u = JArray xs\<close> show ?thesis by (simp add: caller_has_role_def)
  qed
  finally show ?thesis using NStr room by (simp add: call_value_def rt_push_room)
qed (use rel in \<open>auto simp: rt_has_role_def call_value_def\<close>)

lemma rt_tenants_rel:
  assumes "placed input c s caller rec"
  shows "case rt_tenants (rt_config ir input c s ip stk) of
      Inl e \<Rightarrow> False
    | Inr (ct, st) \<Rightarrow> (case (ct, st) of (Some a, Some b) \<Rightarrow> a = b | _ \<Rightarrow> False) = tenants_match caller rec"
proof -
  note root = placed_roots [OF assms]
  have get: "(case json_get v ''tenant'' of
        None \<Rightarrow> find_path_from input i [bytes_of ''tenant''] = Inr None
      | Some w \<Rightarrow> \<exists>a e. find_path_from input i [bytes_of ''tenant''] = Inr (Some (a, e))
          \<and> as_str input (skip_ws_fwd input (i + a)) = (case json_as_str w of Some t \<Rightarrow> Inr (bytes_of t) | None \<Rightarrow> Inl JErr))"
    if "value_at input i v" for i v
  proof -
    have "as_str input (skip_ws_fwd input j) = (case json_as_str w of Some t \<Rightarrow> Inr (bytes_of t) | None \<Rightarrow> Inl JErr)"
      if "value_at input j w" for j w
      using as_str_value [OF that] value_at_start [OF that] by (simp add: skip_ws_fwd_def)
    with find_path_from_key [OF that, of "''tenant''"] show ?thesis
      by (force split: option.splits)
  qed
  show ?thesis
    using get [OF root(1)] get [OF root(2)]
    by (auto simp: rt_tenants_def tenants_match_def split: option.splits)
qed

lemma rt_call_rel:
  assumes tag: "builtin_tag name = Some tag" and placed: "placed input c s caller rec"
    and rel: "val_rel input x v" "val_rel input y w" and room: "length st < MAX_STACK"
    and arg: "name = ''has_role'' \<Longrightarrow> (\<forall>t. x \<noteq> NStr t) \<and> (\<forall>xs. x \<noteq> NArray xs)"
  shows "case call_value caller rec name x y of
      Inl e \<Rightarrow> rt_exec tag (rt_config ir input c s ip (w # v # st)) = Inl JErr
    | Inr z \<Rightarrow> \<exists>r. val_rel input z r \<and>
        rt_exec tag (rt_config ir input c s ip (w # v # st)) = Inr (Next (rt_config ir input c s ip (r # st)))"
proof (cases "name = ''has_role''")
  case True
  with tag arg rt_has_role_rel [OF placed rel room, of ir ip] show ?thesis
    by (auto simp: builtin_tag_def rt_exec_simps split: sum.splits)
next
  case False
  with tag have t: "name = ''tenant_match''" "tag = CALL_TENANT_MATCH"
    by (auto simp: builtin_tag_def split: if_splits)
  note root = placed_roots [OF placed]
  obtain ct tt where "rt_tenants (rt_config ir input c s ip st) = Inr (ct, tt)"
    "(case (ct, tt) of (Some a, Some b) \<Rightarrow> a = b | _ \<Rightarrow> False) = tenants_match caller rec"
    using rt_tenants_rel [OF placed, of ir ip st] by (auto split: sum.splits)
  then have "rt_tenant_match (rt_config ir input c s ip (w # v # st))
      = Inr (rt_config ir input c s ip (VBool (tenants_match caller rec) # st))"
    using root(3,4) room by (simp add: rt_tenant_match_def rt_push_room)
  with t show ?thesis by (simp add: call_value_def rt_exec_simps)
qed

lemma rt_not_rel:
  assumes "val_rel input x v" and "length st < MAX_STACK"
  shows "case bindR (as_bool x) (\<lambda>b. Inr (NBool (\<not> b))) of
      Inl e \<Rightarrow> rt_exec OP_NOT (rt_config ir input c s ip (v # st)) = Inl JErr
    | Inr z \<Rightarrow> \<exists>r. val_rel input z r \<and>
        rt_exec OP_NOT (rt_config ir input c s ip (v # st)) = Inr (Next (rt_config ir input c s ip (r # st)))"
  using assms by (cases x) (auto simp: rt_exec_simps rt_not_def rt_pop_bool_Cons rt_push_room)

interpretation wasm: policy_machine "rt_machine ir input c s" ir caller rec "val_rel input" to_jerr
    "\<lambda>e. placed input c s caller rec \<and> portable caller rec e"
  for ir input c s caller rec
proof (unfold_locales, goal_cases)
  case (4 lit code ip sp st)
  then show ?case by (intro rt_literal_law)
next
  case (5 p code ip st)
  then show ?case by (intro rt_path_law) simp_all
next
  case (6 bop tag ip a b sp x y v w st)
  then have "bop = BIn \<or> bop = BNotIn \<Longrightarrow> member_portable x y" by simp
  then show ?case by (intro rt_operator [OF 6(2)] rt_binary_rel [OF 6(1,6,7,8)])
next
  case (7 ip x v st)
  show ?case by (rule rt_operator [OF 7(1) rt_not_rel [OF 7(2,3)]])
next
  case (8 p tag ip a b sp x y v w st)
  then have "joined p = ''has_role'' \<Longrightarrow> (\<forall>t. x \<noteq> NStr t) \<and> (\<forall>xs. x \<noteq> NArray xs)"
    by (auto split: native_val.splits)
  then show ?case using 8(3) by (intro rt_operator [OF 8(2)] rt_call_rel [OF 8(1) _ 8(6,7,8)]) auto
next
  case (9 ip x v)
  then show ?case
    by (cases x) (auto simp: rt_run_at [OF 9(1)] rt_exec_simps rt_pop_bool_Cons)
qed auto

section \<open>Evaluating a call\<close>

text \<open>A document is a JSON text with white space around it.\<close>

definition json_document :: "json \<Rightarrow> u8 list \<Rightarrow> bool" where
  "json_document v input \<longleftrightarrow> (\<exists>w bs w'. input = w @ bs @ w' \<and> white w \<and> json_text v bs \<and> white w')"

text \<open>
  The input of a call (\<open>PolicyInputWire\<close>): an object whose caller and record are objects,
  whose action is one of the four, and whose roles are listed; it fits the linear memory.
\<close>

definition call_input :: "json \<Rightarrow> json \<Rightarrow> action \<Rightarrow> u8 list \<Rightarrow> bool" where
  "call_input caller rec a input \<longleftrightarrow>
     (\<exists>doc. json_document doc input \<and> json_get doc ''caller'' = Some caller
        \<and> json_get doc ''record'' = Some rec \<and> json_get doc ''action'' = Some (JString (action_display_name a)))
     \<and> is_object caller \<and> is_object rec \<and> roles_listed caller \<and> length input < 2 ^ 31"

fun verdict_of :: "ir_error + bool \<Rightarrow> verdict" where
  "verdict_of (Inr True) = Allow"
| "verdict_of (Inr False) = Deny"
| "verdict_of (Inl _) = VError"

lemma document_value:
  assumes "json_document v input"
  shows "value_at input (skip_ws input 0) v"
proof -
  from assms obtain w bs w' where i: "input = w @ bs @ w'" "white w" "json_text v bs" "white w'"
    by (auto simp: json_document_def)
  obtain b r where b: "bs = b # r" "\<not> is_ws b" using json_text_hd [OF i(3)] by blast
  have at: "code_at input 0 (w @ [b])" unfolding code_at_def i(1) b(1) by auto
  have "code_at input (length w) bs" unfolding code_at_def i(1) by blast
  moreover have "follows input (length w + length bs) (\<lambda>b. \<not> is_num_char b)"
    using i(4) ws_not_num by (cases w') (auto simp: follows_def nth_opt_def i(1) nth_append white_def)
  ultimately have "value_at input (length w) v" using i(3) by (auto simp: value_at_def)
  with skip_ws_to [OF at i(2) b(2)] show ?thesis by simp
qed

lemma document_key:
  assumes "json_document doc input" and "json_get doc key = Some v"
  shows "\<exists>s e. find_path input [bytes_of key] = Inr (Some (s, e)) \<and> value_at input s v"
  using find_path_key [OF document_value [OF assms(1)], of key] assms(2) by simp

lemma action_bit_for_name: "action_bit_for (bytes_of (action_display_name a)) = Some (action_bit a)"
  by (cases a) (simp_all add: action_bit_for_def)

lemma dispatch_block:
  assumes build: "build_action_table_and_rules block = Inr body" and placed: "placed input c s caller rec"
    and ok: "\<And>rule. rule \<in> set (block_rules block) \<Longrightarrow> a \<in> set (rule_actions rule) \<Longrightarrow>
       portable caller rec (rule_predicate rule) \<and> stack_depth (rule_predicate rule) \<le> MAX_STACK"
  shows "rt_dispatch input body c s (bytes_of (action_display_name a)) = Inr (verdict_of (block_verdict block caller rec a))"
proof (cases "find (\<lambda>r. a \<in> set (rule_actions r)) (block_rules block)")
  case None
  with block_entry(1-3) [OF build] block_entry(4) [OF build, of a] show ?thesis
    by (simp add: rt_dispatch_def block_verdict_def Let_def action_bit_for_name)
next
  case (Some rule)
  with block_entry(4) [OF build, of a] obtain ip msk stream where
    entry: "table_entry body (length (block_rules block)) (1 + length (block_rules block) * 3) (action_bit a) = Some ip"
    "lower_rule rule = Inr (msk, stream)" "code_at body ip stream" by auto
  have rule: "rule \<in> set (block_rules block)" "a \<in> set (rule_actions rule)"
    using Some by (auto simp: find_Some_iff)
  have "stream \<noteq> []" using entry(2) by (auto simp: lower_rule_def result_simps)
  then have "ip < length body" using code_at_le [OF entry(3)] by (cases stream) auto
  moreover have "rt_run (rt_config body input c s ip []) =
      (case rule_verdict caller rec rule of Inl e \<Rightarrow> Inl JErr | Inr b \<Rightarrow> Inr b)"
    using wasm.lower_rule_runs [OF entry(2,3), of input c s caller rec] placed ok [OF rule] by simp
  moreover have "block_rules block \<noteq> []" using rule(1) by auto
  ultimately show ?thesis
    using block_entry(1-3) [OF build] entry(1) Some
    by (cases "rule_verdict caller rec rule")
      (auto simp: rt_dispatch_def block_verdict_def Let_def action_bit_for_name split: bool.splits)
qed

lemma dispatch_empty: "rt_dispatch input [0] c s name = Inr Deny"
  by (simp add: rt_dispatch_def)

text \<open>Up to the dispatch: the section is well formed and the call is found in the input.\<close>

lemma evaluate_section:
  assumes "call_input caller rec a input" and "length body < 2 ^ 31"
  shows "\<exists>c s. placed input c s caller rec \<and>
    rt_evaluate input (ir_section body @ pad) = rt_dispatch input body c s (bytes_of (action_display_name a))"
proof -
  from assms(1) obtain doc where doc: "json_document doc input" "json_get doc ''caller'' = Some caller"
    "json_get doc ''record'' = Some rec" "json_get doc ''action'' = Some (JString (action_display_name a))"
    and obj: "is_object caller" "is_object rec" "roles_listed caller" "length input < 2 ^ 31"
    by (auto simp: call_input_def)
  from document_key [OF doc(1,2)] document_key [OF doc(1,3)] document_key [OF doc(1,4)]
  obtain c s t where
    c: "\<exists>e. find_path input [bytes_of ''caller''] = Inr (Some (c, e))" "value_at input c caller" and
    s: "\<exists>e. find_path input [bytes_of ''record''] = Inr (Some (s, e))" "value_at input s rec" and
    t: "\<exists>e. find_path input [bytes_of ''action''] = Inr (Some (t, e))" "value_at input t (JString (action_display_name a))"
    by metis
  have placed: "placed input c s caller rec"
    using c(2) s(2) obj by (simp add: placed_def no_root_def wasm_usize_max_def)
  have b: "length body < 2 ^ 32" using assms(2) by simp
  note h = section_header [OF b]
  have sec: "take 4 (ir_section body @ pad) = MAGIC" "declared_len (ir_section body @ pad) = length body"
    "slice_or_panic (ir_section body @ pad) 8 (8 + length body) = Inr body"
    "8 \<le> length (ir_section body @ pad)" "8 + length body \<le> length (ir_section body @ pad)"
    using h by (simp_all add: declared_len_def slice_or_panic_def slice_opt_def)
  have "rt_evaluate input (ir_section body @ pad) = rt_dispatch input body c s (bytes_of (action_display_name a))"
    using c(1) s(1) t(1) as_str_value [OF t(2)] sec assms(2)
    by (auto simp: rt_evaluate_def checked_add_usize_def wasm_usize_max_def add.commute)
  with placed show ?thesis by blast
qed

lemma evaluate_block:
  assumes "build_action_table_and_rules block = Inr body" and "length body < 2 ^ 31"
    and "call_input caller rec a input"
    and "\<And>rule. rule \<in> set (block_rules block) \<Longrightarrow> a \<in> set (rule_actions rule) \<Longrightarrow>
       portable caller rec (rule_predicate rule) \<and> stack_depth (rule_predicate rule) \<le> MAX_STACK"
  shows "rt_evaluate input (ir_section body @ pad) = Inr (verdict_of (block_verdict block caller rec a))"
  using evaluate_section [OF assms(3,2), of pad] dispatch_block [OF assms(1) _ assms(4)] by fastforce

end
