(* ===== verification/Policy_Correct.thy ===== *)
theory Policy_Correct
  imports Policy_Machine
begin

text \<open>
  The native interpreter is a policy machine: the bytes the emitter produces, run by it,
  compute the meaning of the policy.
\<close>

section \<open>Running one opcode\<close>

text \<open>
  The native interpreter stops a load at the first missing key without skipping the
  remaining segments, so it is right about a path only when every key but the last one
  is present.
\<close>

fun loads_complete :: "json \<Rightarrow> json \<Rightarrow> expr \<Rightarrow> bool" where
  "loads_complete caller rec (ELiteral _ _) = True"
| "loads_complete caller rec (EPath p) =
     (json_path (path_root caller rec p) (butlast (tl (segments p))) \<noteq> None)"
| "loads_complete caller rec (EBinary _ a b _) = (loads_complete caller rec a \<and> loads_complete caller rec b)"
| "loads_complete caller rec (EUnary _ a _) = loads_complete caller rec a"
| "loads_complete caller rec (ECall _ args _) = list_all (loads_complete caller rec) args"
| "loads_complete caller rec (EList _ _) = True"

text \<open>Running the opcode found at the pointer.\<close>

lemma host_run_at:
  assumes "code_at ir ip [tag]"
  shows "host_run ir caller rec (ip, st) =
    (case host_exec ir caller rec tag (ip + 1) st of
       Inl e \<Rightarrow> Inl e
     | Inr (Done b) \<Rightarrow> Inr b
     | Inr (Next s) \<Rightarrow> host_run ir caller rec s)"
  by (simp add: host_run.simps [of ir caller rec "(ip, st)"] host_step_def code_at_nth [OF assms])

section \<open>Opcodes on the values they expect\<close>

lemma host_exec_load [simp]:
  "host_exec ir caller rec LOAD_CALLER ip st =
     bindR (host_load_path ir ip caller) (\<lambda>(v, ip). host_push v ip st)"
  "host_exec ir caller rec LOAD_SELF ip st =
     bindR (host_load_path ir ip rec) (\<lambda>(v, ip). host_push v ip st)"
  by (simp_all add: host_exec_def opcode_defs)

lemma host_exec_literal [simp]:
  "host_exec ir caller rec LIT_NULL ip st = host_push NNull ip st"
  "host_exec ir caller rec LIT_BOOL ip st =
     bindR (read_u8 UnexpectedEof ir ip) (\<lambda>(b, ip). host_push (NBool (b \<noteq> 0)) ip st)"
  "host_exec ir caller rec LIT_I64 ip st =
     bindR (read_i64 UnexpectedEof ir ip) (\<lambda>(v, ip). host_push (NI64 v) ip st)"
  "host_exec ir caller rec LIT_F64 ip st =
     bindR (read_f64 UnexpectedEof ir ip) (\<lambda>(v, ip). host_push (NF64 v) ip st)"
  "host_exec ir caller rec LIT_STR ip st = host_lit_str ir ip st"
  by (simp_all add: host_exec_def opcode_defs)

lemma host_exec_operator [simp]:
  "host_exec ir caller rec OP_EQ ip st = host_eq True ip st"
  "host_exec ir caller rec OP_NE ip st = host_eq False ip st"
  "host_exec ir caller rec OP_LT ip st = host_ord OP_LT ip st"
  "host_exec ir caller rec OP_LE ip st = host_ord OP_LE ip st"
  "host_exec ir caller rec OP_GT ip st = host_ord OP_GT ip st"
  "host_exec ir caller rec OP_GE ip st = host_ord OP_GE ip st"
  "host_exec ir caller rec OP_AND ip st = host_logic (\<and>) ip st"
  "host_exec ir caller rec OP_OR ip st = host_logic (\<or>) ip st"
  "host_exec ir caller rec OP_NOT ip st = host_not ip st"
  "host_exec ir caller rec OP_IN ip st = host_in True ip st"
  "host_exec ir caller rec OP_NOT_IN ip st = host_in False ip st"
  "host_exec ir caller rec CALL_HAS_ROLE ip st = host_has_role caller ip st"
  "host_exec ir caller rec CALL_TENANT_MATCH ip st = host_tenant_match caller rec ip st"
  "host_exec ir caller rec OP_RESULT ip st = bindR (host_pop_bool st) (\<lambda>(b, _). Inr (Done b))"
  by (simp_all add: host_exec_def opcode_defs)

lemma host_pop_Cons [simp]: "host_pop (v # st) = Inr (v, st)"
  by (simp add: host_pop_def)

lemma host_pop_bool_Cons: "host_pop_bool (v # st) = bindR (as_bool v) (\<lambda>b. Inr (b, st))"
  by (cases v) (simp_all add: host_pop_bool_def)

definition pushed :: "nat \<Rightarrow> native_val list \<Rightarrow> ir_error + native_val \<Rightarrow> ir_error + host_state outcome" where
  "pushed ip st r = bindR r (\<lambda>v. Inr (Next (ip, v # st)))"

lemma pushed_simps [simp]:
  "pushed ip st (Inl e) = Inl e" "pushed ip st (Inr v) = Inr (Next (ip, v # st))"
  by (simp_all add: pushed_def)

lemma host_push_room: "length st < MAX_STACK \<Longrightarrow> host_push v ip st = Inr (Next (ip, v # st))"
  by (simp add: host_push_def)

lemma host_binary_exec:
  assumes "binary_tag bop = Some tag" and "length st < MAX_STACK"
  shows "host_exec ir caller rec tag ip (y # x # st) = pushed ip st (binary_value bop x y)"
  using assms
  by (cases bop; cases "as_bool x"; cases "as_bool y"; cases y)
     (auto simp: host_arm_defs host_push_room host_pop_bool_Cons compare_values_def member_value_def
       split: option.splits)

lemma host_call_exec:
  assumes "builtin_tag name = Some tag" and "length st < MAX_STACK"
  shows "host_exec ir caller rec tag ip (y # x # st) = pushed ip st (call_value caller rec name x y)"
  using assms
  by (cases y) (auto simp: builtin_tag_def call_value_def host_arm_defs host_push_room split: if_splits)

lemma host_not_exec:
  assumes "length st < MAX_STACK"
  shows "host_exec ir caller rec OP_NOT ip (x # st) = pushed ip st (bindR (as_bool x) (\<lambda>b. Inr (NBool (\<not> b))))"
  using assms by (cases x) (simp_all add: host_not_def host_pop_bool_Cons host_push_room)

section \<open>Loading a path\<close>

lemma host_load_segs_at:
  assumes "mapR lower_segment ks = Inr segs" and "code_at ir ip (concat segs)"
    and "\<forall>k \<in> set ks. rust_str k" and "json_path root (butlast ks) \<noteq> None"
  shows "host_load_segs ir (length ks) ip root = Inr (path_value root ks, ip + length (concat segs))"
  using assms
proof (induction ks arbitrary: segs ip root)
  case Nil
  then show ?case by (simp add: path_value_def)
next
  case (Cons k ks)
  from Cons.prems(1) obtain bs rest where bs: "lower_segment k = Inr bs" "mapR lower_segment ks = Inr rest"
    and segs: "segs = bs # rest" by (auto simp: result_simps)
  from Cons.prems(2) segs have at: "code_at ir ip bs" "code_at ir (ip + length bs) (concat rest)"
    by (simp_all add: code_at_append)
  note seg = lower_segment_at(1) [OF bs(1) at(1), where eof = UnexpectedEof] lower_segment_at(2-4) [OF bs(1) at(1)]
  have str: "rust_str k" using Cons.prems(3) by simp
  show ?case
  proof (cases "json_get root k")
    case None
    with Cons.prems(4) have "ks = []" by (cases ks) auto
    with None bs segs seg str show ?thesis by (simp add: path_value_def)
  next
    case (Some v)
    have "json_path v (butlast ks) \<noteq> None"
      using Cons.prems(4) Some by (cases ks) auto
    then have "host_load_segs ir (length ks) (ip + length bs) v
        = Inr (path_value v ks, ip + length bs + length (concat rest))"
      using Cons.prems(3) by (intro Cons.IH [OF bs(2) at(2)]) auto
    with Some segs seg str show ?thesis
      by (simp add: path_value_def add.assoc)
  qed
qed

text \<open>What the native interpreter needs to be right about a predicate.\<close>

definition host_exact :: "json \<Rightarrow> json \<Rightarrow> expr \<Rightarrow> bool" where
  "host_exact caller rec e \<longleftrightarrow> list_all rust_str (expr_strings e) \<and> loads_complete caller rec e"

abbreviation host_machine :: "u8 list \<Rightarrow> json \<Rightarrow> json \<Rightarrow> nat \<Rightarrow> native_val list \<Rightarrow> ir_error + bool" where
  "host_machine ir caller rec \<equiv> (\<lambda>ip st. host_run ir caller rec (ip, st))"

lemma host_operator:
  assumes "code_at ir ip [tag]" and "host_exec ir caller rec tag (ip + 1) st' = pushed ip' st r"
  shows "delivers (host_machine ir caller rec) (=) id ip' st r (host_run ir caller rec (ip, st'))"
  using assms(2) by (cases r) (simp_all add: host_run_at [OF assms(1)])

lemma host_path_law:
  assumes "lower_path p = Inr code" and "code_at ir ip code" and "host_exact caller rec (EPath p)"
    and "length st < MAX_STACK"
  shows "delivers (host_machine ir caller rec) (=) id (ip + length code) st
     (Inr (path_value (path_root caller rec p) (tl (segments p)))) (host_run ir caller rec (ip, st))"
proof -
  from lower_path_shape [OF assms(1,2), of UnexpectedEof] obtain ks segs where
    sh: "segments p = hd (segments p) # ks" "hd (segments p) \<in> {''caller'', ''self''}"
    "mapR lower_segment ks = Inr segs" "code_at ir ip [load_op p]"
    "read_u8 UnexpectedEof ir (ip + 1) = Inr (word_of_nat (length ks), ip + 2)"
    "unat (word_of_nat (length ks) :: u8) = length ks"
    "code_at ir (ip + 2) (concat segs)" "length code = 2 + length (concat segs)" by blast
  have "host_load_segs ir (length ks) (ip + 2) (path_root caller rec p)
      = Inr (path_value (path_root caller rec p) ks, ip + 2 + length (concat segs))"
    using assms(3) sh(1)
    by (intro host_load_segs_at [OF sh(3,7)]) (auto simp: host_exact_def list_all_iff, (metis list.sel(3) list.set_intros(2))+)
  then have "host_load_path ir (ip + 1) (path_root caller rec p)
      = Inr (path_value (path_root caller rec p) ks, ip + length code)"
    using sh(5,6,8) by (simp add: host_load_path_def)
  then have "host_exec ir caller rec (load_op p) (ip + 1) st
      = pushed (ip + length code) st (Inr (path_value (path_root caller rec p) ks))"
    using sh(2) assms(4) by (auto simp: load_op_def path_root_def host_push_room)
  then have "delivers (host_machine ir caller rec) (=) id (ip + length code) st
      (Inr (path_value (path_root caller rec p) ks)) (host_run ir caller rec (ip, st))"
    by (rule host_operator [OF sh(4)])
  moreover have "tl (segments p) = ks" using sh(1) by (metis list.sel(3))
  ultimately show ?thesis by simp
qed

lemma host_literal_law:
  assumes "lower_literal lit = Inr code" and "code_at ir ip code" and "host_exact caller rec (ELiteral lit sp)"
    and "length st < MAX_STACK"
  shows "delivers (host_machine ir caller rec) (=) id (ip + length code) st (literal_value lit)
     (host_run ir caller rec (ip, st))"
proof -
  from lower_literal_shape [OF assms(1,2)] obtain tag args where
    code: "code = tag # args" and at: "code_at ir ip [tag]" "code_at ir (Suc ip) args" .
  have "host_exec ir caller rec tag (ip + 1) st = pushed (ip + length code) st (literal_value lit)"
  proof (cases lit)
    case (LString s)
    with assms(1) code have tag: "tag = LIT_STR" and seg: "lower_segment s = Inr args"
      by (auto simp: lower_segment_def split: if_splits)
    have "rust_str s" using assms(3) LString by (simp add: host_exact_def)
    with lower_segment_at(1) [OF seg at(2), where eof = UnexpectedEof] lower_segment_at(2-4) [OF seg at(2)] tag LString assms(4) show ?thesis
      by (simp add: host_lit_str_def host_push_room code)
  qed (use assms(1,4) code at in \<open>auto simp: code_at_reads host_push_room\<close>)
  then show ?thesis by (rule host_operator [OF at(1)])
qed

interpretation host: policy_machine "host_machine ir caller rec" ir caller rec "(=)" id "host_exact caller rec"
  for ir caller rec
proof (unfold_locales, goal_cases)
  case (4 lit code ip sp st)
  then show ?case by (rule host_literal_law)
next
  case (5 p code ip st)
  then show ?case by (rule host_path_law)
next
  case (6 bop tag ip a b sp x y v w st)
  then show ?case using host_operator [OF 6(2) host_binary_exec [OF 6(1,8)], of caller rec] by simp
next
  case (7 ip x v st)
  then show ?case using host_operator [OF 7(1) host_not_exec [OF 7(3)], of caller rec] by simp
next
  case (8 p tag ip a b sp x y v w st)
  then show ?case using host_operator [OF 8(2) host_call_exec [OF 8(1,8)], of caller rec] by simp
next
  case (9 ip x v)
  then show ?case by (cases "as_bool v") (simp_all add: host_run_at [OF 9(1)] host_pop_bool_Cons)
qed (auto simp: host_exact_def)

section \<open>Policy blocks\<close>

lemma host_interpret_section:
  assumes "length body < 2 ^ 32" and "body \<noteq> []"
  shows "host_interpret (ir_section body) caller rec act =
    (let count = unat (body ! 0); table_end = 1 + count * 3 in
       if count = 0 then Inr False
       else if length body < table_end then Inl BadLength
       else case table_entry body count table_end act of
         None \<Rightarrow> Inr False
       | Some ip \<Rightarrow> host_run body caller rec (ip, []))"
  using assms section_header [OF assms(1)]
  by (simp add: host_interpret_def checked_add_usize_def host_usize_max_def Let_def)

lemma host_computes_block:
  assumes "build_action_table_and_rules block = Inr body" and "length body < 2 ^ 32"
    and "\<And>rule. rule \<in> set (block_rules block) \<Longrightarrow> a \<in> set (rule_actions rule) \<Longrightarrow>
           host_exact caller rec (rule_predicate rule) \<and> stack_depth (rule_predicate rule) \<le> MAX_STACK"
  shows "host_interpret (ir_section body) caller rec (action_bit a) = block_verdict block caller rec a"
proof (cases "find (\<lambda>r. a \<in> set (rule_actions r)) (block_rules block)")
  case None
  with block_entry(1-3) [OF assms(1)] block_entry(4) [OF assms(1), of a] show ?thesis
    by (simp add: host_interpret_section [OF assms(2)] block_verdict_def Let_def)
next
  case (Some rule)
  with block_entry(4) [OF assms(1), of a] obtain ip msk stream where
    entry: "table_entry body (length (block_rules block)) (1 + length (block_rules block) * 3) (action_bit a) = Some ip"
    "lower_rule rule = Inr (msk, stream)" "code_at body ip stream" by auto
  have "rule \<in> set (block_rules block)" "a \<in> set (rule_actions rule)"
    using Some by (auto simp: find_Some_iff)
  with host.lower_rule_runs [OF entry(2,3)] assms(3)
  have "host_run body caller rec (ip, []) = rule_verdict caller rec rule"
    by (auto split: sum.splits)
  moreover have "block_rules block \<noteq> []" using \<open>rule \<in> _\<close> by auto
  ultimately show ?thesis
    using block_entry(1-3) [OF assms(1)] entry(1) Some
    by (simp add: host_interpret_section [OF assms(2)] block_verdict_def Let_def)
qed

text \<open>
  C15: compiling a policy block and interpreting the bytes for an action gives the meaning
  of the block: no rule for the action denies, otherwise the first rule that lists the
  action decides, with errors of evaluation reported as the same errors. It holds for a block
  shorter than \<open>2^32\<close> bytes whose rules for the action need at most \<open>MAX_STACK\<close> operands and
  are \<open>host_exact\<close>: their string literals are Rust strings, and every key but the last of each path
  they load is present, since the native interpreter stops reading the operand of a load at the
  first missing key and runs on inside it.
\<close>

theorem policy_block_compiled_correctly:
  assumes "build_action_table_and_rules block = Inr body" and "length body < 2 ^ 32"
    and "\<And>rule. rule \<in> set (block_rules block) \<Longrightarrow> a \<in> set (rule_actions rule) \<Longrightarrow>
           host_exact caller rec (rule_predicate rule) \<and> stack_depth (rule_predicate rule) \<le> MAX_STACK"
  shows "host_interpret (ir_section body) caller rec (action_bit a) = block_verdict block caller rec a"
  by (rule host_computes_block) (use assms in auto)

section \<open>A sample policy\<close>

definition sample_lookup :: "string list \<Rightarrow> expr" where
  "sample_lookup segs = EPath (sample_path segs)"

definition sample_or :: "expr \<Rightarrow> expr \<Rightarrow> expr" where
  "sample_or a b = EBinary BOr a b (span_new 0 0)"

text \<open>\<open>read, list: caller.id == self.owner or has_role(caller, "admin")\<close> and \<open>delete: false\<close>.\<close>

definition sample_block :: policy_block where
  "sample_block =
     \<lparr>block_rules =
        [\<lparr>rule_name = None, rule_actions = [ActRead, ActList],
          rule_predicate = sample_or
            (EBinary BEq (sample_lookup [''caller'', ''id'']) (sample_lookup [''self'', ''owner'']) (span_new 0 0))
            (ECall (sample_path [''has_role''])
              [sample_lookup [''caller''], ELiteral (LString ''admin'') (span_new 0 0)] (span_new 0 0)),
          rule_span = span_new 0 0\<rparr>,
         \<lparr>rule_name = None, rule_actions = [ActDelete],
          rule_predicate = ELiteral (LBool False) (span_new 0 0), rule_span = span_new 0 0\<rparr>],
      block_span = span_new 0 0\<rparr>"

definition sample_caller :: json where
  "sample_caller = JObject
     [(''id'', JString ''u1''), (''tenant'', JString ''acme''), (''roles'', JArray [JString ''admin''])]"

definition sample_record :: json where
  "sample_record = JObject [(''owner'', JString ''u1''), (''tenant'', JString ''acme'')]"

definition sample_body :: "u8 list" where
  "sample_body = (case build_action_table_and_rules sample_block of Inr body \<Rightarrow> body | Inl _ \<Rightarrow> [])"

lemma policy_block_compiled_correctly_witness:
  "host_interpret (ir_section sample_body) sample_caller sample_record (action_bit ActRead)
     = block_verdict sample_block sample_caller sample_record ActRead
   \<and> block_verdict sample_block sample_caller sample_record ActRead = Inr True"
proof
  show "host_interpret (ir_section sample_body) sample_caller sample_record (action_bit ActRead)
     = block_verdict sample_block sample_caller sample_record ActRead"
  proof (rule policy_block_compiled_correctly)
    have "case build_action_table_and_rules sample_block of Inl _ \<Rightarrow> False | Inr body \<Rightarrow> sample_body = body"
      by code_simp
    then show "build_action_table_and_rules sample_block = Inr sample_body"
      by (simp split: sum.splits)
    show "length sample_body < 2 ^ 32" by code_simp
    have "list_all (\<lambda>rule. host_exact sample_caller sample_record (rule_predicate rule)
        \<and> stack_depth (rule_predicate rule) \<le> MAX_STACK) (block_rules sample_block)"
      by code_simp
    then show "host_exact sample_caller sample_record (rule_predicate rule)
        \<and> stack_depth (rule_predicate rule) \<le> MAX_STACK"
      if "rule \<in> set (block_rules sample_block)" for rule
      using that by (simp add: list_all_iff)
  qed
  show "block_verdict sample_block sample_caller sample_record ActRead = Inr True" by code_simp
qed

end
