(* ===== verification/Policy_Bundle.thy ===== *)
theory Policy_Bundle
  imports Runtime_Correct Policy_Correct
begin

text \<open>
  From a typed project to the verdict of the shipped module: stamping replaces the reserved
  slot of the runtime and nothing else, every schema gets one bundle in declaration order,
  and the runtime in a bundle computes the policy of its schema.
\<close>

section \<open>Stamping\<close>

text \<open>
  Documented behaviour of \<open>wasmparser\<close>: the data of a segment is a slice of the module,
  and comes with the offset at which it starts.
\<close>

definition segments_sound :: "(u8 list \<Rightarrow> segment_item list) \<Rightarrow> u8 list \<Rightarrow> bool" where
  "segments_sound parse_segments wasm \<longleftrightarrow>
     (\<forall>base hay. Segment base hay \<in> set (parse_segments wasm) \<longrightarrow> slice_opt wasm base (base + length hay) = Some hay)"

lemma scan_items_Some:
  "scan_items items = Inr start \<Longrightarrow> \<exists>base hay i. Segment base hay \<in> set items \<and> scan_segment hay = Some i \<and> start = base + i"
  by (induction items rule: scan_items.induct) (auto split: option.splits)

lemma scan_segment_Some:
  assumes "scan_segment hay = Some i"
  shows "slot_at hay i" and "i + IR_SECTION_BYTES \<le> length hay"
proof -
  from assms have len: "IR_SECTION_BYTES \<le> length hay"
    and f: "find (slot_at hay) (map (\<lambda>k. 4 * k) [0..<Suc ((length hay - IR_SECTION_BYTES) div 4)]) = Some i"
    by (auto simp: scan_segment_def split: if_splits)
  from f show "slot_at hay i" by (auto simp: find_Some_iff)
  from f have "i \<in> set (map (\<lambda>k. 4 * k) [0..<Suc ((length hay - IR_SECTION_BYTES) div 4)])"
    unfolding find_Some_iff by (metis nth_mem)
  with len show "i + IR_SECTION_BYTES \<le> length hay" by auto
qed

lemma take_replicate_zero:
  "list_all (\<lambda>b. b = 0) xs \<Longrightarrow> length xs = n \<Longrightarrow> xs = replicate n (0 :: u8)"
  by (induction xs arbitrary: n) auto

lemma slot_at_bytes:
  assumes "slot_at hay i" and "i + IR_SECTION_BYTES \<le> length hay"
  shows "take IR_SECTION_BYTES (drop i hay) = predicate_ir_init"
proof -
  have "IR_SECTION_BYTES = 4 + (IR_SECTION_BYTES - 4)" by (simp add: IR_SECTION_BYTES_def)
  then have "take IR_SECTION_BYTES (drop i hay) = take 4 (drop i hay) @ take (IR_SECTION_BYTES - 4) (drop (i + 4) hay)"
    by (metis drop_drop take_add add.commute)
  moreover have "take (IR_SECTION_BYTES - 4) (drop (i + 4) hay) = replicate (IR_SECTION_BYTES - 4) 0"
    using assms by (intro take_replicate_zero) (auto simp: slot_at_def IR_SECTION_BYTES_def)
  ultimately show ?thesis using assms(1) by (simp add: slot_at_def predicate_ir_init_def)
qed

lemma locate_slot:
  assumes "segments_sound parse_segments wasm" and "locate_predicate_section parse_segments wasm = Inr start"
  shows "take IR_SECTION_BYTES (drop start wasm) = predicate_ir_init"
    and "start + IR_SECTION_BYTES \<le> length wasm"
proof -
  from scan_items_Some [OF assms(2) [unfolded locate_predicate_section_def]] obtain base hay i where
    seg: "Segment base hay \<in> set (parse_segments wasm)" "scan_segment hay = Some i" "start = base + i" by blast
  note sc = scan_segment_Some [OF seg(2)]
  from assms(1) seg(1) have "slice_opt wasm base (base + length hay) = Some hay" by (simp add: segments_sound_def)
  then have hay: "base + length hay \<le> length wasm" "hay = take (length hay) (drop base wasm)"
    by (auto simp: slice_opt_def split: if_splits)
  then have "drop i hay = take (length hay - i) (drop start wasm)"
    using seg(3) by (metis drop_drop drop_take add.commute)
  then have "take IR_SECTION_BYTES (drop i hay) = take IR_SECTION_BYTES (drop start wasm)"
    using sc(2) by (simp add: min_def)
  with slot_at_bytes [OF sc] show "take IR_SECTION_BYTES (drop start wasm) = predicate_ir_init" by simp
  show "start + IR_SECTION_BYTES \<le> length wasm" using hay(1) sc(2) seg(3) by simp
qed

lemma patch_runtime_bytes:
  assumes "segments_sound parse_segments wasm" and "patch_runtime parse_segments wasm ir = Inr out"
  shows "\<exists>start. locate_predicate_section parse_segments wasm = Inr start
    \<and> take IR_SECTION_BYTES (drop start wasm) = predicate_ir_init
    \<and> length ir \<le> IR_SECTION_BYTES
    \<and> take IR_SECTION_BYTES (drop start out) = ir @ replicate (IR_SECTION_BYTES - length ir) 0
    \<and> take start out = take start wasm
    \<and> drop (start + IR_SECTION_BYTES) out = drop (start + IR_SECTION_BYTES) wasm
    \<and> length out = length wasm"
proof -
  from assms(2) obtain start where start: "locate_predicate_section parse_segments wasm = Inr start"
    "length ir \<le> IR_SECTION_BYTES"
    "out = take start wasm @ ir @ replicate (IR_SECTION_BYTES - length ir) 0 @ drop (start + IR_SECTION_BYTES) wasm"
    by (auto simp: patch_runtime_def result_simps split: if_splits)
  note slot = locate_slot [OF assms(1) start(1)]
  then have "length (take start wasm) = start" by simp
  with start slot show ?thesis by (intro exI [of _ start]) simp
qed

section \<open>Bundles\<close>

lemma emit_bundles_each:
  "emit_bundles parse_segments wasm typed names = Inr bundles \<Longrightarrow>
     map bundle_schema bundles = filter (\<lambda>n. map_of (tf_schemas typed) n \<noteq> None) names
     \<and> (\<forall>b \<in> set bundles. \<exists>ir. lower_schema_to_ir typed (bundle_schema b) = Inr ir
          \<and> self_pass ir all_action_bits = None
          \<and> patch_runtime parse_segments wasm ir = Inr (bundle_wasm b)
          \<and> bundle_namespace b = (if tf_namespace typed = [] then ''default'' else tf_namespace typed))"
proof (induction names arbitrary: bundles)
  case Nil
  then show ?case by simp
next
  case (Cons n names)
  show ?case
  proof (cases "map_of (tf_schemas typed) n = None")
    case True
    with Cons show ?thesis by simp
  next
    case False
    with Cons.prems obtain ir out rest where step: "lower_schema_to_ir typed n = Inr ir"
      "self_pass ir all_action_bits = None" "patch_runtime parse_segments wasm ir = Inr out"
      "emit_bundles parse_segments wasm typed names = Inr rest"
      "bundles = \<lparr>bundle_namespace = (if tf_namespace typed = [] then ''default'' else tf_namespace typed),
         bundle_schema = n, bundle_wasm = out\<rparr> # rest"
      by (auto simp: result_simps split: sum.splits option.splits)
    with Cons.IH [OF step(4)] False show ?thesis by auto
  qed
qed

text \<open>The verdict of a schema: no policy block denies.\<close>

definition schema_verdict :: "schema_decl \<Rightarrow> json \<Rightarrow> json \<Rightarrow> action \<Rightarrow> ir_error + bool" where
  "schema_verdict decl caller rec a =
     (case schema_policy decl of None \<Rightarrow> Inr False | Some block \<Rightarrow> block_verdict block caller rec a)"

definition schema_portable :: "schema_decl \<Rightarrow> json \<Rightarrow> json \<Rightarrow> action \<Rightarrow> bool" where
  "schema_portable decl caller rec a \<longleftrightarrow>
     (case schema_policy decl of
        None \<Rightarrow> True
      | Some block \<Rightarrow> list_all (\<lambda>rule. a \<in> set (rule_actions rule) \<longrightarrow>
          portable caller rec (rule_predicate rule) \<and> stack_depth (rule_predicate rule) \<le> MAX_STACK)
          (block_rules block))"

lemma evaluate_schema:
  assumes "lower_schema_to_ir typed name = Inr ir" and "map_of (tf_schemas typed) name = Some ts"
    and "length ir \<le> IR_SECTION_BYTES" and "call_input caller rec a input"
    and "schema_portable (ts_decl ts) caller rec a"
  shows "rt_evaluate input (ir @ pad) = Inr (verdict_of (schema_verdict (ts_decl ts) caller rec a))"
proof -
  from assms(1,2) obtain body where body: "lower_policy_block_body (ts_decl ts) = Inr body" "ir = ir_section body"
    by (auto simp: lower_schema_to_ir_def result_simps split: if_splits)
  have len: "length body < 2 ^ 31"
    using assms(3) body(2) by (simp add: ir_section_def IR_SECTION_BYTES_def IR_MAX_BYTES_def)
  show ?thesis
  proof (cases "schema_policy (ts_decl ts)")
    case None
    with body have "ir = ir_section [0]" by (simp add: lower_policy_block_body_def)
    with evaluate_section [OF assms(4), of "[0]" pad] None show ?thesis
      by (auto simp: schema_verdict_def dispatch_empty)
  next
    case (Some block)
    with body(1) have "build_action_table_and_rules block = Inr body" by (simp add: lower_policy_block_body_def)
    from evaluate_block [OF this len assms(4)] assms(5) Some body(2) show ?thesis
      by (simp add: schema_verdict_def schema_portable_def list_all_iff)
  qed
qed

section \<open>Properties\<close>

text \<open>
  C17: the compiler emits one bundle per declared schema, in declaration order, each the
  runtime module with only the reserved slot replaced, by IR that passed the self-pass.
\<close>

theorem bundles_stamp_only_the_slot:
  assumes "segments_sound parse_segments wasm" and "emit_policy_bundles parse_segments wasm typed = Inr bundles"
  shows "map bundle_schema bundles = filter (\<lambda>n. map_of (tf_schemas typed) n \<noteq> None) (tf_decl_order typed)
    \<and> (\<forall>b \<in> set bundles. \<exists>start ir. lower_schema_to_ir typed (bundle_schema b) = Inr ir
         \<and> self_pass ir all_action_bits = None
         \<and> locate_predicate_section parse_segments wasm = Inr start
         \<and> take IR_SECTION_BYTES (drop start wasm) = predicate_ir_init
         \<and> take IR_SECTION_BYTES (drop start (bundle_wasm b)) = ir @ replicate (IR_SECTION_BYTES - length ir) 0
         \<and> take start (bundle_wasm b) = take start wasm
         \<and> drop (start + IR_SECTION_BYTES) (bundle_wasm b) = drop (start + IR_SECTION_BYTES) wasm)"
  using emit_bundles_each [OF assms(2) [unfolded emit_policy_bundles_def]] patch_runtime_bytes [OF assms(1)]
  by metis

text \<open>
  C2: the runtime stamped into a bundle, given a portable call, returns the verdict of the policy
  the schema declares: from the type checker's output to the module the engine loads. A call is
  portable (\<open>call_input\<close>, \<open>schema_portable\<close>) when its text has no escapes in strings and only
  integers as numbers, caller and record are objects and the roles a list, and each rule for the
  action needs at most \<open>MAX_STACK\<close> operands, has paths of at most \<open>MAX_SEGS\<close> keys below the root,
  asks no membership of null or a float in a list that holds one, and does not call \<open>has_role\<close>
  on a string or a list. Outside of that the runtime deviates: it truncates floats, compares strings
  with escapes as they are written and refuses the \<open>u\<close> ones.
\<close>

theorem bundle_computes_schema_policy:
  assumes "segments_sound parse_segments wasm" and "emit_policy_bundles parse_segments wasm typed = Inr bundles"
    and "b \<in> set bundles" and "map_of (tf_schemas typed) (bundle_schema b) = Some ts"
    and "call_input caller rec a input" and "schema_portable (ts_decl ts) caller rec a"
  shows "\<exists>start. locate_predicate_section parse_segments wasm = Inr start
    \<and> rt_evaluate input (take IR_SECTION_BYTES (drop start (bundle_wasm b)))
        = Inr (verdict_of (schema_verdict (ts_decl ts) caller rec a))"
proof -
  from emit_bundles_each [OF assms(2) [unfolded emit_policy_bundles_def]] assms(3) obtain ir where
    ir: "lower_schema_to_ir typed (bundle_schema b) = Inr ir" "patch_runtime parse_segments wasm ir = Inr (bundle_wasm b)"
    by blast
  from patch_runtime_bytes [OF assms(1) ir(2)] obtain start where
    "locate_predicate_section parse_segments wasm = Inr start" "length ir \<le> IR_SECTION_BYTES"
    "take IR_SECTION_BYTES (drop start (bundle_wasm b)) = ir @ replicate (IR_SECTION_BYTES - length ir) 0"
    by blast
  with evaluate_schema [OF ir(1) assms(4) _ assms(5,6)] show ?thesis by metis
qed

end
