(* ===== verification/Engine_Policy.thy ===== *)
theory Engine_Policy
  imports Engine_Api Policy_Bundle
begin

text \<open>
  The engine's policy interface (\<open>sealstack-engine/src/policy.rs\<close>): actions, verdicts, the
  trait with its default batch filter, the allow-all stub, and the wasm policy engine:
  loading a directory of bundles and calling a bundle. The wasm virtual machine is a
  parameter: compiling a module and running its exports.
\<close>

section \<open>The trait\<close>

datatype PolicyAction = PaRead | PaWrite | PaList | PaDelete

text \<open>The serialization of an action.\<close>

fun policy_action_json :: "PolicyAction \<Rightarrow> json" where
  "policy_action_json PaRead = JString ''read''"
| "policy_action_json PaWrite = JString ''write''"
| "policy_action_json PaList = JString ''list''"
| "policy_action_json PaDelete = JString ''delete''"

datatype PolicyVerdict = PvAllow | PvDeny string

fun is_allow :: "PolicyVerdict \<Rightarrow> bool" where
  "is_allow PvAllow = True"
| "is_allow (PvDeny r) = False"

record PolicyInput =
  pi_namespace :: string
  pi_schema :: string
  pi_action :: PolicyAction
  pi_caller :: Caller
  pi_record :: json

record PolicyEngine =
  pe_evaluate :: "PolicyInput \<Rightarrow> EngineError + PolicyVerdict"
  pe_filter :: "string \<Rightarrow> string \<Rightarrow> PolicyAction \<Rightarrow> Caller \<Rightarrow> json list \<Rightarrow> EngineError + bool list"

definition policy_input :: "string \<Rightarrow> string \<Rightarrow> PolicyAction \<Rightarrow> Caller \<Rightarrow> json \<Rightarrow> PolicyInput" where
  "policy_input ns schema action caller rec =
     \<lparr>pi_namespace = ns, pi_schema = schema, pi_action = action, pi_caller = caller, pi_record = rec\<rparr>"

text \<open>The default \<open>filter\<close>: evaluate the records in order, the first failure aborts.\<close>

fun default_filter :: "(PolicyInput \<Rightarrow> EngineError + PolicyVerdict) \<Rightarrow> string \<Rightarrow> string \<Rightarrow> PolicyAction
    \<Rightarrow> Caller \<Rightarrow> json list \<Rightarrow> EngineError + bool list" where
  "default_filter evaluate ns schema action caller [] = Inr []"
| "default_filter evaluate ns schema action caller (r # rs) =
     bindR (evaluate (policy_input ns schema action caller r)) (\<lambda>v.
       bindR (default_filter evaluate ns schema action caller rs) (\<lambda>out. Inr (is_allow v # out)))"

text \<open>The contract: a filter is the evaluation of its records.\<close>

locale policy_engine =
  fixes P :: PolicyEngine
  assumes filter_evaluates: "pe_filter P ns schema action caller rs
            = default_filter (pe_evaluate P) ns schema action caller rs"
begin

lemma filter_mask:
  assumes "pe_filter P ns schema action caller rs = Inr keep"
  shows "length keep = length rs"
    and "i < length rs \<Longrightarrow> \<exists>v. pe_evaluate P (policy_input ns schema action caller (rs ! i)) = Inr v
           \<and> keep ! i = is_allow v"
proof -
  have "default_filter (pe_evaluate P) ns schema action caller rs = Inr keep"
    using assms by (simp add: filter_evaluates)
  then have "length keep = length rs \<and> (\<forall>i < length rs.
      \<exists>v. pe_evaluate P (policy_input ns schema action caller (rs ! i)) = Inr v \<and> keep ! i = is_allow v)"
  proof (induction rs arbitrary: keep)
    case (Cons r rs)
    then obtain v out where "pe_evaluate P (policy_input ns schema action caller r) = Inr v"
      "default_filter (pe_evaluate P) ns schema action caller rs = Inr out" "keep = is_allow v # out"
      by (auto simp: result_simps)
    with Cons.IH [of out] show ?case by (auto simp: nth_Cons split: nat.splits)
  qed simp
  then show "length keep = length rs"
    and "i < length rs \<Longrightarrow> \<exists>v. pe_evaluate P (policy_input ns schema action caller (rs ! i)) = Inr v
           \<and> keep ! i = is_allow v" by blast+
qed

text \<open>What survives a zip with the keep was allowed.\<close>

lemma filter_keeps_allowed:
  assumes "pe_filter P ns schema action caller (map f xs) = Inr keep" "(x, True) \<in> set (zip xs keep)"
  shows "pe_evaluate P (policy_input ns schema action caller (f x)) = Inr PvAllow"
proof -
  obtain i where i: "i < length xs" "i < length keep" "x = xs ! i" "keep ! i"
    using assms(2) by (auto simp: in_set_zip)
  then obtain v where "pe_evaluate P (policy_input ns schema action caller (f x)) = Inr v" "is_allow v"
    using filter_mask(2) [OF assms(1), of i] by auto
  then show ?thesis by (cases v) auto
qed

end

section \<open>The allow-all stub\<close>

definition allow_all_evaluate :: "PolicyInput \<Rightarrow> EngineError + PolicyVerdict" where
  "allow_all_evaluate inp = Inr PvAllow"

definition allow_all_filter :: "string \<Rightarrow> string \<Rightarrow> PolicyAction \<Rightarrow> Caller \<Rightarrow> json list
    \<Rightarrow> EngineError + bool list" where
  "allow_all_filter ns schema action caller rs = Inr (replicate (length rs) True)"

definition default_dev_policy :: PolicyEngine where
  "default_dev_policy = \<lparr>pe_evaluate = allow_all_evaluate, pe_filter = allow_all_filter\<rparr>"

lemma allow_all_default_filter:
  "default_filter allow_all_evaluate ns schema action caller rs = Inr (replicate (length rs) True)"
  by (induction rs) (simp_all add: allow_all_evaluate_def)

interpretation allow_all: policy_engine default_dev_policy
  by unfold_locales (simp add: default_dev_policy_def allow_all_filter_def allow_all_default_filter)

section \<open>The wasm policy engine\<close>

text \<open>
  A module instance as the host sees it: whether it exports a memory, and the two typed
  functions when they are exported with the right type. \<open>alloc\<close> returns its result with the
  memory afterwards; \<open>evaluate\<close> runs on the memory the host wrote. A trap is the text of
  its error.
\<close>

record WasmInstance =
  wi_memory :: bool
  wi_alloc :: "string + (i32 \<Rightarrow> string + (i32 \<times> u8 list))"
  wi_evaluate :: "string + (u8 list \<Rightarrow> i32 \<Rightarrow> i32 \<Rightarrow> string + i32)"

text \<open>A compiled module: instantiating it may fail.\<close>

type_synonym WasmModule = "string + WasmInstance"

record WasmPolicy =
  wp_modules :: "string \<times> string \<Rightarrow> WasmModule option"
  wp_default_verdict :: PolicyVerdict

definition map_err :: "('e \<Rightarrow> 'f) \<Rightarrow> 'e + 'a \<Rightarrow> 'f + 'a" where
  "map_err f r = (case r of Inl e \<Rightarrow> Inl (f e) | Inr x \<Rightarrow> Inr x)"

lemma map_err_simps [simp]: "map_err f (Inl e) = Inl (f e)" "map_err f (Inr x) = Inr x"
  by (simp_all add: map_err_def)

lemma map_err_Inr_iff [result_simps]: "map_err f r = Inr x \<longleftrightarrow> r = Inr x"
  by (cases r) auto

text \<open>\<open>Memory::write\<close> at an offset: the bytes must lie inside the memory.\<close>

definition memory_write :: "u8 list \<Rightarrow> nat \<Rightarrow> u8 list \<Rightarrow> string + u8 list" where
  "memory_write mem off data =
     (if off + length data \<le> length mem
      then Inr (take off mem @ data @ drop (off + length data) mem)
      else Inl ''out of bounds memory access'')"

text \<open>A pointer cast to \<open>usize\<close>: sign extension, so a negative one is out of bounds.\<close>

definition ptr_as_usize :: "i32 \<Rightarrow> nat" where
  "ptr_as_usize p = unat (word_of_int (sint p) :: u64)"

definition handle_call :: "WasmModule \<Rightarrow> u8 list \<Rightarrow> EngineError + i32" where
  "handle_call module payload =
     bindR (map_err (\<lambda>e. EeBackend (''wasm instantiate: '' @ e)) module) (\<lambda>inst.
     if \<not> wi_memory inst then Inl (EeBackend ''wasm module missing `memory` export'') else
     bindR (map_err (\<lambda>e. EeBackend (''wasm alloc: '' @ e)) (wi_alloc inst)) (\<lambda>alloc.
     bindR (map_err (\<lambda>e. EeBackend (''wasm evaluate: '' @ e)) (wi_evaluate inst)) (\<lambda>evaluate.
     if 2 ^ 31 \<le> length payload then Inl (EeBackend ''policy input too large'') else
     let len = word_of_nat (length payload) :: i32 in
     bindR (map_err (\<lambda>e. EeBackend (''wasm alloc call: '' @ e)) (alloc len)) (\<lambda>(ptr, mem).
     bindR (map_err (\<lambda>e. EeBackend (''wasm memory write: '' @ e))
              (memory_write mem (ptr_as_usize ptr) payload)) (\<lambda>mem'.
     map_err (\<lambda>e. EeBackend (''wasm evaluate call: '' @ e)) (evaluate mem' ptr len))))))"

text \<open>The document handed to a bundle; \<open>to_vec\<close> is the JSON printer, which may fail.\<close>

definition policy_input_wire :: "PolicyInput \<Rightarrow> json" where
  "policy_input_wire inp = JObject
     [(''namespace'', JString (pi_namespace inp)), (''schema'', JString (pi_schema inp)),
      (''action'', policy_action_json (pi_action inp)), (''caller'', caller_json (pi_caller inp)),
      (''record'', pi_record inp)]"

definition wasm_evaluate :: "(json \<Rightarrow> string + u8 list) \<Rightarrow> WasmPolicy \<Rightarrow> PolicyInput
    \<Rightarrow> EngineError + PolicyVerdict" where
  "wasm_evaluate to_vec wp inp =
     (case wp_modules wp (pi_namespace inp, pi_schema inp) of
        None \<Rightarrow> Inr (wp_default_verdict wp)
      | Some module \<Rightarrow>
          bindR (map_err (\<lambda>e. EeBackend (''policy serialize: '' @ e)) (to_vec (policy_input_wire inp)))
            (\<lambda>payload.
          bindR (handle_call module payload) (\<lambda>code.
            if code = 1 then Inr PvAllow
            else if code = 0 then
              Inr (PvDeny (''policy denied for '' @ pi_namespace inp @ ''.'' @ pi_schema inp))
            else Inl (EeBackend (''wasm policy returned unexpected code '' @ show_i64 (word_of_int (sint code))
                   @ '' for '' @ pi_namespace inp @ ''.'' @ pi_schema inp)))))"

definition wasm_policy_engine :: "(json \<Rightarrow> string + u8 list) \<Rightarrow> WasmPolicy \<Rightarrow> PolicyEngine" where
  "wasm_policy_engine to_vec wp =
     \<lparr>pe_evaluate = wasm_evaluate to_vec wp, pe_filter = default_filter (wasm_evaluate to_vec wp)\<rparr>"

interpretation wasm_policy: policy_engine "wasm_policy_engine to_vec wp" for to_vec wp
  by unfold_locales (simp add: wasm_policy_engine_def)

section \<open>Loading bundles\<close>

text \<open>
  The loop over a directory: an entry is its file name and the result of reading it.
  Files that are not \<open><namespace>.<schema>.wasm\<close>, or cannot be read or compiled, are skipped.
\<close>

fun load_entries :: "(u8 list \<Rightarrow> string + WasmModule) \<Rightarrow> (string + (string \<times> (string + u8 list))) list
    \<Rightarrow> (string \<times> string \<Rightarrow> WasmModule option) \<Rightarrow> string + (string \<times> string \<Rightarrow> WasmModule option)" where
  "load_entries compile [] modules = Inr modules"
| "load_entries compile (Inl e # entries) modules = Inl e"
| "load_entries compile (Inr (name, content) # entries) modules =
     (if snd (split_file_name name) \<noteq> Some ''wasm'' then load_entries compile entries modules
      else if \<not> rust_str (fst (split_file_name name)) then load_entries compile entries modules
      else case rsplit_once (CHR ''.'') (fst (split_file_name name)) of
        None \<Rightarrow> load_entries compile entries modules
      | Some (ns, schema) \<Rightarrow> (case content of
            Inl e \<Rightarrow> load_entries compile entries modules
          | Inr bytes \<Rightarrow> (case compile bytes of
                Inl e \<Rightarrow> load_entries compile entries modules
              | Inr m \<Rightarrow> load_entries compile entries (modules((ns, schema) \<mapsto> m)))))"

definition load_impl :: "(u8 list \<Rightarrow> string + WasmModule)
    \<Rightarrow> (string + (string + (string \<times> (string + u8 list))) list) option \<Rightarrow> PolicyVerdict \<Rightarrow> string + WasmPolicy" where
  "load_impl compile dir default_verdict =
     (case dir of
        None \<Rightarrow> Inr \<lparr>wp_modules = Map.empty, wp_default_verdict = default_verdict\<rparr>
      | Some listing \<Rightarrow>
          bindR listing (\<lambda>entries.
          bindR (load_entries compile entries Map.empty) (\<lambda>modules.
            Inr \<lparr>wp_modules = modules, wp_default_verdict = default_verdict\<rparr>)))"

definition load_from_dir :: "(u8 list \<Rightarrow> string + WasmModule)
    \<Rightarrow> (string + (string + (string \<times> (string + u8 list))) list) option \<Rightarrow> string + WasmPolicy" where
  "load_from_dir compile dir = load_impl compile dir PvAllow"

definition load_from_dir_deny_missing :: "(u8 list \<Rightarrow> string + WasmModule)
    \<Rightarrow> (string + (string + (string \<times> (string + u8 list))) list) option \<Rightarrow> string + WasmPolicy" where
  "load_from_dir_deny_missing compile dir =
     load_impl compile dir (PvDeny ''no policy bundle registered for this schema'')"

text \<open>The file name the compiler's command line gives a bundle, and what the loader makes of it.\<close>

definition bundle_file_name :: "string \<Rightarrow> string \<Rightarrow> string" where
  "bundle_file_name ns schema = ns @ ''.'' @ schema @ ''.wasm''"

lemma bundle_file_name_split:
  assumes "CHR ''.'' \<notin> set schema" "schema \<noteq> [] \<or> ns \<noteq> []"
  shows "split_file_name (bundle_file_name ns schema) = (ns @ ''.'' @ schema, Some ''wasm'')"
    "rsplit_once (CHR ''.'') (ns @ ''.'' @ schema) = Some (ns, schema)"
proof -
  have "rsplit_once (CHR ''.'') (bundle_file_name ns schema) = Some (ns @ ''.'' @ schema, ''wasm'')"
    by (simp add: rsplit_once_Some bundle_file_name_def)
  moreover have "bundle_file_name ns schema \<noteq> ''..''"
    by (auto simp: bundle_file_name_def dest: arg_cong [where f = length])
  ultimately show "split_file_name (bundle_file_name ns schema) = (ns @ ''.'' @ schema, Some ''wasm'')"
    by (auto simp: split_file_name_def)
  show "rsplit_once (CHR ''.'') (ns @ ''.'' @ schema) = Some (ns, schema)"
    using assms(1) by (simp add: rsplit_once_Some)
qed

text \<open>One written bundle: readable, and its module compiles.\<close>

record WrittenBundle =
  wb_namespace :: string
  wb_schema :: string
  wb_bytes :: "u8 list"

definition bundle_entry :: "WrittenBundle \<Rightarrow> string + (string \<times> (string + u8 list))" where
  "bundle_entry b = Inr (bundle_file_name (wb_namespace b) (wb_schema b), Inr (wb_bytes b))"

definition bundle_key :: "WrittenBundle \<Rightarrow> string \<times> string" where
  "bundle_key b = (wb_namespace b, wb_schema b)"

definition loadable :: "WrittenBundle \<Rightarrow> bool" where
  "loadable b \<longleftrightarrow> CHR ''.'' \<notin> set (wb_schema b) \<and> wb_schema b \<noteq> []
     \<and> rust_str (wb_namespace b @ ''.'' @ wb_schema b)"

lemma load_entries_bundles:
  assumes "list_all loadable bs"
  shows "load_entries compile (map bundle_entry bs) modules
     = Inr (foldl (\<lambda>m b. case compile (wb_bytes b) of Inl e \<Rightarrow> m | Inr x \<Rightarrow> m(bundle_key b \<mapsto> x)) modules bs)"
  using assms
proof (induction bs arbitrary: modules)
  case (Cons b bs)
  then have "CHR ''.'' \<notin> set (wb_schema b)" "wb_schema b \<noteq> [] \<or> wb_namespace b \<noteq> []"
    "rust_str (wb_namespace b @ ''.'' @ wb_schema b)"
    by (simp_all add: loadable_def)
  with Cons bundle_file_name_split [OF this(1, 2)] show ?case
    by (simp add: bundle_entry_def bundle_key_def split: sum.splits)
qed simp

lemma fold_compile_distinct:
  assumes "distinct (map bundle_key bs)" "b \<in> set bs" "compile (wb_bytes b) = Inr m"
  shows "foldl (\<lambda>m b. case compile (wb_bytes b) of Inl e \<Rightarrow> m | Inr x \<Rightarrow> m(bundle_key b \<mapsto> x)) modules bs
           (bundle_key b) = Some m"
  using assms
proof (induction bs rule: rev_induct)
  case (snoc c bs)
  show ?case
  proof (cases "b = c")
    case True
    with snoc.prems show ?thesis by simp
  next
    case False
    then have "b \<in> set bs" using snoc.prems(2) by simp
    moreover from this have "bundle_key b \<noteq> bundle_key c"
      using snoc.prems(1) by (auto simp: image_iff)
    ultimately have "b \<in> set bs" "bundle_key b \<noteq> bundle_key c" by simp_all
    with snoc show ?thesis by (simp split: sum.splits)
  qed
qed simp

section \<open>From the compiler's bundles to a verdict\<close>

text \<open>
  The instance of a module stamped by the compiler, as the wasm virtual machine runs it: the
  exports are the runtime's functions on the memory of a fresh instance, in which the stamped
  section lies at \<open>slot_base\<close>, and its bump pointer; a panic is a trap.
\<close>

definition runtime_instance :: "nat \<Rightarrow> nat \<Rightarrow> u8 list \<Rightarrow> WasmInstance" where
  "runtime_instance slot_base bump mem =
     \<lparr>wi_memory = True,
      wi_alloc = Inr (\<lambda>n. Inr (fst (sealstack_alloc n bump), mem)),
      wi_evaluate = Inr (\<lambda>m ptr len. map_err (\<lambda>e. ''wasm trap'') (sealstack_evaluate m slot_base ptr len))\<rparr>"

text \<open>The memory after the host wrote the call at the bump pointer, and whether the section survives.\<close>

definition host_written :: "nat \<Rightarrow> u8 list \<Rightarrow> u8 list \<Rightarrow> u8 list" where
  "host_written bump payload mem = take bump mem @ payload @ drop (bump + length payload) mem"

definition clear_of_slot :: "nat \<Rightarrow> nat \<Rightarrow> u8 list \<Rightarrow> bool" where
  "clear_of_slot slot_base bump payload \<longleftrightarrow>
     bump + length payload \<le> slot_base \<or> slot_base + IR_SECTION_BYTES \<le> bump"

lemma slot_survives:
  assumes "clear_of_slot slot_base bump payload" "bump + length payload \<le> length mem"
  shows "predicate_ir_slice (host_written bump payload mem) slot_base = predicate_ir_slice mem slot_base"
  using assms
  by (auto simp: clear_of_slot_def host_written_def predicate_ir_slice_def drop_take min_def)

text \<open>
  The bump pointer starts at 1024, below the stack and the statics, so a call that is long enough
  is written over the section, and the evaluation then runs the policy it finds in the call.
\<close>

lemma long_call_replaces_policy:
  assumes "bump \<le> slot_base" "slot_base + IR_SECTION_BYTES \<le> bump + length payload" "bump \<le> length mem"
  shows "predicate_ir_slice (host_written bump payload mem) slot_base
     = take IR_SECTION_BYTES (drop (slot_base - bump) payload)"
  using assms by (simp add: host_written_def predicate_ir_slice_def)

lemma sint_small: "n < 2 ^ 31 \<Longrightarrow> sint (word_of_nat n :: i32) = int n"
  by (simp add: signed_of_nat signed_take_bit_int_eq_self)

lemma handle_call_runtime:
  assumes "length payload < 2 ^ 31" "bump + length payload < 2 ^ 31" "bump + length payload \<le> length mem"
    "clear_of_slot slot_base bump payload"
  shows "handle_call (Inr (runtime_instance slot_base bump mem)) payload
     = (case rt_evaluate payload (predicate_ir_slice mem slot_base) of
          Inl e \<Rightarrow> Inl (EeBackend (''wasm evaluate call: '' @ ''wasm trap''))
        | Inr v \<Rightarrow> Inr (verdict_code v))"
proof -
  let ?len = "word_of_nat (length payload) :: i32" and ?ptr = "word_of_nat bump :: i32"
  have len: "sint ?len = int (length payload)" "unat ?len = length payload"
    using assms(1) by (simp_all add: sint_small unat_of_nat)
  have ptr: "sint ?ptr = int bump" "unat ?ptr = bump"
    using assms(2) by (simp_all add: sint_small unat_of_nat)
  have "fst (sealstack_alloc ?len bump) = ?ptr"
    using assms(2) len by (simp add: sealstack_alloc_def checked_add_usize_def wasm_usize_max_def)
  moreover have "ptr_as_usize ?ptr = bump"
    using assms(2) ptr(1) by (simp add: ptr_as_usize_def unat_of_nat)
  moreover have "slice_or_panic (host_written bump payload mem)
      bump (bump + length payload) = Inr payload"
    using assms(3) slice_opt_mid [of "take bump mem" payload "drop (bump + length payload) mem"]
    by (simp add: slice_or_panic_def host_written_def)
  moreover have "predicate_ir_slice (host_written bump payload mem) slot_base = predicate_ir_slice mem slot_base"
    using assms(4,3) by (rule slot_survives)
  ultimately show ?thesis
    using assms len ptr
    by (cases "rt_evaluate payload (predicate_ir_slice mem slot_base)")
       (simp_all add: handle_call_def runtime_instance_def memory_write_def sealstack_evaluate_def Let_def
          host_written_def [symmetric])
qed

text \<open>The action of the policy language behind an action of the engine.\<close>

fun csl_action :: "PolicyAction \<Rightarrow> action" where
  "csl_action PaRead = ActRead"
| "csl_action PaWrite = ActWrite"
| "csl_action PaList = ActList"
| "csl_action PaDelete = ActDelete"

lemma policy_action_json_name: "policy_action_json a = JString (action_display_name (csl_action a))"
  by (cases a) simp_all

lemma wire_call_input:
  assumes "json_document (policy_input_wire inp) payload" "is_object (pi_record inp)" "length payload < 2 ^ 31"
  shows "call_input (caller_json (pi_caller inp)) (pi_record inp) (csl_action (pi_action inp)) payload"
  unfolding call_input_def
  by (intro conjI exI [of _ "policy_input_wire inp"])
     (use assms in \<open>simp_all add: policy_input_wire_def policy_action_json_name is_object_def
        roles_listed_def caller_json_def\<close>)

text \<open>The engine's answer for a verdict of the policy language.\<close>

definition engine_verdict :: "string \<Rightarrow> string \<Rightarrow> ir_error + bool \<Rightarrow> EngineError + PolicyVerdict" where
  "engine_verdict ns schema v =
     (case v of
        Inr True \<Rightarrow> Inr PvAllow
      | Inr False \<Rightarrow> Inr (PvDeny (''policy denied for '' @ ns @ ''.'' @ schema))
      | Inl e \<Rightarrow> Inl (EeBackend (''wasm policy returned unexpected code -1 for '' @ ns @ ''.'' @ schema)))"

lemma show_minus_one: "show_i64 (- 1) = ''-1''"
  by code_simp

lemma wasm_evaluate_runtime:
  assumes "wp_modules wp (pi_namespace inp, pi_schema inp) = Some (Inr (runtime_instance slot_base bump mem))"
    "to_vec (policy_input_wire inp) = Inr payload"
    "length payload < 2 ^ 31" "bump + length payload < 2 ^ 31" "bump + length payload \<le> length mem"
    "clear_of_slot slot_base bump payload" "rt_evaluate payload (predicate_ir_slice mem slot_base) = Inr (verdict_of v)"
  shows "wasm_evaluate to_vec wp inp = engine_verdict (pi_namespace inp) (pi_schema inp) v"
  using assms(1, 2, 7) handle_call_runtime [OF assms(3-6)]
  by (cases v; cases "projr v") (auto simp: wasm_evaluate_def engine_verdict_def show_minus_one)

text \<open>
  The deployment between the compiler and the engine: the bundles written under their
  file names, listed in any order by the directory the engine loads.
\<close>

definition written :: "policy_bundle \<Rightarrow> WrittenBundle" where
  "written b = \<lparr>wb_namespace = bundle_namespace b, wb_schema = bundle_schema b, wb_bytes = bundle_wasm b\<rparr>"

lemma loaded_module:
  assumes "load_from_dir compile (Some (Inr (map (bundle_entry \<circ> written) bundles))) = Inr wp"
    "list_all (loadable \<circ> written) bundles" "distinct (map (bundle_key \<circ> written) bundles)"
    "b \<in> set bundles" "compile (bundle_wasm b) = Inr m"
  shows "wp_modules wp (bundle_namespace b, bundle_schema b) = Some m"
proof -
  have "wp_modules wp = foldl (\<lambda>m b. case compile (wb_bytes b) of Inl e \<Rightarrow> m | Inr x \<Rightarrow> m(bundle_key b \<mapsto> x))
      Map.empty (map written bundles)"
    using assms(1) load_entries_bundles [of "map written bundles" compile Map.empty] assms(2)
    by (auto simp: load_from_dir_def load_impl_def list.pred_map)
  moreover have "distinct (map bundle_key (map written bundles))" using assms(3) by simp
  moreover have "written b \<in> set (map written bundles)" using assms(4) by simp
  moreover have "compile (wb_bytes (written b)) = Inr m" using assms(5) by (simp add: written_def)
  ultimately have "wp_modules wp (bundle_key (written b)) = Some m"
    by (simp only: fold_compile_distinct)
  then show ?thesis by (simp add: bundle_key_def written_def)
qed

text \<open>
  C1: an engine that loads the directory of bundles the compiler wrote decides a request on a
  compiled schema by the policy the schema declares: allow exactly when the policy of the schema
  evaluates to true on the caller and the record, deny when it evaluates to false, and a backend
  error when it does not evaluate. This holds for portable requests only: the serialized request
  is a JSON text whose strings have no escapes and whose numbers are integers (the runtime reads
  neither escapes nor floats exactly), its record is an object, and every rule for the action
  needs at most \<open>MAX_STACK\<close> operands, has paths of at most \<open>MAX_SEGS\<close> keys below the root, asks no
  membership of null or a float in a list that holds one, and does not call \<open>has_role\<close> on a
  string or a list.
  The wasm virtual machine is assumed to run the exports of a stamped module on its memory, with
  the data of the module at \<open>slot_base\<close>; the serialized request must fit the memory and must not
  reach the stamped section, which lies in the memory the host writes to
  (\<open>long_call_replaces_policy\<close>). The bundles have distinct names that the loader reads back.
\<close>

theorem engine_enforces_compiled_policy:
  assumes "segments_sound parse_segments wasm" and "emit_policy_bundles parse_segments wasm typed = Inr bundles"
    and "locate_predicate_section parse_segments wasm = Inr start"
    and "\<And>b. b \<in> set bundles \<Longrightarrow> compile (bundle_wasm b)
           = Inr (Inr (runtime_instance slot_base bump (mem b)))
           \<and> predicate_ir_slice (mem b) slot_base = take IR_SECTION_BYTES (drop start (bundle_wasm b))"
    and "load_from_dir compile (Some (Inr (map (bundle_entry \<circ> written) bundles))) = Inr wp"
    and "list_all (loadable \<circ> written) bundles" "distinct (map (bundle_key \<circ> written) bundles)"
    and "b \<in> set bundles" "map_of (tf_schemas typed) (bundle_schema b) = Some ts"
    and "pi_namespace inp = bundle_namespace b" "pi_schema inp = bundle_schema b" "is_object (pi_record inp)"
    and "to_vec (policy_input_wire inp) = Inr payload" "json_document (policy_input_wire inp) payload"
    and "bump + length payload < 2 ^ 31" "bump + length payload \<le> length (mem b)"
    and "clear_of_slot slot_base bump payload"
    and "schema_portable (ts_decl ts) (caller_json (pi_caller inp)) (pi_record inp) (csl_action (pi_action inp))"
  shows "wasm_evaluate to_vec wp inp
     = engine_verdict (pi_namespace inp) (pi_schema inp)
         (schema_verdict (ts_decl ts) (caller_json (pi_caller inp)) (pi_record inp)
            (csl_action (pi_action inp)))"
proof -
  have len: "length payload < 2 ^ 31" using assms(15) by simp
  have module: "wp_modules wp (pi_namespace inp, pi_schema inp)
      = Some (Inr (runtime_instance slot_base bump (mem b)))"
    using loaded_module [OF assms(5-8) conjunct1 [OF assms(4) [OF assms(8)]]] by (simp add: assms(10, 11))
  have input: "call_input (caller_json (pi_caller inp)) (pi_record inp) (csl_action (pi_action inp)) payload"
    by (rule wire_call_input [OF assms(14, 12) len])
  from emit_bundles_each [OF assms(2) [unfolded emit_policy_bundles_def]] assms(8) obtain ir where
    ir: "lower_schema_to_ir typed (bundle_schema b) = Inr ir"
    "patch_runtime parse_segments wasm ir = Inr (bundle_wasm b)"
    by blast
  from patch_runtime_bytes [OF assms(1) ir(2)] assms(3) have
    "length ir \<le> IR_SECTION_BYTES"
    "take IR_SECTION_BYTES (drop start (bundle_wasm b)) = ir @ replicate (IR_SECTION_BYTES - length ir) 0"
    by auto
  with evaluate_schema [OF ir(1) assms(9) _ input assms(18)]
  have run: "rt_evaluate payload (predicate_ir_slice (mem b) slot_base)
      = Inr (verdict_of (schema_verdict (ts_decl ts) (caller_json (pi_caller inp)) (pi_record inp)
          (csl_action (pi_action inp))))"
    using assms(4) [OF assms(8)] by simp
  show ?thesis
    by (rule wasm_evaluate_runtime [where to_vec = to_vec, OF module assms(13) len assms(15-17) run])
qed

end
