(* ===== verification/Policy_Properties.thy ===== *)
theory Policy_Properties
  imports Policy_Bundle
begin

text \<open>
  Properties of the policy pipeline that span components: safety of the runtime, agreement
  of the two interpreters and where they part, the predicates the emitter accepts, and the
  allocator.
\<close>

section \<open>Safety of the runtime\<close>

lemma catchR_JErr:
  "catchR r f = Inl JErr \<longleftrightarrow> (r = Inl JErr \<and> f None = Inl JErr) \<or> (\<exists>x. r = Inr x \<and> f (Some x) = Inl JErr)"
  by (cases "(r, f)" rule: catchR.cases) auto

lemma dispatch_no_error: "rt_dispatch input ir c s name \<noteq> Inl JErr"
  by (auto simp: rt_dispatch_def Let_def catchR_JErr split: option.splits)

lemma evaluate_no_error: "rt_evaluate input slot \<noteq> Inl JErr"
  by (auto simp: rt_evaluate_def result_simps slice_or_panic_def catchR_JErr dispatch_no_error split: option.splits)

lemma evaluate_returns: "\<exists>v. rt_evaluate input slot = Inr v"
proof (cases "rt_evaluate input slot")
  case (Inl e)
  then show ?thesis using safe_rt_evaluate [of input slot] evaluate_no_error [of input slot] by (cases e) auto
qed simp

lemma verdict_codes: "verdict_code v \<in> {1, 0, -1}"
  by (cases v) simp_all

text \<open>
  C10: whatever bytes the host writes and whatever section the module carries, and wherever in
  memory the two lie, evaluation neither traps nor hangs: it returns allow, deny or error.
\<close>

theorem runtime_never_traps:
  assumes "unat ptr + unat len \<le> length memory"
  shows "\<exists>code \<in> {1, 0, -1}. sealstack_evaluate memory slot_base ptr len = Inr code"
proof -
  obtain v where "rt_evaluate (take (unat len) (drop (unat ptr) memory)) (predicate_ir_slice memory slot_base) = Inr v"
    using evaluate_returns by blast
  with assms have "sealstack_evaluate memory slot_base ptr len
      = Inr (if sint ptr < 0 \<or> sint len < 0 then -1 else verdict_code v)"
    by (simp add: sealstack_evaluate_def slice_or_panic_eq)
  moreover have "(if sint ptr < 0 \<or> sint len < 0 then -1 else verdict_code v) \<in> {1, 0, -1}"
    using verdict_codes [of v] by simp
  ultimately show ?thesis by blast
qed

lemma runtime_never_traps_witness:
  "\<exists>code \<in> {1, 0, -1}. sealstack_evaluate (bytes_of ''{ not json'' @ MAGIC @ [1, 0, 0, 0, 7]) 10 0 10 = Inr code"
  by (rule runtime_never_traps) simp

section \<open>The verdict of the runtime\<close>

text \<open>
  C11: the wasm runtime, on the section of a compiled block shorter than \<open>2^31\<close> bytes and the JSON
  text of a portable call, computes the verdict of the policy block: allow, deny, or error where
  the meaning is an error. The text has no escapes in strings and only integers as numbers, caller
  and record are objects and the roles a list (\<open>call_input\<close>); each rule for the action needs at
  most \<open>MAX_STACK\<close> operands, has paths of at most \<open>MAX_SEGS\<close> keys below the root, asks no
  membership of null or a float in a list that holds one, and does not call \<open>has_role\<close> on a
  string or a list (\<open>portable\<close>). Outside of that the runtime deviates from the block: floats are
  truncated, strings with escapes compared as they are written, and deep operands refused.
\<close>

theorem runtime_computes_verdict:
  assumes "build_action_table_and_rules block = Inr body" and "length body < 2 ^ 31"
    and "call_input caller rec a input"
    and "\<And>rule. rule \<in> set (block_rules block) \<Longrightarrow> a \<in> set (rule_actions rule) \<Longrightarrow>
       portable caller rec (rule_predicate rule) \<and> stack_depth (rule_predicate rule) \<le> MAX_STACK"
  shows "rt_evaluate input (ir_section body @ pad) = Inr (verdict_of (block_verdict block caller rec a))"
  by (rule evaluate_block) (use assms in auto)

text \<open>A call printed as the engine sends it.\<close>

definition call_doc :: "json \<Rightarrow> json \<Rightarrow> action \<Rightarrow> json" where
  "call_doc caller rec a = JObject
     [(''caller'', caller), (''action'', JString (action_display_name a)), (''record'', rec)]"

lemma printed_call:
  assumes "printable caller" and "printable rec" and "is_object caller" and "is_object rec" and "roles_listed caller"
    and "length (json_print (call_doc caller rec a)) < 2 ^ 31"
  shows "call_input caller rec a (json_print (call_doc caller rec a))"
proof -
  have "plain (action_display_name a)"
    by (cases a) (simp_all add: plain_def bytes_of_def word_le_nat_alt)
  moreover have "plain ''caller''" "plain ''record''" "plain ''action''" by code_simp+
  ultimately have "printable (call_doc caller rec a)" using assms(1,2) by (simp add: call_doc_def)
  then have "json_text (call_doc caller rec a) (json_print (call_doc caller rec a))" by (rule json_text_print)
  then have "json_document (call_doc caller rec a) (json_print (call_doc caller rec a))"
    unfolding json_document_def by (intro exI [of _ "[]"] exI [of _ "json_print (call_doc caller rec a)"]) simp
  with assms show ?thesis
    unfolding call_input_def by (intro conjI exI [of _ "call_doc caller rec a"]) (simp_all add: call_doc_def)
qed

definition sample_input :: "u8 list" where
  "sample_input = json_print (call_doc sample_caller sample_record ActRead)"

lemma sample_call_input: "call_input sample_caller sample_record ActRead sample_input"
proof -
  have "printable sample_caller" "printable sample_record" "is_object sample_caller" "is_object sample_record"
    "roles_listed sample_caller" by code_simp+
  moreover have "length (json_print (call_doc sample_caller sample_record ActRead)) < 2 ^ 31" by code_simp
  ultimately show ?thesis unfolding sample_input_def by (rule printed_call)
qed

lemma sample_built: "build_action_table_and_rules sample_block = Inr sample_body"
proof -
  have "case build_action_table_and_rules sample_block of Inl _ \<Rightarrow> False | Inr body \<Rightarrow> sample_body = body"
    by code_simp
  then show ?thesis by (simp split: sum.splits)
qed

lemma runtime_computes_verdict_witness:
  "rt_evaluate sample_input (ir_section sample_body @ [0, 0]) = Inr Allow"
proof -
  have ok: "list_all (\<lambda>rule. portable sample_caller sample_record (rule_predicate rule)
        \<and> stack_depth (rule_predicate rule) \<le> MAX_STACK) (block_rules sample_block)"
    by code_simp
  have "rt_evaluate sample_input (ir_section sample_body @ [0, 0])
      = Inr (verdict_of (block_verdict sample_block sample_caller sample_record ActRead))"
  proof (rule runtime_computes_verdict [OF sample_built _ sample_call_input])
    show "length sample_body < 2 ^ 31" by code_simp
  qed (use ok in \<open>simp add: list_all_iff\<close>)
  also have "block_verdict sample_block sample_caller sample_record ActRead = Inr True" by code_simp
  finally show ?thesis by simp
qed

section \<open>Where the interpreters agree and where they part\<close>

text \<open>
  C16: on predicates both interpreters handle exactly, the self-pass interpreter of the
  compiler and the wasm runtime give the same verdict on the same section.
\<close>

theorem interpreters_agree:
  assumes "build_action_table_and_rules block = Inr body" and "length body < 2 ^ 31"
    and "call_input caller rec a input"
    and "\<And>rule. rule \<in> set (block_rules block) \<Longrightarrow> a \<in> set (rule_actions rule) \<Longrightarrow>
       portable caller rec (rule_predicate rule) \<and> host_exact caller rec (rule_predicate rule)
       \<and> stack_depth (rule_predicate rule) \<le> MAX_STACK"
  shows "rt_evaluate input (ir_section body) = Inr (verdict_of (host_interpret (ir_section body) caller rec (action_bit a)))"
proof -
  have "length body < 2 ^ 32" using assms(2) by simp
  then have "host_interpret (ir_section body) caller rec (action_bit a) = block_verdict block caller rec a"
    by (rule host_computes_block [OF assms(1)]) (use assms(4) in blast)
  moreover have "rt_evaluate input (ir_section body @ []) = Inr (verdict_of (block_verdict block caller rec a))"
    by (rule evaluate_block [OF assms(1-3)]) (use assms(4) in blast)
  ultimately show ?thesis by simp
qed

lemma interpreters_agree_witness:
  "rt_evaluate sample_input (ir_section sample_body)
     = Inr (verdict_of (host_interpret (ir_section sample_body) sample_caller sample_record (action_bit ActRead)))"
proof (rule interpreters_agree [OF sample_built _ sample_call_input])
  show "length sample_body < 2 ^ 31" by code_simp
  have "list_all (\<lambda>rule. portable sample_caller sample_record (rule_predicate rule)
      \<and> host_exact sample_caller sample_record (rule_predicate rule)
      \<and> stack_depth (rule_predicate rule) \<le> MAX_STACK) (block_rules sample_block)"
    by code_simp
  then show "portable sample_caller sample_record (rule_predicate rule)
      \<and> host_exact sample_caller sample_record (rule_predicate rule)
      \<and> stack_depth (rule_predicate rule) \<le> MAX_STACK" if "rule \<in> set (block_rules sample_block)" for rule
    using that by (simp add: list_all_iff)
qed

text \<open>
  A load in the native interpreter that meets a missing key stops inside its operand:
  it returns null with the pointer behind the segment of that key, wherever the operand
  goes on.
\<close>

theorem host_load_stops_at_missing_key:
  assumes "mapR lower_segment (ks @ [k]) = Inr segs" and "code_at ir ip (concat segs)"
    and "\<forall>s \<in> set (ks @ [k]). rust_str s" and "json_path root ks = Some v" and "json_get v k = None"
  shows "host_load_segs ir (Suc (length ks) + extra) ip root = Inr (NNull, ip + length (concat segs))"
  using assms
proof (induction ks arbitrary: segs ip root)
  case Nil
  then obtain bs where bs: "lower_segment k = Inr bs" "segs = [bs]" by (auto simp: result_simps)
  with Nil lower_segment_at(1) [OF bs(1), of ir ip, where eof = UnexpectedEof] lower_segment_at(2-4) [OF bs(1), of ir ip]
  show ?case by simp
next
  case (Cons j ks)
  from Cons.prems(1) obtain bs rest where bs: "lower_segment j = Inr bs" "mapR lower_segment (ks @ [k]) = Inr rest"
    and segs: "segs = bs # rest" by (auto simp: result_simps)
  from Cons.prems(2) segs have at: "code_at ir ip bs" "code_at ir (ip + length bs) (concat rest)"
    by (simp_all add: code_at_append)
  from Cons.prems(4) obtain w where w: "json_get root j = Some w" "json_path w ks = Some v"
    by (auto split: option.splits)
  have "host_load_segs ir (Suc (length ks) + extra) (ip + length bs) w = Inr (NNull, ip + length bs + length (concat rest))"
    using Cons.prems(3,5) by (intro Cons.IH [OF bs(2) at(2) _ w(2)]) auto
  with lower_segment_at(1) [OF bs(1) at(1), where eof = UnexpectedEof] lower_segment_at(2-4) [OF bs(1) at(1)]
    Cons.prems(3) segs w(1)
  show ?case by (simp add: add.assoc)
qed

text \<open>\<open>self.customer.owner == caller.id\<close>, a policy whose record may lack its customer.\<close>

definition nested_block :: policy_block where
  "nested_block =
     \<lparr>block_rules =
        [\<lparr>rule_name = None, rule_actions = [ActRead],
          rule_predicate = EBinary BEq (sample_lookup [''self'', ''customer'', ''owner''])
            (sample_lookup [''caller'', ''id'']) (span_new 0 0),
          rule_span = span_new 0 0\<rparr>],
      block_span = span_new 0 0\<rparr>"

definition nested_body :: "u8 list" where
  "nested_body = (case build_action_table_and_rules nested_block of Inr body \<Rightarrow> body | Inl _ \<Rightarrow> [])"

lemma host_load_stops_at_missing_key_witness:
  "host_load_segs (drop 6 nested_body) (Suc (length ([] :: string list)) + 1) 0 empty_record = Inr (NNull, 10)"
proof -
  define seg where "seg = (case lower_segment ''customer'' of Inr bs \<Rightarrow> bs | Inl _ \<Rightarrow> [])"
  have s: "mapR lower_segment ([] @ [''customer'']) = Inr [seg]"
    by (simp add: seg_def lower_segment_def)
  have "drop 6 nested_body = seg @ drop 16 nested_body" unfolding seg_def by code_simp
  then have at: "code_at (drop 6 nested_body) 0 (concat [seg])"
    unfolding code_at_def by (intro exI [of _ "[]"] exI [of _ "drop 16 nested_body"]) simp
  have str: "\<forall>s \<in> set ([] @ [''customer'']). rust_str s" by code_simp
  have len: "length (concat [seg]) = 10" unfolding seg_def by code_simp
  show ?thesis
    using host_load_stops_at_missing_key [OF s at str, of empty_record empty_record 1] len
    by (simp add: empty_record_def)
qed

text \<open>
  The self-pass rejects a sound policy for it: for \<open>self.customer.owner == caller.id\<close>
  the meaning on the empty record is deny and the wasm runtime denies, but the native
  interpreter runs into the end of the bytecode and the schema does not compile.
\<close>

theorem self_pass_rejects_nested_path:
  "build_action_table_and_rules nested_block = Inr nested_body
   \<and> block_verdict nested_block empty_caller empty_record ActRead = Inr False
   \<and> rt_evaluate (json_print (call_doc empty_caller empty_record ActRead)) (ir_section nested_body) = Inr Deny
   \<and> self_pass (ir_section nested_body) all_action_bits = Some (bit_READ, UnexpectedEof)"
proof (intro conjI)
  have "case build_action_table_and_rules nested_block of Inl _ \<Rightarrow> False | Inr body \<Rightarrow> nested_body = body"
    by code_simp
  then show built: "build_action_table_and_rules nested_block = Inr nested_body" by (simp split: sum.splits)
  show verdict: "block_verdict nested_block empty_caller empty_record ActRead = Inr False" by code_simp
  have "call_input empty_caller empty_record ActRead (json_print (call_doc empty_caller empty_record ActRead))"
  proof (rule printed_call)
    show "printable empty_caller" "printable empty_record" "is_object empty_caller" "is_object empty_record"
      "roles_listed empty_caller" by code_simp+
    show "length (json_print (call_doc empty_caller empty_record ActRead)) < 2 ^ 31" by code_simp
  qed
  moreover have "length nested_body < 2 ^ 31" by code_simp
  moreover have "list_all (\<lambda>rule. portable empty_caller empty_record (rule_predicate rule)
      \<and> stack_depth (rule_predicate rule) \<le> MAX_STACK) (block_rules nested_block)" by code_simp
  ultimately have "rt_evaluate (json_print (call_doc empty_caller empty_record ActRead)) (ir_section nested_body @ [])
      = Inr (verdict_of (block_verdict nested_block empty_caller empty_record ActRead))"
    using built by (intro evaluate_block) (auto simp: list_all_iff)
  with verdict show "rt_evaluate (json_print (call_doc empty_caller empty_record ActRead)) (ir_section nested_body) = Inr Deny"
    by simp
  show "self_pass (ir_section nested_body) all_action_bits = Some (bit_READ, UnexpectedEof)" by code_simp
qed

text \<open>
  The runtime never loads a float: a number that is not an \<open>i64\<close> is truncated by
  \<open>as_i64\<close>, so the fall back to \<open>as_f64\<close> is dead; \<open>1.9\<close> is read as \<open>1\<close>.
\<close>

theorem runtime_never_loads_floats:
  "rt_value_at input start \<noteq> Inr (VF64 x) \<and> rt_value_at (bytes_of ''1.9'') 0 = Inr (VI64 1)"
proof
  have "as_i64 input start = Inl JErr \<Longrightarrow> as_f64 input start \<noteq> Inr x"
    by (auto simp: as_i64_def as_f64_def result_simps bind_eq_Some_conv bind_eq_None_conv split: option.splits)
  then show "rt_value_at input start \<noteq> Inr (VF64 x)"
    by (auto simp: rt_value_at_def result_simps split: if_splits option.splits)
  show "rt_value_at (bytes_of ''1.9'') 0 = Inr (VI64 1)" by code_simp
qed

section \<open>Witnesses for the bundle properties\<close>

text \<open>A module that is nothing but the reserved slot, listed as one data segment.\<close>

definition slot_module :: "u8 list" where
  "slot_module = predicate_ir_init"

definition one_segment :: "u8 list \<Rightarrow> segment_item list" where
  "one_segment wasm = [Segment 0 wasm]"

definition sample_typed_schema :: typed_schema where
  "sample_typed_schema =
     \<lparr>ts_decl = sample_schema ''Customer'' [] (Some sample_block), ts_primary_idx = 0, ts_refs_to = [],
      ts_decorator_index = []\<rparr>"

definition sample_typed :: typed_file where
  "sample_typed =
     \<lparr>tf_namespace = ''acme'', tf_filename = None, tf_source = [],
      tf_schemas = [(''Customer'', sample_typed_schema)], tf_enums = [], tf_decl_order = [''Customer'']\<rparr>"

definition sample_bundle :: policy_bundle where
  "sample_bundle =
     \<lparr>bundle_namespace = ''acme'', bundle_schema = ''Customer'',
      bundle_wasm = ir_section sample_body @ replicate (IR_SECTION_BYTES - length (ir_section sample_body)) 0\<rparr>"

lemma slot_module_length: "length slot_module = IR_SECTION_BYTES"
  by (simp add: slot_module_def predicate_ir_init_def MAGIC_def IR_SECTION_BYTES_def)

lemma locate_slot_module: "locate_predicate_section one_segment slot_module = Inr 0"
proof -
  have "slot_at slot_module 0"
    by (simp add: slot_at_def slot_module_def predicate_ir_init_def MAGIC_def list_all_iff)
  then have "scan_segment slot_module = Some 0"
    by (simp add: scan_segment_def slot_module_length)
  then show ?thesis by (simp add: locate_predicate_section_def one_segment_def)
qed

lemma one_segment_sound: "segments_sound one_segment slot_module"
  by (simp add: segments_sound_def one_segment_def slice_opt_def)

lemma not_isl_Inr: "\<not> isl r \<Longrightarrow> \<exists>v. r = Inr v"
  by (cases r) auto

lemma self_pass_total:
  assumes "\<And>a. \<exists>b. host_interpret ir empty_caller empty_record (action_bit a) = Inr b"
  shows "self_pass ir all_action_bits = None"
  using assms [of ActRead] assms [of ActList] assms [of ActWrite] assms [of ActDelete]
  by (auto simp: all_action_bits_def)

lemma sample_emitted: "emit_policy_bundles one_segment slot_module sample_typed = Inr [sample_bundle]"
proof -
  have len: "length (ir_section sample_body) \<le> IR_SECTION_BYTES" "length sample_body < 2 ^ 32" by code_simp+
  have "lower_schema_to_ir sample_typed ''Customer'' = Inr (ir_section sample_body)"
    using sample_built len(2)
    by (simp add: lower_schema_to_ir_def sample_typed_def sample_typed_schema_def sample_schema_def lower_policy_block_body_def)
  moreover have "self_pass (ir_section sample_body) all_action_bits = None"
  proof -
    have ok: "list_all (\<lambda>rule. host_exact empty_caller empty_record (rule_predicate rule)
        \<and> stack_depth (rule_predicate rule) \<le> MAX_STACK) (block_rules sample_block)" by code_simp
    have run: "host_interpret (ir_section sample_body) empty_caller empty_record (action_bit a)
        = block_verdict sample_block empty_caller empty_record a" for a
      using ok by (intro host_computes_block [OF sample_built len(2)]) (auto simp: list_all_iff)
    have verdict: "list_all (\<lambda>a. \<not> isl (block_verdict sample_block empty_caller empty_record a))
        [ActRead, ActList, ActWrite, ActDelete]" by code_simp
    have "\<exists>b. block_verdict sample_block empty_caller empty_record a = Inr b" for a
      using verdict by (cases a) (auto dest: not_isl_Inr)
    with run show ?thesis by (intro self_pass_total) simp
  qed
  moreover have "patch_runtime one_segment slot_module (ir_section sample_body) = Inr (bundle_wasm sample_bundle)"
    using len(1) by (simp add: patch_runtime_def locate_slot_module sample_bundle_def slot_module_length)
  ultimately show ?thesis
    by (simp add: emit_policy_bundles_def sample_typed_def sample_bundle_def)
qed

lemma bundles_stamp_only_the_slot_witness:
  "map bundle_schema [sample_bundle] = [''Customer'']
   \<and> (\<exists>start. take IR_SECTION_BYTES (drop start slot_module) = predicate_ir_init
        \<and> take start (bundle_wasm sample_bundle) = take start slot_module)"
  using bundles_stamp_only_the_slot [OF one_segment_sound sample_emitted]
  by (auto simp: sample_typed_def)

lemma bundle_computes_schema_policy_witness:
  "rt_evaluate sample_input (take IR_SECTION_BYTES (drop 0 (bundle_wasm sample_bundle))) = Inr Allow"
proof -
  have "schema_portable (ts_decl sample_typed_schema) sample_caller sample_record ActRead" by code_simp
  moreover have "map_of (tf_schemas sample_typed) (bundle_schema sample_bundle) = Some sample_typed_schema"
    by (simp add: sample_typed_def sample_bundle_def)
  ultimately have "\<exists>start. locate_predicate_section one_segment slot_module = Inr start
    \<and> rt_evaluate sample_input (take IR_SECTION_BYTES (drop start (bundle_wasm sample_bundle)))
        = Inr (verdict_of (schema_verdict (ts_decl sample_typed_schema) sample_caller sample_record ActRead))"
    using bundle_computes_schema_policy [OF one_segment_sound sample_emitted _ _ sample_call_input] by simp
  moreover have "schema_verdict (ts_decl sample_typed_schema) sample_caller sample_record ActRead = Inr True" by code_simp
  ultimately show ?thesis using locate_slot_module by simp
qed

section \<open>Which predicates compile\<close>

text \<open>The predicates the emitter accepts.\<close>

fun lowerable :: "expr \<Rightarrow> bool" where
  "lowerable (ELiteral (LString s) _) = (length s < 2 ^ 16)"
| "lowerable (ELiteral (LDuration _ _) _) = False"
| "lowerable (ELiteral _ _) = True"
| "lowerable (EPath p) =
     (case segments p of
        [] \<Rightarrow> False
      | root # rest \<Rightarrow> root \<in> {''caller'', ''self''} \<and> length rest < 2 ^ 8 \<and> list_all (\<lambda>s. length s < 2 ^ 16) rest)"
| "lowerable (EBinary bop a b _) = (bop \<notin> {BAdd, BSub, BMul, BDiv} \<and> lowerable a \<and> lowerable b)"
| "lowerable (EUnary uop a _) = (uop = UNot \<and> lowerable a)"
| "lowerable (ECall p args _) =
     (joined p \<in> {''has_role'', ''tenant_match''} \<and> length args = 2 \<and> list_all lowerable args)"
| "lowerable (EList _ _) = False"

lemma isl_bindR: "isl (bindR r f) \<longleftrightarrow> isl r \<or> (\<exists>v. r = Inr v \<and> isl (f v))"
  by (cases r) auto

lemma isl_lower_segments: "isl (mapR lower_segment ks) \<longleftrightarrow> \<not> list_all (\<lambda>s. length s < 2 ^ 16) ks"
proof (induction ks)
  case (Cons k ks)
  have "isl (lower_segment k) \<longleftrightarrow> \<not> length k < 2 ^ 16" by (simp add: lower_segment_def)
  with Cons show ?case
    using not_isl_Inr [of "lower_segment k"] by (auto simp: isl_bindR)
qed simp

text \<open>
  A predicate compiles exactly when it uses no arithmetic, no negation, no list or
  duration literal, only the two built-ins with two arguments, and paths rooted at caller
  or self, within the size limits of the operands.
\<close>

theorem lower_expr_accepts: "(\<exists>code. lower_expr e = Inr code) \<longleftrightarrow> lowerable e"
proof -
  have "\<not> isl (lower_expr e) \<longleftrightarrow> lowerable e"
  proof (induction e)
    case (ELiteral lit sp)
    show ?case by (cases lit) simp_all
  next
    case (EPath p)
    show ?case
      by (auto simp: lower_path_def lower_path_from_def isl_bindR isl_lower_segments split: list.splits)
  next
    case (EBinary bop a b sp)
    then show ?case
      by (cases "lower_expr a"; cases "lower_expr b"; cases bop) simp_all
  next
    case (EUnary uop a sp)
    then show ?case by (cases "lower_expr a"; cases uop) simp_all
  next
    case (ECall p args sp)
    show ?case
    proof (cases "\<exists>a b. args = [a, b]")
      case True
      then obtain a b where args: "args = [a, b]" by blast
      with ECall.IH [of a] ECall.IH [of b] show ?thesis
        by (cases "lower_expr a"; cases "lower_expr b") (auto simp: builtin_tag_def)
    next
      case False
      then have "length args \<noteq> 2" by (auto simp: length_Suc_conv numeral_2_eq_2)
      with False show ?thesis
        by (auto simp: builtin_tag_def split: list.splits)
    qed
  qed simp
  then show ?thesis by (cases "lower_expr e") auto
qed

section \<open>The allocator\<close>

text \<open>
  The bump allocator: a refused request changes nothing; a granted one returns the old
  bump pointer as a non-negative offset, moves it by the size asked for, and keeps it below
  2 GiB, so regions handed out do not overlap.
\<close>

theorem sealstack_alloc_grants:
  assumes "bump < 2 ^ 31"
  shows "(sealstack_alloc n bump = (-1, bump))
     \<or> (\<exists>p. sealstack_alloc n bump = (p, bump + unat n) \<and> 0 \<le> sint n \<and> sint p = int bump \<and> bump + unat n < 2 ^ 31)"
proof -
  have "sint (word_of_nat bump :: 32 word) = int bump"
    using assms by (simp add: sint_uint unsigned_of_nat signed_take_bit_eq_if_positive take_bit_int_eq_self take_bit_nat_eq_self bit_iff_odd)
  then show ?thesis
    by (auto simp: sealstack_alloc_def checked_add_usize_def wasm_usize_max_def split: option.splits if_splits)
qed

lemma sealstack_alloc_grants_witness: "sealstack_alloc 100 BUMP_init = (1024, 1124)"
  using sealstack_alloc_grants [of BUMP_init 100] by (simp add: sealstack_alloc_def BUMP_init_def checked_add_usize_def wasm_usize_max_def)

end
