(* ===== verification/Engine_Deploy.thy ===== *)
theory Engine_Deploy
  imports Engine_Policy Policy_Properties
begin

text \<open>
  A deployment of one compiled schema: the bundle of the sample policy, the directory it
  is written to, and a request. The concrete case of the property that an engine enforces
  the policies the compiler emitted.
\<close>

definition sample_principal :: Caller where
  "sample_principal = \<lparr>cl_id = ''u1'', cl_tenant = ''acme'', cl_groups = [], cl_roles = [''viewer''],
     cl_attrs = []\<rparr>"

definition sample_request :: PolicyInput where
  "sample_request = policy_input ''acme'' ''Customer'' PaRead sample_principal sample_record"

text \<open>A memory of one page, and the section of the module behind it.\<close>

definition sample_memory :: "u8 list \<Rightarrow> u8 list" where
  "sample_memory wasm = replicate 65536 0 @ take IR_SECTION_BYTES wasm"

definition sample_compile :: "u8 list \<Rightarrow> string + WasmModule" where
  "sample_compile wasm =
     Inr (Inr (runtime_instance 65536 1024 (sample_memory wasm)))"

definition sample_to_vec :: "json \<Rightarrow> string + u8 list" where
  "sample_to_vec v = Inr (json_print v)"

definition sample_wasm_policy :: WasmPolicy where
  "sample_wasm_policy =
     \<lparr>wp_modules = [bundle_key (written sample_bundle) \<mapsto> projr (sample_compile (bundle_wasm sample_bundle))],
      wp_default_verdict = PvAllow\<rparr>"

lemma sample_loadable: "list_all (loadable \<circ> written) [sample_bundle]"
proof -
  have "CHR ''.'' \<notin> set ''Customer''" "rust_str (''acme'' @ ''.'' @ ''Customer'')" by code_simp+
  then show ?thesis by (simp add: loadable_def written_def sample_bundle_def)
qed

lemma sample_loaded:
  "load_from_dir sample_compile (Some (Inr (map (bundle_entry \<circ> written) [sample_bundle])))
   = Inr sample_wasm_policy"
  using load_entries_bundles [of "[written sample_bundle]" sample_compile Map.empty] sample_loadable
  by (simp add: load_from_dir_def load_impl_def sample_wasm_policy_def sample_compile_def written_def)

lemma sample_wire:
  "json_document (policy_input_wire sample_request) (json_print (policy_input_wire sample_request))"
proof -
  have "printable (policy_input_wire sample_request)" by code_simp
  then have "json_text (policy_input_wire sample_request) (json_print (policy_input_wire sample_request))"
    by (rule json_text_print)
  then show ?thesis
    unfolding json_document_def
    by (intro exI [of _ "[]"] exI [of _ "json_print (policy_input_wire sample_request)"]) simp
qed

lemma sample_wire_length: "length (json_print (policy_input_wire sample_request)) < 1000"
  by code_simp

theorem engine_enforces_compiled_policy_witness:
  "wasm_evaluate sample_to_vec sample_wasm_policy sample_request = Inr PvAllow"
proof -
  have fields: "pi_namespace sample_request = bundle_namespace sample_bundle"
    "pi_schema sample_request = bundle_schema sample_bundle" "is_object (pi_record sample_request)"
    "pi_caller sample_request = sample_principal" "pi_action sample_request = PaRead"
    "pi_record sample_request = sample_record"
    by (simp_all add: sample_request_def policy_input_def sample_bundle_def is_object_def sample_record_def)
  have portable: "schema_portable (ts_decl sample_typed_schema) (caller_json (pi_caller sample_request))
      (pi_record sample_request) (csl_action (pi_action sample_request))"
    unfolding fields by code_simp
  have schema: "map_of (tf_schemas sample_typed) (bundle_schema sample_bundle) = Some sample_typed_schema"
    by (simp add: sample_typed_def sample_bundle_def)
  have vec: "sample_to_vec (policy_input_wire sample_request)
      = Inr (json_print (policy_input_wire sample_request))"
    by (simp add: sample_to_vec_def)
  have room: "1024 + length (json_print (policy_input_wire sample_request)) < 2 ^ 31"
    "1024 + length (json_print (policy_input_wire sample_request)) \<le> length (sample_memory (bundle_wasm sample_bundle))"
    using sample_wire_length by (simp_all only: sample_memory_def length_append length_replicate) simp_all
  have clear: "clear_of_slot 65536 1024 (json_print (policy_input_wire sample_request))"
    using sample_wire_length by (simp add: clear_of_slot_def)
  have "wasm_evaluate sample_to_vec sample_wasm_policy sample_request
     = engine_verdict (pi_namespace sample_request) (pi_schema sample_request)
         (schema_verdict (ts_decl sample_typed_schema) (caller_json (pi_caller sample_request))
            (pi_record sample_request) (csl_action (pi_action sample_request)))"
    by (rule engine_enforces_compiled_policy [where to_vec = sample_to_vec and inp = sample_request
          and b = sample_bundle and bump = 1024 and slot_base = 65536 and mem = "\<lambda>b. sample_memory (bundle_wasm b)" and ts = sample_typed_schema,
          OF one_segment_sound sample_emitted locate_slot_module _
          sample_loaded sample_loadable _ _ schema fields(1-3) vec sample_wire room clear portable])
       (simp_all add: sample_compile_def sample_memory_def predicate_ir_slice_def)
  moreover have "schema_verdict (ts_decl sample_typed_schema) (caller_json sample_principal) sample_record ActRead
      = Inr True"
    by code_simp
  ultimately show ?thesis by (simp add: fields engine_verdict_def)
qed

end
