(* ===== verification/Engine_Retrieval.thy ===== *)
theory Engine_Retrieval
  imports Engine_Api
begin

text \<open>
  Hybrid retrieval (\<open>sealstack-engine/src/retrieval.rs\<close>, \<open>freshness.rs\<close>, \<open>rerank.rs\<close>):
  vector and full-text candidates, reciprocal rank fusion, freshness decay, reranking.
  The embedder, the database, \<open>powf\<close>, the printing of a ULID and the parser of RFC 3339
  dates are parameters; the iteration order of the hash map of the fusion is a parameter
  that permutes its argument.
\<close>

section \<open>The database\<close>

datatype PgValue = PgNull | PgText string | PgInt int | PgBigint int | PgJson json | PgTime timestamp

record FetchRow =
  fr_id :: string
  fr_title :: "string option"
  fr_body :: "string option"
  fr_created_at :: "timestamp option"
  fr_metadata :: "json option"

record SearchRow =
  sw_id :: string
  sw_excerpt :: string
  sw_created_at :: "timestamp option"
  sw_score :: f32

text \<open>A query is its SQL text and bound values; an error is its message.\<close>

record 'db Postgres =
  pg_optional :: "'db \<Rightarrow> string \<Rightarrow> PgValue list \<Rightarrow> string + FetchRow option"
  pg_rows :: "'db \<Rightarrow> string \<Rightarrow> PgValue list \<Rightarrow> string + FetchRow list"
  pg_search :: "'db \<Rightarrow> string \<Rightarrow> PgValue list \<Rightarrow> string + SearchRow list"
  pg_buckets :: "'db \<Rightarrow> string \<Rightarrow> PgValue list \<Rightarrow> string + (string option \<times> int) list"
  pg_execute :: "'db \<Rightarrow> string \<Rightarrow> PgValue list \<Rightarrow> 'db \<times> (string + nat)"

definition quote1 :: string where "quote1 = [char_of (39 :: nat)]"
definition quote2 :: string where "quote2 = quote1 @ quote1"

text \<open>\<open>i64::try_from(n).unwrap_or(d)\<close> on a \<open>usize\<close>.\<close>

definition i64_or :: "nat \<Rightarrow> int \<Rightarrow> int" where
  "i64_or n d = (if n < 2 ^ 63 then int n else d)"

section \<open>Freshness\<close>

definition decay_factor :: "(f32 \<Rightarrow> f32 \<Rightarrow> f32) \<Rightarrow> FreshnessDecay \<Rightarrow> int \<Rightarrow> f32" where
  "decay_factor powf strategy age_secs =
     (let age = f32_of_int (max age_secs 0) in
      case strategy of
        FreshNone \<Rightarrow> f32_one
      | Exponential half_life_secs \<Rightarrow>
          (let half = f32_of_nat (unat half_life_secs)
           in if f32_le half 0 then f32_one else powf f32_half (f32_div age half))
      | Linear window_secs \<Rightarrow>
          (let window = f32_of_nat (unat window_secs)
           in if f32_le window 0 then f32_one
              else f32_max (f32_sub f32_one (f32_div age window)) 0)
      | Step cliffs factors \<Rightarrow>
          foldl (\<lambda>factor (cliff, fac). if f32_le (f32_of_nat (unat cliff)) age then fac else factor)
            f32_one (zip cliffs factors))"

section \<open>Rerankers\<close>

record RerankCandidate =
  rk_id :: string
  rk_text :: string
  rk_prior_score :: f32

record RerankResult =
  rr_id :: string
  rr_score :: f32

type_synonym Reranker = "string \<Rightarrow> RerankCandidate list \<Rightarrow> EngineError + RerankResult list"

definition identity_rerank :: Reranker where
  "identity_rerank query candidates =
     Inr (map (\<lambda>c. \<lparr>rr_id = rk_id c, rr_score = rk_prior_score c\<rparr>) candidates)"

record HttpReranker =
  hr_endpoint :: string
  hr_api_key :: "string option"
  hr_model :: string

text \<open>
  The HTTP reranker: the request (endpoint, key, model, query, documents) is answered by
  rows of an index and a score; a row whose index is out of range is ignored, and a
  candidate no row names keeps an empty id and score zero.
\<close>

definition place_rows :: "RerankCandidate list \<Rightarrow> (nat \<times> f32) list \<Rightarrow> RerankResult list" where
  "place_rows candidates rows =
     foldl (\<lambda>out (index, score). case nth_opt candidates index of
                None \<Rightarrow> out
              | Some c \<Rightarrow> out[index := \<lparr>rr_id = rk_id c, rr_score = score\<rparr>])
       (replicate (length candidates) \<lparr>rr_id = [], rr_score = 0\<rparr>) rows"

definition http_rerank ::
  "(HttpReranker \<Rightarrow> string \<Rightarrow> string list \<Rightarrow> string + (nat \<times> f32) list) \<Rightarrow> HttpReranker \<Rightarrow> Reranker" where
  "http_rerank send h query candidates =
     (case send h query (map rk_text candidates) of
        Inl e \<Rightarrow> Inl (EeBackend e)
      | Inr rows \<Rightarrow> Inr (place_rows candidates rows))"

section \<open>Candidates and fusion\<close>

record RawCandidate =
  ra_id :: string
  ra_score :: f32
  ra_content :: string
  ra_created_at :: "timestamp option"

record RetrievedHit =
  rh_id :: string
  rh_score :: f32
  rh_excerpt :: string

definition vec_hit_to_raw :: "(ulid \<Rightarrow> string) \<Rightarrow> (string \<Rightarrow> timestamp option) \<Rightarrow> SearchResult \<Rightarrow> RawCandidate" where
  "vec_hit_to_raw ulid_str parse_rfc3339 h =
     \<lparr>ra_id = ulid_str (sr_id h), ra_score = sr_score h, ra_content = sr_content h,
      ra_created_at = Option.bind (Option.bind (map_of (sr_metadata h) ''created_at'') json_as_str) parse_rfc3339\<rparr>"

definition rrf_weight :: "f32 \<Rightarrow> nat \<Rightarrow> f32" where
  "rrf_weight w rank =
     f32_mul w (f32_div f32_one (f32_add (f32_add 0x42700000 (f32_of_nat rank)) f32_one))"

text \<open>
  The two hash maps, filled by both loops in order: the candidates first seen under an id
  and the accumulated scores. The map of candidates is an association list in order of
  insertion; \<open>order\<close> is the order its iterator yields.
\<close>

definition rrf_add :: "f32 \<Rightarrow> nat \<times> RawCandidate \<Rightarrow> (string \<times> RawCandidate) list \<times> (string \<Rightarrow> f32 option)
    \<Rightarrow> (string \<times> RawCandidate) list \<times> (string \<Rightarrow> f32 option)" where
  "rrf_add w = (\<lambda>(rank, c) (cands, score).
     ((if map_of cands (ra_id c) = None then cands @ [(ra_id c, c)] else cands),
      score(ra_id c \<mapsto> f32_add (case score (ra_id c) of None \<Rightarrow> 0 | Some s \<Rightarrow> s) (rrf_weight w rank))))"

definition rrf_maps :: "RawCandidate list \<Rightarrow> RawCandidate list \<Rightarrow> f32
    \<Rightarrow> (string \<times> RawCandidate) list \<times> (string \<Rightarrow> f32 option)" where
  "rrf_maps vec_hits bm25_hits alpha =
     fold (rrf_add (f32_sub f32_one alpha)) (enumerate 0 bm25_hits)
       (fold (rrf_add alpha) (enumerate 0 vec_hits) ([], Map.empty))"

definition raw_before :: "RawCandidate \<Rightarrow> RawCandidate \<Rightarrow> bool" where
  "raw_before a b = f32_lt (ra_score b) (ra_score a)"

definition rrf_fuse :: "((string \<times> RawCandidate) list \<Rightarrow> (string \<times> RawCandidate) list)
    \<Rightarrow> RawCandidate list \<Rightarrow> RawCandidate list \<Rightarrow> f32 \<Rightarrow> RawCandidate list" where
  "rrf_fuse order vec_hits bm25_hits alpha =
     (let (cands, score) = rrf_maps vec_hits bm25_hits alpha
      in sort_by raw_before
           (map (\<lambda>(i, c). c\<lparr>ra_score := (case score i of None \<Rightarrow> 0 | Some s \<Rightarrow> s)\<rparr>) (order cands)))"

section \<open>The retriever\<close>

record ('vs, 'db) Retriever =
  rv_config :: RetrievalConfig
  rv_store :: "'vs VectorStore"
  rv_embed :: "string list \<Rightarrow> SealStackError + f32 list list"
  rv_db :: "'db Postgres"
  rv_reranker :: Reranker
  rv_ulid_str :: "ulid \<Rightarrow> string"
  rv_parse_rfc3339 :: "string \<Rightarrow> timestamp option"
  rv_powf :: "f32 \<Rightarrow> f32 \<Rightarrow> f32"
  rv_order :: "(string \<times> RawCandidate) list \<Rightarrow> (string \<times> RawCandidate) list"

definition tenant_filter :: "string \<Rightarrow> json option" where
  "tenant_filter tenant = (if tenant = [] then None else Some (JObject [(''tenant'', JString tenant)]))"

definition vector_search :: "('vs, 'db) Retriever \<Rightarrow> 'vs \<Rightarrow> string \<Rightarrow> f32 list \<Rightarrow> nat \<Rightarrow> string
    \<Rightarrow> EngineError + RawCandidate list" where
  "vector_search R vs collection query_vec k tenant =
     (case vs_search (rv_store R) vs collection query_vec k (tenant_filter tenant) of
        Inl e \<Rightarrow> Inl (EeBackend (''vector store: '' @ show_error e))
      | Inr hits \<Rightarrow> Inr (map (vec_hit_to_raw (rv_ulid_str R) (rv_parse_rfc3339 R)) hits))"

definition coalesce_column :: "string \<Rightarrow> string" where
  "coalesce_column c = ''coalesce('' @ c @ '','' @ quote2 @ '')''"

definition bm25_sql :: "string \<Rightarrow> string list \<Rightarrow> string" where
  "bm25_sql table columns =
     (let concat_expr = join_with ('' || '' @ quote1 @ '' '' @ quote1 @ '' || '') (map coalesce_column columns);
          english = quote1 @ ''english'' @ quote1
      in ''SELECT id::text AS id, COALESCE('' @ hd columns @ '', '' @ quote2 @ '') AS excerpt, created_at, ''
         @ ''ts_rank_cd(to_tsvector('' @ english @ '', '' @ concat_expr @ ''), plainto_tsquery('' @ english
         @ '', $1)) AS score FROM '' @ table @ '' WHERE to_tsvector('' @ english @ '', '' @ concat_expr
         @ '') @@ plainto_tsquery('' @ english @ '', $1) AND coalesce(tenant, '' @ quote2
         @ '') = $3 ORDER BY score DESC LIMIT $2'')"

definition bm25_search :: "('vs, 'db) Retriever \<Rightarrow> 'db \<Rightarrow> SchemaMeta \<Rightarrow> string \<Rightarrow> nat \<Rightarrow> string
    \<Rightarrow> EngineError + RawCandidate list" where
  "bm25_search R db meta query k tenant =
     (if \<not> is_safe_ident (sm_table meta)
      then Inl (EeInvalidArgument (''unsafe table identifier `'' @ sm_table meta @ ''`''))
      else if sm_chunked_fields meta = [] then Inr []
      else case find (\<lambda>col. \<not> is_safe_ident col) (sm_chunked_fields meta) of
        Some col \<Rightarrow> Inl (EeInvalidArgument (''unsafe chunked column `'' @ col @ ''` in schema `''
                      @ sm_namespace meta @ ''.'' @ sm_name meta @ ''`''))
      | None \<Rightarrow>
          (case pg_search (rv_db R) db (bm25_sql (sm_table meta) (sm_chunked_fields meta))
                  [PgText query, PgBigint (i64_or k 64), PgText tenant] of
             Inl e \<Rightarrow> Inl (EeBackend e)
           | Inr rows \<Rightarrow> Inr (map (\<lambda>r. \<lparr>ra_id = sw_id r, ra_score = sw_score r, ra_content = sw_excerpt r,
                                           ra_created_at = sw_created_at r\<rparr>) rows)))"

text \<open>\<open>whole_seconds\<close> of the age truncates towards zero.\<close>

definition whole_seconds :: "int \<Rightarrow> int" where
  "whole_seconds nanos = (if nanos < 0 then - ((- nanos) div 10 ^ 9) else nanos div 10 ^ 9)"

definition apply_decay :: "(f32 \<Rightarrow> f32 \<Rightarrow> f32) \<Rightarrow> FreshnessDecay \<Rightarrow> timestamp \<Rightarrow> RawCandidate \<Rightarrow> RawCandidate" where
  "apply_decay powf strategy now c =
     (case ra_created_at c of
        None \<Rightarrow> c
      | Some ts \<Rightarrow> c\<lparr>ra_score := f32_mul (ra_score c) (decay_factor powf strategy (whole_seconds (now - ts)))\<rparr>)"

definition hit_before :: "RetrievedHit \<Rightarrow> RetrievedHit \<Rightarrow> bool" where
  "hit_before a b = f32_lt (rh_score b) (rh_score a)"

definition or_empty :: "'e + 'a list \<Rightarrow> 'a list" where
  "or_empty r = (case r of Inl e \<Rightarrow> [] | Inr xs \<Rightarrow> xs)"

definition query_embedding :: "('vs, 'db) Retriever \<Rightarrow> string \<Rightarrow> EngineError + f32 list" where
  "query_embedding R query =
     (case rv_embed R [query] of
        Inl e \<Rightarrow> Inl (EeBackend (''embedder: '' @ show_error e))
      | Inr [] \<Rightarrow> Inl (EeBackend ''embedder returned zero vectors'')
      | Inr (v # vs) \<Rightarrow> Inr v)"

definition retriever_search :: "('vs, 'db) Retriever \<Rightarrow> 'vs \<Rightarrow> 'db \<Rightarrow> timestamp \<Rightarrow> SchemaMeta \<Rightarrow> string
    \<Rightarrow> nat \<Rightarrow> string \<Rightarrow> EngineError + RetrievedHit list" where
  "retriever_search R vs db now meta query top_k tenant =
     (let candidate_k = rc_candidate_k (rv_config R);
          alpha = f32_clamp 0 f32_one
                    (case sm_hybrid_alpha meta of
                       None \<Rightarrow> rc_default_hybrid_alpha (rv_config R) | Some a \<Rightarrow> a)
      in bindR (query_embedding R query) (\<lambda>embedding.
         let vector_hits = or_empty (vector_search R vs (sm_collection meta) embedding candidate_k tenant);
             bm25_hits = or_empty (bm25_search R db meta query candidate_k tenant)
         in if vector_hits = [] \<and> bm25_hits = [] then Inr []
            else
              let fused = rrf_fuse (rv_order R) vector_hits bm25_hits alpha;
                  decayed = map (apply_decay (rv_powf R) (cm_freshness_decay (sm_context meta)) now) fused;
                  to_rerank = map (\<lambda>c. \<lparr>rk_id = ra_id c, rk_text = ra_content c, rk_prior_score = ra_score c\<rparr>)
                                (take candidate_k decayed)
              in bindR (rv_reranker R query to_rerank) (\<lambda>reranked.
                 Inr (take top_k (sort_by hit_before
                   (map (\<lambda>(raw, rr). \<lparr>rh_id = ra_id raw, rh_score = rr_score rr, rh_excerpt = ra_content raw\<rparr>)
                      (zip decayed reranked)))))))"

section \<open>The fusion computes reciprocal rank fusion\<close>

text \<open>The weights an id earns in a ranked list, and its fused score.\<close>

definition rank_weights :: "f32 \<Rightarrow> nat \<Rightarrow> string \<Rightarrow> RawCandidate list \<Rightarrow> f32 list" where
  "rank_weights w n i hits =
     map (\<lambda>(rank, c). rrf_weight w rank) (filter (\<lambda>(rank, c). ra_id c = i) (enumerate n hits))"

definition rrf_score :: "RawCandidate list \<Rightarrow> RawCandidate list \<Rightarrow> f32 \<Rightarrow> string \<Rightarrow> f32" where
  "rrf_score vec_hits bm25_hits alpha i =
     foldl f32_add 0 (rank_weights alpha 0 i vec_hits @ rank_weights (f32_sub f32_one alpha) 0 i bm25_hits)"

definition known_score :: "f32 option \<Rightarrow> f32" where
  "known_score s = (case s of None \<Rightarrow> 0 | Some x \<Rightarrow> x)"

lemma rrf_fold_score:
  "snd (fold (rrf_add w) (enumerate n hits) (cands, score)) i
   = (if rank_weights w n i hits = [] then score i
      else Some (foldl f32_add (known_score (score i)) (rank_weights w n i hits)))"
proof (induction hits arbitrary: n cands score)
  case Nil
  then show ?case by (simp add: rank_weights_def)
next
  case (Cons c hits)
  let ?cands = "if map_of cands (ra_id c) = None then cands @ [(ra_id c, c)] else cands"
  let ?score = "score(ra_id c \<mapsto> f32_add (known_score (score (ra_id c))) (rrf_weight w n))"
  have step: "fold (rrf_add w) (enumerate n (c # hits)) (cands, score)
      = fold (rrf_add w) (enumerate (Suc n) hits) (?cands, ?score)"
    by (simp add: rrf_add_def known_score_def)
  have ws: "rank_weights w n i (c # hits)
      = (if ra_id c = i then [rrf_weight w n] else []) @ rank_weights w (Suc n) i hits"
    by (simp add: rank_weights_def)
  show ?case
    unfolding step ws Cons.IH by (auto simp: known_score_def)
qed

definition keyed :: "(string \<times> RawCandidate) list \<Rightarrow> bool" where
  "keyed cands \<longleftrightarrow> distinct (map fst cands) \<and> list_all (\<lambda>(i, c). ra_id c = i) cands"

lemma rrf_fold_cands:
  assumes "keyed cands"
  shows "keyed (fst (fold (rrf_add w) (enumerate n hits) (cands, score)))
     \<and> set (map fst (fst (fold (rrf_add w) (enumerate n hits) (cands, score))))
       = set (map fst cands) \<union> ra_id ` set hits
     \<and> snd ` set (fst (fold (rrf_add w) (enumerate n hits) (cands, score))) \<subseteq> snd ` set cands \<union> set hits"
  using assms
proof (induction hits arbitrary: n cands score)
  case (Cons c hits)
  define next_cands where
    "next_cands = (if map_of cands (ra_id c) = None then cands @ [(ra_id c, c)] else cands)"
  define next_score where
    "next_score = score(ra_id c \<mapsto> f32_add (known_score (score (ra_id c))) (rrf_weight w n))"
  have step: "fold (rrf_add w) (enumerate n (c # hits)) (cands, score)
      = fold (rrf_add w) (enumerate (Suc n) hits) (next_cands, next_score)"
    by (simp add: rrf_add_def known_score_def next_cands_def next_score_def)
  have k: "keyed next_cands"
    using Cons.prems by (auto simp: keyed_def map_of_eq_None_iff next_cands_def)
  have ids: "set (map fst next_cands) = insert (ra_id c) (set (map fst cands))"
    by (auto simp: map_of_eq_None_iff next_cands_def)
  have cs: "snd ` set next_cands \<subseteq> insert c (snd ` set cands)"
    by (auto simp: next_cands_def)
  obtain out sc where out: "fold (rrf_add w) (enumerate (Suc n) hits) (next_cands, next_score) = (out, sc)"
    by fastforce
  have IH: "keyed out" "set (map fst out) = set (map fst next_cands) \<union> ra_id ` set hits"
    "snd ` set out \<subseteq> snd ` set next_cands \<union> set hits"
    using Cons.IH [OF k, of "Suc n" next_score] by (simp_all add: out)
  have "set (map fst out) = set (map fst cands) \<union> ra_id ` set (c # hits)"
    unfolding IH(2) ids by simp
  moreover have "snd ` set out \<subseteq> snd ` set cands \<union> set (c # hits)" using IH(3) cs by auto
  ultimately show ?case unfolding step out using IH(1) by simp
qed simp

lemma rrf_maps_cands:
  "keyed (fst (rrf_maps vec_hits bm25_hits alpha))
   \<and> set (map fst (fst (rrf_maps vec_hits bm25_hits alpha))) = ra_id ` set vec_hits \<union> ra_id ` set bm25_hits
   \<and> snd ` set (fst (rrf_maps vec_hits bm25_hits alpha)) \<subseteq> set vec_hits \<union> set bm25_hits"
proof -
  obtain cands score where v: "fold (rrf_add alpha) (enumerate 0 vec_hits) ([], Map.empty) = (cands, score)"
    by fastforce
  have "keyed []" by (simp add: keyed_def)
  from rrf_fold_cands [OF this, of alpha 0 vec_hits Map.empty] have
    c: "keyed cands" "set (map fst cands) = ra_id ` set vec_hits" "snd ` set cands \<subseteq> set vec_hits"
    by (simp_all add: v)
  show ?thesis
    unfolding rrf_maps_def v
    using rrf_fold_cands [OF c(1), of "f32_sub f32_one alpha" 0 bm25_hits score] c(2, 3)
    by (intro conjI) (simp, simp, blast)
qed

lemma rrf_maps_score:
  assumes "i \<in> ra_id ` set vec_hits \<union> ra_id ` set bm25_hits"
  shows "known_score (snd (rrf_maps vec_hits bm25_hits alpha) i) = rrf_score vec_hits bm25_hits alpha i"
proof -
  obtain cands score where v: "fold (rrf_add alpha) (enumerate 0 vec_hits) ([], Map.empty) = (cands, score)"
    by fastforce
  have "score i = (if rank_weights alpha 0 i vec_hits = [] then None
      else Some (foldl f32_add 0 (rank_weights alpha 0 i vec_hits)))"
    using rrf_fold_score [of alpha 0 vec_hits "[]" Map.empty i] by (simp add: v known_score_def)
  then have "known_score (score i) = foldl f32_add 0 (rank_weights alpha 0 i vec_hits)"
    by (simp add: known_score_def)
  then show ?thesis
    unfolding rrf_maps_def v rrf_fold_score by (simp add: rrf_score_def known_score_def split: option.splits)
qed

lemma rrf_fuse_elems:
  assumes order: "\<And>xs. mset (order xs) = mset xs"
  shows "distinct (map ra_id (rrf_fuse order vec_hits bm25_hits alpha))"
    and "ra_id ` set (rrf_fuse order vec_hits bm25_hits alpha) = ra_id ` set vec_hits \<union> ra_id ` set bm25_hits"
    and "c \<in> set (rrf_fuse order vec_hits bm25_hits alpha) \<Longrightarrow>
         ra_score c = rrf_score vec_hits bm25_hits alpha (ra_id c)
         \<and> (\<exists>c0 \<in> set vec_hits \<union> set bm25_hits. c = c0\<lparr>ra_score := ra_score c\<rparr>)"
proof -
  obtain cands score where m: "rrf_maps vec_hits bm25_hits alpha = (cands, score)" by fastforce
  let ?f = "\<lambda>(i, c). c\<lparr>ra_score := known_score (score i)\<rparr>"
  have fuse: "rrf_fuse order vec_hits bm25_hits alpha = sort_by raw_before (map ?f (order cands))"
    by (simp add: rrf_fuse_def m known_score_def)
  have k: "keyed cands" "set (map fst cands) = ra_id ` set vec_hits \<union> ra_id ` set bm25_hits"
    "snd ` set cands \<subseteq> set vec_hits \<union> set bm25_hits"
    using rrf_maps_cands [of vec_hits bm25_hits alpha] by (simp_all add: m)
  have so: "set (order cands) = set cands" using order by (metis set_mset_mset)
  have ids: "map ra_id (map ?f (order cands)) = map fst (order cands)"
    using k(1) so by (auto simp: keyed_def list_all_iff)
  have "mset (map fst (order cands)) = mset (map fst cands)" using order by simp
  then have "distinct (map fst (order cands))"
    using k(1) by (metis keyed_def mset_eq_imp_distinct_iff)
  then show "distinct (map ra_id (rrf_fuse order vec_hits bm25_hits alpha))"
    by (simp only: fuse distinct_sort_by ids)
  show "ra_id ` set (rrf_fuse order vec_hits bm25_hits alpha) = ra_id ` set vec_hits \<union> ra_id ` set bm25_hits"
  proof -
    have "ra_id ` set (map ?f (order cands)) = set (map ra_id (map ?f (order cands)))"
      by (rule list.set_map [symmetric])
    also have "\<dots> = fst ` set cands" unfolding ids using so by simp
    finally show ?thesis using k(2) by (simp add: fuse)
  qed
  assume "c \<in> set (rrf_fuse order vec_hits bm25_hits alpha)"
  then obtain i c0 where c: "(i, c0) \<in> set cands" "c = c0\<lparr>ra_score := known_score (score i)\<rparr>"
    using so by (auto simp: fuse)
  have i: "ra_id c0 = i" using k(1) c(1) by (auto simp: keyed_def list_all_iff)
  have "i \<in> set (map fst cands)" using c(1) by force
  then have "known_score (score i) = rrf_score vec_hits bm25_hits alpha i"
    using rrf_maps_score [of i vec_hits bm25_hits alpha] k(2) by (simp add: m)
  moreover have "c0 \<in> set vec_hits \<union> set bm25_hits" using k(3) c(1) by force
  ultimately show "ra_score c = rrf_score vec_hits bm25_hits alpha (ra_id c)
         \<and> (\<exists>c0 \<in> set vec_hits \<union> set bm25_hits. c = c0\<lparr>ra_score := ra_score c\<rparr>)"
    using c(2) i by auto
qed

lemma sort_by_descending:
  assumes "\<forall>x \<in> set xs. \<not> f32_is_nan (key x)"
  shows "sorted_wrt (\<lambda>a b. f32_le (key b) (key a)) (sort_by (\<lambda>a b. f32_lt (key b) (key a)) xs)"
proof -
  have "weak_order_on (set xs) (\<lambda>a b. f32_lt (key b) (key a))"
    using assms by (auto simp: weak_order_on_def f32_lt_def)
  then have "sorted_wrt (\<lambda>a b. \<not> f32_lt (key a) (key b)) (sort_by (\<lambda>a b. f32_lt (key b) (key a)) xs)"
    by (rule sort_by_sorted)
  then show ?thesis
  proof (rule sorted_wrt_mono_rel [rotated])
    fix x y
    assume "x \<in> set (sort_by (\<lambda>a b. f32_lt (key b) (key a)) xs)"
      "y \<in> set (sort_by (\<lambda>a b. f32_lt (key b) (key a)) xs)" "\<not> f32_lt (key x) (key y)"
    then show "f32_le (key y) (key x)" using assms f32_not_lt [of "key x" "key y"] by simp
  qed
qed

section \<open>Properties\<close>


definition sample_candidate :: "string \<Rightarrow> RawCandidate" where
  "sample_candidate i = \<lparr>ra_id = i, ra_score = 0, ra_content = ''text'', ra_created_at = None\<rparr>"

lemma sample_rank_sum: "f32_add 0x42700000 (f32_of_nat 0) = 0x42700000"
  by code_simp

lemma sample_rank_sum_one: "f32_add 0x42700000 f32_one = 0x42740000"
  by code_simp

lemma sample_rank_quotient: "f32_div f32_one 0x42740000 = 0x3C864B8A"
  by code_simp

lemma sample_rank_half: "f32_mul f32_half 0x3C864B8A = 0x3C064B8A"
  by code_simp

lemma sample_other_half: "f32_sub f32_one f32_half = f32_half"
  by code_simp

lemma sample_zero_plus: "f32_add 0 0x3C064B8A = 0x3C064B8A"
  by code_simp

lemma sample_half_plus_half: "f32_add 0x3C064B8A 0x3C064B8A = 0x3C864B8A"
  by code_simp

lemma sample_rrf:
  "rrf_score [sample_candidate ''a''] [sample_candidate ''a''] f32_half ''a'' = 0x3C864B8A"
proof -
  have "rrf_weight f32_half 0 = 0x3C064B8A"
    by (simp only: rrf_weight_def sample_rank_sum sample_rank_sum_one sample_rank_quotient sample_rank_half)
  then have "rank_weights f32_half 0 ''a'' [sample_candidate ''a''] = [0x3C064B8A]"
    by (simp add: rank_weights_def sample_candidate_def)
  then show ?thesis
    by (simp only: rrf_score_def sample_other_half append.simps foldl.simps
        sample_zero_plus sample_half_plus_half)
qed


lemma decay_keeps [simp]:
  "ra_id (apply_decay powf s now c) = ra_id c" "ra_content (apply_decay powf s now c) = ra_content c"
  by (simp_all add: apply_decay_def split: option.splits)

text \<open>The hits of a search before they are cut to \<open>top_k\<close>.\<close>

definition ranked_hits :: "RawCandidate list \<Rightarrow> RerankResult list \<Rightarrow> RetrievedHit list" where
  "ranked_hits decayed reranked = sort_by hit_before
     (map (\<lambda>(raw, rr). \<lparr>rh_id = ra_id raw, rh_score = rr_score rr, rh_excerpt = ra_content raw\<rparr>)
        (zip decayed reranked))"

lemma retriever_search_Inr:
  assumes "retriever_search R vs db now meta query k tenant = Inr hits"
  shows "\<exists>embedding vec bm decayed reranked.
     query_embedding R query = Inr embedding
     \<and> vec = or_empty (vector_search R vs (sm_collection meta) embedding (rc_candidate_k (rv_config R)) tenant)
     \<and> bm = or_empty (bm25_search R db meta query (rc_candidate_k (rv_config R)) tenant)
     \<and> (vec = [] \<and> bm = [] \<and> hits = []
        \<or> (\<exists>alpha. decayed = map (apply_decay (rv_powf R) (cm_freshness_decay (sm_context meta)) now)
                       (rrf_fuse (rv_order R) vec bm alpha)
           \<and> hits = take k (ranked_hits decayed reranked)))"
proof -
  obtain embedding where "query_embedding R query = Inr embedding"
    using assms by (auto simp: retriever_search_def Let_def result_simps)
  with assms show ?thesis
    by (auto simp: retriever_search_def Let_def result_simps ranked_hits_def split: if_splits)
qed

lemma ranked_hits_elems:
  assumes "distinct (map ra_id decayed)"
  shows "distinct (map rh_id (ranked_hits decayed reranked))"
    and "h \<in> set (ranked_hits decayed reranked) \<Longrightarrow>
         \<exists>c \<in> set decayed. rh_id h = ra_id c \<and> rh_excerpt h = ra_content c"
proof -
  let ?xs = "map (\<lambda>(raw, rr). \<lparr>rh_id = ra_id raw, rh_score = rr_score rr, rh_excerpt = ra_content raw\<rparr>)
        (zip decayed reranked)"
  have "map rh_id ?xs = map ra_id (map fst (zip decayed reranked))"
    by (auto simp: case_prod_beta)
  also have "\<dots> = take (length reranked) (map ra_id decayed)"
    by (simp add: map_fst_zip_take take_map min_def)
  finally have "distinct (map rh_id ?xs)" using assms by (metis distinct_take)
  then show "distinct (map rh_id (ranked_hits decayed reranked))"
    by (simp only: ranked_hits_def distinct_sort_by)
  assume "h \<in> set (ranked_hits decayed reranked)"
  then obtain raw rr where "(raw, rr) \<in> set (zip decayed reranked)"
    "h = \<lparr>rh_id = ra_id raw, rh_score = rr_score rr, rh_excerpt = ra_content raw\<rparr>"
    by (auto simp: ranked_hits_def)
  then show "\<exists>c \<in> set decayed. rh_id h = ra_id c \<and> rh_excerpt h = ra_content c"
    using set_zip_leftD by fastforce
qed

lemma retrieved_hits:
  assumes "\<And>xs. mset (rv_order R xs) = mset xs" "retriever_search R vs db now meta query k tenant = Inr hits"
  shows "length hits \<le> k \<and> distinct (map rh_id hits)
    \<and> (\<exists>embedding. query_embedding R query = Inr embedding
       \<and> (\<forall>h \<in> set hits. \<exists>c \<in> set (or_empty (vector_search R vs (sm_collection meta) embedding
                                       (rc_candidate_k (rv_config R)) tenant))
                                 \<union> set (or_empty (bm25_search R db meta query (rc_candidate_k (rv_config R)) tenant)).
            rh_id h = ra_id c \<and> rh_excerpt h = ra_content c))"
proof -
  from retriever_search_Inr [OF assms(2)] obtain embedding vec bm decayed reranked where
    e: "query_embedding R query = Inr embedding"
    "vec = or_empty (vector_search R vs (sm_collection meta) embedding (rc_candidate_k (rv_config R)) tenant)"
    "bm = or_empty (bm25_search R db meta query (rc_candidate_k (rv_config R)) tenant)"
    and cases: "vec = [] \<and> bm = [] \<and> hits = []
        \<or> (\<exists>alpha. decayed = map (apply_decay (rv_powf R) (cm_freshness_decay (sm_context meta)) now)
                       (rrf_fuse (rv_order R) vec bm alpha)
           \<and> hits = take k (ranked_hits decayed reranked))"
    by blast
  show ?thesis
  proof (cases "vec = [] \<and> bm = [] \<and> hits = []")
    case True
    with e show ?thesis by auto
  next
    case False
    with cases obtain alpha where
      d: "decayed = map (apply_decay (rv_powf R) (cm_freshness_decay (sm_context meta)) now)
            (rrf_fuse (rv_order R) vec bm alpha)"
      and h: "hits = take k (ranked_hits decayed reranked)" by blast
    note fused = rrf_fuse_elems [where order = "rv_order R", OF assms(1)]
    have dist: "distinct (map ra_id decayed)"
      using fused(1) [of vec bm alpha] by (simp add: d comp_def)
    have src: "\<exists>c0 \<in> set vec \<union> set bm. ra_id c = ra_id c0 \<and> ra_content c = ra_content c0"
      if c: "c \<in> set decayed" for c
    proof -
      obtain c1 where c1: "c1 \<in> set (rrf_fuse (rv_order R) vec bm alpha)"
        "c = apply_decay (rv_powf R) (cm_freshness_decay (sm_context meta)) now c1"
        using c unfolding d set_map by blast
      then obtain c0 where "c0 \<in> set vec \<union> set bm" "c1 = c0\<lparr>ra_score := ra_score c1\<rparr>"
        using fused(3) by blast
      moreover from this(2) have "ra_id c1 = ra_id c0" "ra_content c1 = ra_content c0"
        by (metis RawCandidate.select_convs(1) RawCandidate.surjective RawCandidate.update_convs(2),
            metis RawCandidate.select_convs(3) RawCandidate.surjective RawCandidate.update_convs(2))
      ultimately show ?thesis using c1(2) by auto
    qed
    have "\<exists>c \<in> set vec \<union> set bm. rh_id h = ra_id c \<and> rh_excerpt h = ra_content c" if "h \<in> set hits" for h
    proof -
      have "h \<in> set (ranked_hits decayed reranked)" using that h by (auto dest: in_set_takeD)
      from ranked_hits_elems(2) [OF dist this] src show ?thesis by metis
    qed
    moreover have "distinct (map rh_id hits)"
      using ranked_hits_elems(1) [OF dist, of reranked] by (simp add: h take_map [symmetric] distinct_take)
    ultimately show ?thesis using e h by (simp add: min_def)
  qed
qed

end
