(* ===== verification/Engine_Receipts.thy ===== *)
theory Engine_Receipts
  imports Engine_Retrieval
begin

text \<open>
  Receipts (\<open>sealstack-engine/src/receipts.rs\<close>): the audit record of a call, its builder,
  the recorder of stage timings, and the statements that persist, fetch and prune receipts.
  An instant is a number of nanoseconds of the monotonic clock; the ULID and the moment of a
  new receipt, and the text of a moment, are parameters.
\<close>

type_synonym instant = nat

section \<open>The record\<close>

record SourceRef =
  sf_schema :: string
  sf_record_id :: string
  sf_chunk_id :: "string option"
  sf_score :: f32

record PolicyRef =
  pf_schema :: string
  pf_predicate :: string
  pf_verdict :: string

record Timings =
  tm_embed :: u32
  tm_retrieval :: u32
  tm_rerank :: u32
  tm_policy :: u32
  tm_total :: u32

definition timings_default :: Timings where
  "timings_default = \<lparr>tm_embed = 0, tm_retrieval = 0, tm_rerank = 0, tm_policy = 0, tm_total = 0\<rparr>"

record Receipt =
  rc_id :: string
  rc_caller :: Caller
  rc_qualified_schema :: string
  rc_tool :: string
  rc_arguments :: json
  rc_sources :: "SourceRef list"
  rc_policies_applied :: "PolicyRef list"
  rc_timings_ms :: Timings
  rc_created_at :: timestamp

section \<open>Timings\<close>

datatype Stage = StEmbed | StRetrieval | StRerank | StPolicy

record TimingRecorder =
  tr_start :: instant
  tr_stage_start :: instant
  tr_current :: Timings

text \<open>
  \<open>elapsed().as_millis().min(u32::MAX) as u32\<close>; \<open>Instant::elapsed\<close> saturates at zero.
\<close>

definition elapsed_ms :: "instant \<Rightarrow> instant \<Rightarrow> u32" where
  "elapsed_ms since now = word_of_nat (min ((now - since) div 10 ^ 6) (2 ^ 32 - 1))"

definition timer_start :: "instant \<Rightarrow> TimingRecorder" where
  "timer_start now = \<lparr>tr_start = now, tr_stage_start = now, tr_current = timings_default\<rparr>"

text \<open>\<open>split\<close> reads the clock twice: for the elapsed time and for the start of the next stage.\<close>

definition timer_split :: "TimingRecorder \<Rightarrow> Stage \<Rightarrow> instant \<Rightarrow> instant \<Rightarrow> TimingRecorder" where
  "timer_split r stage now next =
     (let ms = elapsed_ms (tr_stage_start r) now;
          cur = tr_current r;
          cur' = (case stage of
                    StEmbed \<Rightarrow> cur\<lparr>tm_embed := ms\<rparr>
                  | StRetrieval \<Rightarrow> cur\<lparr>tm_retrieval := ms\<rparr>
                  | StRerank \<Rightarrow> cur\<lparr>tm_rerank := ms\<rparr>
                  | StPolicy \<Rightarrow> cur\<lparr>tm_policy := ms\<rparr>)
      in r\<lparr>tr_current := cur', tr_stage_start := next\<rparr>)"

definition timer_finish :: "TimingRecorder \<Rightarrow> instant \<Rightarrow> Timings" where
  "timer_finish r now = (tr_current r)\<lparr>tm_total := elapsed_ms (tr_start r) now\<rparr>"

section \<open>The builder\<close>

definition receipt_new :: "string \<Rightarrow> timestamp \<Rightarrow> Caller \<Rightarrow> string \<Rightarrow> string \<Rightarrow> json \<Rightarrow> Receipt" where
  "receipt_new ulid now caller qualified tool arguments =
     \<lparr>rc_id = ulid, rc_caller = caller, rc_qualified_schema = qualified, rc_tool = tool,
      rc_arguments = arguments, rc_sources = [], rc_policies_applied = [],
      rc_timings_ms = timings_default, rc_created_at = now\<rparr>"

definition with_sources :: "Receipt \<Rightarrow> SourceRef list \<Rightarrow> Receipt" where
  "with_sources r s = r\<lparr>rc_sources := s\<rparr>"

definition with_policies :: "Receipt \<Rightarrow> PolicyRef list \<Rightarrow> Receipt" where
  "with_policies r p = r\<lparr>rc_policies_applied := p\<rparr>"

definition with_timings :: "Receipt \<Rightarrow> Timings \<Rightarrow> Receipt" where
  "with_timings r t = r\<lparr>rc_timings_ms := t\<rparr>"

section \<open>The stored document\<close>

text \<open>\<open>x as f64\<close> for \<open>x: f32\<close>, exact, and its JSON value: not a number for infinities and NaN.\<close>

definition f64_of_f32 :: "f32 \<Rightarrow> f64" where
  "f64_of_f32 x =
     f64_make (f32_neg x)
       (if f32_sig x = 0 then 0
        else if 0 \<le> f32_exp x then f64_round_mag (f32_sig x * 2 ^ nat (f32_exp x)) 1
        else f64_round_mag (f32_sig x) (2 ^ nat (- f32_exp x)))"

definition json_of_f32 :: "f32 \<Rightarrow> json" where
  "json_of_f32 x = (if f32_is_nan x \<or> f32_is_inf x then JNull else JNumber (JFloat (f64_of_f32 x)))"

definition json_of_nat :: "nat \<Rightarrow> json" where
  "json_of_nat n = JNumber (PosInt (word_of_nat n))"

definition json_strings :: "string list \<Rightarrow> json" where
  "json_strings ss = JArray (map JString ss)"

text \<open>\<open>serde_json::to_value\<close> of the parts; the keys of an object are in the order of its map.\<close>

definition caller_value :: "Caller \<Rightarrow> json" where
  "caller_value c = JObject
     [(''attrs'', JObject (cl_attrs c)), (''groups'', json_strings (cl_groups c)),
      (''id'', JString (cl_id c)), (''roles'', json_strings (cl_roles c)),
      (''tenant'', JString (cl_tenant c))]"

definition source_value :: "SourceRef \<Rightarrow> json" where
  "source_value s = JObject
     ((case sf_chunk_id s of None \<Rightarrow> [] | Some c \<Rightarrow> [(''chunk_id'', JString c)])
      @ [(''record_id'', JString (sf_record_id s)), (''schema'', JString (sf_schema s)),
         (''score'', json_of_f32 (sf_score s))])"

definition policy_value :: "PolicyRef \<Rightarrow> json" where
  "policy_value p = JObject
     [(''predicate'', JString (pf_predicate p)), (''schema'', JString (pf_schema p)),
      (''verdict'', JString (pf_verdict p))]"

definition timings_value :: "Timings \<Rightarrow> json" where
  "timings_value t = JObject
     [(''embed'', json_of_nat (unat (tm_embed t))), (''policy'', json_of_nat (unat (tm_policy t))),
      (''rerank'', json_of_nat (unat (tm_rerank t))), (''retrieval'', json_of_nat (unat (tm_retrieval t))),
      (''total'', json_of_nat (unat (tm_total t)))]"

definition receipt_value :: "(timestamp \<Rightarrow> json) \<Rightarrow> Receipt \<Rightarrow> json" where
  "receipt_value time_value r = JObject
     [(''arguments'', rc_arguments r), (''caller'', caller_value (rc_caller r)),
      (''created_at'', time_value (rc_created_at r)), (''id'', JString (rc_id r)),
      (''policies_applied'', JArray (map policy_value (rc_policies_applied r))),
      (''qualified_schema'', JString (rc_qualified_schema r)),
      (''sources'', JArray (map source_value (rc_sources r))),
      (''timings_ms'', timings_value (rc_timings_ms r)), (''tool'', JString (rc_tool r))]"

section \<open>Persistence\<close>

definition insert_receipt_sql :: string where
  "insert_receipt_sql =
     ''INSERT INTO sealstack_receipts (id, caller_id, qualified_schema, tool, body, created_at) ''
     @ ''VALUES ($1, $2, $3, $4, $5, $6)''"

definition receipt_persist :: "'db Postgres \<Rightarrow> (timestamp \<Rightarrow> json) \<Rightarrow> 'db \<Rightarrow> Receipt \<Rightarrow> 'db \<times> (EngineError + string)" where
  "receipt_persist pg time_value db r =
     (case pg_execute pg db insert_receipt_sql
             [PgText (rc_id r), PgText (cl_id (rc_caller r)), PgText (rc_qualified_schema r),
              PgText (rc_tool r), PgJson (receipt_value time_value r), PgTime (rc_created_at r)] of
        (db', Inl e) \<Rightarrow> (db', Inl (EeBackend e))
      | (db', Inr n) \<Rightarrow> (db', Inr (rc_id r)))"

text \<open>The lookup of the stored body and its decoding are parameters.\<close>

definition receipt_fetch :: "('db \<Rightarrow> string \<Rightarrow> PgValue list \<Rightarrow> string + json option)
    \<Rightarrow> (json \<Rightarrow> string + Receipt) \<Rightarrow> 'db \<Rightarrow> string \<Rightarrow> EngineError + Receipt" where
  "receipt_fetch query from_value db i =
     (case query db ''SELECT body FROM sealstack_receipts WHERE id = $1'' [PgText i] of
        Inl e \<Rightarrow> Inl (EeBackend e)
      | Inr None \<Rightarrow> Inl EeNotFound
      | Inr (Some body) \<Rightarrow>
          (case from_value body of Inl e \<Rightarrow> Inl (EeBackend e) | Inr r \<Rightarrow> Inr r))"

definition receipt_prune :: "'db Postgres \<Rightarrow> 'db \<Rightarrow> timestamp \<Rightarrow> u32 \<Rightarrow> 'db \<times> (EngineError + nat)" where
  "receipt_prune pg db now retention_days =
     (let cutoff = now - int (unat retention_days) * 86400 * 10 ^ 9
      in case pg_execute pg db ''DELETE FROM sealstack_receipts WHERE created_at < $1'' [PgTime cutoff] of
           (db', Inl e) \<Rightarrow> (db', Inl (EeBackend e))
         | (db', Inr n) \<Rightarrow> (db', Inr n))"

section \<open>Laws\<close>

lemma receipt_builder_sources [simp]:
  "rc_sources (with_sources r s) = s" "rc_policies_applied (with_sources r s) = rc_policies_applied r"
  "rc_id (with_sources r s) = rc_id r"
  by (simp_all add: with_sources_def)

lemma receipt_builder_policies [simp]:
  "rc_policies_applied (with_policies r p) = p" "rc_sources (with_policies r p) = rc_sources r"
  "rc_id (with_policies r p) = rc_id r"
  by (simp_all add: with_policies_def)

lemma receipt_builder_timings [simp]:
  "rc_timings_ms (with_timings r t) = t" "rc_sources (with_timings r t) = rc_sources r"
  "rc_policies_applied (with_timings r t) = rc_policies_applied r" "rc_id (with_timings r t) = rc_id r"
  by (simp_all add: with_timings_def)

lemma receipt_new_fields [simp]:
  "rc_id (receipt_new u now c q t a) = u" "rc_sources (receipt_new u now c q t a) = []"
  "rc_policies_applied (receipt_new u now c q t a) = []"
  by (simp_all add: receipt_new_def)

text \<open>A stage never takes longer than the whole call.\<close>

lemma unat_elapsed_ms: "unat (elapsed_ms a b) = min ((b - a) div 10 ^ 6) (2 ^ 32 - 1)"
proof -
  define m :: nat where "m = min ((b - a) div 10 ^ 6) (2 ^ 32 - 1)"
  then have "m < 2 ^ 32" by simp
  then have "unat (word_of_nat m :: u32) = m" by (simp add: unsigned_of_nat take_bit_nat_eq_self)
  then show ?thesis by (simp only: elapsed_ms_def m_def)
qed

lemma elapsed_ms_mono:
  assumes "a \<le> a'" "b' \<le> b"
  shows "unat (elapsed_ms a' b') \<le> unat (elapsed_ms a b)"
proof -
  have "(b' - a') div 10 ^ 6 \<le> (b - a) div 10 ^ 6" using assms by (intro div_le_mono) linarith
  then show ?thesis unfolding unat_elapsed_ms by (rule min.mono) simp
qed

end
