(* ===== verification/Engine_Dispatch.thy ===== *)
theory Engine_Dispatch
  imports Engine_Receipts Engine_Policy
begin

text \<open>
  The dispatch surface of the engine (\<open>sealstack-engine/src/engine.rs\<close>): row fetches, the
  facet filter, and the five handlers. A handler takes the database and returns it with its
  result: the only writes are receipts. The clock readings and the ULID of a call, the text
  of moments, the JSON number of a float as text and the lower case of a name are
  parameters.
\<close>

section \<open>The engine\<close>

record ('vs, 'db) Engine =
  eg_config :: RetrievalConfig
  eg_registry :: SchemaRegistry
  eg_store :: "'db Postgres"
  eg_retriever :: "('vs, 'db) Retriever"
  eg_policy :: PolicyEngine
  eg_lowercase :: "string \<Rightarrow> string"
  eg_rfc3339 :: "timestamp \<Rightarrow> string option"
  eg_time_value :: "timestamp \<Rightarrow> json"
  eg_show_f64 :: "f64 \<Rightarrow> string"

text \<open>What a call reads from its environment: clocks and randomness.\<close>

record CallEnv =
  ce_clock :: "nat \<Rightarrow> instant"
  ce_now :: timestamp
  ce_receipt_now :: timestamp
  ce_ulid :: string

section \<open>Rows\<close>

definition row_columns :: string where
  "row_columns = ''SELECT id::text AS id, title, body, created_at, metadata FROM ''"

definition opt_string :: "string option \<Rightarrow> json" where
  "opt_string x = (case x of None \<Rightarrow> JNull | Some s \<Rightarrow> JString s)"

text \<open>\<open>format(&Rfc3339).unwrap_or_default()\<close> under an option.\<close>

definition row_json :: "(timestamp \<Rightarrow> string option) \<Rightarrow> FetchRow \<Rightarrow> json" where
  "row_json rfc3339 r = JObject
     [(''body'', opt_string (fr_body r)),
      (''created_at'', opt_string (map_option (\<lambda>t. case rfc3339 t of None \<Rightarrow> [] | Some s \<Rightarrow> s) (fr_created_at r))),
      (''id'', JString (fr_id r)),
      (''metadata'', (case fr_metadata r of None \<Rightarrow> JNull | Some m \<Rightarrow> m)),
      (''title'', opt_string (fr_title r))]"

definition unsafe_table :: "SchemaMeta \<Rightarrow> EngineError" where
  "unsafe_table meta = EeInvalidArgument (''unsafe table identifier `'' @ sm_table meta @ ''`'')"

definition fetch_row_raw :: "('vs, 'db) Engine \<Rightarrow> 'db \<Rightarrow> SchemaMeta \<Rightarrow> string \<Rightarrow> EngineError + json" where
  "fetch_row_raw E db meta i =
     (if \<not> is_safe_ident (sm_table meta) then Inl (unsafe_table meta)
      else case pg_optional (eg_store E) db (row_columns @ sm_table meta @ '' WHERE id = $1'') [PgText i] of
        Inl e \<Rightarrow> Inl (EeBackend e)
      | Inr None \<Rightarrow> Inl EeNotFound
      | Inr (Some r) \<Rightarrow> Inr (row_json (eg_rfc3339 E) r))"

definition page_sql :: "SchemaMeta \<Rightarrow> string \<Rightarrow> nat \<Rightarrow> bool \<Rightarrow> string" where
  "page_sql meta where_clause nbinds has_cursor =
     row_columns @ sm_table meta @ '' WHERE 1=1''
     @ (if where_clause = [] then [] else '' AND '' @ where_clause)
     @ (if has_cursor then '' AND id > $'' @ show_nat (nbinds + 2) else [])
     @ '' ORDER BY id ASC LIMIT $'' @ show_nat (nbinds + 1)"

definition fetch_many :: "('vs, 'db) Engine \<Rightarrow> 'db \<Rightarrow> SchemaMeta \<Rightarrow> string \<Rightarrow> string list \<Rightarrow> string option
    \<Rightarrow> nat \<Rightarrow> EngineError + (json list \<times> string option)" where
  "fetch_many E db meta where_clause binds cursor limit =
     (if \<not> is_safe_ident (sm_table meta) then Inl (unsafe_table meta)
      else
        let limit_i64 = i64_or (min limit 1000) 100;
            sql = page_sql meta where_clause (length binds) (cursor \<noteq> None)
        in case pg_rows (eg_store E) db sql
                  (map PgText binds @ [PgBigint limit_i64]
                   @ (case cursor of None \<Rightarrow> [] | Some c \<Rightarrow> [PgText c])) of
             Inl e \<Rightarrow> Inl (EeBackend e)
           | Inr rows \<Rightarrow>
               (let next_cursor = (if rows = [] then None else Some (fr_id (last rows)));
                    items = map (row_json (eg_rfc3339 E)) rows
                in Inr (items, if length items = min limit 1000 then next_cursor else None)))"

section \<open>Facet filters\<close>

definition num_to_string :: "(f64 \<Rightarrow> string) \<Rightarrow> jnum \<Rightarrow> string" where
  "num_to_string show_f64 n =
     (case n of PosInt u \<Rightarrow> show_nat (unat u) | NegInt i \<Rightarrow> show_i64 i | JFloat x \<Rightarrow> show_f64 x)"

text \<open>The clause and the bound text of one entry; \<open>None\<close> for a value that is skipped.\<close>

definition facet_entry :: "(f64 \<Rightarrow> string) \<Rightarrow> string \<Rightarrow> json \<Rightarrow> nat \<Rightarrow> (string \<times> string) option" where
  "facet_entry show_f64 key v bind_idx =
     (case v of
        JString s \<Rightarrow> Some (key @ '' = $'' @ show_nat bind_idx, s)
      | JBool b \<Rightarrow> Some (key @ ''::text = $'' @ show_nat bind_idx, if b then ''true'' else ''false'')
      | JNumber n \<Rightarrow> Some (key @ ''::text = $'' @ show_nat bind_idx, num_to_string show_f64 n)
      | _ \<Rightarrow> None)"

fun facet_loop :: "(f64 \<Rightarrow> string) \<Rightarrow> string list \<Rightarrow> (string \<times> json) list \<Rightarrow> string list \<Rightarrow> string list
    \<Rightarrow> string list \<times> string list" where
  "facet_loop show_f64 facets [] clauses binds = (clauses, binds)"
| "facet_loop show_f64 facets ((key, v) # obj) clauses binds =
     (if \<not> list_ex (\<lambda>f. f = key) facets then facet_loop show_f64 facets obj clauses binds
      else if \<not> is_safe_ident key then facet_loop show_f64 facets obj clauses binds
      else case facet_entry show_f64 key v (length binds + 1) of
        None \<Rightarrow> facet_loop show_f64 facets obj clauses binds
      | Some (clause, bind) \<Rightarrow> facet_loop show_f64 facets obj (clauses @ [clause]) (binds @ [bind]))"

definition build_facet_where :: "(f64 \<Rightarrow> string) \<Rightarrow> SchemaMeta \<Rightarrow> json \<Rightarrow> string \<times> string list" where
  "build_facet_where show_f64 meta filters =
     (case json_as_object filters of
        None \<Rightarrow> ([], [])
      | Some obj \<Rightarrow>
          (let (clauses, binds) = facet_loop show_f64 (sm_facets meta) obj [] []
           in (join_with '' AND '' clauses, binds)))"

section \<open>Receipts\<close>

text \<open>A receipt that cannot be written is only logged.\<close>

definition log_receipt :: "('vs, 'db) Engine \<Rightarrow> 'db \<Rightarrow> Receipt \<Rightarrow> 'db" where
  "log_receipt E db r = fst (receipt_persist (eg_store E) (eg_time_value E) db r)"

definition verdict_str :: "bool \<Rightarrow> string" where
  "verdict_str allowed = (if allowed then ''allow'' else ''deny'')"

section \<open>Search\<close>

definition search_arguments :: "SearchRequest \<Rightarrow> nat \<Rightarrow> json" where
  "search_arguments req top_k = JObject
     [(''filters'', sq_filters req), (''query'', JString (sq_query req)), (''top_k'', json_of_nat top_k)]"

definition effective_top_k :: "('vs, 'db) Engine \<Rightarrow> SchemaMeta \<Rightarrow> nat \<Rightarrow> nat" where
  "effective_top_k E meta k =
     (if k = 0 then (case cm_default_top_k (sm_context meta) of
                       None \<Rightarrow> rc_default_top_k (eg_config E) | Some d \<Rightarrow> d)
      else k)"

text \<open>The records of the hits; a hit whose row is missing or cannot be read is dropped.\<close>

fun fetch_records :: "('vs, 'db) Engine \<Rightarrow> 'db \<Rightarrow> SchemaMeta \<Rightarrow> RetrievedHit list \<Rightarrow> (RetrievedHit \<times> json) list" where
  "fetch_records E db meta [] = []"
| "fetch_records E db meta (hit # hits) =
     (case fetch_row_raw E db meta (rh_id hit) of
        Inr row \<Rightarrow> (hit, row) # fetch_records E db meta hits
      | Inl e \<Rightarrow> fetch_records E db meta hits)"

text \<open>The loop over the masked records: results, sources and verdicts.\<close>

fun apply_mask :: "string \<Rightarrow> ((RetrievedHit \<times> json) \<times> bool) list
    \<Rightarrow> SearchHit list \<times> SourceRef list \<times> PolicyRef list" where
  "apply_mask qualified [] = ([], [], [])"
| "apply_mask qualified (((hit, rec), allowed) # xs) =
     (let (results, sources, verdicts) = apply_mask qualified xs;
          v = \<lparr>pf_schema = qualified, pf_predicate = ''read'', pf_verdict = verdict_str allowed\<rparr>
      in if \<not> allowed then (results, sources, v # verdicts)
         else (\<lparr>sh_id = rh_id hit, sh_score = rh_score hit, sh_excerpt = rh_excerpt hit, sh_record = rec\<rparr> # results,
               \<lparr>sf_schema = qualified, sf_record_id = rh_id hit, sf_chunk_id = None, sf_score = rh_score hit\<rparr> # sources,
               v # verdicts))"

definition search_receipt :: "('vs, 'db) Engine \<Rightarrow> CallEnv \<Rightarrow> SearchRequest \<Rightarrow> SchemaMeta \<Rightarrow> nat \<Rightarrow> Receipt" where
  "search_receipt E env req meta top_k =
     receipt_new (ce_ulid env) (ce_receipt_now env) (sq_caller req) (qualified_name meta)
       (''search_'' @ eg_lowercase E (sm_name meta)) (search_arguments req top_k)"

definition engine_search :: "('vs, 'db) Engine \<Rightarrow> CallEnv \<Rightarrow> 'vs \<Rightarrow> 'db \<Rightarrow> SearchRequest
    \<Rightarrow> 'db \<times> (EngineError + SearchResponse)" where
  "engine_search E env vs db req =
     (case registry_get (eg_registry E) (sq_namespace req) (sq_schema req) of
        Inl e \<Rightarrow> (db, Inl e)
      | Inr meta \<Rightarrow>
     (let top_k = effective_top_k E meta (sq_top_k req);
          timer = timer_start (ce_clock env 0)
      in case retriever_search (eg_retriever E) vs db (ce_now env) meta (sq_query req) top_k
                (cl_tenant (sq_caller req)) of
        Inl e \<Rightarrow> (db, Inl e)
      | Inr hits \<Rightarrow>
     (let timer = timer_split timer StRetrieval (ce_clock env 1) (ce_clock env 2)
      in if hits = [] then
           (let receipt = with_timings (search_receipt E env req meta top_k) (timer_finish timer (ce_clock env 3))
            in (log_receipt E db receipt, Inr \<lparr>sp_receipt_id = rc_id receipt, sp_results = []\<rparr>))
         else
           (let records = fetch_records E db meta hits
            in case pe_filter (eg_policy E) (sm_namespace meta) (sm_name meta) PaRead (sq_caller req)
                      (map snd records) of
              Inl e \<Rightarrow> (db, Inl e)
            | Inr keep \<Rightarrow>
           (let timer = timer_split timer StPolicy (ce_clock env 3) (ce_clock env 4);
                (results, sources, verdicts) = apply_mask (qualified_name meta) (zip records keep);
                receipt = with_timings (with_policies (with_sources
                            (search_receipt E env req meta top_k) sources) verdicts)
                            (timer_finish timer (ce_clock env 5))
            in (log_receipt E db receipt, Inr \<lparr>sp_receipt_id = rc_id receipt, sp_results = results\<rparr>))))))"

section \<open>Get\<close>

definition engine_get :: "('vs, 'db) Engine \<Rightarrow> CallEnv \<Rightarrow> 'db \<Rightarrow> GetRequest \<Rightarrow> 'db \<times> (EngineError + json)" where
  "engine_get E env db req =
     (case registry_get (eg_registry E) (gq_namespace req) (gq_schema req) of
        Inl e \<Rightarrow> (db, Inl e)
      | Inr meta \<Rightarrow> (case fetch_row_raw E db meta (gq_id req) of
        Inl e \<Rightarrow> (db, Inl e)
      | Inr rec \<Rightarrow> (case pe_evaluate (eg_policy E)
                           (policy_input (sm_namespace meta) (sm_name meta) PaRead (gq_caller req) rec) of
        Inl e \<Rightarrow> (db, Inl e)
      | Inr verdict \<Rightarrow>
     (let receipt = with_policies
            (receipt_new (ce_ulid env) (ce_receipt_now env) (gq_caller req) (qualified_name meta)
               (''get_'' @ eg_lowercase E (sm_name meta)) (JObject [(''id'', JString (gq_id req))]))
            [\<lparr>pf_schema = qualified_name meta, pf_predicate = ''read'',
              pf_verdict = verdict_str (is_allow verdict)\<rparr>]
      in (log_receipt E db receipt, if is_allow verdict then Inr rec else Inl EeNotFound)))))"

section \<open>Lists\<close>

definition keep_masked :: "'a list \<Rightarrow> bool list \<Rightarrow> 'a list" where
  "keep_masked items keep = List.map_filter (\<lambda>(v, ok). if ok then Some v else None) (zip items keep)"

definition list_page :: "('vs, 'db) Engine \<Rightarrow> SchemaMeta \<Rightarrow> Caller
    \<Rightarrow> EngineError + (json list \<times> string option) \<Rightarrow> EngineError + ListResponse" where
  "list_page E meta caller page =
     bindR page (\<lambda>(items, next_cursor).
       bindR (pe_filter (eg_policy E) (sm_namespace meta) (sm_name meta) PaList caller items) (\<lambda>keep.
         Inr \<lparr>lp_items = keep_masked items keep, lp_next_cursor = next_cursor\<rparr>))"

definition engine_list :: "('vs, 'db) Engine \<Rightarrow> 'db \<Rightarrow> ListRequest \<Rightarrow> EngineError + ListResponse" where
  "engine_list E db req =
     bindR (registry_get (eg_registry E) (lq_namespace req) (lq_schema req)) (\<lambda>meta.
       let (where_clause, binds) = build_facet_where (eg_show_f64 E) meta (lq_filters req)
       in list_page E meta (lq_caller req)
            (fetch_many E db meta where_clause binds (lq_cursor req) (lq_limit req)))"

definition engine_list_relation :: "('vs, 'db) Engine \<Rightarrow> 'db \<Rightarrow> ListRelationRequest
    \<Rightarrow> EngineError + ListResponse" where
  "engine_list_relation E db req =
     bindR (resolve_relation (eg_registry E) (rq_namespace req) (rq_schema req) (rq_relation req))
       (\<lambda>(parent_meta, relation).
     if rm_kind relation \<noteq> KindMany
     then Inl (EeInvalidArgument (''relation `'' @ rm_name relation @ ''` is not `many`''))
     else bindR (registry_get (eg_registry E) (rm_target_namespace relation) (rm_target_schema relation))
       (\<lambda>target_meta.
     if \<not> is_safe_ident (rm_foreign_key relation)
     then Inl (EeInvalidArgument (''unsafe relation foreign key `'' @ rm_foreign_key relation @ ''`''))
     else list_page E target_meta (rq_caller req)
            (fetch_many E db target_meta (rm_foreign_key relation @ '' = $1'') [rq_parent_id req]
               (rq_cursor req) (rq_limit req))))"

section \<open>Aggregate\<close>

definition aggregate_sql :: "SchemaMeta \<Rightarrow> string \<Rightarrow> string \<Rightarrow> nat \<Rightarrow> string" where
  "aggregate_sql meta facet where_clause nbinds =
     ''SELECT '' @ facet @ '' AS key, COUNT(*)::bigint AS cnt FROM '' @ sm_table meta @ '' WHERE 1=1''
     @ (if where_clause = [] then [] else '' AND '' @ where_clause)
     @ '' GROUP BY '' @ facet @ '' ORDER BY cnt DESC LIMIT $'' @ show_nat (nbinds + 1)"

definition engine_aggregate :: "('vs, 'db) Engine \<Rightarrow> CallEnv \<Rightarrow> 'db \<Rightarrow> AggregateRequest
    \<Rightarrow> 'db \<times> (EngineError + AggregateResponse)" where
  "engine_aggregate E env db req =
     (case registry_get (eg_registry E) (aq_namespace req) (aq_schema req) of
        Inl e \<Rightarrow> (db, Inl e)
      | Inr meta \<Rightarrow>
     (if aq_facet req \<notin> set (sm_facets meta) then
        (db, Inl (EeInvalidArgument (''field `'' @ aq_facet req @ ''` is not a facet on `''
               @ sm_namespace meta @ ''.'' @ sm_name meta @ ''`'')))
      else if \<not> is_safe_ident (sm_table meta) \<or> \<not> is_safe_ident (aq_facet req) then
        (db, Inl (EeInvalidArgument ''unsafe table or facet identifier''))
      else
        (let (where_clause, binds) = build_facet_where (eg_show_f64 E) meta (aq_filters req);
             limit_i64 = i64_or (min (aq_limit req) 1000) 100
         in case pg_buckets (eg_store E) db (aggregate_sql meta (aq_facet req) where_clause (length binds))
                   (map PgText binds @ [PgBigint limit_i64]) of
           Inl e \<Rightarrow> (db, Inl (EeBackend e))
         | Inr rows \<Rightarrow>
        (let buckets = map (\<lambda>(key, cnt). \<lparr>ab_key = opt_string key, ab_count = word_of_int cnt\<rparr>) rows;
             receipt = with_policies
               (receipt_new (ce_ulid env) (ce_receipt_now env) (aq_caller req) (qualified_name meta)
                  (''aggregate_'' @ eg_lowercase E (sm_name meta) @ ''_'' @ aq_facet req)
                  (JObject [(''facet'', JString (aq_facet req)), (''filters'', aq_filters req),
                            (''limit'', json_of_nat (aq_limit req))]))
               [\<lparr>pf_schema = qualified_name meta, pf_predicate = ''list'', pf_verdict = ''allow''\<rparr>]
         in (log_receipt E db receipt, Inr \<lparr>ap_buckets = buckets\<rparr>)))))"

end
