(* ===== verification/Engine_Access.thy ===== *)
theory Engine_Access
  imports Engine_Dispatch
begin

text \<open>
  What the handlers of the engine disclose: searches and lists return exactly the records
  the policy allows, a denied read looks like a missing record, the SQL text never depends
  on a filter's values, and the cursor of a page leads through all rows.
\<close>

section \<open>Allowed records\<close>

text \<open>The reference: evaluate the records in order, keep the allowed ones.\<close>

fun allowed_only :: "('a \<Rightarrow> EngineError + PolicyVerdict) \<Rightarrow> 'a list \<Rightarrow> EngineError + 'a list" where
  "allowed_only evaluate [] = Inr []"
| "allowed_only evaluate (x # xs) =
     bindR (evaluate x) (\<lambda>v. bindR (allowed_only evaluate xs) (\<lambda>ys.
       Inr (if is_allow v then x # ys else ys)))"

lemma allowed_only_Inr:
  "allowed_only evaluate xs = Inr ys \<Longrightarrow> y \<in> set ys \<Longrightarrow> y \<in> set xs \<and> evaluate y = Inr PvAllow"
proof (induction xs arbitrary: ys)
  case (Cons x xs)
  then obtain v zs where v: "evaluate x = Inr v" "allowed_only evaluate xs = Inr zs"
    "ys = (if is_allow v then x # zs else zs)" by (auto simp: result_simps)
  show ?case
  proof (cases "y \<in> set zs")
    case True
    with Cons.IH v(2) show ?thesis by auto
  next
    case False
    with Cons.prems(2) v have "y = x" "is_allow v" by (auto split: if_splits)
    with v(1) show ?thesis by (cases v) auto
  qed
qed simp

definition search_hit_of :: "RetrievedHit \<times> json \<Rightarrow> SearchHit" where
  "search_hit_of = (\<lambda>(h, rec). \<lparr>sh_id = rh_id h, sh_score = rh_score h, sh_excerpt = rh_excerpt h, sh_record = rec\<rparr>)"

definition source_of :: "string \<Rightarrow> SearchHit \<Rightarrow> SourceRef" where
  "source_of qualified h =
     \<lparr>sf_schema = qualified, sf_record_id = sh_id h, sf_chunk_id = None, sf_score = sh_score h\<rparr>"

lemma apply_mask_eq:
  "apply_mask q (zip xs keep) = (map search_hit_of (keep_masked xs keep),
     map (source_of q) (map search_hit_of (keep_masked xs keep)),
     map (\<lambda>a. \<lparr>pf_schema = q, pf_predicate = ''read'', pf_verdict = verdict_str a\<rparr>) (map snd (zip xs keep)))"
proof (induction xs arbitrary: keep)
  case (Cons x xs)
  show ?case
  proof (cases keep)
    case (Cons k ks)
    with Cons.IH [of ks] show ?thesis
      by (cases x) (simp add: keep_masked_def search_hit_of_def source_of_def)
  qed (simp add: keep_masked_def)
qed (simp add: keep_masked_def)

text \<open>The fetches do not look at the policy engine.\<close>

lemma fetch_row_policy [simp]: "fetch_row_raw (E\<lparr>eg_policy := P\<rparr>) = fetch_row_raw E"
  by (intro ext) (simp add: fetch_row_raw_def split: option.split sum.split)

lemma fetch_records_policy [simp]: "fetch_records (E\<lparr>eg_policy := P\<rparr>) db meta hits = fetch_records E db meta hits"
  by (induction hits) (simp_all split: sum.split)

lemma fetch_many_policy [simp]: "fetch_many (E\<lparr>eg_policy := P\<rparr>) = fetch_many E"
  by (intro ext) (simp add: fetch_many_def Let_def split: option.split sum.split)

lemma effective_top_k_policy [simp]: "effective_top_k (E\<lparr>eg_policy := P\<rparr>) = effective_top_k E"
  by (intro ext) (simp add: effective_top_k_def split: option.split)

context policy_engine
begin

lemma filter_then_keep:
  "bindR (pe_filter P ns s action caller (map f xs)) (\<lambda>keep. Inr (keep_masked xs keep))
   = allowed_only (\<lambda>x. pe_evaluate P (policy_input ns s action caller (f x))) xs"
proof (induction xs)
  case Nil
  then show ?case by (simp add: filter_evaluates keep_masked_def)
next
  case (Cons x xs)
  show ?case
  proof (cases "pe_evaluate P (policy_input ns s action caller (f x))")
    case (Inr v)
    show ?thesis
      unfolding allowed_only.simps Inr bindR.simps Cons.IH [symmetric]
      by (cases "default_filter (pe_evaluate P) ns s action caller (map f xs)")
        (simp_all add: filter_evaluates Inr keep_masked_def)
  qed (simp add: filter_evaluates)
qed

lemma list_page_reference:
  "list_page (E\<lparr>eg_policy := P\<rparr>) meta caller page
   = bindR page (\<lambda>(items, next_cursor).
       bindR (allowed_only (\<lambda>r. pe_evaluate P (policy_input (sm_namespace meta) (sm_name meta) PaList caller r)) items)
         (\<lambda>kept. Inr \<lparr>lp_items = kept, lp_next_cursor = next_cursor\<rparr>))"
proof (cases page)
  case (Inr ic)
  obtain items cursor where ic: "ic = (items, cursor)" by (cases ic)
  show ?thesis
    unfolding list_page_def Inr ic
    using filter_then_keep [of "sm_namespace meta" "sm_name meta" PaList caller id items, symmetric]
    by (simp add: bindR_assoc)
qed (simp add: list_page_def)

text \<open>The results of a search with hits.\<close>

lemma search_results:
  assumes "registry_get (eg_registry E) (sq_namespace req) (sq_schema req) = Inr meta"
    and "retriever_search (eg_retriever E) vs db (ce_now env) meta (sq_query req)
           (effective_top_k E meta (sq_top_k req)) (cl_tenant (sq_caller req)) = Inr hits" "hits \<noteq> []"
  shows "bindR (snd (engine_search (E\<lparr>eg_policy := P\<rparr>) env vs db req)) (\<lambda>r. Inr (sp_results r))
     = bindR (allowed_only (\<lambda>x. pe_evaluate P (policy_input (sm_namespace meta) (sm_name meta) PaRead (sq_caller req) (snd x)))
          (fetch_records E db meta hits)) (\<lambda>xs. Inr (map search_hit_of xs))"
proof -
  have "bindR (snd (engine_search (E\<lparr>eg_policy := P\<rparr>) env vs db req)) (\<lambda>r. Inr (sp_results r))
    = bindR (pe_filter P (sm_namespace meta) (sm_name meta) PaRead (sq_caller req)
          (map snd (fetch_records E db meta hits)))
        (\<lambda>keep. Inr (map search_hit_of (keep_masked (fetch_records E db meta hits) keep)))"
    using assms by (simp add: engine_search_def Let_def apply_mask_eq split: sum.split)
  also have "\<dots> = bindR (bindR (pe_filter P (sm_namespace meta) (sm_name meta) PaRead (sq_caller req)
          (map snd (fetch_records E db meta hits)))
        (\<lambda>keep. Inr (keep_masked (fetch_records E db meta hits) keep))) (\<lambda>xs. Inr (map search_hit_of xs))"
    by (simp add: bindR_assoc)
  finally show ?thesis by (simp only: filter_then_keep)
qed

end

text \<open>A search, without receipts, timers and masks.\<close>

definition search_reference :: "('vs, 'db) Engine \<Rightarrow> (PolicyInput \<Rightarrow> EngineError + PolicyVerdict) \<Rightarrow> 'vs \<Rightarrow> 'db
    \<Rightarrow> timestamp \<Rightarrow> SearchRequest \<Rightarrow> EngineError + SearchHit list" where
  "search_reference E evaluate vs db now req =
     bindR (registry_get (eg_registry E) (sq_namespace req) (sq_schema req)) (\<lambda>meta.
     bindR (retriever_search (eg_retriever E) vs db now meta (sq_query req)
              (effective_top_k E meta (sq_top_k req)) (cl_tenant (sq_caller req))) (\<lambda>hits.
     bindR (allowed_only
              (\<lambda>x. evaluate (policy_input (sm_namespace meta) (sm_name meta) PaRead (sq_caller req) (snd x)))
              (fetch_records E db meta hits)) (\<lambda>xs. Inr (map search_hit_of xs))))"

definition list_reference :: "('vs, 'db) Engine \<Rightarrow> (PolicyInput \<Rightarrow> EngineError + PolicyVerdict) \<Rightarrow> 'db
    \<Rightarrow> ListRequest \<Rightarrow> EngineError + ListResponse" where
  "list_reference E evaluate db req =
     bindR (registry_get (eg_registry E) (lq_namespace req) (lq_schema req)) (\<lambda>meta.
     bindR (fetch_many E db meta (fst (build_facet_where (eg_show_f64 E) meta (lq_filters req)))
              (snd (build_facet_where (eg_show_f64 E) meta (lq_filters req))) (lq_cursor req) (lq_limit req))
       (\<lambda>(items, next_cursor).
     bindR (allowed_only
              (\<lambda>rec. evaluate (policy_input (sm_namespace meta) (sm_name meta) PaList (lq_caller req) rec)) items)
       (\<lambda>kept. Inr \<lparr>lp_items = kept, lp_next_cursor = next_cursor\<rparr>)))"

section \<open>Properties of the handlers\<close>

text \<open>
  C3: under the wasm policy engine a search discloses the records the policy allows, and
  only them: its results are the fetched records of the retrieved hits, in rank order, that
  evaluate to allow under \<open>read\<close> for the caller, an evaluation failure fails the search, and
  receipts, timers and masks change nothing of it.
\<close>

theorem search_discloses_allowed:
  "bindR (snd (engine_search (E\<lparr>eg_policy := wasm_policy_engine to_vec wp\<rparr>) env vs db req)) (\<lambda>r. Inr (sp_results r))
   = search_reference E (wasm_evaluate to_vec wp) vs db (ce_now env) req"
proof (cases "registry_get (eg_registry E) (sq_namespace req) (sq_schema req)")
  case (Inl e)
  then show ?thesis by (simp add: engine_search_def search_reference_def)
next
  case (Inr meta)
  show ?thesis
  proof (cases "retriever_search (eg_retriever E) vs db (ce_now env) meta (sq_query req)
           (effective_top_k E meta (sq_top_k req)) (cl_tenant (sq_caller req))")
    case (Inl e)
    with Inr show ?thesis by (simp add: engine_search_def search_reference_def Let_def)
  next
    case hits: (Inr hits)
    show ?thesis
    proof (cases "hits = []")
      case True
      with Inr hits show ?thesis by (simp add: engine_search_def search_reference_def Let_def)
    next
      case False
      with wasm_policy.search_results [OF Inr hits] hits Inr show ?thesis
        by (simp add: search_reference_def wasm_policy_engine_def)
    qed
  qed
qed


lemma engine_get_outcomes:
  "(snd (engine_get E env db req) = Inr rec \<longleftrightarrow>
      (\<exists>meta. registry_get (eg_registry E) (gq_namespace req) (gq_schema req) = Inr meta
        \<and> fetch_row_raw E db meta (gq_id req) = Inr rec
        \<and> pe_evaluate (eg_policy E) (policy_input (sm_namespace meta) (sm_name meta) PaRead (gq_caller req) rec)
          = Inr PvAllow))
   \<and> (snd (engine_get E env db req) = Inl EeNotFound \<longleftrightarrow>
      (\<exists>meta. registry_get (eg_registry E) (gq_namespace req) (gq_schema req) = Inr meta
        \<and> (fetch_row_raw E db meta (gq_id req) = Inl EeNotFound
           \<or> (\<exists>r. fetch_row_raw E db meta (gq_id req) = Inr r
                \<and> (pe_evaluate (eg_policy E) (policy_input (sm_namespace meta) (sm_name meta) PaRead (gq_caller req) r)
                     = Inl EeNotFound
                   \<or> (\<exists>why. pe_evaluate (eg_policy E)
                         (policy_input (sm_namespace meta) (sm_name meta) PaRead (gq_caller req) r) = Inr (PvDeny why)))))))"
proof (cases "registry_get (eg_registry E) (gq_namespace req) (gq_schema req)")
  case (Inl e)
  then show ?thesis by (auto simp: engine_get_def registry_get_def ok_or_def split: option.splits)
next
  case meta: (Inr meta)
  show ?thesis
  proof (cases "fetch_row_raw E db meta (gq_id req)")
    case (Inl e)
    with meta show ?thesis by (auto simp: engine_get_def)
  next
    case row: (Inr row)
    show ?thesis
    proof (cases "pe_evaluate (eg_policy E)
        (policy_input (sm_namespace meta) (sm_name meta) PaRead (gq_caller req) row)")
      case (Inl e)
      with meta row show ?thesis by (auto simp: engine_get_def)
    next
      case (Inr v)
      with meta row show ?thesis by (cases v) (auto simp: engine_get_def Let_def)
    qed
  qed
qed

text \<open>
  C4: a read returns a record exactly when the row exists and the policy allows it, and
  says \<open>NotFound\<close> exactly when the row is missing or the policy denies it (or itself
  answers \<open>NotFound\<close>): a denied record cannot be told from a missing one.
\<close>

theorem get_hides_denied:
  "(snd (engine_get E env db req) = Inr rec \<longleftrightarrow>
      (\<exists>meta. registry_get (eg_registry E) (gq_namespace req) (gq_schema req) = Inr meta
        \<and> fetch_row_raw E db meta (gq_id req) = Inr rec
        \<and> pe_evaluate (eg_policy E) (policy_input (sm_namespace meta) (sm_name meta) PaRead (gq_caller req) rec)
          = Inr PvAllow))
   \<and> (snd (engine_get E env db req) = Inl EeNotFound \<longleftrightarrow>
      (\<exists>meta. registry_get (eg_registry E) (gq_namespace req) (gq_schema req) = Inr meta
        \<and> (fetch_row_raw E db meta (gq_id req) = Inl EeNotFound
           \<or> (\<exists>r. fetch_row_raw E db meta (gq_id req) = Inr r
                \<and> (pe_evaluate (eg_policy E) (policy_input (sm_namespace meta) (sm_name meta) PaRead (gq_caller req) r)
                     = Inl EeNotFound
                   \<or> (\<exists>why. pe_evaluate (eg_policy E)
                         (policy_input (sm_namespace meta) (sm_name meta) PaRead (gq_caller req) r) = Inr (PvDeny why)))))))"
  by (rule engine_get_outcomes)

section \<open>The text of a query\<close>

text \<open>
  The reference for the facet filter: the accepted entries, each with whether its value is a
  string and the text to bind; the clause of an entry is a function of its key, that flag
  and its position.
\<close>

definition facet_value :: "(f64 \<Rightarrow> string) \<Rightarrow> json \<Rightarrow> (bool \<times> string) option" where
  "facet_value show_f64 v =
     (case v of
        JString s \<Rightarrow> Some (True, s)
      | JBool b \<Rightarrow> Some (False, if b then ''true'' else ''false'')
      | JNumber n \<Rightarrow> Some (False, num_to_string show_f64 n)
      | _ \<Rightarrow> None)"

fun accepted_facets :: "(f64 \<Rightarrow> string) \<Rightarrow> string list \<Rightarrow> (string \<times> json) list \<Rightarrow> (string \<times> bool \<times> string) list" where
  "accepted_facets show_f64 facets [] = []"
| "accepted_facets show_f64 facets ((key, v) # obj) =
     (case facet_value show_f64 v of
        Some (s, txt) \<Rightarrow>
          if key \<in> set facets \<and> is_safe_ident key
          then (key, s, txt) # accepted_facets show_f64 facets obj
          else accepted_facets show_f64 facets obj
      | None \<Rightarrow> accepted_facets show_f64 facets obj)"

definition facet_clause :: "nat \<times> string \<times> bool \<Rightarrow> string" where
  "facet_clause = (\<lambda>(i, key, is_string). key @ (if is_string then [] else ''::text'') @ '' = $'' @ show_nat i)"

definition sql_char :: "char \<Rightarrow> bool" where
  "sql_char c \<longleftrightarrow> ascii_alnum c \<or> c \<in> set ''_ =$:''"

lemma facet_loop_eq:
  "length clauses = length binds \<Longrightarrow>
   facet_loop show_f64 facets obj clauses binds
   = (clauses @ map facet_clause (enumerate (Suc (length binds))
          (map (\<lambda>(k, s, t). (k, s)) (accepted_facets show_f64 facets obj))),
      binds @ map (\<lambda>(k, s, t). t) (accepted_facets show_f64 facets obj))"
proof (induction obj arbitrary: clauses binds)
  case (Cons kv obj)
  obtain key v where kv: "kv = (key, v)" by (cases kv)
  show ?case
  proof (cases "key \<in> set facets \<and> is_safe_ident key")
    case True
    then have "list_ex (\<lambda>f. f = key) facets" by (auto simp: list_ex_iff)
    with True show ?thesis
      using Cons.IH [of clauses binds] Cons.prems
        Cons.IH [of "clauses @ [c]" "binds @ [b]" for c b]
      by (cases v) (auto simp: kv facet_entry_def facet_value_def facet_clause_def)
  next
    case False
    then have "\<not> list_ex (\<lambda>f. f = key) facets \<or> \<not> is_safe_ident key" by (auto simp: list_ex_iff)
    with False Cons.IH [OF Cons.prems] show ?thesis
      by (auto simp: kv split: option.split)
  qed
qed simp

lemma sql_char_show_nat: "list_all sql_char (show_nat n)"
proof (induction n rule: show_nat.induct)
  case (1 n)
  have d: "sql_char (char_of (48 + k))" if "k < 10" for k :: nat
    using that by (simp add: sql_char_def ascii_alnum_def)
  show ?case
    using 1 d [of n] d [of "n mod 10"] by (simp add: show_nat.simps [of n])
qed

lemma sql_char_safe_ident: "is_safe_ident s \<Longrightarrow> list_all sql_char s"
  by (auto simp: is_safe_ident_def sql_char_def list_all_iff)

lemma join_with_all: "list_all P sep \<Longrightarrow> list_all (list_all P) xs \<Longrightarrow> list_all P (join_with sep xs)"
  by (induction sep xs rule: join_with.induct) auto

lemma accepted_facets_safe:
  "list_all (\<lambda>(k, s, t). k \<in> set facets \<and> is_safe_ident k) (accepted_facets show_f64 facets obj)"
  by (induction show_f64 facets obj rule: accepted_facets.induct) (auto split: option.split)

text \<open>
  C6: the values of a facet filter never reach the text of a query: the where clause is
  made of the accepted keys, numbered from \<open>$1\<close>, with \<open>::text\<close> where the value is not a
  string; the values are bound in the same order; and the text consists of letters,
  digits, underscores, spaces and the characters \<open>= $ :\<close> only, so it holds no quote, semicolon
  or comment whatever the filter is.
\<close>

theorem facet_values_are_bound:
  "build_facet_where show_f64 meta (JObject obj)
   = (let accepted = accepted_facets show_f64 (sm_facets meta) obj
      in (join_with '' AND '' (map facet_clause (enumerate 1 (map (\<lambda>(k, s, t). (k, s)) accepted))),
          map (\<lambda>(k, s, t). t) accepted))
   \<and> list_all sql_char (fst (build_facet_where show_f64 meta filters))"
proof
  have eq: "build_facet_where show_f64 meta (JObject obj)
   = (let accepted = accepted_facets show_f64 (sm_facets meta) obj
      in (join_with '' AND '' (map facet_clause (enumerate 1 (map (\<lambda>(k, s, t). (k, s)) accepted))),
          map (\<lambda>(k, s, t). t) accepted))" for obj
    by (simp add: build_facet_where_def facet_loop_eq Let_def)
  then show "build_facet_where show_f64 meta (JObject obj)
   = (let accepted = accepted_facets show_f64 (sm_facets meta) obj
      in (join_with '' AND '' (map facet_clause (enumerate 1 (map (\<lambda>(k, s, t). (k, s)) accepted))),
          map (\<lambda>(k, s, t). t) accepted))" .
  show "list_all sql_char (fst (build_facet_where show_f64 meta filters))"
  proof (cases filters)
    case (JObject obj)
    have clause: "list_all sql_char (facet_clause (i, k, s))" if "is_safe_ident k" for i k s
    proof -
      have "list_all sql_char '' = $''" "list_all sql_char ''::text''" by code_simp+
      with sql_char_safe_ident [OF that] sql_char_show_nat [of i] show ?thesis
        by (simp add: facet_clause_def)
    qed
    have "list_all (list_all sql_char) (map facet_clause (enumerate n (map (\<lambda>(k, s, t). (k, s)) acc)))"
      if "list_all (\<lambda>(k, s, t). k \<in> set (sm_facets meta) \<and> is_safe_ident k) acc" for n acc
      using that by (induction acc arbitrary: n) (auto simp: clause)
    from this [OF accepted_facets_safe [of "sm_facets meta" show_f64 obj]]
    show ?thesis
      unfolding JObject eq Let_def fst_conv by (intro join_with_all) (code_simp, blast)
  qed (simp_all add: build_facet_where_def)
qed

section \<open>Paging\<close>

text \<open>
  A client that follows the cursors until there is none: \<open>None\<close> when a page fails or the
  number of pages runs out.
\<close>

fun read_pages :: "('vs, 'db) Engine \<Rightarrow> 'db \<Rightarrow> SchemaMeta \<Rightarrow> string \<Rightarrow> string list \<Rightarrow> nat \<Rightarrow> nat \<Rightarrow> string option
    \<Rightarrow> json list option" where
  "read_pages E db meta w binds limit 0 cursor = None"
| "read_pages E db meta w binds limit (Suc n) cursor =
     (case fetch_many E db meta w binds cursor limit of
        Inl e \<Rightarrow> None
      | Inr (items, None) \<Rightarrow> Some items
      | Inr (items, Some c) \<Rightarrow> map_option ((@) items) (read_pages E db meta w binds limit n (Some c)))"

text \<open>
  The database answers the page statements over these rows: the first \<open>l\<close> of them, after
  the cursor if there is one, in the order \<open>lt\<close> of their ids.
\<close>

definition answers_pages :: "('vs, 'db) Engine \<Rightarrow> 'db \<Rightarrow> SchemaMeta \<Rightarrow> string \<Rightarrow> string list
    \<Rightarrow> (string \<Rightarrow> string \<Rightarrow> bool) \<Rightarrow> FetchRow list \<Rightarrow> bool" where
  "answers_pages E db meta w binds lt rows \<longleftrightarrow>
     (\<forall>l. pg_rows (eg_store E) db (page_sql meta w (length binds) False) (map PgText binds @ [PgBigint (int l)])
          = Inr (take l rows))
     \<and> (\<forall>l c. pg_rows (eg_store E) db (page_sql meta w (length binds) True)
                (map PgText binds @ [PgBigint (int l), PgText c])
          = Inr (take l (filter (\<lambda>r. lt c (fr_id r)) rows)))"

definition row_order :: "(string \<Rightarrow> string \<Rightarrow> bool) \<Rightarrow> FetchRow list \<Rightarrow> bool" where
  "row_order lt rows \<longleftrightarrow> sorted_wrt (\<lambda>a b. lt (fr_id a) (fr_id b)) rows
     \<and> (\<forall>a \<in> set rows. \<not> lt (fr_id a) (fr_id a))
     \<and> (\<forall>a \<in> set rows. \<forall>b \<in> set rows. lt (fr_id a) (fr_id b) \<longrightarrow> \<not> lt (fr_id b) (fr_id a))"

lemma rows_after:
  assumes "row_order lt (pre @ c # post)"
  shows "filter (\<lambda>r. lt (fr_id c) (fr_id r)) (pre @ c # post) = post"
proof -
  have "\<forall>r \<in> set pre. \<not> lt (fr_id c) (fr_id r)"
    using assms by (fastforce simp: row_order_def sorted_wrt_append)
  moreover have "\<forall>r \<in> set post. lt (fr_id c) (fr_id r)" "\<not> lt (fr_id c) (fr_id c)"
    using assms by (simp_all add: row_order_def sorted_wrt_append)
  ultimately show ?thesis by (simp add: filter_id_conv filter_empty_conv)
qed

lemma last_take:
  assumes "0 < n" "n \<le> length xs"
  shows "last (take n xs) = xs ! (n - 1)"
proof -
  have "take n xs \<noteq> []" using assms by auto
  then show ?thesis using assms by (simp add: last_conv_nth min_def)
qed

lemma fetch_page:
  assumes "answers_pages E db meta w binds lt rows" "is_safe_ident (sm_table meta)" "limit \<le> 1000"
    and "cursor = None \<and> rest = rows \<or> (\<exists>c. cursor = Some c \<and> rest = filter (\<lambda>r. lt c (fr_id r)) rows)"
  shows "fetch_many E db meta w binds cursor limit
     = Inr (map (row_json (eg_rfc3339 E)) (take limit rest),
            if limit \<le> length rest \<and> limit \<noteq> 0 then Some (fr_id (rest ! (limit - 1))) else None)"
proof -
  have m: "min limit 1000 = limit" "i64_or limit 100 = int limit"
    using assms(3) by (simp_all add: i64_or_def)
  have last: "last (take limit rest) = rest ! (limit - 1)" if "limit \<le> length rest" "limit \<noteq> 0"
    using that by (simp add: last_take)
  have "pg_rows (eg_store E) db (page_sql meta w (length binds) (cursor \<noteq> None))
      (map PgText binds @ [PgBigint (int limit)] @ (case cursor of None \<Rightarrow> [] | Some c \<Rightarrow> [PgText c]))
      = Inr (take limit rest)"
    using assms(1, 4) by (auto simp: answers_pages_def)
  then have "fetch_many E db meta w binds cursor limit
      = Inr (map (row_json (eg_rfc3339 E)) (take limit rest),
             if length (take limit rest) = limit
             then (if take limit rest = [] then None else Some (fr_id (last (take limit rest)))) else None)"
    by (simp only: fetch_many_def m assms(2) simp_thms if_False Let_def sum.case length_map)
  then show ?thesis using last by (auto simp: min_def)
qed

lemma read_pages_rest:
  assumes "answers_pages E db meta w binds lt rows" "is_safe_ident (sm_table meta)"
    "0 < limit" "limit \<le> 1000" "row_order lt rows"
  shows "rows = pre @ rest \<Longrightarrow> length rest < n
    \<Longrightarrow> cursor = None \<and> pre = [] \<or> (\<exists>c. pre \<noteq> [] \<and> cursor = Some (fr_id (last pre)))
    \<Longrightarrow> read_pages E db meta w binds limit n cursor = Some (map (row_json (eg_rfc3339 E)) rest)"
proof (induction n arbitrary: pre rest cursor)
  case (Suc n)
  have "cursor = None \<and> rest = rows \<or> (\<exists>c. cursor = Some c \<and> rest = filter (\<lambda>r. lt c (fr_id r)) rows)"
  proof (cases "pre = []")
    case True
    with Suc.prems show ?thesis by simp
  next
    case False
    then have "rows = butlast pre @ last pre # rest" using Suc.prems(1) by simp
    moreover from this have "filter (\<lambda>r. lt (fr_id (last pre)) (fr_id r)) rows = rest"
      using rows_after [of lt "butlast pre" "last pre" rest] assms(5) by simp
    ultimately show ?thesis using Suc.prems(3) False by auto
  qed
  note page = fetch_page [OF assms(1, 2, 4) this]
  show ?case
  proof (cases "limit \<le> length rest")
    case False
    then show ?thesis by (simp add: page)
  next
    case True
    have split: "rest = take limit rest @ drop limit rest" by simp
    have ne: "take limit rest \<noteq> []" using True assms(3) by auto
    have lst: "fr_id (rest ! (limit - 1)) = fr_id (last (pre @ take limit rest))"
      using True assms(3) ne by (simp add: last_take)
    have "read_pages E db meta w binds limit n (Some (fr_id (rest ! (limit - 1))))
        = Some (map (row_json (eg_rfc3339 E)) (drop limit rest))"
      using Suc.IH [of "pre @ take limit rest" "drop limit rest" "Some (fr_id (rest ! (limit - 1)))"]
        Suc.prems(1, 2) True assms(3) ne lst by simp
    then show ?thesis
      using True assms(3) by (simp add: page map_append [symmetric] del: map_append)
  qed
qed simp


section \<open>A sample engine\<close>

definition sample_row :: "string \<Rightarrow> FetchRow" where
  "sample_row i = \<lparr>fr_id = i, fr_title = None, fr_body = Some ''text'', fr_created_at = None, fr_metadata = None\<rparr>"

definition sample_rows :: "FetchRow list" where
  "sample_rows = [sample_row ''a'', sample_row ''bb'', sample_row ''ccc'']"

definition shorter :: "string \<Rightarrow> string \<Rightarrow> bool" where
  "shorter a b \<longleftrightarrow> length a < length b"

text \<open>Answers every statement from the sample rows; an insertion adds its id.\<close>

definition sample_postgres :: "string list Postgres" where
  "sample_postgres =
     \<lparr>pg_optional = (\<lambda>db sql vals. case vals of [PgText i] \<Rightarrow> Inr (find (\<lambda>r. fr_id r = i) sample_rows) | _ \<Rightarrow> Inl ''bind''),
      pg_rows = (\<lambda>db sql vals. case vals of
          [PgBigint l] \<Rightarrow> Inr (take (nat l) sample_rows)
        | [PgBigint l, PgText c] \<Rightarrow> Inr (take (nat l) (filter (\<lambda>r. shorter c (fr_id r)) sample_rows))
        | _ \<Rightarrow> Inl ''bind''),
      pg_search = (\<lambda>db sql vals. Inr [\<lparr>sw_id = ''bb'', sw_excerpt = ''text'', sw_created_at = None, sw_score = f32_one\<rparr>]),
      pg_buckets = (\<lambda>db sql vals. Inr []),
      pg_execute = (\<lambda>db sql vals. case vals of (PgText i # _) \<Rightarrow> (i # db, Inr 1) | _ \<Rightarrow> (db, Inl ''bind''))\<rparr>"

definition sample_context :: ContextMeta where
  "sample_context = \<lparr>cm_embedder = ''stub'', cm_vector_dims = 1, cm_chunking = chunking_default,
     cm_freshness_decay = FreshNone, cm_default_top_k = None\<rparr>"

definition sample_meta :: SchemaMeta where
  "sample_meta = \<lparr>sm_namespace = ''acme'', sm_name = ''Doc'', sm_version = 1, sm_primary_key = ''id'',
     sm_fields = [], sm_relations = Map.empty, sm_facets = [''kind''], sm_chunked_fields = [''body''],
     sm_context = sample_context, sm_collection = ''doc'', sm_table = ''doc'', sm_hybrid_alpha = None\<rparr>"

definition sample_retriever :: "(InMemoryStore, string list) Retriever" where
  "sample_retriever =
     \<lparr>rv_config = retrieval_config_default, rv_store = memory_store,
      rv_embed = (\<lambda>qs. Inr [[f32_one]]), rv_db = sample_postgres, rv_reranker = identity_rerank,
      rv_ulid_str = (\<lambda>u. []), rv_parse_rfc3339 = (\<lambda>s. None), rv_powf = (\<lambda>x y. x), rv_order = id\<rparr>"

definition sample_engine :: "(InMemoryStore, string list) Engine" where
  "sample_engine =
     \<lparr>eg_config = retrieval_config_default, eg_registry = registry_insert sample_meta registry_empty,
      eg_store = sample_postgres, eg_retriever = sample_retriever, eg_policy = default_dev_policy,
      eg_lowercase = id, eg_rfc3339 = (\<lambda>t. None), eg_time_value = (\<lambda>t. JNull), eg_show_f64 = (\<lambda>x. [])\<rparr>"


section \<open>Receipts account for the disclosed records\<close>

lemma default_filter_verdicts:
  "default_filter evaluate ns schema action caller rs = Inr keep
   \<Longrightarrow> keep = map (\<lambda>r. evaluate (policy_input ns schema action caller r) = Inr PvAllow) rs"
proof (induction rs arbitrary: keep)
  case (Cons r rs)
  then obtain v out where "evaluate (policy_input ns schema action caller r) = Inr v"
    "default_filter evaluate ns schema action caller rs = Inr out" "keep = is_allow v # out"
    by (auto simp: result_simps)
  with Cons.IH show ?case by (cases v) auto
qed simp

lemma keep_masked_map: "keep_masked xs (map P xs) = filter P xs"
  by (induction xs) (simp_all add: keep_masked_def)

lemma zip_map_snd: "map snd (zip xs (map P xs)) = map P xs"
  by (induction xs) simp_all

text \<open>
  C7: the receipt of a search under the wasm policy engine. A search that succeeds executes
  one insert on the store, of a receipt with the id the response returns, for the caller
  and the schema searched; that insert is all it changes, and when it fails the search
  still answers. The receipt has one verdict per fetched record, in rank order: \<open>allow\<close> when the policy
  allows the caller to read the record, and \<open>deny\<close> otherwise. Its sources are the disclosed
  records, with their scores, and these are the allowed ones of the fetched records.
\<close>

theorem search_receipt_accounts:
  assumes "engine_search (E\<lparr>eg_policy := wasm_policy_engine to_vec wp\<rparr>) env vs db req = (db', Inr resp)"
  shows "\<exists>meta hits r.
       registry_get (eg_registry E) (sq_namespace req) (sq_schema req) = Inr meta
     \<and> retriever_search (eg_retriever E) vs db (ce_now env) meta (sq_query req)
         (effective_top_k E meta (sq_top_k req)) (cl_tenant (sq_caller req)) = Inr hits
     \<and> db' = fst (pg_execute (eg_store E) db
         (''INSERT INTO sealstack_receipts (id, caller_id, qualified_schema, tool, body, created_at) ''
            @ ''VALUES ($1, $2, $3, $4, $5, $6)'')
         [PgText (sp_receipt_id resp), PgText (cl_id (sq_caller req)), PgText (qualified_name meta),
          PgText (''search_'' @ eg_lowercase E (sm_name meta)), PgJson (receipt_value (eg_time_value E) r),
          PgTime (ce_receipt_now env)])
     \<and> rc_id r = sp_receipt_id resp \<and> rc_caller r = sq_caller req
     \<and> rc_qualified_schema r = qualified_name meta
     \<and> rc_policies_applied r = map (\<lambda>x. \<lparr>pf_schema = qualified_name meta, pf_predicate = ''read'',
         pf_verdict = (if wasm_evaluate to_vec wp (policy_input (sm_namespace meta) (sm_name meta) PaRead
              (sq_caller req) (snd x)) = Inr PvAllow then ''allow'' else ''deny'')\<rparr>)
         (fetch_records E db meta hits)
     \<and> sp_results resp = map search_hit_of (filter (\<lambda>x. wasm_evaluate to_vec wp (policy_input
              (sm_namespace meta) (sm_name meta) PaRead (sq_caller req) (snd x)) = Inr PvAllow)
         (fetch_records E db meta hits))
     \<and> rc_sources r = map (\<lambda>h. \<lparr>sf_schema = qualified_name meta, sf_record_id = sh_id h,
         sf_chunk_id = None, sf_score = sh_score h\<rparr>) (sp_results resp)"
proof -
  obtain meta where meta: "registry_get (eg_registry E) (sq_namespace req) (sq_schema req) = Inr meta"
    using assms by (cases "registry_get (eg_registry E) (sq_namespace req) (sq_schema req)")
      (auto simp: engine_search_def)
  let ?k = "effective_top_k E meta (sq_top_k req)"
  let ?E = "E\<lparr>eg_policy := wasm_policy_engine to_vec wp\<rparr>"
  obtain hits where hits: "retriever_search (eg_retriever E) vs db (ce_now env) meta (sq_query req) ?k
      (cl_tenant (sq_caller req)) = Inr hits"
    using assms meta by (cases "retriever_search (eg_retriever E) vs db (ce_now env) meta (sq_query req) ?k
      (cl_tenant (sq_caller req))") (auto simp: engine_search_def Let_def)
  let ?records = "fetch_records E db meta hits"
  let ?allowed = "\<lambda>x. wasm_evaluate to_vec wp (policy_input (sm_namespace meta) (sm_name meta) PaRead
      (sq_caller req) (snd x)) = Inr PvAllow"
  have "\<exists>t. db' = log_receipt ?E db (with_timings (with_policies (with_sources
          (search_receipt ?E env req meta ?k) (map (source_of (qualified_name meta)) (sp_results resp)))
          (map (\<lambda>x. \<lparr>pf_schema = qualified_name meta, pf_predicate = ''read'', pf_verdict = verdict_str (?allowed x)\<rparr>)
             ?records)) t)
      \<and> sp_receipt_id resp = ce_ulid env \<and> sp_results resp = map search_hit_of (filter ?allowed ?records)"
  proof (cases "hits = []")
    case True
    with assms meta hits show ?thesis
      by (auto simp: engine_search_def Let_def search_receipt_def receipt_new_def with_timings_def
          with_policies_def with_sources_def)
  next
    case False
    obtain keep where keep: "default_filter (wasm_evaluate to_vec wp) (sm_namespace meta) (sm_name meta) PaRead
        (sq_caller req) (map snd ?records) = Inr keep"
      using assms meta hits False
      by (cases "default_filter (wasm_evaluate to_vec wp) (sm_namespace meta) (sm_name meta) PaRead (sq_caller req)
        (map snd ?records)") (auto simp: engine_search_def Let_def wasm_policy_engine_def)
    from default_filter_verdicts [OF this] have mask: "keep = map ?allowed ?records" by simp
    show ?thesis
      using assms meta hits False keep
      by (auto simp: engine_search_def Let_def apply_mask_eq search_receipt_def wasm_policy_engine_def
          mask keep_masked_map zip_map_snd comp_def)
  qed
  then obtain t where t: "db' = log_receipt ?E db (with_timings (with_policies (with_sources
          (search_receipt ?E env req meta ?k) (map (source_of (qualified_name meta)) (sp_results resp)))
          (map (\<lambda>x. \<lparr>pf_schema = qualified_name meta, pf_predicate = ''read'', pf_verdict = verdict_str (?allowed x)\<rparr>)
             ?records)) t)" (is "_ = log_receipt ?E db ?r")
      "sp_receipt_id resp = ce_ulid env" "sp_results resp = map search_hit_of (filter ?allowed ?records)"
    by blast
  have fields: "rc_id ?r = sp_receipt_id resp" "rc_caller ?r = sq_caller req"
    "rc_qualified_schema ?r = qualified_name meta" "rc_tool ?r = ''search_'' @ eg_lowercase E (sm_name meta)"
    "rc_created_at ?r = ce_receipt_now env"
    by (simp_all add: t(2) search_receipt_def receipt_new_def with_timings_def with_policies_def with_sources_def)
  have written: "db' = fst (pg_execute (eg_store E) db
         (''INSERT INTO sealstack_receipts (id, caller_id, qualified_schema, tool, body, created_at) ''
            @ ''VALUES ($1, $2, $3, $4, $5, $6)'')
         [PgText (sp_receipt_id resp), PgText (cl_id (sq_caller req)), PgText (qualified_name meta),
          PgText (''search_'' @ eg_lowercase E (sm_name meta)), PgJson (receipt_value (eg_time_value E) ?r),
          PgTime (ce_receipt_now env)])"
    unfolding t(1) log_receipt_def receipt_persist_def fields insert_receipt_sql_def
    by (simp add: case_prod_beta split: sum.split prod.split)
  show ?thesis
    using meta hits written fields t(3)
    by (intro exI [of _ meta] exI [of _ hits] exI [of _ ?r])
      (simp add: source_of_def verdict_str_def)
qed

definition sample_request :: SearchRequest where
  "sample_request = \<lparr>sq_caller = caller_test ''u'', sq_namespace = ''acme'', sq_schema = ''Doc'',
     sq_query = ''text'', sq_top_k = 0, sq_filters = JNull\<rparr>"

definition sample_env :: CallEnv where
  "sample_env = \<lparr>ce_clock = (\<lambda>n. 0), ce_now = 0, ce_receipt_now = 0, ce_ulid = ''r''\<rparr>"

lemma sample_retrieved:
  "\<exists>s. retriever_search sample_retriever mem_new [] 0 sample_meta ''text'' 16 []
     = Inr [\<lparr>rh_id = ''bb'', rh_score = s, rh_excerpt = ''text''\<rparr>]"
proof -
  have id: "is_safe_ident ''doc''" "is_safe_ident ''body''" by code_simp+
  show ?thesis
    by (simp add: retriever_search_def sample_retriever_def query_embedding_def vector_search_def
        memory_store_def mem_search_def mem_new_def or_empty_def bm25_search_def sample_meta_def id
        sample_postgres_def rrf_fuse_def rrf_maps_def rrf_add_def sort_by_def identity_rerank_def
        apply_decay_def retrieval_config_default_def Let_def)
qed

definition sample_wasm :: WasmPolicy where
  "sample_wasm = \<lparr>wp_modules = (\<lambda>k. None), wp_default_verdict = PvAllow\<rparr>"

theorem search_receipt_accounts_witness:
  "fst (engine_search (sample_engine\<lparr>eg_policy := wasm_policy_engine (\<lambda>j. Inr []) sample_wasm\<rparr>) sample_env mem_new []
       sample_request) = [''r'']
   \<and> (\<exists>resp. snd (engine_search (sample_engine\<lparr>eg_policy := wasm_policy_engine (\<lambda>j. Inr []) sample_wasm\<rparr>) sample_env
         mem_new [] sample_request) = Inr resp
       \<and> map sh_id (sp_results resp) = [''bb''] \<and> sp_receipt_id resp = ''r'')"
proof -
  let ?E = "sample_engine\<lparr>eg_policy := wasm_policy_engine (\<lambda>j. Inr []) sample_wasm\<rparr>"
  have fields: "eg_registry sample_engine = registry_insert sample_meta registry_empty"
    "eg_retriever sample_engine = sample_retriever" "eg_store sample_engine = sample_postgres"
    by (simp_all add: sample_engine_def)
  have reg: "registry_get (registry_insert sample_meta registry_empty) ''acme'' ''Doc'' = Inr sample_meta"
    by (simp add: registry_get_insert) (simp add: sample_meta_def)
  have k: "effective_top_k sample_engine sample_meta 0 = 16"
    by (simp add: effective_top_k_def sample_engine_def sample_meta_def sample_context_def retrieval_config_default_def)
  obtain s where hits: "retriever_search sample_retriever mem_new [] 0 sample_meta ''text'' 16 []
      = Inr [\<lparr>rh_id = ''bb'', rh_score = s, rh_excerpt = ''text''\<rparr>]"
    using sample_retrieved by blast
  have table: "is_safe_ident (sm_table sample_meta)" by code_simp
  have row: "fetch_row_raw sample_engine [] sample_meta ''bb'' = Inr (row_json (eg_rfc3339 sample_engine) (sample_row ''bb''))"
    by (simp add: fetch_row_raw_def table fields sample_postgres_def sample_rows_def sample_row_def)
  obtain db' resp where run: "engine_search ?E sample_env mem_new [] sample_request = (db', Inr resp)"
    and resp: "map sh_id (sp_results resp) = [''bb'']" "sp_receipt_id resp = ''r''"
    by (simp add: engine_search_def sample_request_def caller_test_def fields reg k sample_env_def hits row
        Let_def wasm_policy_engine_def wasm_evaluate_def sample_wasm_def search_receipt_def split: prod.splits)
  from search_receipt_accounts [OF run] have "db' = [''r'']"
    using resp(2) by (auto simp: fields sample_postgres_def)
  with run resp show ?thesis by simp
qed

end
