(* ===== verification/Engine_Facade.thy ===== *)
theory Engine_Facade
  imports Engine_Access
begin

text \<open>
  The JSON facade over the engine (\<open>sealstack-engine/src/facade.rs\<close>): the untyped interface
  the gateway calls, on top of the handlers.
\<close>

section \<open>Arguments\<close>

definition split_qualified :: "string \<Rightarrow> EngineError + (string \<times> string)" where
  "split_qualified qualified =
     bindR (ok_or (rsplit_once (CHR ''.'') qualified)
        (EeInvalidArgument (''schema `'' @ qualified @ ''` is not qualified (expected `namespace.Name`)'')))
       (\<lambda>(ns, name).
     if ns = [] \<or> name = []
     then Inl (EeInvalidArgument (''schema `'' @ qualified @ ''` has an empty namespace or name''))
     else Inr (ns, name))"

definition id_to_string :: "(f64 \<Rightarrow> string) \<Rightarrow> json \<Rightarrow> EngineError + string" where
  "id_to_string show_f64 i =
     (case i of
        JString s \<Rightarrow> Inr s
      | JNumber n \<Rightarrow> Inr (num_to_string show_f64 n)
      | _ \<Rightarrow> Inl (EeInvalidArgument ''id must be a string or number''))"

section \<open>Results as JSON\<close>

definition hit_value :: "SearchHit \<Rightarrow> json" where
  "hit_value h = JObject
     [(''excerpt'', JString (sh_excerpt h)), (''id'', JString (sh_id h)), (''record'', sh_record h),
      (''score'', json_of_f32 (sh_score h))]"

definition bucket_value :: "AggregateBucket \<Rightarrow> json" where
  "bucket_value b = JObject [(''count'', JNumber (PosInt (ab_count b))), (''key'', ab_key b)]"

definition list_value :: "ListResponse \<Rightarrow> json" where
  "list_value r = JObject [(''items'', JArray (lp_items r)), (''next_cursor'', opt_string (lp_next_cursor r))]"

section \<open>The facade\<close>

definition facade_search :: "('vs, 'db) Engine \<Rightarrow> CallEnv \<Rightarrow> 'vs \<Rightarrow> 'db \<Rightarrow> Caller \<Rightarrow> string \<Rightarrow> string \<Rightarrow> nat \<Rightarrow> json
    \<Rightarrow> 'db \<times> (EngineError + json)" where
  "facade_search E env vs db caller schema query top_k filters =
     (case split_qualified schema of
        Inl e \<Rightarrow> (db, Inl e)
      | Inr (ns, name) \<Rightarrow>
          (case engine_search E env vs db
                  \<lparr>sq_caller = caller, sq_namespace = ns, sq_schema = name, sq_query = query,
                   sq_top_k = top_k, sq_filters = filters\<rparr> of
             (db', Inl e) \<Rightarrow> (db', Inl e)
           | (db', Inr resp) \<Rightarrow> (db', Inr (JObject
               [(''receipt_id'', JString (sp_receipt_id resp)),
                (''results'', JArray (map hit_value (sp_results resp)))]))))"

definition facade_get :: "('vs, 'db) Engine \<Rightarrow> CallEnv \<Rightarrow> 'db \<Rightarrow> Caller \<Rightarrow> string \<Rightarrow> json
    \<Rightarrow> 'db \<times> (EngineError + json)" where
  "facade_get E env db caller schema i =
     (case bindR (split_qualified schema) (\<lambda>q. bindR (id_to_string (eg_show_f64 E) i) (\<lambda>s. Inr (q, s))) of
        Inl e \<Rightarrow> (db, Inl e)
      | Inr ((ns, name), s) \<Rightarrow>
          engine_get E env db \<lparr>gq_caller = caller, gq_namespace = ns, gq_schema = name, gq_id = s\<rparr>)"

definition facade_list :: "('vs, 'db) Engine \<Rightarrow> 'db \<Rightarrow> Caller \<Rightarrow> string \<Rightarrow> json \<Rightarrow> nat \<Rightarrow> string option
    \<Rightarrow> string option \<Rightarrow> string \<Rightarrow> EngineError + json" where
  "facade_list E db caller schema filters limit cursor order_by direction =
     bindR (split_qualified schema) (\<lambda>(ns, name).
       bindR (engine_list E db \<lparr>lq_caller = caller, lq_namespace = ns, lq_schema = name,
                lq_filters = filters, lq_cursor = cursor, lq_limit = limit\<rparr>) (\<lambda>resp.
         Inr (list_value resp)))"

definition facade_list_relation :: "('vs, 'db) Engine \<Rightarrow> 'db \<Rightarrow> Caller \<Rightarrow> string \<Rightarrow> string \<Rightarrow> json \<Rightarrow> nat
    \<Rightarrow> string option \<Rightarrow> EngineError + json" where
  "facade_list_relation E db caller schema relation parent_id limit cursor =
     bindR (split_qualified schema) (\<lambda>(ns, name).
       bindR (id_to_string (eg_show_f64 E) parent_id) (\<lambda>parent.
         bindR (engine_list_relation E db \<lparr>rq_caller = caller, rq_namespace = ns, rq_schema = name,
                  rq_relation = relation, rq_parent_id = parent, rq_cursor = cursor, rq_limit = limit\<rparr>) (\<lambda>resp.
           Inr (list_value resp))))"

definition facade_aggregate :: "('vs, 'db) Engine \<Rightarrow> CallEnv \<Rightarrow> 'db \<Rightarrow> Caller \<Rightarrow> string \<Rightarrow> string \<Rightarrow> json \<Rightarrow> nat
    \<Rightarrow> 'db \<times> (EngineError + json)" where
  "facade_aggregate E env db caller schema facet filters buckets =
     (case split_qualified schema of
        Inl e \<Rightarrow> (db, Inl e)
      | Inr (ns, name) \<Rightarrow>
          (case engine_aggregate E env db
                  \<lparr>aq_caller = caller, aq_namespace = ns, aq_schema = name, aq_facet = facet,
                   aq_filters = filters, aq_limit = buckets\<rparr> of
             (db', Inl e) \<Rightarrow> (db', Inl e)
           | (db', Inr resp) \<Rightarrow> (db', Inr (JObject
               [(''buckets'', JArray (map bucket_value (ap_buckets resp)))]))))"

section \<open>Qualified names\<close>

text \<open>
  Splitting a qualified schema name inverts joining: it succeeds with a namespace and a
  name exactly when the text is their join with a dot, neither is empty and the name holds
  no dot; so every other text is rejected, and no two names are confused.
\<close>

theorem qualified_name_roundtrip:
  "split_qualified q = Inr (ns, name) \<longleftrightarrow>
     q = ns @ ''.'' @ name \<and> ns \<noteq> [] \<and> name \<noteq> [] \<and> CHR ''.'' \<notin> set name"
  by (auto simp: split_qualified_def result_simps rsplit_once_Some split: if_splits)

end
