(* ===== verification/Sdk_Types.thy ===== *)
theory Sdk_Types
  imports Engine_Api
begin

text \<open>
  The connector SDK's data (\<open>sealstack-connector-sdk/src/lib.rs\<close>, \<open>principal.rs\<close>): principals
  with their wire form, permission predicates, resources, change events and the connector
  interface. A connector's answers are a parameter.
\<close>

section \<open>Principals\<close>

datatype Principal =
    User string
  | Group string
  | Domain string
  | Anyone
  | AnyoneWithLink

fun principal_wire :: "Principal \<Rightarrow> string" where
  "principal_wire (User i) = ''user:'' @ i"
| "principal_wire (Group i) = ''group:'' @ i"
| "principal_wire (Domain d) = ''domain:'' @ d"
| "principal_wire Anyone = ''anyone''"
| "principal_wire AnyoneWithLink = ''anyone-with-link''"

datatype principal_error = BadWire string | UnknownKind string

definition principal_of_wire :: "string \<Rightarrow> principal_error + Principal" where
  "principal_of_wire s =
     (if s = ''*'' \<or> s = ''anyone'' then Inr Anyone
      else if s = ''anyone-with-link'' then Inr AnyoneWithLink
      else bindR (ok_or (split_once (CHR '':'') s) (BadWire s)) (\<lambda>(prefix, rest).
        if prefix = ''user'' then Inr (User rest)
        else if prefix = ''group'' then Inr (Group rest)
        else if prefix = ''domain'' then Inr (Domain rest)
        else Inl (UnknownKind prefix)))"

section \<open>Resources\<close>

record PermissionPredicate =
  pp_principal :: Principal
  pp_action :: string

definition public_read :: PermissionPredicate where
  "public_read = \<lparr>pp_principal = Anyone, pp_action = ''read''\<rparr>"

definition permission_value :: "PermissionPredicate \<Rightarrow> json" where
  "permission_value p = JObject
     [(''action'', JString (pp_action p)), (''principal'', JString (principal_wire (pp_principal p)))]"

record Resource =
  re_id :: string
  re_kind :: string
  re_title :: "string option"
  re_body :: string
  re_metadata :: metadata
  re_permissions :: "PermissionPredicate list"
  re_source_updated_at :: timestamp

definition resource_stub :: "timestamp \<Rightarrow> string \<Rightarrow> string \<Rightarrow> Resource" where
  "resource_stub now i body = \<lparr>re_id = i, re_kind = ''stub'', re_title = None, re_body = body,
     re_metadata = [], re_permissions = [public_read], re_source_updated_at = now\<rparr>"

datatype ChangeEvent = Upsert Resource | Delete string

text \<open>
  The connector interface. A stream is the list of what it yields; a connector that has no
  change stream answers \<open>None\<close>.
\<close>

record 'c Connector =
  cn_name :: string
  cn_version :: string
  cn_list :: "'c \<Rightarrow> 'c \<times> (SealStackError + Resource list)"
  cn_fetch :: "'c \<Rightarrow> string \<Rightarrow> 'c \<times> (SealStackError + Resource)"
  cn_subscribe :: "'c \<Rightarrow> 'c \<times> (SealStackError + ChangeEvent list option)"
  cn_healthcheck :: "'c \<Rightarrow> 'c \<times> (SealStackError + unit)"

section \<open>The wire form\<close>

text \<open>
  Reading a principal's wire text accepts exactly the texts that are written and the
  legacy \<open>*\<close>, and inverts writing: a text reads as a principal when it is the text the
  principal is written as, or \<open>*\<close> for \<open>Anyone\<close>. So no text reads as two principals, and
  link-only access is never confused with public access.
\<close>

theorem principal_wire_roundtrip:
  "principal_of_wire s = Inr p \<longleftrightarrow> s = principal_wire p \<or> (s = ''*'' \<and> p = Anyone)"
proof
  assume "s = principal_wire p \<or> (s = ''*'' \<and> p = Anyone)"
  then show "principal_of_wire s = Inr p"
    by (cases p) (auto simp: principal_of_wire_def)
next
  assume r: "principal_of_wire s = Inr p"
  show "s = principal_wire p \<or> (s = ''*'' \<and> p = Anyone)"
  proof (cases "s = ''*'' \<or> s = ''anyone'' \<or> s = ''anyone-with-link''")
    case True
    with r show ?thesis by (auto simp: principal_of_wire_def)
  next
    case False
    with r obtain pre rest where split: "split_once (CHR '':'') s = Some (pre, rest)"
      by (cases "split_once (CHR '':'') s") (auto simp: principal_of_wire_def)
    then have "s = pre @ CHR '':'' # rest" by (simp add: split_once_Some)
    moreover have "(if pre = ''user'' then Inr (User rest) else if pre = ''group'' then Inr (Group rest)
        else if pre = ''domain'' then Inr (Domain rest) else Inl (UnknownKind pre)) = Inr p"
      using r False split by (simp add: principal_of_wire_def)
    ultimately show ?thesis by (auto split: if_splits)
  qed
qed

end
