(* ===== verification/Engine_Ingest.thy ===== *)
theory Engine_Ingest
  imports Sdk_Types Engine_Retrieval
begin

text \<open>
  The ingestion pipeline (\<open>sealstack-engine/src/ingest.rs\<close>): chunking, and the ingestor that
  writes a resource as a row and as embedded chunks. The token counter of the optional
  tokenizer, the embedder, the database, the vector store, fresh ULIDs and the text of
  moments are parameters.
\<close>

section \<open>Chunking\<close>

type_synonym token_count = "string \<Rightarrow> nat"

definition char_approx :: token_count where
  "char_approx text = (length text + 3) div 4"

text \<open>\<open>slice::chunks(n)\<close>, for \<open>n > 0\<close>.\<close>

function byte_chunks :: "nat \<Rightarrow> string \<Rightarrow> string list" where
  "byte_chunks n s =
     (if s = [] \<or> n = 0 then [] else take n s # byte_chunks n (drop n s))"
  by pat_completeness auto
termination
  by (relation "measure (\<lambda>(n, s). length s)") auto

declare byte_chunks.simps [simp del]

definition fixed_char_chunks :: "string \<Rightarrow> nat \<Rightarrow> string list" where
  "fixed_char_chunks body size' =
     (if size' = 0 then [body] else filter rust_str (byte_chunks size' body))"

text \<open>The offset is moved up to the next character boundary.\<close>

definition char_boundary :: "string \<Rightarrow> nat \<Rightarrow> bool" where
  "char_boundary s i \<longleftrightarrow> i = 0 \<or> i = length s \<or> i < length s \<and> \<not> is_cont (s ! i)"

function next_boundary :: "string \<Rightarrow> nat \<Rightarrow> nat" where
  "next_boundary s i = (if i < length s \<and> \<not> char_boundary s i then next_boundary s (i + 1) else i)"
  by pat_completeness auto
termination
  by (relation "measure (\<lambda>(s, i). length s - i)") auto

declare next_boundary.simps [simp del]

text \<open>\<open>saturating_mul\<close> on \<open>usize\<close>.\<close>

definition saturating_mul :: "nat \<Rightarrow> nat \<Rightarrow> nat" where
  "saturating_mul a b = min (a * b) (2 ^ 64 - 1)"

definition carry_overlap :: "string \<Rightarrow> nat \<Rightarrow> string" where
  "carry_overlap current overlap =
     (if overlap = 0 then []
      else let target_chars = saturating_mul overlap 4
           in if length current \<le> target_chars then current
              else drop (next_boundary current (length current - target_chars)) current)"

definition blank_line :: string where
  "blank_line = [char_of (10 :: nat), char_of (10 :: nat)]"

text \<open>The loop over the paragraphs: the chunk being filled and the finished ones.\<close>

fun semantic_loop :: "token_count \<Rightarrow> nat \<Rightarrow> nat \<Rightarrow> string list \<Rightarrow> string \<Rightarrow> string list \<Rightarrow> string list \<times> string" where
  "semantic_loop tokens max_tokens overlap [] current chunks = (chunks, current)"
| "semantic_loop tokens max_tokens overlap (p # ps) current chunks =
     (let candidate_tokens = tokens (current @ blank_line @ p);
          full = max_tokens < candidate_tokens \<and> current \<noteq> [];
          chunks' = (if full then chunks @ [trim current] else chunks);
          current' = (if full then carry_overlap current overlap else current);
          current'' = (if current' \<noteq> [] then current' @ blank_line else current') @ p
      in semantic_loop tokens max_tokens overlap ps current'' chunks')"

definition paragraphs :: "string \<Rightarrow> string list" where
  "paragraphs body = filter (\<lambda>p. trim p \<noteq> []) (split_str blank_line body)"

definition semantic_chunks :: "token_count \<Rightarrow> string \<Rightarrow> nat \<Rightarrow> nat \<Rightarrow> string list" where
  "semantic_chunks tokens body max_tokens overlap =
     (let (chunks, current) = semantic_loop tokens max_tokens overlap (paragraphs body) [] [];
          chunks' = (if trim current \<noteq> [] then chunks @ [trim current] else chunks)
      in if chunks' = [] then [body] else chunks')"

text \<open>The separators still to try, in order; none left is the end of the recursion.\<close>

fun recursive_inner :: "token_count \<Rightarrow> nat \<Rightarrow> string list \<Rightarrow> string \<Rightarrow> string list" where
  "recursive_inner tokens max_tokens [] input = [input]"
| "recursive_inner tokens max_tokens (sep # seps) input =
     (if tokens input \<le> max_tokens then [input]
      else concat (map (\<lambda>piece. if piece = [] then []
                               else if max_tokens < tokens piece then recursive_inner tokens max_tokens seps piece
                               else [piece])
                    (split_str sep input)))"

definition recursive_chunks :: "token_count \<Rightarrow> string \<Rightarrow> string list \<Rightarrow> nat \<Rightarrow> string list" where
  "recursive_chunks tokens body separators max_tokens = recursive_inner tokens max_tokens separators body"

definition chunk_body :: "token_count \<Rightarrow> string \<Rightarrow> ChunkingStrategy \<Rightarrow> string list" where
  "chunk_body tokens body strategy =
     (if trim body = [] then []
      else case strategy of
        Fixed size' \<Rightarrow> fixed_char_chunks body size'
      | Semantic max_tokens overlap \<Rightarrow> semantic_chunks tokens body max_tokens overlap
      | Recursive seps max_tokens \<Rightarrow> recursive_chunks tokens body seps max_tokens)"

section \<open>The ingestor\<close>

record IngestOutcome =
  io_record_id :: string
  io_chunks_written :: nat
  io_inserted :: bool

record ('vs, 'db) Ingestor =
  ig_vector_store :: "'vs VectorStore"
  ig_embed :: "string list \<Rightarrow> SealStackError + f32 list list"
  ig_store :: "'db Postgres"
  ig_count :: token_count
  ig_rfc3339 :: "timestamp \<Rightarrow> string option"

text \<open>What the pipeline writes to: the store, the database and the set of known collections.\<close>

record ('vs, 'db) IngestState =
  is_vectors :: 'vs
  is_db :: 'db
  is_ensured :: "string set"

text \<open>Fresh identifiers of a call: of the record, and of its chunks.\<close>

record IngestIds =
  ii_record :: string
  ii_chunk :: "nat \<Rightarrow> ulid"

definition ensure_collection :: "('vs, 'db) Ingestor \<Rightarrow> SchemaMeta \<Rightarrow> ('vs, 'db) IngestState
    \<Rightarrow> ('vs, 'db) IngestState \<times> (EngineError + unit)" where
  "ensure_collection I meta st =
     (if sm_collection meta \<in> is_ensured st then (st, Inr ())
      else case vs_ensure_collection (ig_vector_store I) (is_vectors st) (sm_collection meta)
                  (cm_vector_dims (sm_context meta)) of
        (vs, Inl e) \<Rightarrow> (st\<lparr>is_vectors := vs\<rparr>,
            Inl (EeBackend (''ensure collection `'' @ sm_collection meta @ ''` (''
                @ show_nat (cm_vector_dims (sm_context meta)) @ ''d): '' @ show_error e)))
      | (vs, Inr u) \<Rightarrow> (st\<lparr>is_vectors := vs, is_ensured := insert (sm_collection meta) (is_ensured st)\<rparr>, Inr ()))"

definition upsert_row_sql :: "string \<Rightarrow> string" where
  "upsert_row_sql table = ''INSERT INTO '' @ table @ '' (id, title, body, created_at, tenant, metadata) ''
     @ ''VALUES ($1, $2, $3, $4, $5, $6) ON CONFLICT (id) DO UPDATE ''
     @ ''SET title = EXCLUDED.title, body = EXCLUDED.body, created_at = EXCLUDED.created_at, ''
     @ ''tenant = EXCLUDED.tenant, metadata = EXCLUDED.metadata''"

definition ingest_unsafe_table :: "SchemaMeta \<Rightarrow> EngineError" where
  "ingest_unsafe_table meta = EeInvalidArgument (''unsafe table identifier `'' @ sm_table meta @ ''`'')"

definition resource_value :: "Resource \<Rightarrow> json" where
  "resource_value r = JObject
     [(''extra'', JObject (re_metadata r)), (''kind'', JString (re_kind r)),
      (''perms'', JArray (map permission_value (re_permissions r))), (''source'', JString (re_id r))]"

definition upsert_row :: "('vs, 'db) Ingestor \<Rightarrow> SchemaMeta \<Rightarrow> string \<Rightarrow> string \<Rightarrow> Resource \<Rightarrow> 'db
    \<Rightarrow> 'db \<times> (EngineError + unit)" where
  "upsert_row I meta tenant record_id r db =
     (if \<not> is_safe_ident (sm_table meta) then (db, Inl (ingest_unsafe_table meta))
      else case pg_execute (ig_store I) db (upsert_row_sql (sm_table meta))
                  [PgText record_id, PgText (case re_title r of None \<Rightarrow> [] | Some t \<Rightarrow> t), PgText (re_body r),
                   PgTime (re_source_updated_at r), PgText tenant, PgJson (resource_value r)] of
        (db', Inl e) \<Rightarrow> (db', Inl (EeBackend e))
      | (db', Inr n) \<Rightarrow> (db', Inr ()))"

definition chunk_metadata :: "('vs, 'db) Ingestor \<Rightarrow> string \<Rightarrow> string \<Rightarrow> Resource \<Rightarrow> nat \<Rightarrow> metadata" where
  "chunk_metadata I tenant record_id r seq =
     [(''created_at'', JString (case ig_rfc3339 I (re_source_updated_at r) of None \<Rightarrow> [] | Some s \<Rightarrow> s)),
      (''record_id'', JString record_id), (''seq'', JNumber (PosInt (word_of_nat seq))),
      (''tenant'', JString tenant)]"

definition vec_chunks :: "('vs, 'db) Ingestor \<Rightarrow> IngestIds \<Rightarrow> string \<Rightarrow> Resource \<Rightarrow> string list \<Rightarrow> f32 list list
    \<Rightarrow> Chunk list" where
  "vec_chunks I ids tenant r chunks embeddings =
     map (\<lambda>(seq, text, embedding).
            \<lparr>ch_id = ii_chunk ids seq, ch_content = text, ch_embedding = embedding,
             ch_metadata = chunk_metadata I tenant (ii_record ids) r seq\<rparr>)
       (enumerate 0 (zip chunks embeddings))"

definition ingest :: "('vs, 'db) Ingestor \<Rightarrow> IngestIds \<Rightarrow> SchemaMeta \<Rightarrow> string \<Rightarrow> Resource \<Rightarrow> ('vs, 'db) IngestState
    \<Rightarrow> ('vs, 'db) IngestState \<times> (EngineError + IngestOutcome)" where
  "ingest I ids meta tenant r st =
     (case upsert_row I meta tenant (ii_record ids) r (is_db st) of
        (db, Inl e) \<Rightarrow> (st\<lparr>is_db := db\<rparr>, Inl e)
      | (db, Inr u) \<Rightarrow>
     (let st = st\<lparr>is_db := db\<rparr>;
          chunks = chunk_body (ig_count I) (re_body r) (cm_chunking (sm_context meta))
      in if chunks = [] then
           (st, Inr \<lparr>io_record_id = ii_record ids, io_chunks_written = 0, io_inserted = True\<rparr>)
         else (case ensure_collection I meta st of
           (st, Inl e) \<Rightarrow> (st, Inl e)
         | (st, Inr u) \<Rightarrow>
        (case ig_embed I chunks of
           Inl e \<Rightarrow> (st, Inl (EeBackend (''embedder: '' @ show_error e)))
         | Inr embeddings \<Rightarrow>
        (if length embeddings \<noteq> length chunks then
           (st, Inl (EeBackend (''embedder returned '' @ show_nat (length embeddings) @ '' vectors for ''
                     @ show_nat (length chunks) @ '' chunks'')))
         else
           (let vec = vec_chunks I ids tenant r chunks embeddings
            in case vs_upsert (ig_vector_store I) (is_vectors st) (sm_collection meta) vec of
                 (vs, Inl e) \<Rightarrow> (st\<lparr>is_vectors := vs\<rparr>,
                     Inl (EeBackend (''vector store upsert: '' @ show_error e)))
               | (vs, Inr u) \<Rightarrow> (st\<lparr>is_vectors := vs\<rparr>,
                     Inr \<lparr>io_record_id = ii_record ids, io_chunks_written = length vec, io_inserted = True\<rparr>)))))))"

definition ingest_delete :: "('vs, 'db) Ingestor \<Rightarrow> SchemaMeta \<Rightarrow> string \<Rightarrow> 'db \<Rightarrow> 'db \<times> (EngineError + unit)" where
  "ingest_delete I meta record_id db =
     (if \<not> is_safe_ident (sm_table meta) then (db, Inl (ingest_unsafe_table meta))
      else case pg_execute (ig_store I) db (''DELETE FROM '' @ sm_table meta @ '' WHERE id = $1'') [PgText record_id] of
        (db', Inl e) \<Rightarrow> (db', Inl (EeBackend e))
      | (db', Inr n) \<Rightarrow> (db', Inr ()))"

section \<open>Bounds of the chunks\<close>

lemma next_boundary_bounds: "i \<le> length s \<Longrightarrow> i \<le> next_boundary s i \<and> next_boundary s i \<le> length s"
proof (induction s i rule: next_boundary.induct)
  case (1 s i)
  then show ?case by (subst (1 2) next_boundary.simps) auto
qed

lemma carry_overlap_length: "length (carry_overlap current overlap) \<le> 4 * overlap"
proof (cases "overlap = 0 \<or> length current \<le> saturating_mul overlap 4")
  case True
  then show ?thesis by (auto simp: carry_overlap_def saturating_mul_def Let_def)
next
  case False
  let ?t = "saturating_mul overlap 4"
  have "length current - ?t \<le> next_boundary current (length current - ?t)"
    using next_boundary_bounds [of "length current - ?t" current] by simp
  moreover have "?t \<le> 4 * overlap" by (simp add: saturating_mul_def)
  ultimately show ?thesis using False by (simp add: carry_overlap_def Let_def)
qed

lemma length_trim: "length (trim s) \<le> length s"
  using trim_sublist by (rule sublist_length_le)

lemma length_blank_line [simp]: "length blank_line = 2"
  by (simp add: blank_line_def)

end
