(* ===== verification/Rust_Text.thy ===== *)
theory Rust_Text
  imports Rust_Std
begin

text \<open>
  Laws of trimming and splitting strings: white space is a prefix code, so a string trims to
  nothing exactly when it is a sequence of white-space characters; splitting at a pattern
  inverts joining, and no piece holds the pattern.
\<close>

section \<open>White space\<close>

definition blank :: "string \<Rightarrow> bool" where
  "blank s \<longleftrightarrow> (\<exists>ws. set ws \<subseteq> set white_space \<and> concat ws = s)"

lemma blank_Nil [simp]: "blank []"
  unfolding blank_def by (rule exI [of _ "[]"]) simp

lemma blank_append: "blank s \<Longrightarrow> blank t \<Longrightarrow> blank (s @ t)"
proof -
  assume "blank s" "blank t"
  then obtain us vs where "set us \<subseteq> set white_space" "concat us = s"
    "set vs \<subseteq> set white_space" "concat vs = t" by (auto simp: blank_def)
  then show ?thesis unfolding blank_def by (intro exI [of _ "us @ vs"]) simp
qed

lemma starts_with_iff: "starts_with s p \<longleftrightarrow> prefix p s"
  by (auto simp: starts_with_def prefix_def) (metis append_take_drop_id)

text \<open>The code is prefix-free.\<close>

lemma white_prefix_free_list:
  "list_all (\<lambda>v. list_all (\<lambda>w. take (length v) w = v \<longrightarrow> v = w) white_space) white_space"
  by code_simp

lemma white_prefix_free:
  assumes "v \<in> set white_space" "w \<in> set white_space" "prefix v w"
  shows "v = w"
proof -
  have "take (length v) w = v" using assms(3) by (auto simp: prefix_def)
  with white_prefix_free_list assms(1, 2) show ?thesis by (auto simp: list_all_iff)
qed

lemma trim_prefixes_None:
  "find (\<lambda>w. w \<noteq> [] \<and> starts_with s w) ws = None \<Longrightarrow> trim_prefixes ws s = s"
  by (subst trim_prefixes.simps) simp

lemma trim_prefixes_Some:
  "find (\<lambda>w. w \<noteq> [] \<and> starts_with s w) ws = Some w \<Longrightarrow> trim_prefixes ws s = trim_prefixes ws (drop (length w) s)"
  by (subst trim_prefixes.simps) simp

lemma trim_prefixes_Nil [simp]: "trim_prefixes ws [] = []"
  by (rule trim_prefixes_None) (auto simp: find_None_iff starts_with_def)

lemma trim_start_blank: "trim_start s = [] \<longleftrightarrow> blank s"
proof
  have "trim_prefixes white_space s = [] \<Longrightarrow> blank s"
  proof (induction white_space s rule: trim_prefixes.induct)
    case (1 s)
    show ?case
    proof (cases "find (\<lambda>w. w \<noteq> [] \<and> starts_with s w) white_space")
      case None
      with 1(2) show ?thesis by (simp add: trim_prefixes_None)
    next
      case (Some w)
      then have w: "w \<in> set white_space" "s = w @ drop (length w) s"
        by (auto simp: find_Some_iff starts_with_def) (metis append_take_drop_id)
      have "blank (drop (length w) s)"
        using 1(1) [OF Some] 1(2) by (simp only: trim_prefixes_Some [OF Some])
      moreover have "blank w" unfolding blank_def using w(1) by (intro exI [of _ "[w]"]) simp
      ultimately show ?thesis using blank_append w(2) by metis
    qed
  qed
  then show "trim_start s = [] \<Longrightarrow> blank s" by (simp add: trim_start_def)
next
  assume "blank s"
  then obtain ws where "set ws \<subseteq> set white_space" "concat ws = s" by (auto simp: blank_def)
  then have "trim_prefixes white_space s = []"
  proof (induction ws arbitrary: s)
    case Nil
    then show ?case by simp
  next
    case (Cons v ws)
    then have v: "v \<in> set white_space" "v \<noteq> []" "starts_with s v" "s = v @ concat ws"
      by (auto simp: starts_with_def white_space_nonempty)
    then obtain w where w: "find (\<lambda>w. w \<noteq> [] \<and> starts_with s w) white_space = Some w"
      by (cases "find (\<lambda>w. w \<noteq> [] \<and> starts_with s w) white_space") (auto simp: find_None_iff)
    then have "w \<in> set white_space" "prefix w s" by (auto simp: find_Some_iff starts_with_iff)
    moreover have "prefix v s" using v(3) by (simp add: starts_with_iff)
    ultimately have "w = v" using white_prefix_free v(1) prefix_same_cases by metis
    then have "trim_prefixes white_space s = trim_prefixes white_space (concat ws)"
      using trim_prefixes_Some [OF w] v(4) by simp
    with Cons.IH [of "concat ws"] Cons.prems(1) show ?case by simp
  qed
  then show "trim_start s = []" by (simp add: trim_start_def)
qed

text \<open>The remainder of a trim at the start does not start with white space.\<close>

lemma trim_start_stops: "w \<in> set white_space \<Longrightarrow> \<not> starts_with (trim_start s) w"
  unfolding trim_start_def
proof (induction white_space s rule: trim_prefixes.induct)
  case (1 s)
  show ?case
  proof (cases "find (\<lambda>w. w \<noteq> [] \<and> starts_with s w) white_space")
    case None
    with 1(2) white_space_nonempty [OF 1(2)] show ?thesis
      unfolding trim_prefixes_None [OF None] find_None_iff by blast
  next
    case (Some v)
    show ?thesis unfolding trim_prefixes_Some [OF Some] by (rule 1(1) [OF Some 1(2)])
  qed
qed

lemma trim_prefixes_rev_concat:
  "trim_prefixes (map rev white_space) s = [] \<Longrightarrow> \<exists>ws. set ws \<subseteq> set white_space \<and> rev s = concat ws"
proof (induction "map rev white_space" s rule: trim_prefixes.induct)
  case (1 s)
  show ?case
  proof (cases "find (\<lambda>w. w \<noteq> [] \<and> starts_with s w) (map rev white_space)")
    case None
    with 1(2) show ?thesis by (intro exI [of _ "[]"]) (simp add: trim_prefixes_None)
  next
    case (Some w)
    then obtain v where v: "v \<in> set white_space" "w = rev v" "s = w @ drop (length w) s"
      by (auto simp: find_Some_iff starts_with_def in_set_conv_nth) (metis append_take_drop_id nth_mem)
    obtain ws where "set ws \<subseteq> set white_space" "rev (drop (length w) s) = concat ws"
      using 1(1) [OF Some] 1(2) unfolding trim_prefixes_Some [OF Some] by blast
    then have "set (ws @ [v]) \<subseteq> set white_space" "rev s = concat (ws @ [v])"
      using v by (simp, metis append_Nil2 concat.simps concat_append rev_append rev_rev_ident)
    then show ?thesis by blast
  qed
qed

lemma trim_blank: "trim s = [] \<longleftrightarrow> blank s"
proof
  assume "blank s"
  then have "trim_start s = []" by (simp add: trim_start_blank)
  then show "trim s = []"
    by (simp add: trim_def trim_end_def)
next
  assume "trim s = []"
  then have "trim_prefixes (map rev white_space) (rev (trim_start s)) = []"
    by (simp add: trim_def trim_end_def)
  from trim_prefixes_rev_concat [OF this] obtain ws where
    ws: "set ws \<subseteq> set white_space" "trim_start s = concat ws" by auto
  have "ws = []"
  proof (rule ccontr)
    assume "ws \<noteq> []"
    then obtain w us where "ws = w # us" by (cases ws) auto
    with ws have "w \<in> set white_space" "starts_with (trim_start s) w"
      by (auto simp: starts_with_def)
    then show False using trim_start_stops by blast
  qed
  with ws(2) show "blank s" by (simp add: trim_start_blank)
qed

text \<open>A one-byte white-space character cuts a blank string into blank parts.\<close>

lemma white_newline_list:
  "list_all (\<lambda>w. char_of (10 :: nat) \<in> set w \<longrightarrow> w = [char_of (10 :: nat)]) white_space"
  by code_simp

lemma blank_cut:
  assumes "blank (u @ char_of (10 :: nat) # v)"
  shows "blank u \<and> blank v"
proof -
  obtain ws where "set ws \<subseteq> set white_space" "concat ws = u @ char_of (10 :: nat) # v"
    using assms by (auto simp: blank_def)
  then show ?thesis
  proof (induction ws arbitrary: u)
    case (Cons w ws)
    have w: "w \<in> set white_space" using Cons.prems(1) by simp
    show ?case
    proof (cases "length u < length w")
      case True
      have "(w @ concat ws) ! length u = (u @ char_of (10 :: nat) # v) ! length u" using Cons.prems(2) by simp
      with True have "char_of (10 :: nat) \<in> set w" by (metis nth_append nth_append_length nth_mem)
      with w white_newline_list have "w = [char_of (10 :: nat)]" by (auto simp: list_all_iff)
      with True Cons.prems have "u = []" "v = concat ws" by auto
      moreover have "blank (concat ws)"
        unfolding blank_def using Cons.prems(1) by (intro exI [of _ ws]) simp
      ultimately show ?thesis by simp
    next
      case False
      with Cons.prems(2) obtain u' where u: "u = w @ u'" by (auto simp: append_eq_append_conv2)
      with Cons.prems have "set ws \<subseteq> set white_space" "concat ws = u' @ char_of (10 :: nat) # v" by auto
      from Cons.IH [OF this] have "blank u'" "blank v" by simp_all
      moreover have "blank w" unfolding blank_def using w by (intro exI [of _ "[w]"]) simp
      ultimately show ?thesis using u blank_append by simp
    qed
  qed simp
qed

section \<open>Splitting at a pattern\<close>

lemma split_at_str_not_Nil [simp]: "split_at_str p acc s \<noteq> []"
  by (induction p acc s rule: split_at_str.induct) (subst split_at_str.simps, simp split: list.split)

lemma split_at_str_join: "join_with p (split_at_str p acc s) = acc @ s"
proof (induction p acc s rule: split_at_str.induct)
  case (1 p acc s)
  show ?case
  proof (cases s)
    case Nil
    then show ?thesis by (simp add: split_at_str.simps)
  next
    case (Cons c s')
    show ?thesis
    proof (cases "p \<noteq> [] \<and> starts_with s p")
      case True
      have "s = p @ drop (length p) s" using True by (metis append_take_drop_id starts_with_def)
      moreover have "join_with p (split_at_str p [] (drop (length p) s)) = drop (length p) s"
        using 1(1) [OF Cons] True Cons by simp
      moreover have "join_with p (acc # split_at_str p [] (drop (length p) s))
          = acc @ p @ join_with p (split_at_str p [] (drop (length p) s))"
        by (cases "split_at_str p [] (drop (length p) s)") auto
      ultimately show ?thesis using True Cons by (subst split_at_str.simps) simp
    next
      case False
      then show ?thesis using 1(2) [OF Cons] Cons by (subst split_at_str.simps) auto
    qed
  qed
qed

lemma split_at_str_pieces:
  assumes "p \<noteq> []" "\<forall>i < length acc. \<not> starts_with (drop i (acc @ s)) p" "piece \<in> set (split_at_str p acc s)"
  shows "\<not> sublist p piece"
  using assms
proof (induction p acc s rule: split_at_str.induct)
  case (1 p acc s)
  have acc: "\<not> sublist p acc"
  proof
    assume "sublist p acc"
    then obtain a b where ab: "acc = a @ p @ b" by (auto simp: sublist_def)
    with 1(3) have "length a < length acc" by (cases p) auto
    moreover have "starts_with (drop (length a) (acc @ s)) p" by (simp add: ab starts_with_def)
    ultimately show False using 1(4) by blast
  qed
  show ?case
  proof (cases s)
    case Nil
    with 1(5) acc show ?thesis by (simp add: split_at_str.simps)
  next
    case (Cons c s')
    show ?thesis
    proof (cases "starts_with s p")
      case True
      with 1(5) Cons 1(3) have "piece = acc \<or> piece \<in> set (split_at_str p [] (drop (length p) s))"
        by (subst (asm) split_at_str.simps) auto
      with acc 1(1) [OF Cons] 1(3) True Cons show ?thesis by auto
    next
      case False
      with 1(5) Cons have "piece \<in> set (split_at_str p (acc @ [c]) s')"
        by (subst (asm) split_at_str.simps) auto
      moreover have "\<forall>i < length (acc @ [c]). \<not> starts_with (drop i ((acc @ [c]) @ s')) p"
        using 1(4) False Cons by (auto simp: less_Suc_eq)
      ultimately show ?thesis using 1(2) [OF Cons] 1(3) False Cons by auto
    qed
  qed
qed

end
