(* ===== verification/Ingest_Laws.thy ===== *)
theory Ingest_Laws
  imports Engine_Ingest Engine_Access Rust_Text
begin

text \<open>
  What the chunkers keep and bound, and that the tenant a resource is ingested under bounds
  what a search can find of it.
\<close>

section \<open>Paragraphs\<close>

lemma blank_blank_line: "blank blank_line"
proof -
  have "char_of (10 :: nat) # [] \<in> set white_space" by code_simp
  then show ?thesis
    unfolding blank_def blank_line_def
    by (intro exI [of _ "[[char_of (10 :: nat)], [char_of (10 :: nat)]]"]) simp
qed

lemma blank_join: "blank (join_with blank_line xs) \<longleftrightarrow> list_all blank xs"
proof (induction blank_line xs rule: join_with.induct)
  case (3 x y ys)
  have "blank (x @ blank_line @ z) \<longleftrightarrow> blank x \<and> blank z" for z
  proof
    assume "blank (x @ blank_line @ z)"
    then have "blank x" "blank (char_of (10 :: nat) # z)"
      using blank_cut [of x "char_of (10 :: nat) # z"] by (simp_all add: blank_line_def)
    then show "blank x \<and> blank z" using blank_cut [of "[]" z] by simp
  qed (intro blank_append blank_blank_line; simp)
  with 3 show ?case by simp
qed simp_all

lemma split_paragraphs: "join_with blank_line (split_str blank_line body) = body"
  using split_at_str_join [of blank_line "[]" body] by (simp add: split_str_def blank_line_def)

lemma paragraphs_exist: "trim body \<noteq> [] \<Longrightarrow> paragraphs body \<noteq> []"
  using blank_join [of "split_str blank_line body"]
  by (auto simp: paragraphs_def trim_blank split_paragraphs filter_empty_conv list_all_iff)

lemma paragraphs_nonblank: "p \<in> set (paragraphs body) \<Longrightarrow> \<not> blank p"
  by (simp add: paragraphs_def trim_blank)

section \<open>Semantic chunks without overlap\<close>

text \<open>The reference: paragraphs are grouped greedily, a group closed when the next one would overflow it.\<close>

fun semantic_groups :: "token_count \<Rightarrow> nat \<Rightarrow> string list \<Rightarrow> string list \<Rightarrow> string list list" where
  "semantic_groups tokens max_tokens g [] = (if g = [] then [] else [g])"
| "semantic_groups tokens max_tokens g (p # ps) =
     (if g \<noteq> [] \<and> max_tokens < tokens (join_with blank_line g @ blank_line @ p)
      then g # semantic_groups tokens max_tokens [p] ps
      else semantic_groups tokens max_tokens (g @ [p]) ps)"

lemma join_with_snoc: "g \<noteq> [] \<Longrightarrow> join_with sep (g @ [p]) = join_with sep g @ sep @ p"
  by (induction sep g rule: join_with.induct) auto

lemma join_with_nonempty: "\<forall>p \<in> set g. p \<noteq> [] \<Longrightarrow> join_with sep g = [] \<longleftrightarrow> g = []"
  by (induction sep g rule: join_with.induct) auto

lemma semantic_groups_nonempty: "g \<noteq> [] \<Longrightarrow> semantic_groups tokens max_tokens g ps \<noteq> []"
  by (induction tokens max_tokens g ps rule: semantic_groups.induct) auto

lemma semantic_groups_hd:
  "g \<noteq> [] \<Longrightarrow> prefix g (hd (semantic_groups tokens max_tokens g ps))"
  by (induction tokens max_tokens g ps rule: semantic_groups.induct) (auto dest: append_prefixD)

lemma semantic_groups_concat: "concat (semantic_groups tokens max_tokens g ps) = g @ ps"
  by (induction tokens max_tokens g ps rule: semantic_groups.induct) auto

definition group_ok :: "token_count \<Rightarrow> nat \<Rightarrow> string list \<Rightarrow> bool" where
  "group_ok tokens max_tokens g \<longleftrightarrow>
     g \<noteq> [] \<and> (length g = 1 \<or> tokens (join_with blank_line g) \<le> max_tokens)"

lemma semantic_groups_ok:
  "g = [] \<or> group_ok tokens max_tokens g
   \<Longrightarrow> list_all (group_ok tokens max_tokens) (semantic_groups tokens max_tokens g ps)"
proof (induction tokens max_tokens g ps rule: semantic_groups.induct)
  case (2 tokens max_tokens g p ps)
  have "group_ok tokens max_tokens [p]" by (simp add: group_ok_def)
  moreover have "group_ok tokens max_tokens (g @ [p])"
    if "\<not> (g \<noteq> [] \<and> max_tokens < tokens (join_with blank_line g @ blank_line @ p))"
    using that by (cases "g = []") (simp_all add: group_ok_def join_with_snoc)
  ultimately show ?case using 2 by auto
qed auto

lemma semantic_groups_greedy:
  "successively (\<lambda>g h. max_tokens < tokens (join_with blank_line g @ blank_line @ hd h))
     (semantic_groups tokens max_tokens g ps)"
proof (induction tokens max_tokens g ps rule: semantic_groups.induct)
  case (2 tokens max_tokens g p ps)
  show ?case
  proof (cases "g \<noteq> [] \<and> max_tokens < tokens (join_with blank_line g @ blank_line @ p)")
    case True
    obtain h t where ht: "semantic_groups tokens max_tokens [p] ps = h # t"
      using semantic_groups_nonempty [of "[p]"] by (cases "semantic_groups tokens max_tokens [p] ps") auto
    with semantic_groups_hd [of "[p]" tokens max_tokens ps] have "hd h = p"
      by (cases h) auto
    with True 2(1) ht show ?thesis by simp
  next
    case False
    with 2(2) show ?thesis by auto
  qed
qed simp

lemma semantic_loop_groups:
  assumes "\<forall>p \<in> set (g @ ps). p \<noteq> []" "g @ ps \<noteq> []"
  shows "semantic_loop tokens max_tokens 0 ps (join_with blank_line g) chunks
    = (let groups = semantic_groups tokens max_tokens g ps
       in (chunks @ map (\<lambda>g. trim (join_with blank_line g)) (butlast groups), join_with blank_line (last groups)))"
  using assms
proof (induction tokens max_tokens g ps arbitrary: chunks rule: semantic_groups.induct)
  case (1 tokens max_tokens g)
  then show ?case by simp
next
  case (2 tokens max_tokens g p ps)
  have ne: "join_with blank_line g = [] \<longleftrightarrow> g = []" using 2(3) by (simp add: join_with_nonempty)
  show ?case
  proof (cases "g \<noteq> [] \<and> max_tokens < tokens (join_with blank_line g @ blank_line @ p)")
    case True
    let ?f = "\<lambda>g. trim (join_with blank_line g)"
    let ?rest = "semantic_groups tokens max_tokens [p] ps"
    have full: "(max_tokens < tokens (join_with blank_line g @ blank_line @ p) \<and> join_with blank_line g \<noteq> []) = True"
      using True ne by simp
    have "carry_overlap (join_with blank_line g) 0 = []" by (simp add: carry_overlap_def)
    then have "semantic_loop tokens max_tokens 0 (p # ps) (join_with blank_line g) chunks
        = semantic_loop tokens max_tokens 0 ps (join_with blank_line [p]) (chunks @ [?f g])"
      by (simp only: semantic_loop.simps Let_def full if_True) simp
    also have "\<dots> = (let groups = ?rest in (chunks @ [?f g] @ map ?f (butlast groups), join_with blank_line (last groups)))"
      using 2(1) [OF True, of "chunks @ [?f g]"] 2(3) by simp
    also have "\<dots> = (let groups = g # ?rest in (chunks @ map ?f (butlast groups), join_with blank_line (last groups)))"
      using semantic_groups_nonempty [of "[p]" tokens max_tokens ps] by (simp add: Let_def)
    finally show ?thesis using True by simp
  next
    case False
    have full: "(max_tokens < tokens (join_with blank_line g @ blank_line @ p) \<and> join_with blank_line g \<noteq> []) = False"
      using False ne by auto
    have "(if join_with blank_line g \<noteq> [] then join_with blank_line g @ blank_line else join_with blank_line g) @ p
        = join_with blank_line (g @ [p])"
      by (cases "g = []") (simp_all add: ne join_with_snoc)
    then have "semantic_loop tokens max_tokens 0 (p # ps) (join_with blank_line g) chunks
        = semantic_loop tokens max_tokens 0 ps (join_with blank_line (g @ [p])) chunks"
      by (simp only: semantic_loop.simps Let_def full if_False)
    with 2(2) [OF False, of chunks] 2(3) False show ?thesis by auto
  qed
qed

text \<open>
  C13: semantic chunking without overlap loses no paragraph and respects the budget: the
  paragraphs of the body that are not blank are cut, in order, into non-empty groups; each
  chunk is one group joined by blank lines and trimmed; a group of more than one paragraph
  counts at most \<open>max_tokens\<close> tokens, whatever the counter; and the grouping is greedy.
\<close>

theorem semantic_chunks_partition:
  assumes "trim body \<noteq> []"
  shows "\<exists>groups. concat groups = paragraphs body
     \<and> chunk_body tokens body (Semantic max_tokens 0) = map (\<lambda>g. trim (join_with blank_line g)) groups
     \<and> list_all (group_ok tokens max_tokens) groups
     \<and> successively (\<lambda>g h. max_tokens < tokens (join_with blank_line g @ blank_line @ hd h)) groups"
proof -
  let ?gs = "semantic_groups tokens max_tokens [] (paragraphs body)"
  have ne: "paragraphs body \<noteq> []" using assms by (rule paragraphs_exist)
  have concat: "concat ?gs = paragraphs body" by (simp add: semantic_groups_concat)
  then have gs: "?gs \<noteq> []" using ne by auto
  have ok: "list_all (group_ok tokens max_tokens) ?gs" by (rule semantic_groups_ok) simp
  have "last ?gs \<in> set ?gs" using gs by simp
  with ok have "last ?gs \<noteq> []" by (auto simp: list_all_iff group_ok_def)
  moreover have "set (last ?gs) \<subseteq> set (concat ?gs)" using last_in_set [OF gs] by auto
  then have "set (last ?gs) \<subseteq> set (paragraphs body)" by (simp only: concat)
  ultimately have "\<not> list_all blank (last ?gs)"
    using paragraphs_nonblank [of _ body] by (cases "last ?gs") auto
  then have last: "trim (join_with blank_line (last ?gs)) \<noteq> []" by (simp add: trim_blank blank_join)
  have "p \<noteq> []" if "p \<in> set (paragraphs body)" for p
    using paragraphs_nonblank [OF that] by (cases p) simp_all
  then have "\<forall>p \<in> set ([] @ paragraphs body). p \<noteq> []" by simp
  from semantic_loop_groups [OF this, of tokens max_tokens "[]"] ne
  have "semantic_loop tokens max_tokens 0 (paragraphs body) [] []
      = (map (\<lambda>g. trim (join_with blank_line g)) (butlast ?gs), join_with blank_line (last ?gs))"
    by (simp add: Let_def)
  with last have "semantic_chunks tokens body max_tokens 0
      = map (\<lambda>g. trim (join_with blank_line g)) (butlast ?gs) @ [trim (join_with blank_line (last ?gs))]"
    by (simp add: semantic_chunks_def)
  also have "\<dots> = map (\<lambda>g. trim (join_with blank_line g)) ?gs"
    using arg_cong [OF append_butlast_last_id [OF gs], of "map (\<lambda>g. trim (join_with blank_line g))"] by simp
  finally show ?thesis
    using assms concat ok semantic_groups_greedy by (auto simp: chunk_body_def)
qed

definition sample_body :: string where
  "sample_body = ''ab'' @ blank_line @ ''cd'' @ blank_line @ ''ef''"

lemma sample_paragraphs: "paragraphs sample_body = [''ab'', ''cd'', ''ef'']"
  by code_simp

theorem semantic_chunks_partition_witness:
  "\<exists>groups. concat groups = [''ab'', ''cd'', ''ef'']
     \<and> chunk_body char_approx sample_body (Semantic 2 0) = map (\<lambda>g. trim (join_with blank_line g)) groups
     \<and> successively (\<lambda>g h. 2 < char_approx (join_with blank_line g @ blank_line @ hd h)) groups"
proof -
  have "trim sample_body \<noteq> []" by code_simp
  from semantic_chunks_partition [OF this, of char_approx 2] show ?thesis
    unfolding sample_paragraphs by blast
qed

section \<open>Bounds of chunks\<close>

lemma char_approx_le: "char_approx s \<le> n \<Longrightarrow> length s \<le> 4 * n"
  by (simp add: char_approx_def)

lemma semantic_loop_bound:
  assumes "list_all (\<lambda>p. length p \<le> M) ps" "B = max (4 * max_tokens) (4 * overlap + 2 + M)"
    "list_all (\<lambda>c. length c \<le> B) chunks" "length current \<le> B"
    "semantic_loop char_approx max_tokens overlap ps current chunks = (chunks', current')"
  shows "list_all (\<lambda>c. length c \<le> B) chunks' \<and> length current' \<le> B"
  using assms
proof (induction ps arbitrary: current chunks)
  case Nil
  then show ?case by simp
next
  case (Cons p ps)
  define full where "full \<longleftrightarrow> max_tokens < char_approx (current @ blank_line @ p) \<and> current \<noteq> []"
  define cs where "cs = (if full then chunks @ [trim current] else chunks)"
  define cur where "cur = (if full then carry_overlap current overlap else current)"
  define nxt where "nxt = (if cur \<noteq> [] then cur @ blank_line else cur) @ p"
  have step: "semantic_loop char_approx max_tokens overlap (p # ps) current chunks
      = semantic_loop char_approx max_tokens overlap ps nxt cs"
    by (simp only: semantic_loop.simps Let_def full_def cs_def cur_def nxt_def)
  have M: "length p \<le> M" using Cons.prems(1) by simp
  have "list_all (\<lambda>c. length c \<le> B) cs"
    using Cons.prems(3, 4) length_trim [of current] by (auto simp: cs_def)
  moreover have "length nxt \<le> B"
  proof (cases full)
    case True
    then have "length cur \<le> 4 * overlap" by (simp add: cur_def carry_overlap_length)
    then show ?thesis using M Cons.prems(2) by (auto simp: nxt_def)
  next
    case False
    then have "current = [] \<or> length (current @ blank_line @ p) \<le> 4 * max_tokens"
      using char_approx_le [of "current @ blank_line @ p" max_tokens] by (auto simp: full_def)
    then show ?thesis using False M Cons.prems(2) by (auto simp: nxt_def cur_def)
  qed
  ultimately show ?case
    using Cons.IH [of cs nxt] Cons.prems(1, 2, 5) unfolding step by simp
qed

text \<open>
  With the default token counter no semantic chunk is longer than the larger of the
  budget of \<open>4 * max_tokens\<close> bytes and an overlap, a separator and one paragraph, for any
  overlap (however large: the multiplication saturates).
\<close>

theorem semantic_chunks_bounded:
  assumes "trim body \<noteq> []" "list_all (\<lambda>p. length p \<le> M) (paragraphs body)"
  shows "list_all (\<lambda>c. length c \<le> max (4 * max_tokens) (4 * overlap + 2 + M))
           (chunk_body char_approx body (Semantic max_tokens overlap))"
proof -
  let ?B = "max (4 * max_tokens) (4 * overlap + 2 + M)"
  obtain chunks current where
    run: "semantic_loop char_approx max_tokens overlap (paragraphs body) [] [] = (chunks, current)"
    by fastforce
  from semantic_loop_bound [OF assms(2) refl _ _ run] have
    b: "list_all (\<lambda>c. length c \<le> ?B) chunks" "length current \<le> ?B" by simp_all
  have ne: "(if trim current \<noteq> [] then chunks @ [trim current] else chunks) \<noteq> []"
  proof
    assume "(if trim current \<noteq> [] then chunks @ [trim current] else chunks) = []"
    then have e: "chunks = []" "blank current" by (auto simp: trim_blank split: if_splits)
    have blank_step: "blank cur' \<Longrightarrow> False"
      if "semantic_loop char_approx max_tokens overlap ps cur cs = ([], cur')"
        "\<forall>p \<in> set ps. \<not> blank p" "ps \<noteq> [] \<or> \<not> blank cur" for ps cur cs cur'
      using that
    proof (induction ps arbitrary: cur cs)
      case (Cons p ps)
      define cur1 where
        "cur1 = (if max_tokens < char_approx (cur @ blank_line @ p) \<and> cur \<noteq> [] then carry_overlap cur overlap else cur)"
      define nxt where "nxt = (if cur1 \<noteq> [] then cur1 @ blank_line else cur1) @ p"
      define cs1 where
        "cs1 = (if max_tokens < char_approx (cur @ blank_line @ p) \<and> cur \<noteq> [] then cs @ [trim cur] else cs)"
      have "\<not> blank nxt"
        using blank_join [of "[cur1, p]"] Cons.prems(3) by (auto simp: nxt_def)
      moreover have "semantic_loop char_approx max_tokens overlap ps nxt cs1 = ([], cur')"
        using Cons.prems(2) by (simp only: semantic_loop.simps Let_def cur1_def nxt_def cs1_def)
      ultimately show False using Cons.IH [of nxt cs1] Cons.prems(1, 3) by simp
    qed simp
    from blank_step [of "paragraphs body" "[]" "[]" current] run e paragraphs_exist [OF assms(1)]
      paragraphs_nonblank [of _ body] show False by blast
  qed
  have "list_all (\<lambda>c. length c \<le> ?B) (if trim current \<noteq> [] then chunks @ [trim current] else chunks)"
    using b length_trim [of current] by auto
  with ne assms(1) run show ?thesis by (simp add: chunk_body_def semantic_chunks_def)
qed

theorem semantic_chunks_bounded_witness:
  "list_all (\<lambda>c. length c \<le> 16) (chunk_body char_approx sample_body (Semantic 1 3))"
proof -
  have "trim sample_body \<noteq> []" by code_simp
  moreover have "list_all (\<lambda>p. length p \<le> 2) (paragraphs sample_body)" by (simp add: sample_paragraphs)
  ultimately show ?thesis using semantic_chunks_bounded [of sample_body 2 1 3] by simp
qed

section \<open>Recursive chunks\<close>

lemma join_with_sublist: "x \<in> set xs \<Longrightarrow> sublist x (join_with sep xs)"
proof (induction sep xs rule: join_with.induct)
  case (3 sep x' y ys)
  have "sublist z (a @ b @ z)" "sublist x' (x' @ z)" for a b z :: string
    by (metis append.assoc append_Nil2 sublist_appendI, metis sublist_append_leftI sublist_order.order.refl sublist_append_rightI)
  with 3 show ?case by (auto intro: sublist_order.order.trans)
qed auto

lemma utf8_chars_concat: "concat (utf8_chars s) = s"
  by (induction s rule: utf8_chars.induct) simp_all

lemma split_str_sublist:
  assumes "piece \<in> set (split_str sep s)"
  shows "sublist piece s"
proof (cases "sep = []")
  case True
  have "sublist x (concat xs)" if "x \<in> set xs" for x :: string and xs
    using that by (metis concat.simps(2) concat_append split_list sublist_appendI)
  with True assms utf8_chars_concat [of s] show ?thesis by (auto simp: split_str_def) metis
next
  case False
  with assms join_with_sublist [of piece "split_at_str sep [] s" sep] show ?thesis
    by (simp add: split_str_def split_at_str_join)
qed

lemma split_str_free: "sep \<noteq> [] \<Longrightarrow> piece \<in> set (split_str sep s) \<Longrightarrow> \<not> sublist sep piece"
  using split_at_str_pieces [of sep "[]" s piece] by (simp add: split_str_def)

lemma recursive_inner_sublist:
  "piece \<in> set (recursive_inner tokens max_tokens seps input) \<Longrightarrow> sublist piece input"
proof (induction seps arbitrary: input)
  case (Cons sep seps)
  show ?case
  proof (cases "tokens input \<le> max_tokens")
    case False
    with Cons.prems obtain q where "q \<in> set (split_str sep input)"
      "piece = q \<or> piece \<in> set (recursive_inner tokens max_tokens seps q)"
      by (auto split: if_splits)
    then show ?thesis using Cons.IH split_str_sublist by (meson sublist_order.order.trans)
  qed (use Cons.prems in simp)
qed simp

text \<open>
  Recursive chunking respects the budget as far as the separators allow: every piece
  counts at most \<open>max_tokens\<close> tokens, or none of the (non-empty) separators occurs in it;
  and every piece is a part of the body.
\<close>

theorem recursive_chunks_split:
  "list_all (\<lambda>piece. sublist piece body
       \<and> (tokens piece \<le> max_tokens \<or> list_all (\<lambda>sep. sep = [] \<or> \<not> sublist sep piece) seps))
     (recursive_chunks tokens body seps max_tokens)"
proof -
  have "tokens piece \<le> max_tokens \<or> list_all (\<lambda>sep. sep = [] \<or> \<not> sublist sep piece) seps"
    if "piece \<in> set (recursive_inner tokens max_tokens seps input)" for piece input
    using that
  proof (induction seps arbitrary: input)
    case (Cons sep seps)
    show ?case
    proof (cases "tokens input \<le> max_tokens")
      case False
      with Cons.prems obtain q where q: "q \<in> set (split_str sep input)"
        "piece = q \<and> tokens q \<le> max_tokens \<or> piece \<in> set (recursive_inner tokens max_tokens seps q)"
        by (auto split: if_splits)
      from q(2) show ?thesis
      proof
        assume p: "piece \<in> set (recursive_inner tokens max_tokens seps q)"
        have "sep = [] \<or> \<not> sublist sep piece"
          using split_str_free [OF _ q(1)] recursive_inner_sublist [OF p] by (meson sublist_order.order.trans)
        with Cons.IH [OF p] show ?thesis by simp
      qed simp
    qed (use Cons.prems in simp)
  qed simp
  then show ?thesis
    using recursive_inner_sublist [of _ tokens max_tokens seps body]
    by (auto simp: list_all_iff recursive_chunks_def)
qed

lemma recursive_sample:
  "recursive_chunks length ''ab cdef'' ['' '', ''x''] 2 = [''ab'', ''cdef'']"
  by code_simp

theorem recursive_chunks_split_witness:
  "recursive_chunks length ''ab cdef'' ['' '', ''x''] 2 = [''ab'', ''cdef'']
     \<and> \<not> sublist '' '' ''cdef'' \<and> \<not> sublist ''x'' ''cdef''"
  using recursive_chunks_split [of "''ab cdef''" length 2 "['' '', ''x'']"]
  by (simp add: recursive_sample)

section \<open>Fixed chunks\<close>

lemma byte_chunks_concat: "0 < n \<Longrightarrow> concat (byte_chunks n s) = s"
proof (induction n s rule: byte_chunks.induct)
  case (1 n s)
  then show ?case by (cases "s = []") (simp_all add: byte_chunks.simps [of n "[]"] byte_chunks.simps [of n s])
qed

lemma byte_chunks_length: "c \<in> set (byte_chunks n s) \<Longrightarrow> length c \<le> n \<and> c \<noteq> []"
proof (induction n s rule: byte_chunks.induct)
  case (1 n s)
  show ?case
  proof (cases "s = [] \<or> n = 0")
    case False
    with 1 show ?thesis by (auto simp: byte_chunks.simps [of n s])
  qed (use 1(2) in \<open>auto simp: byte_chunks.simps [of n s]\<close>)
qed

definition ascii :: "string \<Rightarrow> bool" where
  "ascii s \<longleftrightarrow> list_all (\<lambda>c. (of_char c :: nat) < 128) s"

lemma rust_str_ascii: "ascii s \<Longrightarrow> rust_str s"
  unfolding rust_str_def ascii_def
  by (rule utf8_ascii) (auto simp: bytes_of_def list_all_iff word_less_nat_alt unat_of_char)

text \<open>
  Fixed-size chunks are non-empty and at most \<open>size\<close> bytes long, are the body cut in
  order when it is ASCII, and in general drop every slice that is not valid UTF-8: the body
  of one two-byte character, cut at one byte, yields no chunk at all.
\<close>

theorem fixed_chunks_cut:
  assumes "0 < n"
  shows "list_all (\<lambda>c. c \<noteq> [] \<and> length c \<le> n) (fixed_char_chunks body n)
    \<and> (ascii body \<longrightarrow> concat (fixed_char_chunks body n) = body)
    \<and> fixed_char_chunks (byte_str [0xC3, 0xA9]) 1 = []"
proof (intro conjI impI)
  show "list_all (\<lambda>c. c \<noteq> [] \<and> length c \<le> n) (fixed_char_chunks body n)"
    using assms by (auto simp: list_all_iff fixed_char_chunks_def dest: byte_chunks_length)
  assume "ascii body"
  then have "list_all (\<lambda>c. (of_char c :: nat) < 128) (concat (byte_chunks n body))"
    using byte_chunks_concat [OF assms] by (simp add: ascii_def)
  then have "\<forall>c \<in> set (byte_chunks n body). rust_str c"
    by (intro ballI rust_str_ascii) (auto simp: ascii_def list_all_iff)
  then have "fixed_char_chunks body n = byte_chunks n body"
    using assms by (simp add: fixed_char_chunks_def filter_id_conv)
  then show "concat (fixed_char_chunks body n) = body" using byte_chunks_concat [OF assms] by simp
next
  have "byte_chunks 1 (byte_str [0xC3, 0xA9]) = [byte_str [0xC3], byte_str [0xA9]]"
    by (simp add: byte_str_def byte_chunks.simps)
  moreover have "\<not> rust_str (byte_str [0xC3])" "\<not> rust_str (byte_str [0xA9])" by code_simp+
  ultimately show "fixed_char_chunks (byte_str [0xC3, 0xA9]) 1 = []" by (simp add: fixed_char_chunks_def)
qed

theorem fixed_chunks_cut_witness:
  "ascii ''abcde'' \<and> concat (fixed_char_chunks ''abcde'' 2) = ''abcde''"
proof -
  have "ascii ''abcde''" by code_simp
  with fixed_chunks_cut [of 2 "''abcde''"] show ?thesis by simp
qed

section \<open>Tenants\<close>

text \<open>What an ingest call may have written to a collection.\<close>

type_synonym ingest_call = "IngestIds \<times> SchemaMeta \<times> string \<times> Resource"

definition written_by :: "('vs, 'db) Ingestor \<Rightarrow> ingest_call \<Rightarrow> string \<Rightarrow> Chunk \<Rightarrow> bool" where
  "written_by I call n c \<longleftrightarrow>
     (case call of (ids, meta, tenant, r) \<Rightarrow>
        n = sm_collection meta
        \<and> ch_content c \<in> set (chunk_body (ig_count I) (re_body r) (cm_chunking (sm_context meta)))
        \<and> (\<exists>seq. ch_metadata c = chunk_metadata I tenant (ii_record ids) r seq))"

definition run_ingests :: "('vs, 'db) Ingestor \<Rightarrow> ingest_call list \<Rightarrow> ('vs, 'db) IngestState \<Rightarrow> ('vs, 'db) IngestState" where
  "run_ingests I calls st = fold (\<lambda>(ids, meta, tenant, r) st. fst (ingest I ids meta tenant r st)) calls st"

lemma vec_chunks_written:
  assumes "c \<in> set (vec_chunks I ids tenant r chunks embeddings)"
    "chunks = chunk_body (ig_count I) (re_body r) (cm_chunking (sm_context meta))"
  shows "written_by I (ids, meta, tenant, r) (sm_collection meta) c"
  using assms
  by (auto simp: vec_chunks_def written_by_def in_set_enumerate_eq in_set_zip dest!: set_zip_leftD)

context vector_store
begin

lemma ensure_state:
  assumes "ig_vector_store I = V" "valid (is_vectors st)" "all_chunks (is_vectors st) P"
  shows "valid (is_vectors (fst (ensure_collection I meta st)))
    \<and> all_chunks (is_vectors (fst (ensure_collection I meta st))) P"
proof (cases "sm_collection meta \<in> is_ensured st")
  case True
  with assms show ?thesis by (simp add: ensure_collection_def)
next
  case False
  let ?d = "cm_vector_dims (sm_context meta)"
  obtain vs r where r: "vs_ensure_collection V (is_vectors st) (sm_collection meta) ?d = (vs, r)" by fastforce
  have "valid vs" "all_chunks vs P"
    using ensure_valid [OF assms(2), of "sm_collection meta" ?d]
      ensure_all_chunks [OF assms(2, 3), of "sm_collection meta" ?d] by (simp_all add: r)
  then show ?thesis using False by (cases r) (simp_all add: ensure_collection_def assms(1) r)
qed

lemma ingest_state:
  assumes "ig_vector_store I = V" "valid (is_vectors st)" "all_chunks (is_vectors st) P"
    "\<And>c. written_by I (ids, meta, tenant, r) (sm_collection meta) c \<Longrightarrow> P (sm_collection meta) c"
  shows "valid (is_vectors (fst (ingest I ids meta tenant r st)))
    \<and> all_chunks (is_vectors (fst (ingest I ids meta tenant r st))) P"
proof -
  obtain db row where row: "upsert_row I meta tenant (ii_record ids) r (is_db st) = (db, row)" by fastforce
  let ?st = "st\<lparr>is_db := db\<rparr>"
  let ?chunks = "chunk_body (ig_count I) (re_body r) (cm_chunking (sm_context meta))"
  show ?thesis
  proof (cases "(\<exists>e. row = Inl e) \<or> ?chunks = []")
    case True
    then show ?thesis
    proof
      assume "\<exists>e. row = Inl e"
      with assms(2, 3) row show ?thesis by (auto simp: ingest_def)
    next
      assume "?chunks = []"
      with assms(2, 3) row show ?thesis by (cases row) (simp_all add: ingest_def Let_def)
    qed
  next
    case False
    then obtain u where u: "row = Inr u" by (cases row) auto
    obtain st2 en where en: "ensure_collection I meta ?st = (st2, en)" by fastforce
    have st2: "valid (is_vectors st2)" "all_chunks (is_vectors st2) P"
      using ensure_state [of I ?st P meta] assms(1, 2, 3) by (simp_all add: en)
    show ?thesis
    proof (cases en)
      case (Inl e)
      with st2 False row u en show ?thesis by (simp add: ingest_def Let_def)
    next
      case (Inr v)
      show ?thesis
      proof (cases "ig_embed I ?chunks")
        case (Inl e)
        with st2 False row u en Inr show ?thesis by (simp add: ingest_def Let_def)
      next
        case embed: (Inr embeddings)
        let ?vec = "vec_chunks I ids tenant r ?chunks embeddings"
        obtain vs res where up: "vs_upsert V (is_vectors st2) (sm_collection meta) ?vec = (vs, res)" by fastforce
        have "\<forall>c \<in> set ?vec. P (sm_collection meta) c"
          using vec_chunks_written assms(4) by blast
        then have "valid vs" "all_chunks vs P"
          using upsert_valid [OF st2(1), of "sm_collection meta" ?vec]
            upsert_all_chunks [OF st2, of ?vec "sm_collection meta"] by (simp_all add: up)
        with st2 False row u en Inr embed show ?thesis
          by (cases res) (simp_all add: ingest_def Let_def assms(1) up)
      qed
    qed
  qed
qed

lemma run_ingests_state:
  assumes "ig_vector_store I = V" "valid (is_vectors st)" "all_chunks (is_vectors st) (\<lambda>n c. \<exists>call \<in> B. written_by I call n c)"
    "set calls \<subseteq> B"
  shows "valid (is_vectors (run_ingests I calls st))
    \<and> all_chunks (is_vectors (run_ingests I calls st)) (\<lambda>n c. \<exists>call \<in> B. written_by I call n c)"
  using assms(2-4)
proof (induction calls arbitrary: st)
  case (Cons call calls)
  obtain ids meta tenant r where call: "call = (ids, meta, tenant, r)" by (cases call) auto
  let ?P = "\<lambda>n c. \<exists>call \<in> B. written_by I call n c"
  have "valid (is_vectors (fst (ingest I ids meta tenant r st)))
      \<and> all_chunks (is_vectors (fst (ingest I ids meta tenant r st))) ?P"
    using Cons.prems call by (intro ingest_state [OF assms(1)]) auto
  with Cons show ?case by (simp add: run_ingests_def call)
qed (simp add: run_ingests_def)

end

lemma tenant_filter_means:
  assumes "tenant \<noteq> []" "meets_filter (tenant_filter tenant) m" "map_of m ''tenant'' = Some (JString t)"
  shows "t = tenant"
  using assms
  by (auto simp: meets_filter_def tenant_filter_def field_holds_def option_json_eq_def starts_with_def)

text \<open>
  C12: a tenant with a name finds nothing of another tenant by vector: after any sequence of
  ingest calls into the in-process store, every candidate a vector search for a tenant returns is
  a chunk of the body of a resource that was ingested into that very collection, and under that
  very tenant unless the tenant is empty. A search for the empty tenant passes no tenant filter, so
  it is answered with the chunks of all tenants. Other vector stores are not covered.
\<close>

theorem vector_search_keeps_tenants:
  assumes "vector_search (R\<lparr>rv_store := memory_store\<rparr>)
           (is_vectors (run_ingests (I\<lparr>ig_vector_store := memory_store\<rparr>) calls
              \<lparr>is_vectors = mem_new, is_db = db, is_ensured = {}\<rparr>)) collection q k tenant = Inr hits"
    and "h \<in> set hits"
  shows "\<exists>(ids, meta, t, r) \<in> set calls. (t = tenant \<or> tenant = []) \<and> sm_collection meta = collection
     \<and> ra_content h \<in> set (chunk_body (ig_count I) (re_body r) (cm_chunking (sm_context meta)))"
proof -
  let ?I = "I\<lparr>ig_vector_store := memory_store\<rparr>"
  let ?st = "\<lparr>is_vectors = mem_new, is_db = db, is_ensured = {}\<rparr>"
  let ?P = "\<lambda>n c. \<exists>call \<in> set calls. written_by ?I call n c"
  have "mem_ok mem_new" by (simp add: mem_ok_def mem_new_def)
  moreover have "mem.all_chunks mem_new ?P"
    by (simp add: mem.all_chunks_def mem_collections_def mem_new_def)
  ultimately have st: "mem_ok (is_vectors (run_ingests ?I calls ?st))"
    "mem.all_chunks (is_vectors (run_ingests ?I calls ?st)) ?P"
    using mem.run_ingests_state [of ?I ?st "set calls" calls] by simp_all
  obtain found where f: "vs_search memory_store (is_vectors (run_ingests ?I calls ?st)) collection q k (tenant_filter tenant)
      = Inr found" "hits = map (vec_hit_to_raw (rv_ulid_str R) (rv_parse_rfc3339 R)) found"
    using assms(1) by (auto simp: vector_search_def split: sum.splits)
  then obtain g where g: "g \<in> set found" "h = vec_hit_to_raw (rv_ulid_str R) (rv_parse_rfc3339 R) g"
    using assms(2) by auto
  obtain c where c: "?P collection c" "hit_of g c" "meets_filter (tenant_filter tenant) (ch_metadata c)"
    using mem.search_all_chunks [OF st f(1) g(1)] by blast
  then obtain call where call: "call \<in> set calls" "written_by ?I call collection c" by blast
  obtain ids meta t r where t: "call = (ids, meta, t, r)" by (cases call) auto
  have "map_of (ch_metadata c) ''tenant'' = Some (JString t)"
    using call(2) t by (auto simp: written_by_def chunk_metadata_def)
  then have "t = tenant \<or> tenant = []" using tenant_filter_means [OF _ c(3)] by blast
  moreover have "ra_content h = ch_content c" using c(2) g(2) by (simp add: hit_of_def vec_hit_to_raw_def)
  ultimately show ?thesis using call t by (auto simp: written_by_def)
qed

definition sample_ingestor :: "(InMemoryStore, string list) Ingestor" where
  "sample_ingestor =
     \<lparr>ig_vector_store = memory_store, ig_embed = (\<lambda>ts. Inr (map (\<lambda>t. [f32_one]) ts)), ig_store = sample_postgres,
      ig_count = char_approx, ig_rfc3339 = (\<lambda>t. None)\<rparr>"

definition sample_calls :: "ingest_call list" where
  "sample_calls =
     [(\<lparr>ii_record = ''r1'', ii_chunk = (\<lambda>n. 1)\<rparr>, sample_meta, ''acme'', resource_stub 0 ''a'' ''ours''),
      (\<lparr>ii_record = ''r2'', ii_chunk = (\<lambda>n. 2)\<rparr>, sample_meta, ''other'', resource_stub 0 ''b'' ''theirs'')]"

lemma tenant_chunked:
  "chunk_body char_approx ''ours'' chunking_default = [''ours'']"
  "chunk_body char_approx ''theirs'' chunking_default = [''theirs'']"
  by code_simp+

definition sample_vectors :: InMemoryStore where
  "sample_vectors = is_vectors (run_ingests (sample_ingestor\<lparr>ig_vector_store := memory_store\<rparr>) sample_calls
     \<lparr>is_vectors = mem_new, is_db = [], is_ensured = {}\<rparr>)"

definition tenant_chunk :: "ulid \<Rightarrow> string \<Rightarrow> string \<Rightarrow> string \<Rightarrow> Chunk" where
  "tenant_chunk i text record tenant =
     \<lparr>ch_id = i, ch_content = text, ch_embedding = [f32_one],
      ch_metadata = [(''created_at'', JString []), (''record_id'', JString record),
                     (''seq'', JNumber (PosInt 0)), (''tenant'', JString tenant)]\<rparr>"

lemma sample_vectors_eq:
  "sample_vectors = [''doc'' \<mapsto> \<lparr>co_dims = 1, co_distance = distance_default,
     co_chunks = [tenant_chunk 1 ''ours'' ''r1'' ''acme'', tenant_chunk 2 ''theirs'' ''r2'' ''other'']\<rparr>]"
proof -
  have t: "is_safe_ident ''doc''" by code_simp
  show ?thesis
    by (simp add: t sample_vectors_def run_ingests_def sample_calls_def ingest_def upsert_row_def
        sample_ingestor_def sample_postgres_def resource_stub_def sample_meta_def sample_context_def
        tenant_chunked Let_def ensure_collection_def memory_store_def mem_new_def mem_ensure_collection_def
        mem_upsert_def mem_ensure_def vec_chunks_def chunk_metadata_def tenant_chunk_def)
qed

theorem vector_search_keeps_tenants_witness:
  "\<exists>h. vector_search (sample_retriever\<lparr>rv_store := memory_store\<rparr>) sample_vectors ''doc'' [f32_one] 5 ''acme''
       = Inr [h] \<and> ra_content h = ''ours''
     \<and> (\<exists>(ids, meta, t, r) \<in> set sample_calls. t = ''acme'' \<and> sm_collection meta = ''doc'')"
proof -
  have f: "filter_typed (tenant_filter ''acme'') = Some (F_Eq ''tenant'' (JString ''acme''))" by code_simp
  have p: "filter_passes (Some (F_Eq ''tenant'' (JString ''acme''))) (tenant_chunk 1 ''ours'' ''r1'' ''acme'')"
    "\<not> filter_passes (Some (F_Eq ''tenant'' (JString ''acme''))) (tenant_chunk 2 ''theirs'' ''r2'' ''other'')"
    by (simp_all add: filter_passes_def tenant_chunk_def option_json_eq_def)
  let ?c = "tenant_chunk 1 ''ours'' ''r1'' ''acme''"
  have "mem_search sample_vectors ''doc'' [f32_one] 5 (tenant_filter ''acme'')
      = Inr [to_result (score_chunk distance_default [f32_one] ?c, ?c)]"
    by (simp add: mem_search_def sample_vectors_eq f p sort_by_def Let_def)
  then obtain h where h: "vector_search (sample_retriever\<lparr>rv_store := memory_store\<rparr>) sample_vectors ''doc'' [f32_one] 5 ''acme''
      = Inr [h]" "ra_content h = ''ours''"
    by (simp add: vector_search_def memory_store_def vec_hit_to_raw_def to_result_def tenant_chunk_def)
  have "\<exists>(ids, meta, t, r) \<in> set sample_calls. t = ''acme'' \<and> sm_collection meta = ''doc''
     \<and> ra_content h \<in> set (chunk_body (ig_count sample_ingestor) (re_body r) (cm_chunking (sm_context meta)))"
    using vector_search_keeps_tenants [OF h(1) [unfolded sample_vectors_def]] by fastforce
  with h show ?thesis by (intro exI [of _ h] conjI) blast+
qed

end
