(* ===== verification/Engine_Store.thy ===== *)
theory Engine_Store
  imports Engine_Retrieval Rust_Text
begin

text \<open>
  The persistence layer (\<open>sealstack-engine/src/store.rs\<close>): the statements that keep schemas
  and connector bindings, and the application of generated DDL: the statement splitter and
  the transaction it runs in. The database, the JSON form of a schema and the decoding of a
  row are parameters.
\<close>

section \<open>Splitting SQL\<close>

record SplitState =
  ss_out :: "string list"
  ss_current :: string
  ss_in_str :: bool
  ss_dollar_tag :: "string option"

definition split_init :: SplitState where
  "split_init = \<lparr>ss_out = [], ss_current = [], ss_in_str = False, ss_dollar_tag = None\<rparr>"

definition newline :: char where "newline = char_of (10 :: nat)"
definition single_quote :: char where "single_quote = char_of (39 :: nat)"

text \<open>\<open>bytes[i] as char\<close> pushed to a string: the code point of the byte, encoded.\<close>

definition byte_as_char :: "char \<Rightarrow> string" where
  "byte_as_char c =
     (let n = of_char c :: nat
      in if n < 128 then [c] else [char_of (192 + n div 64), char_of (128 + n mod 64)])"

definition tag_char :: "char \<Rightarrow> bool" where
  "tag_char c \<longleftrightarrow> ascii_alnum c \<or> c = CHR ''_''"

text \<open>The dollar-quote arm: closing an open quote, or opening one; \<open>None\<close> falls through.\<close>

definition dollar_arm :: "string \<Rightarrow> SplitState \<Rightarrow> (string \<times> SplitState) option" where
  "dollar_arm s st =
     (if ss_in_str st \<or> s = [] \<or> hd s \<noteq> CHR ''$'' then None
      else case ss_dollar_tag st of
        Some close \<Rightarrow>
          if starts_with s close
          then Some (drop (length close) s, st\<lparr>ss_current := ss_current st @ close, ss_dollar_tag := None\<rparr>)
          else None
      | None \<Rightarrow>
          (case find_str ''$'' (tl s) of
             None \<Rightarrow> None
           | Some end_tag \<Rightarrow>
               (let tag = take end_tag (tl s); full = ''$'' @ tag @ ''$''
                in if list_all tag_char tag
                   then Some (drop (length full) s,
                              st\<lparr>ss_current := ss_current st @ full, ss_dollar_tag := Some full\<rparr>)
                   else None)))"

definition comment_start :: "string \<Rightarrow> SplitState \<Rightarrow> bool" where
  "comment_start s st \<longleftrightarrow>
     \<not> ss_in_str st \<and> ss_dollar_tag st = None \<and> nth_opt s 0 = Some (CHR ''-'') \<and> nth_opt s 1 = Some (CHR ''-'')"

text \<open>The remaining arms, on one byte.\<close>

definition byte_arm :: "char \<Rightarrow> SplitState \<Rightarrow> SplitState" where
  "byte_arm c st =
     (if ss_dollar_tag st = None \<and> c = single_quote
      then st\<lparr>ss_in_str := \<not> ss_in_str st, ss_current := ss_current st @ [c]\<rparr>
      else if \<not> ss_in_str st \<and> ss_dollar_tag st = None \<and> c = CHR '';''
      then st\<lparr>ss_out := (if trim (ss_current st) \<noteq> [] then ss_out st @ [trim (ss_current st)] else ss_out st),
              ss_current := []\<rparr>
      else st\<lparr>ss_current := ss_current st @ byte_as_char c\<rparr>)"

lemma comment_start_drops:
  "comment_start s st \<Longrightarrow> length (dropWhile (\<lambda>c. c \<noteq> newline) s) < length s"
proof -
  assume "comment_start s st"
  then obtain t where "s = CHR ''-'' # t" by (cases s) (auto simp: comment_start_def nth_opt_def)
  moreover have "CHR ''-'' \<noteq> newline" by code_simp
  ultimately show ?thesis by (simp add: less_Suc_eq_le length_dropWhile_le)
qed

lemma dollar_arm_drops: "dollar_arm s st = Some (rest, st') \<Longrightarrow> ss_dollar_tag st \<noteq> Some [] \<Longrightarrow> length rest < length s"
  by (cases s) (auto simp: dollar_arm_def Let_def starts_with_def split: if_splits option.splits)

text \<open>
  The scan. A tag is never empty, as it holds two dollars; the guard on an empty tag only
  makes the recursion total on states the scan does not reach.
\<close>

function split_scan :: "string \<Rightarrow> SplitState \<Rightarrow> SplitState" where
  "split_scan s st =
     (case s of
        [] \<Rightarrow> st
      | c # s' \<Rightarrow>
          if comment_start s st then split_scan (dropWhile (\<lambda>c. c \<noteq> newline) s) st
          else if ss_dollar_tag st = Some [] then split_scan s' (byte_arm c st)
          else case dollar_arm s st of
            Some (rest, st') \<Rightarrow> split_scan rest st'
          | None \<Rightarrow> split_scan s' (byte_arm c st))"
  by pat_completeness auto
termination
  by (relation "measure (\<lambda>(s, st). length s)") (auto dest: comment_start_drops dollar_arm_drops)

declare split_scan.simps [simp del]

definition split_sql :: "string \<Rightarrow> string list" where
  "split_sql input =
     (let st = split_scan input split_init
      in if trim (ss_current st) \<noteq> [] then ss_out st @ [trim (ss_current st)] else ss_out st)"

section \<open>Statements and transactions\<close>

record PersistedConnector =
  pc_id :: string
  pc_kind :: string
  pc_target_namespace :: string
  pc_target_schema :: string
  pc_tenant :: string
  pc_config :: json
  pc_interval_secs :: "u64 option"

definition executed :: "'db \<times> (string + nat) \<Rightarrow> 'db \<times> (EngineError + nat)" where
  "executed r = (case r of (db, Inl e) \<Rightarrow> (db, Inl (EeBackend e)) | (db, Inr n) \<Rightarrow> (db, Inr n))"

definition put_schema :: "'db Postgres \<Rightarrow> (SchemaMeta \<Rightarrow> string + json) \<Rightarrow> 'db \<Rightarrow> SchemaMeta \<Rightarrow> 'db \<times> (EngineError + unit)" where
  "put_schema pg to_value db meta =
     (case to_value meta of
        Inl e \<Rightarrow> (db, Inl (EeBackend e))
      | Inr definition' \<Rightarrow>
          (case executed (pg_execute pg db
                  (''INSERT INTO sealstack_schemas (namespace, name, version, definition) ''
                   @ ''VALUES ($1, $2, $3, $4) ON CONFLICT (namespace, name, version) ''
                   @ ''DO UPDATE SET definition = EXCLUDED.definition'')
                  [PgText (sm_namespace meta), PgText (sm_name meta),
                   PgInt (if unat (sm_version meta) < 2 ^ 31 then int (unat (sm_version meta)) else 2 ^ 31 - 1),
                   PgJson definition']) of
             (db', Inl e) \<Rightarrow> (db', Inl e) | (db', Inr n) \<Rightarrow> (db', Inr ())))"

text \<open>Rows whose document does not decode are skipped; a row without one is an error.\<close>

fun decode_schemas :: "(json \<Rightarrow> string + SchemaMeta) \<Rightarrow> (string + json) list \<Rightarrow> EngineError + SchemaMeta list" where
  "decode_schemas from_value [] = Inr []"
| "decode_schemas from_value (Inl e # rows) = Inl (EeBackend e)"
| "decode_schemas from_value (Inr def # rows) =
     bindR (decode_schemas from_value rows) (\<lambda>out.
       Inr (case from_value def of Inl e \<Rightarrow> out | Inr m \<Rightarrow> m # out))"

definition list_schemas :: "('db \<Rightarrow> string \<Rightarrow> string + (string + json) list) \<Rightarrow> (json \<Rightarrow> string + SchemaMeta) \<Rightarrow> 'db
    \<Rightarrow> EngineError + SchemaMeta list" where
  "list_schemas query from_value db =
     (case query db (''SELECT DISTINCT ON (namespace, name) definition FROM sealstack_schemas ''
                     @ ''ORDER BY namespace, name, version DESC'') of
        Inl e \<Rightarrow> Inl (EeBackend e)
      | Inr rows \<Rightarrow> decode_schemas from_value rows)"

definition put_connector :: "'db Postgres \<Rightarrow> 'db \<Rightarrow> PersistedConnector \<Rightarrow> 'db \<times> (EngineError + unit)" where
  "put_connector pg db b =
     (case executed (pg_execute pg db
             (''INSERT INTO sealstack_connectors ''
              @ ''(id, name, kind, target_namespace, target_schema, tenant, config, interval_secs) ''
              @ ''VALUES ($1, $2, $3, $4, $5, $6, $7, $8) ON CONFLICT (id) DO UPDATE SET ''
              @ ''kind = EXCLUDED.kind, target_namespace = EXCLUDED.target_namespace, ''
              @ ''target_schema = EXCLUDED.target_schema, tenant = EXCLUDED.tenant, ''
              @ ''config = EXCLUDED.config, interval_secs = EXCLUDED.interval_secs'')
             [PgText (pc_id b), PgText (pc_kind b), PgText (pc_kind b), PgText (pc_target_namespace b),
              PgText (pc_target_schema b), PgText (pc_tenant b), PgJson (pc_config b),
              (case pc_interval_secs b of None \<Rightarrow> PgNull | Some s \<Rightarrow> PgBigint (i64_or (unat s) (2 ^ 63 - 1)))]) of
        (db', Inl e) \<Rightarrow> (db', Inl e) | (db', Inr n) \<Rightarrow> (db', Inr ()))"

text \<open>A row of the bindings as read, with its signed interval; reading a column may fail.\<close>

type_synonym connector_row = "string \<times> string \<times> string \<times> string \<times> string \<times> json \<times> int option"

definition read_connector :: "string + connector_row \<Rightarrow> EngineError + PersistedConnector" where
  "read_connector row =
     (case row of
        Inl e \<Rightarrow> Inl (EeBackend e)
      | Inr (i, kind, ns, schema, tenant, config, interval) \<Rightarrow>
          Inr \<lparr>pc_id = i, pc_kind = kind, pc_target_namespace = ns, pc_target_schema = schema,
               pc_tenant = tenant, pc_config = config,
               pc_interval_secs = map_option (\<lambda>n. if n < 0 then 0 else word_of_int n) interval\<rparr>)"

definition list_connectors :: "('db \<Rightarrow> string \<Rightarrow> string + (string + connector_row) list) \<Rightarrow> 'db
    \<Rightarrow> EngineError + PersistedConnector list" where
  "list_connectors query db =
     (case query db (''SELECT id, kind, target_namespace, target_schema, tenant, config, interval_secs ''
                     @ ''FROM sealstack_connectors WHERE enabled AND kind <> '' @ quote2
                     @ '' ORDER BY created_at ASC'') of
        Inl e \<Rightarrow> Inl (EeBackend e)
      | Inr rows \<Rightarrow> mapR read_connector rows)"

definition delete_connector :: "'db Postgres \<Rightarrow> 'db \<Rightarrow> string \<Rightarrow> 'db \<times> (EngineError + bool)" where
  "delete_connector pg db i =
     (case executed (pg_execute pg db ''DELETE FROM sealstack_connectors WHERE id = $1'' [PgText i]) of
        (db', Inl e) \<Rightarrow> (db', Inl e) | (db', Inr n) \<Rightarrow> (db', Inr (0 < n)))"

text \<open>
  A transaction works on its own view of the database, which a commit makes the database;
  dropping it without a commit rolls back.
\<close>

fun run_statements :: "'db Postgres \<Rightarrow> string list \<Rightarrow> 'db \<Rightarrow> EngineError + 'db" where
  "run_statements pg [] tx = Inr tx"
| "run_statements pg (s # ss) tx =
     (case executed (pg_execute pg tx s []) of
        (tx', Inl e) \<Rightarrow> Inl e
      | (tx', Inr n) \<Rightarrow> run_statements pg ss tx')"

definition apply_schema_ddl :: "'db Postgres \<Rightarrow> ('db \<Rightarrow> string + 'db) \<Rightarrow> ('db \<Rightarrow> string + 'db) \<Rightarrow> 'db \<Rightarrow> string
    \<Rightarrow> 'db \<times> (EngineError + unit)" where
  "apply_schema_ddl pg begin_tx commit db ddl =
     (case begin_tx db of
        Inl e \<Rightarrow> (db, Inl (EeBackend e))
      | Inr tx \<Rightarrow> (case run_statements pg (split_sql ddl) tx of
        Inl e \<Rightarrow> (db, Inl e)
      | Inr tx' \<Rightarrow> (case commit tx' of
        Inl e \<Rightarrow> (db, Inl (EeBackend e))
      | Inr db' \<Rightarrow> (db', Inr ()))))"

section \<open>The language of scripts\<close>

text \<open>
  A script, independently of the scanner: single characters, quoted texts, dollar-quoted
  bodies with their tag, and line comments.
\<close>

datatype sql_token = SqlChar char | SqlQuoted string | SqlDollar string string | SqlComment string

fun token_text :: "sql_token \<Rightarrow> string" where
  "token_text (SqlChar c) = [c]"
| "token_text (SqlQuoted s) = [single_quote] @ s @ [single_quote]"
| "token_text (SqlDollar tag body) = ''$'' @ tag @ ''$'' @ body @ ''$'' @ tag @ ''$''"
| "token_text (SqlComment s) = ''--'' @ s"

text \<open>
  What a statement keeps of a token: nothing of a comment, and otherwise its bytes, each read
  as a Latin-1 character and encoded in UTF-8.
\<close>

definition latin1 :: "char \<Rightarrow> string" where
  "latin1 c = (if (of_char c :: nat) < 0x80 then [c]
     else if (of_char c :: nat) < 0xC0 then [char_of (0xC2 :: nat), c]
     else [char_of (0xC3 :: nat), char_of (of_char c - 0x40 :: nat)])"

fun token_kept :: "sql_token \<Rightarrow> string" where
  "token_kept (SqlComment s) = []"
| "token_kept t = concat (map latin1 (token_text t))"

text \<open>
  Well-formed tokens: a single character is no quote, dollar or semicolon, and no dash before
  another dash; the body of a dollar quote is ended by the first closing tag; a comment ends
  with its line.
\<close>

fun sql_tokens :: "sql_token list \<Rightarrow> bool" where
  "sql_tokens [] = True"
| "sql_tokens (SqlChar c # ts) =
     (c \<notin> set ''$;'' \<and> c \<noteq> single_quote \<and> (c = CHR ''-'' \<longrightarrow> (case ts of
          SqlChar d # ts' \<Rightarrow> d \<noteq> CHR ''-'' | SqlComment s # ts' \<Rightarrow> False | _ \<Rightarrow> True))
      \<and> sql_tokens ts)"
| "sql_tokens (SqlQuoted s # ts) = (single_quote \<notin> set s \<and> sql_tokens ts)"
| "sql_tokens (SqlDollar tag body # ts) =
     (list_all tag_char tag \<and> find_str (''$'' @ tag @ ''$'') (body @ ''$'' @ tag @ ''$'') = Some (length body)
      \<and> sql_tokens ts)"
| "sql_tokens (SqlComment s # ts) =
     (newline \<notin> set s \<and> (case ts of SqlChar d # ts' \<Rightarrow> d = newline | _ \<Rightarrow> False) \<and> sql_tokens ts)"

definition sql_source :: "sql_token list \<Rightarrow> string" where
  "sql_source ts = concat (map token_text ts)"

definition sql_kept :: "sql_token list \<Rightarrow> string" where
  "sql_kept ts = concat (map token_kept ts)"

section \<open>The scanner on tokens\<close>

lemma find_dollar:
  "find_str ''$'' s = (if CHR ''$'' \<in> set s then Some (length (takeWhile (\<lambda>c. c \<noteq> CHR ''$'') s)) else None)"
  by (induction s) (auto simp: starts_with_def)

lemma split_scan_Nil [simp]: "split_scan [] st = st"
  by (simp add: split_scan.simps)

lemma latin1_byte: "byte_as_char c = latin1 c"
proof -
  have "list_all (\<lambda>c. byte_as_char c = latin1 c) Enum.enum" by code_simp
  then show ?thesis by (simp add: list_all_iff enum_UNIV)
qed

lemma latin1_ascii: "latin1 single_quote = [single_quote]" "latin1 (CHR ''$'') = ''$''"
  by code_simp+

lemma latin1_tag: "list_all tag_char tag \<Longrightarrow> concat (map latin1 tag) = tag"
proof (induction tag)
  case (Cons c tag)
  then have "latin1 c = [c]"
    by (auto simp: tag_char_def ascii_alnum_def latin1_def Let_def)
  with Cons show ?case by simp
qed simp

lemma byte_arm_push:
  assumes "ss_in_str st \<and> ss_dollar_tag st = None \<and> c \<noteq> single_quote \<or> ss_dollar_tag st \<noteq> None
     \<or> c \<noteq> single_quote \<and> c \<noteq> CHR '';''"
  shows "byte_arm c st = st\<lparr>ss_current := ss_current st @ latin1 c\<rparr>"
  using assms by (auto simp: byte_arm_def latin1_byte)

lemma scan_char:
  assumes "ss_dollar_tag st = None" "\<not> ss_in_str st" "c \<notin> set ''$;''" "c \<noteq> single_quote"
    and "c = CHR ''-'' \<Longrightarrow> nth_opt t 0 \<noteq> Some (CHR ''-'')"
  shows "split_scan (c # t) st = split_scan t (st\<lparr>ss_current := ss_current st @ latin1 c\<rparr>)"
proof -
  have "\<not> comment_start (c # t) st" using assms(5) by (auto simp: comment_start_def nth_opt_def)
  moreover have "dollar_arm (c # t) st = None" using assms(3) by (simp add: dollar_arm_def)
  ultimately show ?thesis using assms byte_arm_push [of st c] by (simp add: split_scan.simps [of "c # t"])
qed

lemma scan_quoted_body:
  assumes "ss_dollar_tag st = None" "ss_in_str st" "single_quote \<notin> set s"
  shows "split_scan (s @ t) st = split_scan t (st\<lparr>ss_current := ss_current st @ concat (map latin1 s)\<rparr>)"
  using assms
proof (induction s arbitrary: st)
  case (Cons c s)
  have "\<not> comment_start (c # s @ t) st" "dollar_arm (c # s @ t) st = None"
    using Cons.prems by (simp_all add: comment_start_def dollar_arm_def)
  moreover have "byte_arm c st = st\<lparr>ss_current := ss_current st @ latin1 c\<rparr>"
    using Cons.prems by (intro byte_arm_push) auto
  ultimately show ?case using Cons by (simp add: split_scan.simps [of "c # s @ t"])
qed simp

lemma scan_quote:
  assumes "ss_dollar_tag st = None"
  shows "split_scan (single_quote # t) st
    = split_scan t (st\<lparr>ss_in_str := \<not> ss_in_str st, ss_current := ss_current st @ [single_quote]\<rparr>)"
proof -
  have q: "single_quote \<noteq> CHR ''-''" "single_quote \<noteq> CHR ''$''" by code_simp+
  then have "\<not> comment_start (single_quote # t) st" "dollar_arm (single_quote # t) st = None"
    by (simp_all add: comment_start_def nth_opt_def dollar_arm_def)
  with assms show ?thesis by (simp add: split_scan.simps [of "single_quote # t"] byte_arm_def)
qed

lemma starts_with_longer: "length p \<le> length u \<Longrightarrow> starts_with (u @ t) p = starts_with u p"
  by (simp add: starts_with_def)

lemma scan_dollar_body:
  assumes "ss_dollar_tag st = Some close" "\<not> ss_in_str st" "close = ''$'' @ tag @ ''$''"
    and "find_str close (body @ close) = Some (length body)"
  shows "split_scan (body @ close @ t) st
    = split_scan t (st\<lparr>ss_current := ss_current st @ concat (map latin1 body) @ close, ss_dollar_tag := None\<rparr>)"
  using assms
proof (induction body arbitrary: st)
  case Nil
  have "\<not> comment_start (close @ t) st" using Nil by (simp add: comment_start_def)
  moreover have "dollar_arm (close @ t) st = Some (t, st\<lparr>ss_current := ss_current st @ close, ss_dollar_tag := None\<rparr>)"
    using Nil by (simp add: dollar_arm_def starts_with_def)
  ultimately show ?case using Nil by (simp add: split_scan.simps [of "CHR ''$'' # _"])
next
  case (Cons c body)
  have "\<not> starts_with (c # body @ close) close" "find_str close (body @ close) = Some (length body)"
    using Cons.prems(4) by (auto split: if_splits option.splits)
  moreover have "starts_with (c # body @ close @ t) close = starts_with (c # body @ close) close"
    using starts_with_longer [of close "c # body @ close" t] by simp
  ultimately have "dollar_arm (c # body @ close @ t) st = None"
    using Cons.prems(1,2) by (auto simp: dollar_arm_def)
  moreover have "\<not> comment_start (c # body @ close @ t) st" using Cons.prems by (simp add: comment_start_def)
  moreover have "close \<noteq> []" using Cons.prems by simp
  ultimately have "split_scan (c # body @ close @ t) st = split_scan (body @ close @ t) (byte_arm c st)"
    using Cons.prems(1) by (simp add: split_scan.simps [of "c # body @ close @ t"])
  moreover have "byte_arm c st = st\<lparr>ss_current := ss_current st @ latin1 c\<rparr>"
    using Cons.prems(1) by (intro byte_arm_push) simp
  ultimately show ?case
    using Cons.IH [of "byte_arm c st"] Cons.prems(1-3) \<open>find_str close (body @ close) = Some (length body)\<close>
    by simp
qed

lemma scan_dollar:
  assumes "ss_dollar_tag st = None" "\<not> ss_in_str st" "list_all tag_char tag"
    and "find_str (''$'' @ tag @ ''$'') (body @ ''$'' @ tag @ ''$'') = Some (length body)"
  shows "split_scan (token_text (SqlDollar tag body) @ t) st
    = split_scan t (st\<lparr>ss_current := ss_current st @ token_kept (SqlDollar tag body)\<rparr>)"
proof -
  define close where "close = ''$'' @ tag @ ''$''"
  let ?s = "close @ body @ close @ t"
  have no: "CHR ''$'' \<notin> set tag" using assms(3) by (auto simp: list_all_iff tag_char_def ascii_alnum_def)
  then have "takeWhile (\<lambda>c. c \<noteq> CHR ''$'') (tag @ ''$'' @ r) = tag" for r by (induction tag) auto
  then have arm: "dollar_arm ?s st = Some (body @ close @ t, st\<lparr>ss_current := ss_current st @ close, ss_dollar_tag := Some close\<rparr>)"
    using assms by (simp add: dollar_arm_def find_dollar close_def Let_def)
  have same: "st\<lparr>ss_current := x, ss_dollar_tag := None\<rparr> = st\<lparr>ss_current := x\<rparr>" for x
    using assms(1) by (cases st) simp
  have "\<not> comment_start ?s st" by (simp add: comment_start_def nth_opt_def close_def)
  with arm have "split_scan ?s st
      = split_scan (body @ close @ t) (st\<lparr>ss_current := ss_current st @ close, ss_dollar_tag := Some close\<rparr>)"
    using assms(1) by (simp add: close_def split_scan.simps [of "CHR ''$'' # _"])
  also have "\<dots> = split_scan t (st\<lparr>ss_current := ss_current st @ close @ concat (map latin1 body) @ close\<rparr>)"
    using scan_dollar_body [of "st\<lparr>ss_current := ss_current st @ close, ss_dollar_tag := Some close\<rparr>" close tag body t]
      assms close_def same by simp
  finally show ?thesis using latin1_tag [OF assms(3)] latin1_ascii by (simp add: close_def)
qed

lemma scan_line_comment:
  assumes "ss_dollar_tag st = None" "\<not> ss_in_str st" "newline \<notin> set s"
  shows "split_scan (''--'' @ s @ newline # t) st = split_scan (newline # t) st"
proof -
  have "comment_start (''--'' @ s @ newline # t) st"
    using assms by (simp add: comment_start_def nth_opt_def)
  moreover have "CHR ''-'' \<noteq> newline" by code_simp
  then have "dropWhile (\<lambda>c. c \<noteq> newline) (''--'' @ s @ newline # t) = newline # t"
    using assms(3) by (induction s) auto
  ultimately show ?thesis by (simp add: split_scan.simps [of "CHR ''-'' # _"])
qed

lemma scan_tokens:
  assumes "sql_tokens ts" "ss_dollar_tag st = None" "\<not> ss_in_str st" "nth_opt t 0 \<noteq> Some (CHR ''-'')"
  shows "split_scan (sql_source ts @ t) st = split_scan t (st\<lparr>ss_current := ss_current st @ sql_kept ts\<rparr>)"
  using assms
proof (induction ts arbitrary: st rule: sql_tokens.induct)
  case (2 c ts)
  have "c = CHR ''-'' \<Longrightarrow> nth_opt (sql_source ts @ t) 0 \<noteq> Some (CHR ''-'')"
  proof -
    assume "c = CHR ''-''"
    moreover have "single_quote \<noteq> CHR ''-''" by code_simp
    ultimately show ?thesis using 2(2,5)
      by (cases ts rule: sql_tokens.cases) (auto simp: sql_source_def nth_opt_def)
  qed
  with 2 scan_char [of st c "sql_source ts @ t"] show ?case by (simp add: sql_source_def sql_kept_def)
next
  case (3 s ts)
  have same: "st\<lparr>ss_in_str := False, ss_current := x\<rparr> = st\<lparr>ss_current := x\<rparr>" for x
    using 3(4) by (cases st) simp
  show ?case
    using 3 by (simp add: sql_source_def sql_kept_def scan_quote scan_quoted_body latin1_ascii same)
next
  case (4 tag body ts)
  with scan_dollar [of st tag body "sql_source ts @ t"] show ?case
    by (simp add: sql_source_def sql_kept_def)
next
  case (5 s ts)
  then obtain ts' where "ts = SqlChar newline # ts'" by (auto split: list.splits sql_token.splits)
  with 5 scan_line_comment [of st s "sql_source ts' @ t"] show ?case
    by (simp add: sql_source_def sql_kept_def)
qed (simp add: sql_source_def sql_kept_def)

lemma scan_terminator:
  assumes "ss_dollar_tag st = None" "\<not> ss_in_str st"
  shows "split_scan (CHR '';'' # t) st = split_scan t
    (st\<lparr>ss_out := ss_out st @ filter (\<lambda>s. s \<noteq> []) [trim (ss_current st)], ss_current := []\<rparr>)"
proof -
  have "\<not> comment_start (CHR '';'' # t) st" "dollar_arm (CHR '';'' # t) st = None"
    by (simp_all add: comment_start_def nth_opt_def dollar_arm_def)
  moreover have "CHR '';'' \<noteq> single_quote" by code_simp
  ultimately show ?thesis
    using assms by (simp add: split_scan.simps [of "CHR '';'' # t"] byte_arm_def)
qed

text \<open>
  C14: a script of well-formed statements, each ended by a semicolon except the last, splits
  into the texts of these statements, in order and trimmed, without their comments and without
  the blank ones: semicolons in quoted texts, in dollar-quoted bodies and in comments split
  nothing. Every byte outside ASCII arrives as two bytes, the UTF-8 form of the byte read as a
  Latin-1 character.
\<close>

theorem split_sql_roundtrip:
  assumes "list_all sql_tokens stmts" and "sql_tokens rest"
  shows "split_sql (concat (map (\<lambda>ts. sql_source ts @ '';'') stmts) @ sql_source rest)
    = filter (\<lambda>s. s \<noteq> []) (map (\<lambda>ts. trim (sql_kept ts)) (stmts @ [rest]))"
proof -
  have "split_scan (concat (map (\<lambda>ts. sql_source ts @ '';'') stmts) @ sql_source rest)
        (split_init\<lparr>ss_out := out\<rparr>)
      = split_init\<lparr>ss_out := out @ filter (\<lambda>s. s \<noteq> []) (map (\<lambda>ts. trim (sql_kept ts)) stmts),
          ss_current := sql_kept rest\<rparr>" for out
    using assms(1)
  proof (induction stmts arbitrary: out)
    case Nil
    have "nth_opt [] 0 \<noteq> Some (CHR ''-'')" by (simp add: nth_opt_def)
    with scan_tokens [OF assms(2), of "split_init\<lparr>ss_out := out\<rparr>" "[]"] show ?case
      by (simp add: split_init_def)
  next
    case (Cons ts stmts)
    let ?r = "concat (map (\<lambda>ts. sql_source ts @ '';'') stmts) @ sql_source rest"
    have "nth_opt (CHR '';'' # ?r) 0 \<noteq> Some (CHR ''-'')" by (simp add: nth_opt_def)
    with scan_tokens [of ts "split_init\<lparr>ss_out := out\<rparr>" "CHR '';'' # ?r"] Cons.prems
    have "split_scan (sql_source ts @ CHR '';'' # ?r) (split_init\<lparr>ss_out := out\<rparr>)
        = split_scan (CHR '';'' # ?r) (split_init\<lparr>ss_out := out, ss_current := sql_kept ts\<rparr>)"
      by (simp add: split_init_def)
    also have "\<dots> = split_scan ?r (split_init\<lparr>ss_out := out @ filter (\<lambda>s. s \<noteq> []) [trim (sql_kept ts)]\<rparr>)"
      by (subst scan_terminator) (simp_all add: split_init_def)
    finally show ?case using Cons by simp
  qed
  from this [of "[]"] show ?thesis by (simp add: split_sql_def split_init_def)
qed

definition sample_script :: "sql_token list list" where
  "sample_script =
     [map SqlChar ''INSERT '' @ [SqlQuoted ''a;--b''], [SqlComment ''x;y'', SqlChar newline],
      map SqlChar ''DO '' @ [SqlDollar ''x'' '' c; $y ''], [SqlChar (char_of (0xE9 :: nat))]]"

theorem split_sql_roundtrip_witness:
  "split_sql (concat (map (\<lambda>ts. sql_source ts @ '';'') sample_script) @ sql_source [])
   = [''INSERT '' @ [single_quote] @ ''a;--b'' @ [single_quote], ''DO $x$ c; $y $x$'', map char_of [0xC3, 0xA9 :: nat]]"
proof -
  have "sql_tokens []" "list_all sql_tokens sample_script" by code_simp+
  note split_sql_roundtrip [OF this(2,1)]
  moreover have "filter (\<lambda>s. s \<noteq> []) (map (\<lambda>ts. trim (sql_kept ts)) (sample_script @ [[]]))
     = [''INSERT '' @ [single_quote] @ ''a;--b'' @ [single_quote], ''DO $x$ c; $y $x$'', map char_of [0xC3, 0xA9 :: nat]]"
    by code_simp
  ultimately show ?thesis by (simp only:)
qed

section \<open>Applying DDL is atomic\<close>

lemma run_statements_effect:
  "run_statements pg ss tx = Inr tx' \<Longrightarrow> tx' = fold (\<lambda>s d. fst (pg_execute pg d s [])) ss tx"
proof (induction ss arbitrary: tx)
  case (Cons s ss)
  then show ?case
    by (cases "pg_execute pg tx s []"; cases "snd (pg_execute pg tx s [])") (auto simp: executed_def)
qed simp

text \<open>
  Applying DDL is all or nothing: an error leaves the database as it was, and success
  makes it what the commit makes of the transaction after every statement of the text, in
  order.
\<close>

theorem apply_ddl_atomic:
  "(case apply_schema_ddl pg begin_tx commit db ddl of
      (db', Inl e) \<Rightarrow> db' = db
    | (db', Inr u) \<Rightarrow>
        (\<exists>tx. begin_tx db = Inr tx
           \<and> commit (fold (\<lambda>s d. fst (pg_execute pg d s [])) (split_sql ddl) tx) = Inr db'))"
proof (cases "begin_tx db")
  case (Inl e)
  then show ?thesis by (simp add: apply_schema_ddl_def)
next
  case tx: (Inr tx)
  show ?thesis
  proof (cases "run_statements pg (split_sql ddl) tx")
    case (Inl e)
    with tx show ?thesis by (simp add: apply_schema_ddl_def)
  next
    case (Inr tx')
    with tx run_statements_effect [OF Inr] show ?thesis
      by (cases "commit tx'") (simp_all add: apply_schema_ddl_def)
  qed
qed

end
