(* ===== verification/Rust_Utf8.thy ===== *)
theory Rust_Utf8
  imports Rust_Std
begin

text \<open>
  \<open>String::from_utf8_lossy\<close>: every maximal prefix of a sequence that turns out not to be
  UTF-8 is replaced by U+FFFD. The result is always a Rust string, and a Rust string is left
  as it is.
\<close>

definition replacement :: "u8 list" where
  "replacement = [0xEF, 0xBF, 0xBD]"

text \<open>The ranges of the second byte after each three- and four-byte lead.\<close>

definition second_of_three :: "u8 \<Rightarrow> u8 \<Rightarrow> bool" where
  "second_of_three a b \<longleftrightarrow> cont_byte b \<and> (a = 0xE0 \<longrightarrow> 0xA0 \<le> b) \<and> (a = 0xED \<longrightarrow> b \<le> 0x9F)"

definition second_of_four :: "u8 \<Rightarrow> u8 \<Rightarrow> bool" where
  "second_of_four a b \<longleftrightarrow> cont_byte b \<and> (a = 0xF0 \<longrightarrow> 0x90 \<le> b) \<and> (a = 0xF4 \<longrightarrow> b \<le> 0x8F)"

definition lead_two :: "u8 \<Rightarrow> bool" where "lead_two a \<longleftrightarrow> 0xC2 \<le> a \<and> a \<le> 0xDF"
definition lead_three :: "u8 \<Rightarrow> bool" where "lead_three a \<longleftrightarrow> 0xE0 \<le> a \<and> a \<le> 0xEF"
definition lead_four :: "u8 \<Rightarrow> bool" where "lead_four a \<longleftrightarrow> 0xF0 \<le> a \<and> a \<le> 0xF4"

definition peek :: "u8 list \<Rightarrow> nat \<Rightarrow> u8" where
  "peek bs i = (if i < length bs then bs ! i else 0)"

text \<open>
  The next piece of the input: whether it is a character, and how many bytes it takes.
  Reading past the end gives 0, which continues nothing.
\<close>

definition next_piece :: "u8 list \<Rightarrow> bool \<times> nat" where
  "next_piece bs =
     (let a = peek bs 0; b = peek bs 1
      in if a < 0x80 then (True, 1)
         else if lead_two a then (if cont_byte b then (True, 2) else (False, 1))
         else if lead_three a then
           (if \<not> second_of_three a b then (False, 1)
            else if \<not> cont_byte (peek bs 2) then (False, 2) else (True, 3))
         else if lead_four a then
           (if \<not> second_of_four a b then (False, 1)
            else if \<not> cont_byte (peek bs 2) then (False, 2)
            else if \<not> cont_byte (peek bs 3) then (False, 3) else (True, 4))
         else (False, 1))"

lemma next_piece_pos: "0 < snd (next_piece bs)"
  by (simp add: next_piece_def Let_def)

function lossy_bytes :: "u8 list \<Rightarrow> u8 list" where
  "lossy_bytes bs =
     (if bs = [] then []
      else (if fst (next_piece bs) then take (snd (next_piece bs)) bs else replacement)
           @ lossy_bytes (drop (snd (next_piece bs)) bs))"
  by pat_completeness auto
termination
  by (relation "measure length") (auto simp: next_piece_pos)

declare lossy_bytes.simps [simp del]

definition from_utf8_lossy :: "u8 list \<Rightarrow> string" where
  "from_utf8_lossy bs = chars_of (lossy_bytes bs)"

lemma bytes_of_chars_of [simp]: "bytes_of (chars_of bs) = bs"
proof (induction bs)
  case (Cons b bs)
  have "unat b < 256" using unsigned_less [of b] by simp
  with Cons show ?case by (simp add: bytes_of_def chars_of_def word_unat_eq_iff unat_of_char)
qed (simp add: bytes_of_def chars_of_def)

lemma cont_zero [simp]: "\<not> cont_byte 0" by (simp add: cont_byte_def)

lemma second_zero [simp]: "\<not> second_of_three a 0" "\<not> second_of_four a 0"
  by (simp_all add: second_of_three_def second_of_four_def)

lemma utf8_valid_Cons:
  "utf8_valid (a # bs) \<longleftrightarrow>
     (if a < 0x80 then utf8_valid bs
      else case bs of
        [] \<Rightarrow> False
      | b # cs \<Rightarrow>
          if lead_two a then cont_byte b \<and> utf8_valid cs
          else case cs of
            [] \<Rightarrow> False
          | c # ds \<Rightarrow>
              if lead_three a then second_of_three a b \<and> cont_byte c \<and> utf8_valid ds
              else case ds of
                [] \<Rightarrow> False
              | d # es \<Rightarrow> lead_four a \<and> second_of_four a b \<and> cont_byte c \<and> cont_byte d \<and> utf8_valid es)"
  by (cases bs; cases "tl bs"; cases "tl (tl bs)")
    (simp_all only: utf8_valid.simps list.case list.sel lead_two_def lead_three_def lead_four_def
      second_of_three_def second_of_four_def conj_ac list.distinct)

lemma utf8_valid_step:
  assumes "bs \<noteq> []"
  shows "utf8_valid bs \<longleftrightarrow> fst (next_piece bs) \<and> utf8_valid (drop (snd (next_piece bs)) bs)"
proof -
  from assms obtain a cs where bs: "bs = a # cs" by (cases bs) auto
  consider "cs = []" | b where "cs = [b]" | b c where "cs = [b, c]" | b c d es where "cs = b # c # d # es"
    by (metis list.exhaust)
  then show ?thesis
    by cases (simp_all add: bs utf8_valid_Cons next_piece_def peek_def Let_def del: utf8_valid.simps(2))
qed

lemma utf8_piece:
  assumes "fst (next_piece bs)" "bs \<noteq> []"
  shows "utf8_valid (take (snd (next_piece bs)) bs @ rest) \<longleftrightarrow> utf8_valid rest"
proof -
  from assms obtain a cs where bs: "bs = a # cs" by (cases bs) auto
  consider "cs = []" | b where "cs = [b]" | b c where "cs = [b, c]" | b c d es where "cs = b # c # d # es"
    by (metis list.exhaust)
  then show ?thesis
    using assms(1)
    by cases (auto simp add: bs utf8_valid_Cons next_piece_def peek_def Let_def numeral_2_eq_2 numeral_3_eq_3 
      simp del: utf8_valid.simps(2) split: if_splits)
qed

lemma lossy_valid: "utf8_valid (lossy_bytes bs)"
proof (induction bs rule: lossy_bytes.induct)
  case (1 bs)
  show ?case
  proof (cases "bs = []")
    case False
    with 1 have rest: "utf8_valid (lossy_bytes (drop (snd (next_piece bs)) bs))" by simp
    then have "utf8_valid (replacement @ lossy_bytes (drop (snd (next_piece bs)) bs))"
      by (simp add: replacement_def cont_byte_def)
    with rest False show ?thesis
      by (simp add: lossy_bytes.simps [of bs] utf8_piece)
  qed (simp add: lossy_bytes.simps [of "[]"])
qed

lemma rust_str_lossy: "rust_str (from_utf8_lossy bs)"
  by (simp add: rust_str_def from_utf8_lossy_def lossy_valid)

lemma lossy_of_valid: "utf8_valid bs \<Longrightarrow> lossy_bytes bs = bs"
proof (induction bs rule: lossy_bytes.induct)
  case (1 bs)
  show ?case
  proof (cases "bs = []")
    case False
    with 1 show ?thesis by (simp add: lossy_bytes.simps [of bs] utf8_valid_step)
  qed (simp add: lossy_bytes.simps [of "[]"])
qed

lemma from_utf8_lossy_str: "rust_str s \<Longrightarrow> from_utf8_lossy (bytes_of s) = s"
  by (simp add: rust_str_def from_utf8_lossy_def lossy_of_valid)

end
