(* ===== verification/Sdk_Http.thy ===== *)
theory Sdk_Http
  imports Sdk_Types Rust_Parse Rust_Utf8
begin

text \<open>
  The connector SDK's HTTP client (\<open>sealstack-connector-sdk/src/http.rs\<close>, \<open>retry.rs\<close>): the
  retry policy, the body cap and the send loop. The transport (reqwest), the clock and the
  random generator are a record of operations on the state \<open>'s\<close> of the outside world, and so
  is the credential. The loop also returns the log of what it did. An abstract relation
  \<open>retry_run\<close> says which logs the retry policy admits; the loop refines it.
\<close>

section \<open>Retry policy\<close>

record RetryPolicy =
  rp_max_attempts :: u32
  rp_base_delay :: duration
  rp_max_delay :: duration

definition retry_policy_default :: RetryPolicy where
  "retry_policy_default =
     \<lparr>rp_max_attempts = 5, rp_base_delay = millis 500, rp_max_delay = secs 30\<rparr>"

definition parse_retry_after :: "string \<Rightarrow> duration option" where
  "parse_retry_after value' =
     (case parse_i64 (trim value') of
        None \<Rightarrow> None
      | Some n \<Rightarrow> if n <s 0 then None else Some (secs (unat n)))"

section \<open>Responses\<close>

text \<open>
  Header names are lower case, as the \<open>http\<close> crate keeps them; values are bytes. A body is
  the list of chunks the stream yields, an error ending it.
\<close>

record Response =
  rs_status :: u16
  rs_headers :: "(string \<times> u8 list) list"
  rs_body :: "(string + u8 list) list"

definition to_str :: "u8 list \<Rightarrow> string option" where
  "to_str v = (if list_all (\<lambda>b. (0x20 \<le> b \<and> b < 0x7F) \<or> b = 9) v then Some (chars_of v) else None)"

definition header_get :: "Response \<Rightarrow> string \<Rightarrow> string option" where
  "header_get r name = Option.bind (map_of (rs_headers r) (map lower_char name)) to_str"

definition is_success :: "Response \<Rightarrow> bool" where
  "is_success r \<longleftrightarrow> 200 \<le> rs_status r \<and> rs_status r < 300"

definition is_client_error :: "Response \<Rightarrow> bool" where
  "is_client_error r \<longleftrightarrow> 400 \<le> rs_status r \<and> rs_status r < 500"

text \<open>A 4xx that is not retried: neither 408 nor 429 (401 is handled before).\<close>

definition is_fatal :: "Response \<Rightarrow> bool" where
  "is_fatal r \<longleftrightarrow> is_client_error r \<and> rs_status r \<noteq> 408 \<and> rs_status r \<noteq> 429"

record HttpResponse =
  hr_inner :: Response
  hr_body_cap_bytes :: nat

fun read_chunks :: "nat \<Rightarrow> u8 list \<Rightarrow> (string + u8 list) list \<Rightarrow> SealStackError + u8 list" where
  "read_chunks cap buf [] = Inr buf"
| "read_chunks cap buf (Inl e # cs) = Inl (SeBackend (''body stream: '' @ e))"
| "read_chunks cap buf (Inr c # cs) =
     (if cap < length buf + length c then Inl (SeBodyTooLarge cap) else read_chunks cap (buf @ c) cs)"

definition response_bytes :: "HttpResponse \<Rightarrow> SealStackError + u8 list" where
  "response_bytes r = read_chunks (hr_body_cap_bytes r) [] (rs_body (hr_inner r))"

text \<open>\<open>from_slice\<close> is the JSON reader for the target type.\<close>

definition response_json :: "(u8 list \<Rightarrow> string + 'a) \<Rightarrow> HttpResponse \<Rightarrow> SealStackError + 'a" where
  "response_json from_slice r = bindR (response_bytes r) (\<lambda>bytes.
     case from_slice bytes of
       Inl e \<Rightarrow> Inl (SeBackend (''json parse: '' @ e))
     | Inr v \<Rightarrow> Inr v)"

definition read_body_capped :: "Response \<Rightarrow> nat \<Rightarrow> SealStackError + string" where
  "read_body_capped r cap = bindR (read_chunks cap [] (rs_body r)) (\<lambda>buf. Inr (from_utf8_lossy buf))"

section \<open>The client\<close>

definition MAX_BODY_CAP_BYTES :: nat where "MAX_BODY_CAP_BYTES = 500 * 1024 * 1024"
definition DEFAULT_BODY_CAP_BYTES :: nat where "DEFAULT_BODY_CAP_BYTES = 50 * 1024 * 1024"

text \<open>\<open>None\<close> is a panic of the call (an \<open>Instant\<close> out of range).\<close>

record 's Credential =
  cd_authorization_header :: "'s \<Rightarrow> (SealStackError + string) option \<times> 's"
  cd_invalidate :: "'s \<Rightarrow> 's"

record 's HttpClient =
  hc_credential :: "'s Credential"
  hc_retry :: RetryPolicy
  hc_user_agent :: string
  hc_body_cap_bytes :: nat

text \<open>The workspace's version is \<open>0.4.0\<close>.\<close>

definition base_ua :: string where
  "base_ua = ''sealstack-connector-sdk/0.4.0 (rust)''"

text \<open>\<open>built\<close> is what the reqwest builder returns.\<close>

definition http_client_new :: "string + unit \<Rightarrow> 's Credential \<Rightarrow> RetryPolicy \<Rightarrow> SealStackError + 's HttpClient" where
  "http_client_new built credential retry =
     (case built of
        Inl e \<Rightarrow> Inl (SeBackend (''reqwest client build: '' @ e))
      | Inr _ \<Rightarrow> Inr \<lparr>hc_credential = credential, hc_retry = retry, hc_user_agent = base_ua,
                     hc_body_cap_bytes = DEFAULT_BODY_CAP_BYTES\<rparr>)"

definition with_user_agent_suffix :: "'s HttpClient \<Rightarrow> string \<Rightarrow> 's HttpClient" where
  "with_user_agent_suffix c suffix' = c\<lparr>hc_user_agent := base_ua @ '' '' @ suffix'\<rparr>"

definition with_body_cap :: "'s HttpClient \<Rightarrow> nat \<Rightarrow> SealStackError + 's HttpClient" where
  "with_body_cap c cap =
     (if MAX_BODY_CAP_BYTES < cap
      then Inl (SeConfig (''body cap '' @ show_nat cap @ '' exceeds hard maximum '' @ show_nat MAX_BODY_CAP_BYTES))
      else Inr (c\<lparr>hc_body_cap_bytes := cap\<rparr>))"

section \<open>The outside world\<close>

text \<open>
  \<open>tr_clone\<close> and \<open>tr_build\<close> are \<open>RequestBuilder::try_clone\<close> and \<open>build\<close>; \<open>tr_send\<close> sends a
  request with its \<open>Authorization\<close> and \<open>User-Agent\<close> headers; \<open>tr_rand hi\<close> draws a number from
  0 to \<open>hi\<close> inclusive.
\<close>

record ('rb, 's) transport =
  tr_clone :: "'rb \<Rightarrow> 'rb option"
  tr_build :: "'rb \<Rightarrow> string + unit"
  tr_send :: "'rb \<Rightarrow> string \<Rightarrow> string \<Rightarrow> 's \<Rightarrow> (string + Response) \<times> 's"
  tr_rand :: "nat \<Rightarrow> 's \<Rightarrow> nat \<times> 's"
  tr_sleep :: "duration \<Rightarrow> 's \<Rightarrow> 's"
  tr_now :: "'s \<Rightarrow> duration"

definition saturating_mul :: "duration \<Rightarrow> nat \<Rightarrow> duration" where
  "saturating_mul d k = min dur_max (d * k)"

definition retry_delay_for ::
  "(nat \<Rightarrow> 's \<Rightarrow> nat \<times> 's) \<Rightarrow> RetryPolicy \<Rightarrow> nat \<Rightarrow> string option \<Rightarrow> 's \<Rightarrow> duration \<times> 's" where
  "retry_delay_for rand policy attempt retry_after s =
     (case Option.bind retry_after parse_retry_after of
        Some base \<Rightarrow>
          (case rand 999 s of (jitter_ms, s') \<Rightarrow> (min (rp_max_delay policy) (base + millis jitter_ms), s'))
      | None \<Rightarrow>
          (let capped = min (rp_max_delay policy) (saturating_mul (rp_base_delay policy) (2 ^ min attempt 20))
           in case rand (capped div 10 ^ 6 mod 2 ^ 64) s of (jittered_ms, s') \<Rightarrow> (millis jittered_ms, s')))"

section \<open>The send loop\<close>

datatype event =
    EvSend "string + Response"
  | EvInvalidate
  | EvSleep duration

text \<open>The headers and the capped body of a refused request.\<close>

definition http_status_error :: "nat \<Rightarrow> Response \<Rightarrow> SealStackError" where
  "http_status_error cap r =
     SeHttpStatus (rs_status r)
       (List.map_filter (\<lambda>(k, v). map_option (Pair k) (to_str v)) (rs_headers r))
       (case read_body_capped r cap of Inl _ \<Rightarrow> [] | Inr body \<Rightarrow> body)"

definition retry_exhausted :: "nat \<Rightarrow> duration \<Rightarrow> SealStackError \<Rightarrow> SealStackError" where
  "retry_exhausted attempt elapsed last_err = SeRetryExhausted (of_nat attempt) elapsed last_err"

definition status_failure :: "Response \<Rightarrow> nat \<Rightarrow> SealStackError" where
  "status_failure r attempt =
     SeBackend (''HTTP '' @ show_nat (unat (rs_status r)) @ '' (attempt '' @ show_nat attempt @ '')'')"

function send_loop ::
  "('rb, 's) transport \<Rightarrow> 's HttpClient \<Rightarrow> 'rb \<Rightarrow> duration \<Rightarrow> nat \<Rightarrow> bool \<Rightarrow> event list \<Rightarrow> 's
     \<Rightarrow> event list \<times> (SealStackError + HttpResponse) option \<times> 's" where
  "send_loop tr client rb start attempt invalidated_once evs s =
     (case tr_clone tr rb of
        None \<Rightarrow> (evs, Some (Inl (SeBackend ''request body not cloneable'')), s)
      | Some try_rb \<Rightarrow>
     (case cd_authorization_header (hc_credential client) s of
        (None, s) \<Rightarrow> (evs, None, s)
      | (Some (Inl e), s) \<Rightarrow> (evs, Some (Inl e), s)
      | (Some (Inr auth), s) \<Rightarrow>
     (case tr_send tr try_rb auth (hc_user_agent client) s of
        (Inr resp, s) \<Rightarrow>
          (let evs = evs @ [EvSend (Inr resp)] in
           if is_success resp then
             (evs, Some (Inr \<lparr>hr_inner = resp, hr_body_cap_bytes = hc_body_cap_bytes client\<rparr>), s)
           else if rs_status resp = 401 then
             (if invalidated_once then (evs, Some (Inl (SeUnauthorized ''HTTP 401 after credential invalidation'')), s)
              else send_loop tr client rb start attempt True (evs @ [EvInvalidate])
                     (cd_invalidate (hc_credential client) s))
           else if is_fatal resp then
             (evs, Some (Inl (http_status_error (hc_body_cap_bytes client) resp)), s)
           else
             (case retry_delay_for (tr_rand tr) (hc_retry client) attempt (header_get resp ''Retry-After'') s of
                (delay, s) \<Rightarrow>
              if unat (rp_max_attempts (hc_retry client)) \<le> attempt + 1 then
                (evs, Some (Inl (retry_exhausted (attempt + 1) (tr_now tr s - start)
                         (status_failure resp (attempt + 1)))), s)
              else send_loop tr client rb start (attempt + 1) invalidated_once (evs @ [EvSleep delay])
                     (tr_sleep tr delay s)))
      | (Inl e, s) \<Rightarrow>
          (let evs = evs @ [EvSend (Inl e)] in
           if unat (rp_max_attempts (hc_retry client)) \<le> attempt + 1 then
             (evs, Some (Inl (retry_exhausted (attempt + 1) (tr_now tr s - start)
                    (SeBackend (''network: '' @ e)))), s)
           else
             (case retry_delay_for (tr_rand tr) (hc_retry client) attempt None s of
                (delay, s) \<Rightarrow>
              send_loop tr client rb start (attempt + 1) invalidated_once (evs @ [EvSleep delay])
                (tr_sleep tr delay s))))))"
  by pat_completeness auto
termination
  by (relation "measure (\<lambda>(tr, client, rb, start, attempt, inv, evs, s).
        2 * (unat (rp_max_attempts (hc_retry client)) - attempt) + of_bool (\<not> inv))") auto

declare send_loop.simps [simp del]

definition http_send ::
  "('rb, 's) transport \<Rightarrow> 's HttpClient \<Rightarrow> 'rb \<Rightarrow> 's
     \<Rightarrow> event list \<times> (SealStackError + HttpResponse) option \<times> 's" where
  "http_send tr client rb s =
     (case tr_clone tr rb of
        None \<Rightarrow> ([], Some (Inl (SeBackend ''request body not cloneable'')), s)
      | Some probe \<Rightarrow>
     (case tr_build tr probe of
        Inl e \<Rightarrow> ([], Some (Inl (SeBackend (''request build: '' @ e))), s)
      | Inr _ \<Rightarrow> send_loop tr client rb (tr_now tr s) 0 False [] s))"

end
