(* ===== verification/Sdk_Retry.thy ===== *)
theory Sdk_Retry
  imports Sdk_Http
begin

text \<open>
  What the send loop promises. \<open>retry_run\<close> is the abstract retry protocol: its states are the
  attempts consumed and whether the credential was invalidated, its runs the logs the policy
  admits. The counts of sends, sleeps and invalidations are invariants of the protocol by
  rule induction; the send loop refines it, and its result is the verdict on the last send.
\<close>

section \<open>The retry protocol\<close>

definition retryable :: "string + Response \<Rightarrow> bool" where
  "retryable out = (case out of Inl _ \<Rightarrow> True
                    | Inr r \<Rightarrow> \<not> is_success r \<and> rs_status r \<noteq> 401 \<and> \<not> is_fatal r)"

inductive retry_run :: "RetryPolicy \<Rightarrow> nat \<Rightarrow> bool \<Rightarrow> event list \<Rightarrow> bool" for policy where
  start: "retry_run policy 0 False []"
| invalidate: "retry_run policy n False evs \<Longrightarrow> rs_status r = 401
    \<Longrightarrow> retry_run policy n True (evs @ [EvSend (Inr r), EvInvalidate])"
| back_off: "retry_run policy n dropped evs \<Longrightarrow> retryable out \<Longrightarrow> n + 1 < unat (rp_max_attempts policy)
    \<Longrightarrow> delay \<le> rp_max_delay policy
    \<Longrightarrow> retry_run policy (n + 1) dropped (evs @ [EvSend out, EvSleep delay])"

definition sends :: "event list \<Rightarrow> nat" where
  "sends evs = length (filter (\<lambda>e. case e of EvSend _ \<Rightarrow> True | _ \<Rightarrow> False) evs)"

definition sleeps :: "event list \<Rightarrow> duration list" where
  "sleeps evs = List.map_filter (\<lambda>e. case e of EvSleep d \<Rightarrow> Some d | _ \<Rightarrow> None) evs"

definition invalidations :: "event list \<Rightarrow> nat" where
  "invalidations evs = length (filter (\<lambda>e. e = EvInvalidate) evs)"

named_theorems log_simps \<open>counting the events of a log\<close>

lemma sends_simps [log_simps]: "sends [] = 0" "sends (e # evs) = (case e of EvSend _ \<Rightarrow> 1 | _ \<Rightarrow> 0) + sends evs"
  "sends (evs @ evs') = sends evs + sends evs'"
  by (simp_all add: sends_def split: event.split)

lemma sleeps_simps [log_simps]: "sleeps [] = []"
  "sleeps (e # evs) = (case e of EvSleep d \<Rightarrow> [d] | _ \<Rightarrow> []) @ sleeps evs"
  "sleeps (evs @ evs') = sleeps evs @ sleeps evs'"
  by (simp_all add: sleeps_def map_filter_simps List.map_filter_def split: event.split)

lemma invalidations_simps [log_simps]: "invalidations [] = 0"
  "invalidations (e # evs) = of_bool (e = EvInvalidate) + invalidations evs"
  "invalidations (evs @ evs') = invalidations evs + invalidations evs'"
  by (simp_all add: invalidations_def)

lemma retry_run_counts:
  assumes "retry_run policy n dropped evs"
  shows "sends evs = n + of_bool dropped \<and> invalidations evs = of_bool dropped \<and> length (sleeps evs) = n
     \<and> list_all (\<lambda>d. d \<le> rp_max_delay policy) (sleeps evs) \<and> (n = 0 \<or> n < unat (rp_max_attempts policy))"
  using assms by induction (auto simp: log_simps)

lemma retry_run_last: "retry_run policy n dropped evs \<Longrightarrow> evs \<noteq> pre @ [EvSend out]"
proof (induction rule: retry_run.induct)
  case (invalidate n evs r)
  have "last (evs @ [EvSend (Inr r), EvInvalidate]) \<noteq> EvSend out" by simp
  then show ?case by (metis last_snoc)
next
  case (back_off n dropped evs out' delay)
  have "last (evs @ [EvSend out', EvSleep delay]) \<noteq> EvSend out" by simp
  then show ?case by (metis last_snoc)
qed simp

lemma retry_delay_bound:
  assumes "\<And>hi s. fst (rand hi s) \<le> hi" "retry_delay_for rand policy n header s = (delay, s')"
  shows "delay \<le> rp_max_delay policy"
proof (cases "Option.bind header parse_retry_after")
  case None
  define capped where "capped = min (rp_max_delay policy) (saturating_mul (rp_base_delay policy) (2 ^ min n 20))"
  from None assms(2) have "delay = millis (fst (rand (capped div 10 ^ 6 mod 2 ^ 64) s))"
    by (auto simp: retry_delay_for_def capped_def split: prod.splits)
  moreover have "fst (rand (capped div 10 ^ 6 mod 2 ^ 64) s) \<le> capped div 10 ^ 6"
    by (rule order_trans [OF assms(1)]) simp
  ultimately have "delay \<le> capped div 10 ^ 6 * 10 ^ 6" by (simp add: millis_def)
  also have "\<dots> \<le> capped" by simp
  finally show ?thesis by (simp add: capped_def)
next
  case (Some base)
  with assms(2) show ?thesis by (auto simp: retry_delay_for_def split: prod.splits)
qed

section \<open>The verdict on the last send\<close>

text \<open>
  What the log alone says about the result: \<open>n\<close> attempts consumed before the last send,
  \<open>dropped\<close> whether the credential was invalidated.
\<close>

definition verdict ::
  "'s HttpClient \<Rightarrow> nat \<Rightarrow> bool \<Rightarrow> string + Response \<Rightarrow> (SealStackError + HttpResponse) option \<Rightarrow> bool" where
  "verdict client n dropped out result =
     (case out of
        Inl e \<Rightarrow> \<exists>d. result = Some (Inl (retry_exhausted (n + 1) d (SeBackend (''network: '' @ e))))
      | Inr r \<Rightarrow>
          if is_success r then result = Some (Inr \<lparr>hr_inner = r, hr_body_cap_bytes = hc_body_cap_bytes client\<rparr>)
          else if rs_status r = 401 then dropped \<and> result = Some (Inl (SeUnauthorized ''HTTP 401 after credential invalidation''))
          else if is_fatal r then result = Some (Inl (http_status_error (hc_body_cap_bytes client) r))
          else \<exists>d. result = Some (Inl (retry_exhausted (n + 1) d (status_failure r (n + 1)))))"

definition last_attempt :: "RetryPolicy \<Rightarrow> nat \<Rightarrow> bool" where
  "last_attempt policy n \<longleftrightarrow> unat (rp_max_attempts policy) \<le> n + 1"

text \<open>The run stopped before a request: an error of the request or the credential, or its panic.\<close>

definition undelivered :: "(SealStackError + HttpResponse) option \<Rightarrow> bool" where
  "undelivered result = (case result of Some (Inr _) \<Rightarrow> False | _ \<Rightarrow> True)"

lemma undelivered_simps [simp]: "undelivered None" "undelivered (Some (Inl e))" "\<not> undelivered (Some (Inr r))"
  by (simp_all add: undelivered_def)

definition refines ::
  "'s HttpClient \<Rightarrow> event list \<Rightarrow> (SealStackError + HttpResponse) option \<Rightarrow> bool" where
  "refines client evs result \<longleftrightarrow>
     (\<exists>n dropped pre. retry_run (hc_retry client) n dropped pre
        \<and> (evs = pre \<and> undelivered result
           \<or> (\<exists>out. evs = pre @ [EvSend out] \<and> verdict client n dropped out result
                \<and> (retryable out \<longrightarrow> last_attempt (hc_retry client) n))))"

lemma refines_stop: "retry_run (hc_retry client) n dropped evs \<Longrightarrow> undelivered result \<Longrightarrow> refines client evs result"
  unfolding refines_def by blast

lemma refines_verdict:
  "retry_run (hc_retry client) n dropped evs \<Longrightarrow> verdict client n dropped out result
     \<Longrightarrow> (retryable out \<longrightarrow> last_attempt (hc_retry client) n) \<Longrightarrow> refines client (evs @ [EvSend out]) result"
  unfolding refines_def by blast

text \<open>One turn of the loop: it stops, decides, or turns again.\<close>

lemma send_loop_turn:
  assumes "send_loop tr client rb start n dropped evs s = (evs', result, s')"
  obtains
    (stop) "evs' = evs" "undelivered result"
  | (decided) out where "evs' = evs @ [EvSend out]" "verdict client n dropped out result"
      "retryable out \<longrightarrow> last_attempt (hc_retry client) n"
  | (invalidate) r t where "rs_status r = 401" "\<not> dropped"
      "send_loop tr client rb start n True (evs @ [EvSend (Inr r), EvInvalidate]) t = (evs', result, s')"
  | (retry) out header t delay t' t'' where "retryable out" "\<not> last_attempt (hc_retry client) n"
      "retry_delay_for (tr_rand tr) (hc_retry client) n header t = (delay, t')"
      "send_loop tr client rb start (n + 1) dropped (evs @ [EvSend out, EvSleep delay]) t'' = (evs', result, s')"
proof -
  note step = assms [unfolded send_loop.simps [of tr client rb start n dropped evs s]]
  show ?thesis
  proof (cases "tr_clone tr rb")
    case None
    with step show ?thesis by (auto intro: stop)
  next
    case (Some rb')
    obtain h s1 where auth: "cd_authorization_header (hc_credential client) s = (h, s1)" by fastforce
    consider "undelivered (map_option (map_sum id undefined) h)" | a where "h = Some (Inr a)"
      by (cases h rule: option.exhaust; cases "the h") auto
    then show ?thesis
    proof cases
      case 1
      with Some auth step show ?thesis by (auto intro: stop split: option.splits sum.splits)
    next
      case (2 a)
      obtain out s2 where out: "tr_send tr rb' a (hc_user_agent client) s1 = (out, s2)" by fastforce
      note step = step [unfolded Some option.case auth prod.case 2 sum.case out Let_def]
      show ?thesis
      proof (cases out)
        case (Inl e)
        obtain delay s3 where d: "retry_delay_for (tr_rand tr) (hc_retry client) n None s2 = (delay, s3)"
          by fastforce
        show ?thesis
          using step Inl decided [of "Inl e"] retry [OF _ _ d, of "Inl e" "tr_sleep tr delay s3"]
          by (auto simp: d verdict_def retryable_def last_attempt_def split: if_splits)
      next
        case (Inr r)
        obtain delay s3 where
          d: "retry_delay_for (tr_rand tr) (hc_retry client) n (header_get r ''Retry-After'') s2 = (delay, s3)"
          by fastforce
        show ?thesis
          using step Inr decided [of "Inr r"] invalidate [of r] retry [OF _ _ d, of "Inr r" "tr_sleep tr delay s3"]
          by (auto simp: d verdict_def retryable_def last_attempt_def split: if_splits)
      qed
    qed
  qed
qed

lemma send_loop_refines:
  assumes rand: "\<And>hi s. fst (tr_rand tr hi s) \<le> hi"
  shows "retry_run (hc_retry client) n dropped evs
    \<Longrightarrow> send_loop tr client rb start n dropped evs s = (evs', result, s') \<Longrightarrow> refines client evs' result"
proof (induction "2 * (unat (rp_max_attempts (hc_retry client)) - n) + of_bool (\<not> dropped)"
    arbitrary: n dropped evs s rule: less_induct)
  case less
  note run = less.prems(1)
  from less.prems(2) show ?case
  proof (cases rule: send_loop_turn)
    case stop
    with run show ?thesis by (simp add: refines_stop)
  next
    case (decided out)
    with run show ?thesis by (simp add: refines_verdict)
  next
    case (invalidate r t)
    show ?thesis
      by (rule less.hyps [OF _ retry_run.invalidate invalidate(3)]) (use invalidate run in simp_all)
  next
    case (retry out header t delay t' t'')
    have "retry_run (hc_retry client) (n + 1) dropped (evs @ [EvSend out, EvSleep delay])"
      using retry_run.back_off [OF run retry(1)] retry(2) retry_delay_bound [OF rand retry(3)]
      by (simp add: last_attempt_def)
    from less.hyps [OF _ this retry(4)] retry(2) show ?thesis by (simp add: last_attempt_def)
  qed
qed

lemma http_send_refines_aux:
  assumes rand: "\<And>hi s. fst (tr_rand tr hi s) \<le> hi" and run: "http_send tr client rb s = (evs, result, s')"
  shows "refines client evs result"
proof (cases "tr_clone tr rb")
  case None
  with run show ?thesis by (auto simp: http_send_def intro: refines_stop start)
next
  case (Some probe)
  show ?thesis
  proof (cases "tr_build tr probe")
    case (Inl e)
    with Some run show ?thesis by (auto simp: http_send_def intro: refines_stop start)
  next
    case (Inr u)
    with Some run have "send_loop tr client rb (tr_now tr s) 0 False [] s = (evs, result, s')"
      by (simp add: http_send_def)
    with rand start show ?thesis by (rule send_loop_refines)
  qed
qed

section \<open>A run\<close>

text \<open>
  A transport that answers from a script: a refused credential, a busy server that asks for a
  second's patience, and a success. The state is the script with the clock.
\<close>

definition answer :: "nat \<Rightarrow> (string \<times> u8 list) list \<Rightarrow> Response" where
  "answer status headers = \<lparr>rs_status = of_nat status, rs_headers = headers, rs_body = [Inr [111, 107]]\<rparr>"

definition busy_headers :: "(string \<times> u8 list) list" where
  "busy_headers = [(''retry-after'', bytes_of '' 1 '')]"

definition script_transport :: "(unit, (string + Response) list \<times> duration) transport" where
  "script_transport =
     \<lparr>tr_clone = Some, tr_build = (\<lambda>_. Inr ()),
      tr_send = (\<lambda>_ _ _ s. case s of ([], t) \<Rightarrow> (Inl ''closed'', ([], t)) | (r # rs, t) \<Rightarrow> (r, (rs, t + 1))),
      tr_rand = (\<lambda>hi s. (hi div 2, s)),
      tr_sleep = (\<lambda>d s. (fst s, snd s + d)),
      tr_now = snd\<rparr>"

definition fixed_credential :: "'s Credential" where
  "fixed_credential =
     \<lparr>cd_authorization_header = (\<lambda>s. (Some (Inr ''Bearer t''), s)), cd_invalidate = (\<lambda>s. s)\<rparr>"

definition script_client :: "nat \<Rightarrow> ((string + Response) list \<times> duration) HttpClient" where
  "script_client n = \<lparr>hc_credential = fixed_credential,
     hc_retry = retry_policy_default\<lparr>rp_max_attempts := of_nat n\<rparr>, hc_user_agent = base_ua, hc_body_cap_bytes = 100\<rparr>"

definition script_run :: "nat \<Rightarrow> (string + Response) list \<Rightarrow> event list \<times> (SealStackError + HttpResponse) option" where
  "script_run n script = (case http_send script_transport (script_client n) () (script, 0) of (evs, r, _) \<Rightarrow> (evs, r))"

lemma script_rand: "fst (tr_rand script_transport hi s) \<le> hi"
  by (simp add: script_transport_def)

definition patient_script :: "(string + Response) list" where
  "patient_script = [Inr (answer 401 []), Inr (answer 503 busy_headers), Inl ''reset'', Inr (answer 200 [])]"

lemma patient_run:
  "script_run 5 patient_script =
     ([EvSend (Inr (answer 401 [])), EvInvalidate, EvSend (Inr (answer 503 busy_headers)), EvSleep (millis 1499),
       EvSend (Inl ''reset''), EvSleep (millis 500), EvSend (Inr (answer 200 []))],
      Some (Inr \<lparr>hr_inner = answer 200 [], hr_body_cap_bytes = 100\<rparr>))"
  by code_simp

lemma script_send: "\<exists>s'. http_send script_transport (script_client n) () (script, 0) = (fst (script_run n script), snd (script_run n script), s')"
  by (simp add: script_run_def split: prod.split)

section \<open>Properties\<close>

text \<open>
  C22: sending a request ends whatever the server and the credential do, and within bounds:
  at most \<open>max_attempts\<close> requests (one when that is 0) and one more after an invalidation of
  the credential, which happens at most once; fewer than \<open>max_attempts\<close> sleeps, none longer
  than \<open>max_delay\<close>, a \<open>Retry-After\<close> of any size included.
\<close>

theorem http_send_bounded:
  assumes "\<And>hi s. fst (tr_rand tr hi s) \<le> hi" and "http_send tr client rb s = (evs, result, s')"
  shows "invalidations evs \<le> 1
    \<and> sends evs \<le> max 1 (unat (rp_max_attempts (hc_retry client))) + invalidations evs
    \<and> length (sleeps evs) < max 1 (unat (rp_max_attempts (hc_retry client)))
    \<and> list_all (\<lambda>d. d \<le> rp_max_delay (hc_retry client)) (sleeps evs)"
proof -
  from http_send_refines_aux [OF assms] obtain n dropped pre tail where
    run: "retry_run (hc_retry client) n dropped pre" and
    evs: "evs = pre @ tail" "tail = [] \<or> (\<exists>out. tail = [EvSend out])"
    unfolding refines_def by (metis append_Nil2)
  from retry_run_counts [OF run] evs show ?thesis by (auto simp: log_simps)
qed

theorem http_send_bounded_witness:
  "sends (fst (script_run 2 patient_script)) \<le> 2 + invalidations (fst (script_run 2 patient_script))
   \<and> length (sleeps (fst (script_run 2 patient_script))) < 2"
proof -
  from script_send [of 2 patient_script] obtain s' where
    run: "http_send script_transport (script_client 2) () (patient_script, 0)
      = (fst (script_run 2 patient_script), snd (script_run 2 patient_script), s')" by blast
  from http_send_bounded [OF script_rand run] show ?thesis by (simp add: script_client_def)
qed

text \<open>
  C21: the send loop implements the retry protocol: everything before the last request is a run
  of \<open>retry_run\<close> (only retryable outcomes are slept on, only a 401 invalidates), and the
  result is the verdict on the last request: a 2xx is returned, a 401 after the invalidation is
  \<open>Unauthorized\<close>, another 4xx is returned with its headers and capped body, and a retryable
  outcome ends the run only when the attempts are used up, as \<open>RetryExhausted\<close> with exactly
  \<open>max 1 max_attempts\<close> attempts.
\<close>

theorem http_send_refines_protocol:
  assumes "\<And>hi s. fst (tr_rand tr hi s) \<le> hi" and "http_send tr client rb s = (evs, result, s')"
  shows "refines client evs result
    \<and> (\<forall>out pre. evs = pre @ [EvSend out] \<and> retryable out \<longrightarrow>
         (\<exists>d e. result = Some (Inl (SeRetryExhausted (max 1 (rp_max_attempts (hc_retry client))) d (SeBackend e)))))"
proof -
  have all: "\<exists>d e. result = Some (Inl (SeRetryExhausted (max 1 (rp_max_attempts (hc_retry client))) d (SeBackend e)))"
    if out: "evs = pre @ [EvSend out]" "retryable out" for out pre
  proof -
    from http_send_refines_aux [OF assms] out(1) obtain n dropped where
      run: "retry_run (hc_retry client) n dropped pre" and
      v: "verdict client n dropped out result" "retryable out \<longrightarrow> last_attempt (hc_retry client) n"
      unfolding refines_def using retry_run_last by (metis append1_eq_conv event.inject(1))
    from retry_run_counts [OF run] v(2) out(2)
    have "n + 1 = max 1 (unat (rp_max_attempts (hc_retry client)))" by (auto simp: last_attempt_def)
    then have "of_nat (n + 1) = max 1 (rp_max_attempts (hc_retry client))"
      by (auto simp: max_def word_le_nat_alt unat_eq_zero split: if_splits)
    with v(1) out(2) show ?thesis
      by (auto simp: verdict_def retryable_def retry_exhausted_def status_failure_def split: sum.splits)
  qed
  then show ?thesis using http_send_refines_aux [OF assms] by blast
qed

theorem http_send_refines_protocol_witness:
  "\<exists>d e. snd (script_run 2 (patient_script @ patient_script)) = Some (Inl (SeRetryExhausted 2 d (SeBackend e)))"
proof -
  have evs: "fst (script_run 2 (patient_script @ patient_script)) =
      [EvSend (Inr (answer 401 [])), EvInvalidate, EvSend (Inr (answer 503 busy_headers)), EvSleep (millis 1499)]
        @ [EvSend (Inl ''reset'')]"
    by code_simp
  have out: "retryable (Inl ''reset'')" by (simp add: retryable_def)
  from script_send [of 2 "patient_script @ patient_script"] obtain s' where
    run: "http_send script_transport (script_client 2) () (patient_script @ patient_script, 0)
      = (fst (script_run 2 (patient_script @ patient_script)), snd (script_run 2 (patient_script @ patient_script)), s')" by blast
  have max: "max 1 (rp_max_attempts (hc_retry (script_client 2))) = 2" by code_simp
  from http_send_refines_protocol [OF script_rand run] evs out show ?thesis unfolding max by blast
qed

end
