(* ===== verification/Sdk_Auth.thy ===== *)
theory Sdk_Auth
  imports Sdk_Http
begin

text \<open>
  The connector SDK's credentials (\<open>sealstack-connector-sdk/src/auth.rs\<close>): static tokens and
  the OAuth 2 refresh-token grant with its token cache. The token endpoint, the clock and the
  JSON readers are a record of operations on the outside state. A credential holds its lock
  for a whole call, so concurrent calls are a sequence of calls.
\<close>

section \<open>Static tokens\<close>

datatype StaticToken = StaticToken string

text \<open>The environment's answer is \<open>None\<close> for every \<open>VarError\<close>.\<close>

definition static_token_from_env :: "string \<Rightarrow> string option \<Rightarrow> SealStackError + StaticToken" where
  "static_token_from_env var result =
     (case result of
        None \<Rightarrow> Inl (SeConfig (''env var `'' @ var @ ''` not set''))
      | Some s \<Rightarrow> if s = [] then Inl (SeConfig (''env var `'' @ var @ ''` is empty''))
                 else Inr (StaticToken s))"

fun static_authorization_header :: "StaticToken \<Rightarrow> SealStackError + string" where
  "static_authorization_header (StaticToken t) = Inr (''Bearer '' @ t)"

definition static_credential :: "StaticToken \<Rightarrow> 's Credential" where
  "static_credential t = \<lparr>cd_authorization_header = (\<lambda>s. (Some (static_authorization_header t), s)),
     cd_invalidate = (\<lambda>s. s)\<rparr>"

section \<open>OAuth 2: state and outside world\<close>

text \<open>
  An \<open>Instant\<close> counts nanoseconds; on Unix its seconds are an \<open>i64\<close>. Adding a duration
  panics beyond that, which is the value \<open>None\<close>.
\<close>

type_synonym instant = nat

definition instant_max :: instant where "instant_max = 2 ^ 63 * 10 ^ 9 - 1"

definition instant_add :: "instant \<Rightarrow> duration \<Rightarrow> instant option" where
  "instant_add i d = (if i + d \<le> instant_max then Some (i + d) else None)"

record CachedAccess =
  ca_access_token :: "string option"
  ca_valid_until :: "instant option"
  ca_negative_cache :: "(instant \<times> string) option"

definition cached_access_default :: CachedAccess where
  "cached_access_default = \<lparr>ca_access_token = None, ca_valid_until = None, ca_negative_cache = None\<rparr>"

definition REFRESH_SKEW_SECS :: nat where "REFRESH_SKEW_SECS = 60"
definition NEGATIVE_CACHE_SECS :: nat where "NEGATIVE_CACHE_SECS = 5"

record OAuth2Credential =
  oa_client_id :: string
  oa_client_secret :: string
  oa_refresh_token :: string
  oa_token_endpoint :: string

definition oauth_new :: "string + unit \<Rightarrow> string \<Rightarrow> string \<Rightarrow> string \<Rightarrow> string \<Rightarrow> SealStackError + OAuth2Credential \<times> CachedAccess" where
  "oauth_new built client_id client_secret refresh_token token_endpoint =
     (case built of
        Inl e \<Rightarrow> Inl (SeBackend (''oauth2 client build: '' @ e))
      | Inr _ \<Rightarrow> Inr (\<lparr>oa_client_id = client_id, oa_client_secret = client_secret,
                        oa_refresh_token = refresh_token, oa_token_endpoint = token_endpoint\<rparr>,
                      cached_access_default))"

definition oauth_google :: "string + unit \<Rightarrow> string \<Rightarrow> string \<Rightarrow> string \<Rightarrow> SealStackError + OAuth2Credential \<times> CachedAccess" where
  "oauth_google built client_id client_secret refresh_token =
     oauth_new built client_id client_secret refresh_token ''https://oauth2.googleapis.com/token''"

text \<open>
  \<open>ep_post\<close> posts a form to the endpoint and gives the status and the body's text;
  \<open>ep_token\<close> and \<open>ep_error\<close> read the two JSON answers, \<open>ep_show_status\<close> prints a status
  with its reason phrase.
\<close>

record 's endpoint =
  ep_post :: "string \<Rightarrow> (string \<times> string) list \<Rightarrow> 's \<Rightarrow> (string + u16 \<times> (string + string)) \<times> 's"
  ep_token :: "string \<Rightarrow> string + string \<times> u64"
  ep_error :: "string \<Rightarrow> string option"
  ep_show_status :: "u16 \<Rightarrow> string"
  ep_sleep :: "duration \<Rightarrow> 's \<Rightarrow> 's"
  ep_now :: "'s \<Rightarrow> instant \<times> 's"

section \<open>Refreshing\<close>

definition refresh_form :: "OAuth2Credential \<Rightarrow> (string \<times> string) list" where
  "refresh_form c = [(''client_id'', oa_client_id c), (''client_secret'', oa_client_secret c),
     (''refresh_token'', oa_refresh_token c), (''grant_type'', ''refresh_token'')]"

definition refresh_error :: "string \<Rightarrow> SealStackError" where
  "refresh_error error =
     (if error = ''invalid_grant'' then SeUnauthorized ''OAuth2 refresh failed: invalid_grant''
      else if error = ''invalid_client'' \<or> error = ''invalid_scope''
      then SeConfig (''OAuth2 misconfiguration: '' @ error)
      else SeBackend (''OAuth2 refresh failed: '' @ error))"

definition refresh_once ::
  "'s endpoint \<Rightarrow> OAuth2Credential \<Rightarrow> 's \<Rightarrow> (SealStackError + string \<times> u64) \<times> 's" where
  "refresh_once ep c s =
     (case ep_post ep (oa_token_endpoint c) (refresh_form c) s of
        (Inl e, s) \<Rightarrow> (Inl (SeBackend (''oauth2 transport: '' @ e)), s)
      | (Inr (status, Inl e), s) \<Rightarrow> (Inl (SeBackend (''oauth2 body read: '' @ e)), s)
      | (Inr (status, Inr body), s) \<Rightarrow>
          (if 200 \<le> status \<and> status < 300 then
             (case ep_token ep body of
                Inl e \<Rightarrow> Inl (SeBackend (''oauth2 parse: '' @ e))
              | Inr tr \<Rightarrow> Inr tr)
           else if status = 400 then
             Inl (refresh_error (case ep_error ep body of None \<Rightarrow> ''unknown'' | Some e \<Rightarrow> e))
           else Inl (SeBackend (''OAuth2 refresh failed: HTTP '' @ ep_show_status ep status)), s))"

definition permanent :: "SealStackError \<Rightarrow> bool" where
  "permanent e = (case e of SeUnauthorized _ \<Rightarrow> True | SeConfig _ \<Rightarrow> True | _ \<Rightarrow> False)"

text \<open>The attempts still to make; the loop counts them from 0 to 2.\<close>

fun refresh_attempts ::
  "'s endpoint \<Rightarrow> OAuth2Credential \<Rightarrow> nat list \<Rightarrow> SealStackError \<Rightarrow> 's
     \<Rightarrow> (SealStackError + string \<times> u64) \<times> 's" where
  "refresh_attempts ep c [] last_err s = (Inl last_err, s)"
| "refresh_attempts ep c (attempt # attempts) last_err s =
     (case refresh_once ep c s of
        (Inr tok, s) \<Rightarrow> (Inr tok, s)
      | (Inl e, s) \<Rightarrow>
          if permanent e then (Inl e, s)
          else refresh_attempts ep c attempts e
                 (if attempt < 2 then ep_sleep ep (millis (200 * 2 ^ attempt)) s else s))"

definition refresh_with_retry ::
  "'s endpoint \<Rightarrow> OAuth2Credential \<Rightarrow> 's \<Rightarrow> (SealStackError + string \<times> u64) \<times> 's" where
  "refresh_with_retry ep c s = refresh_attempts ep c [0, 1, 2] (SeBackend ''unknown'') s"

section \<open>The authorization header\<close>

text \<open>
  What the cache answers: \<open>Inl\<close> the answer of the call (\<open>None\<close> a panic), \<open>Inr\<close> that a refresh
  is needed. The second component is the cache the call leaves.
\<close>

definition oauth_cached ::
  "'s endpoint \<Rightarrow> CachedAccess \<times> 's
     \<Rightarrow> ((SealStackError + string) option + unit) \<times> CachedAccess \<times> 's" where
  "oauth_cached ep st =
     (let positive = (\<lambda>(cache, s).
        case (ca_access_token cache, ca_valid_until cache) of
          (Some tok, Some until) \<Rightarrow>
            (case ep_now ep s of (now, s) \<Rightarrow>
             case instant_add now (secs REFRESH_SKEW_SECS) of
               None \<Rightarrow> (Inl None, cache, s)
             | Some t \<Rightarrow> if t < until then (Inl (Some (Inr (''Bearer '' @ tok))), cache, s)
                        else (Inr (), cache, s))
        | _ \<Rightarrow> (Inr (), cache, s))
      in case st of (cache, s) \<Rightarrow>
         case ca_negative_cache cache of
           Some (expires, message) \<Rightarrow>
             (case ep_now ep s of (now, s) \<Rightarrow>
              if now < expires then (Inl (Some (Inl (SeBackend message))), cache, s)
              else positive (cache\<lparr>ca_negative_cache := None\<rparr>, s))
         | None \<Rightarrow> positive (cache, s))"

definition oauth_refresh ::
  "'s endpoint \<Rightarrow> OAuth2Credential \<Rightarrow> CachedAccess \<times> 's
     \<Rightarrow> (SealStackError + string) option \<times> CachedAccess \<times> 's" where
  "oauth_refresh ep c st =
     (case st of (cache, s) \<Rightarrow>
      case refresh_with_retry ep c s of
        (Inr (new_tok, expires_in), s) \<Rightarrow>
          (let cache = cache\<lparr>ca_access_token := Some new_tok\<rparr>
           in case ep_now ep s of (now, s) \<Rightarrow>
              case instant_add now (secs (unat expires_in)) of
                None \<Rightarrow> (None, cache, s)
              | Some until \<Rightarrow> (Some (Inr (''Bearer '' @ new_tok)), cache\<lparr>ca_valid_until := Some until\<rparr>, s))
      | (Inl e, s) \<Rightarrow>
          if permanent e then (Some (Inl e), cache, s)
          else
            (let message = ''OAuth2 refresh failed: '' @ show_error e
             in case ep_now ep s of (now, s) \<Rightarrow>
                case instant_add now (secs NEGATIVE_CACHE_SECS) of
                  None \<Rightarrow> (None, cache, s)
                | Some expires \<Rightarrow> (Some (Inl (SeBackend message)),
                                   cache\<lparr>ca_negative_cache := Some (expires, message)\<rparr>, s)))"

definition oauth_authorization_header ::
  "'s endpoint \<Rightarrow> OAuth2Credential \<Rightarrow> CachedAccess \<times> 's
     \<Rightarrow> (SealStackError + string) option \<times> CachedAccess \<times> 's" where
  "oauth_authorization_header ep c st =
     (case oauth_cached ep st of
        (Inl answer, st) \<Rightarrow> (answer, st)
      | (Inr _, st) \<Rightarrow> oauth_refresh ep c st)"

definition oauth_invalidate :: "CachedAccess \<times> 's \<Rightarrow> CachedAccess \<times> 's" where
  "oauth_invalidate st = (case st of (cache, s) \<Rightarrow>
     (cache\<lparr>ca_access_token := None, ca_valid_until := None\<rparr>, s))"

definition oauth_credential :: "'s endpoint \<Rightarrow> OAuth2Credential \<Rightarrow> (CachedAccess \<times> 's) Credential" where
  "oauth_credential ep c = \<lparr>cd_authorization_header = oauth_authorization_header ep c,
     cd_invalidate = oauth_invalidate\<rparr>"


section \<open>Which tokens are served\<close>

text \<open>
  The states the calls on a credential reach, with the tokens the endpoint has issued since
  the cache was last empty: a call is answered from the cache, or refreshes, or invalidates.
\<close>

inductive oauth_run ::
  "'s endpoint \<Rightarrow> OAuth2Credential \<Rightarrow> string list \<Rightarrow> CachedAccess \<times> 's \<Rightarrow> bool" for ep c where
  empty: "ca_access_token cache = None \<Longrightarrow> oauth_run ep c [] (cache, s)"
| invalidate: "oauth_run ep c issued st \<Longrightarrow> oauth_run ep c [] (oauth_invalidate st)"
| cached: "oauth_run ep c issued st \<Longrightarrow> oauth_cached ep st = (Inl answer, st')
    \<Longrightarrow> oauth_authorization_header ep c st = (answer, st') \<Longrightarrow> oauth_run ep c issued st'"
| refused: "oauth_run ep c issued st \<Longrightarrow> oauth_cached ep st = (Inr (), cache, s)
    \<Longrightarrow> refresh_with_retry ep c s = (Inl e, s') \<Longrightarrow> oauth_authorization_header ep c st = (answer, st')
    \<Longrightarrow> oauth_run ep c issued st'"
| issued: "oauth_run ep c issued st \<Longrightarrow> oauth_cached ep st = (Inr (), cache, s)
    \<Longrightarrow> refresh_with_retry ep c s = (Inr (tok, expires_in), s')
    \<Longrightarrow> oauth_authorization_header ep c st = (answer, st') \<Longrightarrow> oauth_run ep c (issued @ [tok]) st'"

lemma oauth_cached_token: "oauth_cached ep st = (r, st') \<Longrightarrow> ca_access_token (fst st') = ca_access_token (fst st)"
  by (auto simp: oauth_cached_def Let_def split: prod.splits option.splits if_splits)

lemma oauth_cached_answer:
  "oauth_cached ep st = (Inl (Some (Inr h)), st') \<Longrightarrow> \<exists>tok. ca_access_token (fst st) = Some tok \<and> h = ''Bearer '' @ tok"
  by (auto simp: oauth_cached_def Let_def split: prod.splits option.splits if_splits)

lemma oauth_refresh_ok:
  "refresh_with_retry ep c s = (Inr (tok, expires_in), s') \<Longrightarrow> oauth_refresh ep c (cache, s) = (answer, st')
     \<Longrightarrow> ca_access_token (fst st') = Some tok \<and> (\<forall>h. answer = Some (Inr h) \<longrightarrow> h = ''Bearer '' @ tok)"
  by (auto simp: oauth_refresh_def Let_def split: prod.splits option.splits)

lemma oauth_refresh_err:
  "refresh_with_retry ep c s = (Inl e, s') \<Longrightarrow> oauth_refresh ep c (cache, s) = (answer, st')
     \<Longrightarrow> ca_access_token (fst st') = ca_access_token cache \<and> (\<forall>h. answer \<noteq> Some (Inr h))"
  by (auto simp: oauth_refresh_def Let_def split: prod.splits option.splits if_splits)

lemma oauth_header_refresh:
  "oauth_cached ep st = (Inr (), cache, s) \<Longrightarrow> oauth_authorization_header ep c st = oauth_refresh ep c (cache, s)"
  by (simp add: oauth_authorization_header_def)

lemma oauth_run_token:
  "oauth_run ep c issued st \<Longrightarrow> ca_access_token (fst st) = Some tok \<Longrightarrow> issued \<noteq> [] \<and> last issued = tok"
proof (induction arbitrary: tok rule: oauth_run.induct)
  case (invalidate issued st)
  then show ?case by (simp add: oauth_invalidate_def split: prod.splits)
next
  case (cached issued st answer st')
  then show ?case using oauth_cached_token [of ep st "Inl answer" st'] by simp
next
  case (refused issued st cache s e s' answer st')
  then show ?case
    using oauth_cached_token [OF refused.hyps(2)] oauth_refresh_err [OF refused.hyps(3), of cache answer st']
      refused.IH [of tok]
    by (auto simp: oauth_header_refresh)
next
  case (issued issued st cache s tok' expires_in s' answer st')
  then show ?case
    using oauth_refresh_ok [OF issued.hyps(3), of cache answer st'] by (simp add: oauth_header_refresh)
qed simp

text \<open>
  C23: an OAuth 2 credential serves exactly the newest token the endpoint has issued since the
  last invalidation: whatever calls came before, in any order, a header that is returned is
  \<open>Bearer\<close> and the last token issued since, or the token this very call obtained. So no token
  outlives the invalidation a 401 causes.
\<close>

theorem oauth_serves_newest_token:
  assumes "oauth_run ep c issued st" and "oauth_authorization_header ep c st = (Some (Inr h), st')"
  shows "(issued \<noteq> [] \<and> h = ''Bearer '' @ last issued \<and> ca_access_token (fst st') = Some (last issued))
    \<or> (\<exists>cache s tok expires_in s'. oauth_cached ep st = (Inr (), cache, s)
         \<and> refresh_with_retry ep c s = (Inr (tok, expires_in), s') \<and> h = ''Bearer '' @ tok
         \<and> ca_access_token (fst st') = Some tok)"
proof (cases "oauth_cached ep st")
  case (fields r cache s)
  show ?thesis
  proof (cases r)
    case (Inl answer)
    with fields assms(2) have a: "oauth_cached ep st = (Inl (Some (Inr h)), st')"
      by (simp add: oauth_authorization_header_def)
    from oauth_cached_answer [OF this] obtain tok where
      tok: "ca_access_token (fst st) = Some tok" "h = ''Bearer '' @ tok" by blast
    with oauth_run_token [OF assms(1) tok(1)] oauth_cached_token [OF a] show ?thesis by simp
  next
    case (Inr u)
    with fields assms(2) have f: "oauth_cached ep st = (Inr (), cache, s)"
      "oauth_refresh ep c (cache, s) = (Some (Inr h), st')"
      by (simp_all add: oauth_authorization_header_def)
    obtain out s' where out: "refresh_with_retry ep c s = (out, s')" by fastforce
    with f(2) oauth_refresh_err [of ep c s _ s' cache] obtain tok expires_in where "out = Inr (tok, expires_in)"
      by (cases out) auto
    with out f oauth_refresh_ok [of ep c s tok expires_in s' cache] show ?thesis by blast
  qed
qed

text \<open>An endpoint that answers from a script and takes a second for each answer.\<close>

definition script_endpoint :: "((u16 \<times> string) list \<times> instant) endpoint" where
  "script_endpoint =
     \<lparr>ep_post = (\<lambda>_ _ s. case s of ([], t) \<Rightarrow> (Inl ''closed'', ([], t))
                         | ((status, body) # rs, t) \<Rightarrow> (Inr (status, Inr body), (rs, t + secs 1))),
      ep_token = (\<lambda>body. Inr (body, 3600)), ep_error = Some, ep_show_status = (\<lambda>n. show_nat (unat n)),
      ep_sleep = (\<lambda>d s. (fst s, snd s + d)), ep_now = (\<lambda>s. (snd s, s))\<rparr>"

definition sample_credential :: OAuth2Credential where
  "sample_credential = \<lparr>oa_client_id = ''id'', oa_client_secret = ''secret'', oa_refresh_token = ''refresh'',
     oa_token_endpoint = ''https://example.org/token''\<rparr>"

definition sample_start :: "CachedAccess \<times> (u16 \<times> string) list \<times> instant" where
  "sample_start = (cached_access_default, [(503, ''busy''), (200, ''t1''), (200, ''t2'')], 0)"

definition after_first :: "CachedAccess \<times> (u16 \<times> string) list \<times> instant" where
  "after_first = snd (oauth_authorization_header script_endpoint sample_credential sample_start)"

definition after_second :: "CachedAccess \<times> (u16 \<times> string) list \<times> instant" where
  "after_second = snd (oauth_authorization_header script_endpoint sample_credential (oauth_invalidate after_first))"

lemma sample_first:
  "oauth_authorization_header script_endpoint sample_credential sample_start
     = (Some (Inr ''Bearer t1''), after_first)"
  "oauth_cached script_endpoint sample_start = (Inr (), sample_start)"
  "refresh_with_retry script_endpoint sample_credential (snd sample_start)
     = (Inr (''t1'', 3600), [(200, ''t2'')], millis 2200)"
  "oauth_authorization_header script_endpoint sample_credential after_first
     = (Some (Inr ''Bearer t1''), after_first)"
  by code_simp+

lemma sample_second:
  "oauth_authorization_header script_endpoint sample_credential (oauth_invalidate after_first)
     = (Some (Inr ''Bearer t2''), after_second)"
  by code_simp

lemma sample_oauth_run: "oauth_run script_endpoint sample_credential [''t1''] after_first"
proof -
  obtain cache s where st: "sample_start = (cache, s)" by (cases sample_start)
  have run: "oauth_run script_endpoint sample_credential [] sample_start"
    by (auto simp: sample_start_def cached_access_default_def intro: empty)
  have cached: "oauth_cached script_endpoint sample_start = (Inr (), cache, s)"
    using sample_first(2) unfolding st .
  have refresh: "refresh_with_retry script_endpoint sample_credential s
      = (Inr (''t1'', 3600), [(200, ''t2'')], millis 2200)"
    using sample_first(3) unfolding st snd_conv .
  from issued [OF run cached refresh sample_first(1)] show ?thesis unfolding append_Nil .
qed

theorem oauth_serves_newest_token_witness:
  "oauth_run script_endpoint sample_credential [''t1''] after_first
   \<and> (\<exists>cache s tok expires_in s'. oauth_cached script_endpoint (oauth_invalidate after_first) = (Inr (), cache, s)
         \<and> refresh_with_retry script_endpoint sample_credential s = (Inr (tok, expires_in), s')
         \<and> ''Bearer t2'' = ''Bearer '' @ tok)"
  using sample_oauth_run oauth_serves_newest_token [OF invalidate [OF sample_oauth_run] sample_second]
  by blast

section \<open>The negative cache\<close>

text \<open>
  After a transient refresh failure, every call within the next five seconds fails at
  once with the same message, without a request, an invalidation in between included; a
  permanent failure is never cached.
\<close>

theorem oauth_failures_fail_fast:
  assumes "oauth_authorization_header ep c st = (Some (Inl e), cache, s)" and "oauth_cached ep st = (Inr (), st1)"
  shows "permanent e \<and> cache = fst st1
    \<or> (\<exists>message expires now s'. e = SeBackend message \<and> ca_negative_cache cache = Some (expires, message)
         \<and> ep_now ep s' = (now, s) \<and> expires = now + secs 5
         \<and> (\<forall>t now' t'. ep_now ep t = (now', t') \<longrightarrow> now' < expires \<longrightarrow>
              oauth_authorization_header ep c (cache, t) = (Some (Inl e), cache, t')
              \<and> fst (oauth_authorization_header ep c (oauth_invalidate (cache, t))) = Some (Inl e)))"
proof -
  obtain cache1 s1 where st1: "st1 = (cache1, s1)" by fastforce
  obtain out s2 where out: "refresh_with_retry ep c s1 = (out, s2)" by fastforce
  from assms st1 have r: "oauth_refresh ep c (cache1, s1) = (Some (Inl e), cache, s)"
    by (simp add: oauth_authorization_header_def)
  with out obtain e' where e': "out = Inl e'"
    by (cases out) (auto simp: oauth_refresh_def Let_def split: prod.splits option.splits)
  show ?thesis
  proof (cases "permanent e'")
    case True
    with r out e' st1 show ?thesis by (simp add: oauth_refresh_def)
  next
    case False
    obtain now s3 where now: "ep_now ep s2 = (now, s3)" by fastforce
    with r out e' False have
      "e = SeBackend (''OAuth2 refresh failed: '' @ show_error e') \<and> s = s3
       \<and> cache = cache1\<lparr>ca_negative_cache := Some (now + secs 5, ''OAuth2 refresh failed: '' @ show_error e')\<rparr>"
      by (auto simp: oauth_refresh_def Let_def NEGATIVE_CACHE_SECS_def instant_add_def split: if_splits)
    with now show ?thesis
      by (auto simp: oauth_authorization_header_def oauth_cached_def oauth_invalidate_def)
  qed
qed

definition down_start :: "CachedAccess \<times> (u16 \<times> string) list \<times> instant" where
  "down_start = (cached_access_default, [(503, ''a''), (503, ''b''), (503, ''c''), (200, ''t'')], 0)"

definition down_message :: string where
  "down_message = ''OAuth2 refresh failed: backend: OAuth2 refresh failed: HTTP 503''"

definition down_state :: "CachedAccess \<times> (u16 \<times> string) list \<times> instant" where
  "down_state = (cached_access_default\<lparr>ca_negative_cache := Some (millis 8600, down_message)\<rparr>, [(200, ''t'')], millis 3600)"

lemma down_first:
  "oauth_authorization_header script_endpoint sample_credential down_start
     = (Some (Inl (SeBackend down_message)), fst down_state, snd down_state)"
  "oauth_cached script_endpoint down_start = (Inr (), down_start)"
  by code_simp+

theorem oauth_failures_fail_fast_witness:
  "fst (oauth_authorization_header script_endpoint sample_credential
     (oauth_invalidate (fst down_state, [(200, ''t'')], millis 8000))) = Some (Inl (SeBackend down_message))"
proof -
  have now: "ep_now script_endpoint ([(200, ''t'')], millis 8000) = (millis 8000, ([(200, ''t'')], millis 8000))"
    by (simp add: script_endpoint_def)
  have neg: "ca_negative_cache (fst down_state) = Some (millis 8600, down_message)" "millis 8000 < millis 8600"
    by (simp_all add: down_state_def millis_def)
  from oauth_failures_fail_fast [OF down_first] have
    "\<forall>t now' t'. ep_now script_endpoint t = (now', t') \<longrightarrow> now' < millis 8600 \<longrightarrow>
       fst (oauth_authorization_header script_endpoint sample_credential (oauth_invalidate (fst down_state, t)))
         = Some (Inl (SeBackend down_message))"
    by (auto simp: permanent_def neg)
  with now neg(2) show ?thesis by blast
qed

end
