(* ===== verification/Sdk_Paginate.thy ===== *)
theory Sdk_Paginate
  imports Sdk_Http Json_Value
begin

text \<open>
  The connector SDK's pagination (\<open>sealstack-connector-sdk/src/paginate.rs\<close>): the adapter
  that drives a paginator, and the three reference paginators. The stream is the list of the
  items it yields with the way it ends; a stream that never ends is \<open>None\<close>.
\<close>

section \<open>Fetching a page\<close>

text \<open>The outcome of a call: \<open>None\<close> is a panic.\<close>

type_synonym 'a outcome = "(SealStackError + 'a) option"

fun bindO :: "'a outcome \<Rightarrow> ('a \<Rightarrow> SealStackError + 'b) \<Rightarrow> 'b outcome" where
  "bindO None f = None"
| "bindO (Some r) f = Some (bindR r f)"

text \<open>A page: its items and the next cursor.\<close>

type_synonym 'i page = "'i list \<times> string option"

text \<open>\<open>fetch_page\<close> of a paginator with state \<open>'st\<close> (its own and the outside's).\<close>

type_synonym ('st, 'i) paginator = "string option \<Rightarrow> 'st \<Rightarrow> 'i page outcome \<times> 'st"

section \<open>The stream adapter\<close>

datatype stream_end = Finished | Failed SealStackError | Panicked

definition stuck :: "string option \<Rightarrow> string option \<Rightarrow> string option" where
  "stuck prev_cursor cursor = (case (prev_cursor, cursor) of
     (Some p, Some c) \<Rightarrow> if p = c then Some c else None
   | _ \<Rightarrow> None)"

partial_function (option) paginate_loop ::
  "('st, 'i) paginator \<Rightarrow> string option \<Rightarrow> string option \<Rightarrow> 'st \<Rightarrow> ('i list \<times> stream_end \<times> 'st) option" where
  "paginate_loop fetch cursor prev_cursor st =
     (case stuck prev_cursor cursor of
        Some c \<Rightarrow> Some ([], Failed (SePaginatorCursorLoop c), st)
      | None \<Rightarrow>
     (case fetch cursor st of
        (None, st) \<Rightarrow> Some ([], Panicked, st)
      | (Some (Inl e), st) \<Rightarrow> Some ([], Failed e, st)
      | (Some (Inr (items, None)), st) \<Rightarrow> Some (items, Finished, st)
      | (Some (Inr (items, Some n)), st) \<Rightarrow>
          Option.bind (paginate_loop fetch (Some n) cursor st)
            (\<lambda>(more_items, ending, st). Some (items @ more_items, ending, st))))"

definition paginate :: "('st, 'i) paginator \<Rightarrow> 'st \<Rightarrow> ('i list \<times> stream_end \<times> 'st) option" where
  "paginate fetch st = paginate_loop fetch None None st"

section \<open>The reference paginators\<close>

text \<open>Sending a request and keeping the outside state; the log is left aside.\<close>

definition send_request ::
  "('rb, 's) transport \<Rightarrow> 's HttpClient \<Rightarrow> 'rb \<Rightarrow> 's \<Rightarrow> HttpResponse outcome \<times> 's" where
  "send_request tr client rb s = (case http_send tr client rb s of (evs, r, s') \<Rightarrow> (r, s'))"

text \<open>The paginators' closures are parameters; \<open>from_slice\<close> reads JSON.\<close>

record ('rb, 'i) body_cursor =
  bc_request :: "string option \<Rightarrow> 'rb"
  bc_extract_items :: "json \<Rightarrow> SealStackError + 'i list"
  bc_extract_cursor :: "json \<Rightarrow> string option"

definition body_cursor_fetch ::
  "('rb, 's) transport \<Rightarrow> (u8 list \<Rightarrow> string + json) \<Rightarrow> 's HttpClient \<Rightarrow> ('rb, 'i) body_cursor \<Rightarrow> ('s, 'i) paginator" where
  "body_cursor_fetch tr from_slice client p cursor s =
     (case send_request tr client (bc_request p cursor) s of (r, s) \<Rightarrow>
        (bindO r (\<lambda>resp. bindR (response_json from_slice resp) (\<lambda>body.
           bindR (bc_extract_items p body) (\<lambda>items. Inr (items, bc_extract_cursor p body)))), s))"

fun link_is_next :: "string list \<Rightarrow> bool" where
  "link_is_next [] = False"
| "link_is_next (attr # attrs) =
     (let attr = trim attr
      in if attr = ''rel=\"next\"'' \<or> attr = ''rel=next'' then True else link_is_next attrs)"

text \<open>The loop over the parts; a malformed part ends the function with \<open>None\<close>.\<close>

fun link_parts :: "string list \<Rightarrow> string option" where
  "link_parts [] = None"
| "link_parts (part # parts) =
     (let it = split_char (CHR '';'') (trim part)
      in Option.bind (strip_prefix (trim (hd it)) ''<'') (\<lambda>u.
         Option.bind (strip_suffix u ''>'') (\<lambda>url.
           if link_is_next (tl it) then Some url else link_parts parts)))"

definition next_link :: "string \<Rightarrow> string option" where
  "next_link header = link_parts (split_char (CHR '','') header)"

definition link_header_fetch ::
  "('rb, 's) transport \<Rightarrow> (u8 list \<Rightarrow> string + 'i list) \<Rightarrow> 's HttpClient \<Rightarrow> (string option \<Rightarrow> 'rb) \<Rightarrow> ('s, 'i) paginator" where
  "link_header_fetch tr from_slice client request cursor s =
     (case send_request tr client (request cursor) s of (r, s) \<Rightarrow>
        (bindO r (\<lambda>resp.
           let next = Option.bind (header_get (hr_inner resp) ''Link'') next_link
           in bindR (response_json from_slice resp) (\<lambda>items. Inr (items, next))), s))"

record 'rb OffsetPaginator =
  op_limit :: u64
  op_request :: "u64 \<Rightarrow> u64 \<Rightarrow> 'rb"
  op_items_key :: string
  op_next_start :: u64
  op_total :: "u64 option"

definition offset_paginator_new :: "u64 \<Rightarrow> (u64 \<Rightarrow> u64 \<Rightarrow> 'rb) \<Rightarrow> string \<Rightarrow> 'rb OffsetPaginator" where
  "offset_paginator_new limit request items_key =
     \<lparr>op_limit = limit, op_request = request, op_items_key = items_key, op_next_start = 0, op_total = None\<rparr>"

fun json_as_u64 :: "json \<Rightarrow> u64 option" where
  "json_as_u64 (JNumber (PosInt n)) = Some n"
| "json_as_u64 _ = None"

text \<open>\<open>from_value\<close> reads one item.\<close>

definition offset_items :: "(json \<Rightarrow> string + 'i) \<Rightarrow> string \<Rightarrow> json \<Rightarrow> SealStackError + 'i list" where
  "offset_items from_value key body =
     bindR (ok_or (Option.bind (json_get body key) json_as_array) (SeBackend (''missing array at `'' @ key @ ''`'')))
       (mapR (\<lambda>x. case from_value x of Inl e \<Rightarrow> Inl (SeBackend e) | Inr i \<Rightarrow> Inr i))"

text \<open>What the paginator does with a body: the total is remembered even when the items fail.\<close>

definition offset_page ::
  "(json \<Rightarrow> string + 'i) \<Rightarrow> 'rb OffsetPaginator \<Rightarrow> json \<Rightarrow> (SealStackError + 'i page) \<times> 'rb OffsetPaginator" where
  "offset_page from_value p body =
     (let p = (if op_total p = None then p\<lparr>op_total := Option.bind (json_get body ''total'') json_as_u64\<rparr> else p)
      in case offset_items from_value (op_items_key p) body of
           Inl e \<Rightarrow> (Inl e, p)
         | Inr items \<Rightarrow>
             (let returned = of_nat (length items);
                  p = p\<lparr>op_next_start := op_next_start p + returned\<rparr>;
                  finished = (case op_total p of Some t \<Rightarrow> t \<le> op_next_start p | None \<Rightarrow> returned < op_limit p)
              in (Inr (items, if finished then None else Some (show_nat (unat (op_next_start p)))), p)))"

definition offset_fetch ::
  "('rb, 's) transport \<Rightarrow> (u8 list \<Rightarrow> string + json) \<Rightarrow> (json \<Rightarrow> string + 'i) \<Rightarrow> 's HttpClient
     \<Rightarrow> ('rb OffsetPaginator \<times> 's, 'i) paginator" where
  "offset_fetch tr from_slice from_value client cursor st =
     (case st of (p, s) \<Rightarrow>
      case send_request tr client (op_request p (op_next_start p) (op_limit p)) s of
        (None, s) \<Rightarrow> (None, (p, s))
      | (Some (Inl e), s) \<Rightarrow> (Some (Inl e), (p, s))
      | (Some (Inr resp), s) \<Rightarrow>
          (case response_json from_slice resp of
             Inl e \<Rightarrow> (Some (Inl e), (p, s))
           | Inr body \<Rightarrow> (case offset_page from_value p body of (r, p) \<Rightarrow> (Some r, (p, s)))))"

section \<open>The adapter\<close>

text \<open>
  Only a cursor returned twice in a row is noticed: a paginator that alternates between two
  cursors is fetched from for ever.
\<close>

definition alternating :: "(unit, nat) paginator" where
  "alternating cursor st = (Some (Inr ([0], Some (if cursor = Some ''a'' then ''b'' else ''a''))), st)"

lemma alternating_diverges:
  assumes "stuck prev_cursor cursor = None"
  shows "paginate_loop alternating cursor prev_cursor st = None"
proof (rule ccontr)
  assume "paginate_loop alternating cursor prev_cursor st \<noteq> None"
  then obtain r where "paginate_loop alternating cursor prev_cursor st = Some r" by blast
  then have "alternating = alternating \<longrightarrow> stuck prev_cursor cursor = None \<longrightarrow> False"
  proof (rule paginate_loop.raw_induct
      [where P = "\<lambda>f cur prev t r. f = alternating \<longrightarrow> stuck prev cur = None \<longrightarrow> False", rotated], intro impI)
    fix loop f cur prev t r
    assume IH: "\<And>f cur prev t r. loop f cur prev t = Some r \<Longrightarrow> f = alternating \<longrightarrow> stuck prev cur = None \<longrightarrow> False"
      and alt: "f = alternating" "stuck prev cur = None"
      and body: "(case stuck prev cur of
         Some c \<Rightarrow> Some ([], Failed (SePaginatorCursorLoop c), t)
       | None \<Rightarrow> (case f cur t of
           (None, t) \<Rightarrow> Some ([], Panicked, t)
         | (Some (Inl e), t) \<Rightarrow> Some ([], Failed e, t)
         | (Some (Inr (items, None)), t) \<Rightarrow> Some (items, Finished, t)
         | (Some (Inr (items, Some n)), t) \<Rightarrow>
             Option.bind (loop f (Some n) cur t)
               (\<lambda>(more_items, ending, t). Some (items @ more_items, ending, t)))) = Some r"
    let ?next = "Some (if cur = Some ''a'' then ''b'' else ''a'')"
    from body alt obtain r' where "loop alternating ?next cur t = Some r'"
      by (auto simp: alternating_def bind_eq_Some_conv split: if_splits)
    moreover have "stuck cur ?next = None" by (simp add: stuck_def split: option.split)
    ultimately show False using IH by blast
  qed
  with assms show False by blast
qed

section \<open>Offset pagination\<close>

lemma show_nat_inject [simp]: "show_nat m = show_nat n \<longleftrightarrow> m = n"
  by (metis dec_value_show_nat)

lemma mapR_items_length:
  "offset_items from_value key body = Inr items \<Longrightarrow> \<exists>xs. json_get body key = Some (JArray xs) \<and> length items = length xs"
  by (auto simp: offset_items_def result_simps mapR_length bind_eq_Some_conv elim!: json_as_array.elims)

text \<open>
  What the paginator counts on: the array of a body is a Rust vector, so it has fewer than
  \<open>2^63\<close> entries, and a reported total is a number below that.
\<close>

definition page_bounded :: "string \<Rightarrow> json \<Rightarrow> bool" where
  "page_bounded key body \<longleftrightarrow> (case json_get body key of Some (JArray xs) \<Rightarrow> length xs < 2 ^ 63 | _ \<Rightarrow> True)"

definition totalled :: "json \<Rightarrow> bool" where
  "totalled body \<longleftrightarrow> (case json_get body ''total'' of Some (JNumber (PosInt t)) \<Rightarrow> unat t < 2 ^ 63 | _ \<Rightarrow> False)"

text \<open>The server answers a request with a body, in some state of the outside.\<close>

definition answers_with ::
  "('rb, 's) transport \<Rightarrow> (u8 list \<Rightarrow> string + json) \<Rightarrow> 's HttpClient \<Rightarrow> 'rb \<Rightarrow> json \<Rightarrow> bool" where
  "answers_with tr from_slice client rb body \<longleftrightarrow>
     (\<exists>s s' resp. send_request tr client rb s = (Some (Inr resp), s') \<and> response_json from_slice resp = Inr body)"

lemma offset_page_step:
  assumes "offset_page from_value p body = (Inr (items, Some c), p')" "page_bounded (op_items_key p) body"
    "op_total p = None \<and> totalled body \<or> (\<exists>t. op_total p = Some t \<and> unat t < 2 ^ 63)" "unat (op_next_start p) < 2 ^ 63"
  shows "\<exists>t. op_total p' = Some t \<and> unat t < 2 ^ 63 \<and> (op_total p \<noteq> None \<longrightarrow> op_total p = Some t)
    \<and> unat (op_next_start p') = unat (op_next_start p) + length items \<and> op_next_start p' < t
    \<and> c = show_nat (unat (op_next_start p')) \<and> op_items_key p' = op_items_key p
    \<and> op_request p' = op_request p \<and> op_limit p' = op_limit p"
proof -
  from assms(1) have items: "offset_items from_value (op_items_key p) body = Inr items"
    by (auto simp: offset_page_def Let_def split: sum.splits if_splits)
  from mapR_items_length [OF items] assms(2) have len: "length items < 2 ^ 63"
    by (auto simp: page_bounded_def)
  then have sum: "unat (op_next_start p + of_nat (length items)) = unat (op_next_start p) + length items"
    using assms(4) by (simp add: unat_word_ariths unat_of_nat)
  have "totalled body \<Longrightarrow> \<exists>t. json_get body ''total'' = Some (JNumber (PosInt t)) \<and> unat t < 2 ^ 63"
    by (auto simp: totalled_def split: option.splits json.splits jnum.splits)
  with assms(1,3) items sum show ?thesis
    by (auto simp: offset_page_def Let_def not_le split: if_splits option.splits)
qed

lemma offset_fetch_next:
  assumes "offset_fetch tr from_slice from_value client cursor (p, s) = (Some (Inr (items, Some c)), (p', s'))"
  obtains body where "answers_with tr from_slice client (op_request p (op_next_start p) (op_limit p)) body"
    "offset_page from_value p body = (Inr (items, Some c), p')"
  using assms
  by (auto simp: offset_fetch_def answers_with_def split: prod.splits option.splits sum.splits)

lemma paginate_loop_stop:
  "stuck prev_cursor cursor \<noteq> None \<Longrightarrow> \<exists>r. paginate_loop fetch cursor prev_cursor st = Some r"
  by (subst paginate_loop.simps) (auto split: option.split)

lemma paginate_loop_turn:
  assumes "\<And>items n st'. fetch cursor st = (Some (Inr (items, Some n)), st')
    \<Longrightarrow> \<exists>r. paginate_loop fetch (Some n) cursor st' = Some r"
  shows "\<exists>r. paginate_loop fetch cursor prev_cursor st = Some r"
proof (cases "\<exists>items n st'. fetch cursor st = (Some (Inr (items, Some n)), st')")
  case True
  then obtain items n st' where f: "fetch cursor st = (Some (Inr (items, Some n)), st')" by blast
  from assms [OF f] f show ?thesis
    by (subst paginate_loop.simps) (auto split: option.split)
next
  case False
  then show ?thesis
    by (subst paginate_loop.simps) (fastforce split: option.splits sum.splits prod.splits)
qed

lemma offset_loop_ends:
  assumes "\<And>start body. answers_with tr from_slice client (op_request p start (op_limit p)) body
      \<Longrightarrow> page_bounded (op_items_key p) body"
    "op_total p = Some t" "unat t < 2 ^ 63" "op_next_start p < t"
  shows "\<exists>r. paginate_loop (offset_fetch tr from_slice from_value client)
     (Some (show_nat (unat (op_next_start p)))) prev_cursor (p, s) = Some r"
  using assms
proof (induction "unat t - unat (op_next_start p)" arbitrary: p s prev_cursor rule: less_induct)
  case less
  have lim: "unat (op_next_start p) < 2 ^ 63" using less.prems(3,4) by (simp add: word_less_nat_alt)
  show ?case
  proof (rule paginate_loop_turn)
    fix items n st'
    assume fetched: "offset_fetch tr from_slice from_value client (Some (show_nat (unat (op_next_start p)))) (p, s)
      = (Some (Inr (items, Some n)), st')"
    obtain p' s' where st': "st' = (p', s')" by fastforce
    from fetched st' obtain body where
      body: "answers_with tr from_slice client (op_request p (op_next_start p) (op_limit p)) body"
        "offset_page from_value p body = (Inr (items, Some n), p')"
      by (auto elim: offset_fetch_next)
    from offset_page_step [OF body(2) less.prems(1) [OF body(1)] _ lim] less.prems(2,3)
    have step: "op_request p' = op_request p" "op_limit p' = op_limit p"
      and step': "op_total p' = Some t" "unat (op_next_start p') = unat (op_next_start p) + length items"
      "op_next_start p' < t" "n = show_nat (unat (op_next_start p'))" "op_items_key p' = op_items_key p" by auto
    show "\<exists>r. paginate_loop (offset_fetch tr from_slice from_value client) (Some n)
      (Some (show_nat (unat (op_next_start p)))) st' = Some r"
    proof (cases "items = []")
      case True
      with step'(2,4) show ?thesis by (intro paginate_loop_stop) (simp add: stuck_def)
    next
      case False
      with step'(2,3) have "unat t - unat (op_next_start p') < unat t - unat (op_next_start p)"
        by (intro diff_less_mono2) (simp_all add: word_less_nat_alt)
      from less.hyps [OF this] less.prems step step' show ?thesis unfolding st' by simp
    qed
  qed
qed

text \<open>
  C25: offset pagination ends whatever the transport, the credential and the server do, as soon
  as the bodies that answer the first request carry a total below \<open>2^63\<close>, the arrays being
  vectors: the first total is kept, each page either advances the offset towards it or repeats
  the cursor, and a repeated cursor is an error.
\<close>

theorem offset_pagination_ends:
  assumes "\<And>body. answers_with tr from_slice client (request 0 limit) body \<Longrightarrow> totalled body"
    and "\<And>start body. answers_with tr from_slice client (request start limit) body \<Longrightarrow> page_bounded key body"
  shows "\<exists>items ending st. paginate (offset_fetch tr from_slice from_value client)
     (offset_paginator_new limit request key, s) = Some (items, ending, st)"
proof -
  let ?p = "offset_paginator_new limit request key"
  have "\<exists>r. paginate_loop (offset_fetch tr from_slice from_value client) None None (?p, s) = Some r"
  proof (rule paginate_loop_turn)
    fix items n st'
    assume fetched: "offset_fetch tr from_slice from_value client None (?p, s) = (Some (Inr (items, Some n)), st')"
    obtain p' s' where st': "st' = (p', s')" by fastforce
    from fetched st' obtain body where
      body: "answers_with tr from_slice client (request 0 limit) body"
        "offset_page from_value ?p body = (Inr (items, Some n), p')"
      by (auto elim!: offset_fetch_next simp: offset_paginator_new_def)
    from offset_page_step [OF body(2)] assms(1) [OF body(1)] assms(2) [OF body(1)]
    obtain t where "op_total p' = Some t" "unat t < 2 ^ 63" "op_next_start p' < t"
      "n = show_nat (unat (op_next_start p'))" "op_items_key p' = key"
      "op_request p' = request" "op_limit p' = limit"
      by (auto simp: offset_paginator_new_def)
    with offset_loop_ends [of tr from_slice client p' t from_value None s'] assms(2)
    show "\<exists>r. paginate_loop (offset_fetch tr from_slice from_value client) (Some n) None st' = Some r"
      unfolding st' by blast
  qed
  then show ?thesis by (auto simp: paginate_def)
qed

text \<open>
  A server that serves the list \<open>xs\<close>: to a request at an offset it answers with some of the
  entries from there on, at least one while there are any, and with the length as the total.
\<close>

definition serves ::
  "('rb, 's) transport \<Rightarrow> (u8 list \<Rightarrow> string + json) \<Rightarrow> (json \<Rightarrow> string + 'i) \<Rightarrow> 's HttpClient
     \<Rightarrow> (u64 \<Rightarrow> u64 \<Rightarrow> 'rb) \<Rightarrow> u64 \<Rightarrow> string \<Rightarrow> 'i list \<Rightarrow> bool" where
  "serves tr from_slice from_value client request limit key xs \<longleftrightarrow>
     (\<forall>start s. start \<le> length xs \<longrightarrow> (\<exists>resp s' body n. 0 < n
        \<and> send_request tr client (request (of_nat start) limit) s = (Some (Inr resp), s')
        \<and> response_json from_slice resp = Inr body
        \<and> offset_items from_value key body = Inr (take n (drop start xs))
        \<and> json_get body ''total'' = Some (JNumber (PosInt (of_nat (length xs))))))"

lemma offset_page_served:
  assumes "offset_items from_value (op_items_key p) body = Inr items"
    "json_get body ''total'' = Some (JNumber (PosInt t))" "op_total p = None \<or> op_total p = Some t"
  shows "offset_page from_value p body =
    (Inr (items, if t \<le> op_next_start p + of_nat (length items) then None
                 else Some (show_nat (unat (op_next_start p + of_nat (length items))))),
     p\<lparr>op_total := Some t, op_next_start := op_next_start p + of_nat (length items)\<rparr>)"
  using assms by (auto simp: offset_page_def Let_def)

lemma offset_loop_complete:
  assumes "serves tr from_slice from_value client (op_request p) (op_limit p) (op_items_key p) xs"
    "length xs < 2 ^ 63" "op_total p = None \<or> op_total p = Some (of_nat (length xs))"
    "op_next_start p = of_nat start" "start \<le> length xs"
    "start = length xs \<longrightarrow> cursor = None" "cursor = None \<or> cursor = Some (show_nat start)"
    "stuck prev_cursor cursor = None"
  shows "\<exists>st. paginate_loop (offset_fetch tr from_slice from_value client) cursor prev_cursor (p, s)
    = Some (drop start xs, Finished, st)"
  using assms
proof (induction "length xs - start" arbitrary: p s start cursor prev_cursor rule: less_induct)
  case less
  from less.prems(1,5) obtain resp s' body n where served: "0 < n"
    "send_request tr client (op_request p (of_nat start) (op_limit p)) s = (Some (Inr resp), s')"
    "response_json from_slice resp = Inr body"
    "offset_items from_value (op_items_key p) body = Inr (take n (drop start xs))"
    "json_get body ''total'' = Some (JNumber (PosInt (of_nat (length xs))))"
    unfolding serves_def by blast
  define m where "m = min n (length xs - start)"
  have len: "length (take n (drop start xs)) = m" by (simp add: m_def min.commute)
  define p' where "p' = p\<lparr>op_total := Some (of_nat (length xs)), op_next_start := of_nat (start + m)\<rparr>"
  have next_start: "op_next_start p + of_nat m = (of_nat (start + m) :: u64)" using less.prems(4) by simp
  have small: "start + m < 2 ^ 64" "length xs < 2 ^ 64" using less.prems(2,5) by (auto simp: m_def)
  then have cmp: "(of_nat (length xs) \<le> (of_nat (start + m) :: u64)) \<longleftrightarrow> length xs \<le> start + m"
    by (simp add: word_le_nat_alt unat_of_nat del: of_nat_add)
  have unat: "unat (of_nat (start + m) :: u64) = start + m" using small by (simp add: unat_of_nat del: of_nat_add)
  have page: "offset_page from_value p body
    = (Inr (take n (drop start xs), if length xs \<le> start + m then None else Some (show_nat (start + m))), p')"
    using offset_page_served [OF served(4,5) less.prems(3)] unfolding len next_start cmp unat p'_def .
  have fetched: "offset_fetch tr from_slice from_value client cursor (p, s)
    = (Some (Inr (take n (drop start xs), if length xs \<le> start + m then None else Some (show_nat (start + m)))), (p', s'))"
    using served(2,3) page less.prems(4) by (simp add: offset_fetch_def)
  show ?case
  proof (cases "length xs \<le> start + m")
    case True
    then have "take n (drop start xs) = drop start xs" by (auto simp: m_def min_def split: if_splits)
    with fetched True less.prems(8) show ?thesis by (subst paginate_loop.simps) simp
  next
    case False
    then have m: "m = n" "start < start + m" using served(1) by (auto simp: m_def min_def split: if_splits)
    have "\<exists>st. paginate_loop (offset_fetch tr from_slice from_value client) (Some (show_nat (start + m))) cursor (p', s')
      = Some (drop (start + m) xs, Finished, st)"
      using less.prems(1,2,7) False m
      by (intro less.hyps) (auto simp: p'_def stuck_def)
    then obtain st where "paginate_loop (offset_fetch tr from_slice from_value client)
        (Some (show_nat (start + m))) cursor (p', s') = Some (drop (start + m) xs, Finished, st)" by blast
    moreover have "take n (drop start xs) @ drop (start + m) xs = drop start xs"
      unfolding m(1) by (metis append_take_drop_id drop_drop add.commute)
    ultimately show ?thesis
      using fetched False less.prems(8) by (subst paginate_loop.simps) simp
  qed
qed

text \<open>
  C24: offset pagination is complete: from a server that serves a list and reports its length,
  the stream yields the whole list, in order and each item once, and then finishes, however
  the server cuts the pages and whatever limit was asked for.
\<close>

theorem offset_pagination_complete:
  assumes "serves tr from_slice from_value client request limit key xs" and "length xs < 2 ^ 63"
  shows "\<exists>st. paginate (offset_fetch tr from_slice from_value client)
     (offset_paginator_new limit request key, s) = Some (xs, Finished, st)"
  using offset_loop_complete [of tr from_slice from_value client "offset_paginator_new limit request key" xs 0 None None s]
    assms by (simp add: paginate_def offset_paginator_new_def stuck_def)

section \<open>A server of three numbers\<close>

text \<open>It gives at most two at a time; a response's body is the offset and the limit asked for.\<close>

definition three_transport :: "(u64 \<times> u64, unit) transport" where
  "three_transport =
     \<lparr>tr_clone = Some, tr_build = (\<lambda>_. Inr ()),
      tr_send = (\<lambda>(start, limit) _ _ s.
        (Inr \<lparr>rs_status = 200, rs_headers = [], rs_body = [Inr [ucast start], Inr [ucast limit]]\<rparr>, s)),
      tr_rand = (\<lambda>hi s. (0, s)), tr_sleep = (\<lambda>d s. s), tr_now = (\<lambda>s. 0)\<rparr>"

definition three_body :: "u8 list \<Rightarrow> string + json" where
  "three_body bytes = (case bytes of
     [start, limit] \<Rightarrow> Inr (JObject
       [(''items'', JArray (map (\<lambda>n. JNumber (PosInt n)) (take 2 (drop (unat start) [10, 20, 30])))),
        (''total'', JNumber (PosInt 3))])
   | _ \<Rightarrow> Inl ''short'')"

definition read_number :: "json \<Rightarrow> string + u64" where
  "read_number v = (case json_as_u64 v of None \<Rightarrow> Inl ''not a number'' | Some n \<Rightarrow> Inr n)"

definition three_client :: "unit HttpClient" where
  "three_client = \<lparr>hc_credential = \<lparr>cd_authorization_header = (\<lambda>s. (Some (Inr ''Bearer t''), s)), cd_invalidate = (\<lambda>s. s)\<rparr>,
     hc_retry = retry_policy_default, hc_user_agent = base_ua, hc_body_cap_bytes = 100\<rparr>"

lemma three_send:
  "send_request three_transport three_client (start, limit) () = (Some (Inr \<lparr>hr_inner =
      \<lparr>rs_status = 200, rs_headers = [], rs_body = [Inr [ucast start], Inr [ucast limit]]\<rparr>, hr_body_cap_bytes = 100\<rparr>), ())"
  by (simp add: send_request_def http_send_def send_loop.simps three_transport_def three_client_def is_success_def)

lemma three_serves: "serves three_transport three_body read_number three_client Pair 5 ''items'' [10, 20, 30]"
proof -
  have "\<exists>resp s' body n. 0 < n
      \<and> send_request three_transport three_client (of_nat start, 5) () = (Some (Inr resp), s')
      \<and> response_json three_body resp = Inr body
      \<and> offset_items read_number ''items'' body = Inr (take n (drop start [10, 20, 30]))
      \<and> json_get body ''total'' = Some (JNumber (PosInt 3))" if "start \<le> 3" for start
  proof -
    from that have "start = 0 \<or> start = 1 \<or> start = 2 \<or> start = 3" by linarith
    then show ?thesis
      unfolding three_send
      by (elim disjE; intro exI [of _ "2 :: nat"] exI conjI; (rule refl)?)
        (auto simp: response_json_def response_bytes_def three_body_def offset_items_def read_number_def
          ok_or_def take_Suc_conv_app_nth)
  qed
  then show ?thesis by (simp add: serves_def)
qed

theorem offset_pagination_complete_witness:
  "\<exists>st. paginate (offset_fetch three_transport three_body read_number three_client)
     (offset_paginator_new 5 Pair ''items'', ()) = Some ([10, 20, 30], Finished, st)"
  using offset_pagination_complete [OF three_serves, of "()"] by simp

theorem offset_pagination_ends_witness:
  "\<exists>items ending st. paginate (offset_fetch three_transport three_body read_number three_client)
     (offset_paginator_new 0 Pair ''items'', ()) = Some (items, ending, st)"
proof (rule offset_pagination_ends)
  fix start body
  assume "answers_with three_transport three_body three_client (start, 0) body"
  then show "page_bounded ''items'' body"
    by (auto simp: answers_with_def three_send response_json_def response_bytes_def three_body_def page_bounded_def)
next
  fix body
  assume "answers_with three_transport three_body three_client (0, 0) body"
  then show "totalled body"
    by (auto simp: answers_with_def three_send response_json_def response_bytes_def three_body_def totalled_def)
qed

end
