(* ===== verification/Csl_Names.thy ===== *)
theory Csl_Names
  imports Csl_Types Rust_Std
begin

text \<open>
  What the code generators share (\<open>sealstack-csl/src/codegen\<close>): text constants, the
  snake-case renderings of names, decorator tests and the literals they look for. The
  Unicode case tables of the standard library are a parameter for characters outside ASCII.
\<close>

section \<open>Text\<close>

definition nl :: string where "nl = [char_of (10 :: nat)]"
definition sq :: string where "sq = [char_of (39 :: nat)]"
definition dq :: string where "dq = [char_of (34 :: nat)]"
definition bslash :: string where "bslash = [char_of (92 :: nat)]"

definition ascii_upper :: "char \<Rightarrow> bool" where
  "ascii_upper c \<longleftrightarrow> (let n = (of_char c :: nat) in 65 \<le> n \<and> n \<le> 90)"

definition ascii_lower :: "char \<Rightarrow> bool" where
  "ascii_lower c \<longleftrightarrow> (let n = (of_char c :: nat) in 97 \<le> n \<and> n \<le> 122)"

definition to_ascii_lower :: "char \<Rightarrow> char" where
  "to_ascii_lower c = (if ascii_upper c then char_of ((of_char c :: nat) + 32) else c)"

definition to_ascii_upper :: "char \<Rightarrow> char" where
  "to_ascii_upper c = (if ascii_lower c then char_of ((of_char c :: nat) - 32) else c)"

definition ascii_lowercase :: "string \<Rightarrow> string" where "ascii_lowercase s = map to_ascii_lower s"
definition ascii_uppercase :: "string \<Rightarrow> string" where "ascii_uppercase s = map to_ascii_upper s"

text \<open>\<open>str::replace\<close> of one character by a text.\<close>

definition replace_char :: "char \<Rightarrow> string \<Rightarrow> string \<Rightarrow> string" where
  "replace_char c r s = concat (map (\<lambda>d. if d = c then r else [d]) s)"

section \<open>Snake case\<close>

text \<open>\<open>to_snake\<close> looks at ASCII letters only, so it works byte by byte.\<close>

definition to_snake :: "string \<Rightarrow> string" where
  "to_snake s = concat (map (\<lambda>(i, c).
     if ascii_upper c then (if 0 < i then ''_'' else []) @ [to_ascii_lower c] else [c]) (enumerate 0 s))"

text \<open>
  The Unicode tables: whether a character is upper case, and its upper-case form. Characters
  are UTF-8 sequences; the tables are asked only about those outside ASCII.
\<close>

record unicode =
  uc_is_upper :: "string \<Rightarrow> bool"
  uc_to_upper :: "string \<Rightarrow> string"

definition is_uppercase :: "unicode \<Rightarrow> string \<Rightarrow> bool" where
  "is_uppercase U ch = (case ch of [c] \<Rightarrow> ascii_upper c | _ \<Rightarrow> uc_is_upper U ch)"

definition to_uppercase :: "unicode \<Rightarrow> string \<Rightarrow> string" where
  "to_uppercase U s = concat (map (\<lambda>ch. case ch of [c] \<Rightarrow> [to_ascii_upper c] | _ \<Rightarrow> uc_to_upper U ch) (utf8_chars s))"

text \<open>\<open>table_name\<close> of the SQL generator and \<open>snake\<close> of the tool generator are the same code.\<close>

definition unicode_snake :: "unicode \<Rightarrow> string \<Rightarrow> string" where
  "unicode_snake U s = concat (map (\<lambda>(i, ch).
     (if is_uppercase U ch \<and> i \<noteq> 0 then ''_'' else []) @ map to_ascii_lower ch) (enumerate 0 (utf8_chars s)))"

definition ascii_name :: "string \<Rightarrow> bool" where
  "ascii_name s \<longleftrightarrow> list_all (\<lambda>c. (of_char c :: nat) < 128) s"

lemma utf8_chars_ascii: "ascii_name s \<Longrightarrow> utf8_chars s = map (\<lambda>c. [c]) s"
proof (induction s)
  case (Cons c s)
  then have "takeWhile is_cont s = []" "dropWhile is_cont s = s"
    by (cases s; auto simp: ascii_name_def is_cont_def)+
  with Cons show ?case by (simp add: ascii_name_def)
qed simp

lemma snake_ascii: "ascii_name s \<Longrightarrow> unicode_snake U s = to_snake s"
proof -
  have "map (\<lambda>(i, ch). (if is_uppercase U ch \<and> i \<noteq> 0 then ''_'' else []) @ map to_ascii_lower ch)
      (enumerate n (map (\<lambda>c. [c]) s))
    = map (\<lambda>(i, c). if ascii_upper c then (if 0 < i then ''_'' else []) @ [to_ascii_lower c] else [c]) (enumerate n s)" for n
    by (induction s arbitrary: n) (auto simp: is_uppercase_def to_ascii_lower_def)
  then show "ascii_name s \<Longrightarrow> ?thesis"
    by (simp add: unicode_snake_def to_snake_def utf8_chars_ascii)
qed

section \<open>Declarations\<close>

definition has_decorator :: "string \<Rightarrow> field_decl \<Rightarrow> bool" where
  "has_decorator name f = list_ex (\<lambda>d. decorator_is d name) (field_decorators f)"

text \<open>The typed schemas in declaration order; a name without an entry is skipped.\<close>

definition ordered_schemas :: "typed_file \<Rightarrow> typed_schema list" where
  "ordered_schemas tf = List.map_filter (map_of (tf_schemas tf)) (tf_decl_order tf)"

definition default_namespace :: "string \<Rightarrow> string" where
  "default_namespace ns = (if ns = [] then ''default'' else ns)"

definition schema_version_or_1 :: "schema_decl \<Rightarrow> u32" where
  "schema_version_or_1 s = (case schema_version s of None \<Rightarrow> 1 | Some v \<Rightarrow> v)"

definition show_word :: "'a::len word \<Rightarrow> string" where
  "show_word w = show_nat (unat w)"

definition primary_name :: "schema_decl \<Rightarrow> string" where
  "primary_name s = (case find (has_decorator ''primary'') (schema_fields s) of
     Some f \<Rightarrow> field_name f | None \<Rightarrow> ''id'')"

definition foreign_key :: "relation_decl \<Rightarrow> string" where
  "foreign_key r = (if segments (rel_via r) = [] then [] else last (segments (rel_via r)))"

definition wire_of :: "enum_variant \<Rightarrow> string" where
  "wire_of v = (case variant_wire v of Some w \<Rightarrow> w | None \<Rightarrow> ascii_lowercase (variant_name v))"

text \<open>\<open>enums.keys()\<close> sorted; strings compare byte by byte.\<close>

fun byte_less :: "string \<Rightarrow> string \<Rightarrow> bool" where
  "byte_less s [] = False"
| "byte_less [] (d # t) = True"
| "byte_less (c # s) (d # t) =
     ((of_char c :: nat) < of_char d \<or> (c = d \<and> byte_less s t))"

definition sorted_enums :: "typed_file \<Rightarrow> enum_decl list" where
  "sorted_enums tf = List.map_filter (map_of (tf_enums tf)) (sort_by byte_less (map fst (tf_enums tf)))"

section \<open>The order of strings\<close>

lemma byte_less_irrefl: "\<not> byte_less a a"
  by (induction a) auto

lemma byte_less_trans: "byte_less a b \<Longrightarrow> byte_less b c \<Longrightarrow> byte_less a c"
proof (induction a b arbitrary: c rule: byte_less.induct)
  case (2 d t)
  then show ?case by (cases c) auto
next
  case (3 x s d t)
  then show ?case by (cases c) auto
qed simp

lemma byte_less_total: "a \<noteq> b \<Longrightarrow> byte_less a b \<or> byte_less b a"
proof (induction a b rule: byte_less.induct)
  case (1 s)
  then show ?case by (cases s) auto
next
  case (3 x s d t)
  then show ?case by (metis byte_less.simps(3) linorder_neqE_nat of_char_eq_iff)
qed simp

end
