(* ===== verification/Csl_Sql.thy ===== *)
theory Csl_Sql
  imports Csl_Names
begin

text \<open>
  The Postgres generator (\<open>sealstack-csl/src/codegen/sql.rs\<close>): one \<open>CREATE TABLE\<close> per schema
  with its declared and conventional columns, its foreign keys and its indexes.
\<close>

fun map_primitive :: "primitive_type \<Rightarrow> string" where
  "map_primitive PString = ''text''"
| "map_primitive PText = ''text''"
| "map_primitive PUlid = ''text''"
| "map_primitive PUuid = ''uuid''"
| "map_primitive PI32 = ''integer''"
| "map_primitive PI64 = ''bigint''"
| "map_primitive PF32 = ''real''"
| "map_primitive PF64 = ''double precision''"
| "map_primitive PBool = ''boolean''"
| "map_primitive PInstant = ''timestamptz''"
| "map_primitive PDuration = ''interval''"
| "map_primitive PJson = ''jsonb''"

fun map_type :: "type_expr \<Rightarrow> string" where
  "map_type (TOptional inner _) = map_type inner"
| "map_type (TPrimitive p _) = map_primitive p"
| "map_type (TRef _ _) = ''text''"
| "map_type (TVector _ _) = ''bytea''"
| "map_type (TList _ _) = ''jsonb''"
| "map_type (TMap _ _ _) = ''jsonb''"
| "map_type (TNamed _ _) = ''text''"

definition table_name :: "unicode \<Rightarrow> string \<Rightarrow> string" where
  "table_name U name = unicode_snake U name"

definition is_chunked :: "field_decl \<Rightarrow> bool" where
  "is_chunked f = has_decorator ''chunked'' f"

section \<open>Columns\<close>

definition column_line :: "field_decl \<Rightarrow> string" where
  "column_line f =
     ''  '' @ field_name f @ '' '' @ map_type (field_ty f)
     @ (if is_optional (field_ty f) then [] else '' NOT NULL'')
     @ (if has_decorator ''primary'' f then '' PRIMARY KEY'' else [])
     @ (if has_decorator ''unique'' f \<and> \<not> has_decorator ''primary'' f then '' UNIQUE'' else [])"

definition declares :: "schema_decl \<Rightarrow> string \<Rightarrow> bool" where
  "declares s name = list_ex (\<lambda>f. field_name f = name) (schema_fields s)"

definition convention_lines :: "schema_decl \<Rightarrow> string list" where
  "convention_lines s =
     (if \<not> declares s ''body'' \<and> \<not> list_ex is_chunked (schema_fields s)
      then [''  body text NOT NULL DEFAULT '' @ sq @ sq] else [])
     @ (if \<not> declares s ''created_at'' then [''  created_at timestamptz NOT NULL DEFAULT now()''] else [])
     @ (if \<not> declares s ''tenant'' then [''  tenant text NOT NULL DEFAULT '' @ sq @ sq] else [])
     @ (if \<not> declares s ''metadata''
        then [''  metadata jsonb NOT NULL DEFAULT '' @ sq @ ''{}'' @ sq @ ''::jsonb''] else [])"

definition foreign_key_line :: "unicode \<Rightarrow> field_decl \<Rightarrow> string option" where
  "foreign_key_line U f =
     (case field_ty f of
        TRef target _ \<Rightarrow> Some (''  FOREIGN KEY ('' @ field_name f @ '') REFERENCES '' @ table_name U target @ '' (id)'')
      | _ \<Rightarrow> None)"

definition column_lines :: "unicode \<Rightarrow> schema_decl \<Rightarrow> string list" where
  "column_lines U s =
     map column_line (schema_fields s) @ convention_lines s
     @ List.map_filter (foreign_key_line U) (schema_fields s)"

section \<open>Indexes\<close>

definition field_indexes :: "string \<Rightarrow> field_decl \<Rightarrow> string" where
  "field_indexes table f =
     (let col = field_name f
      in (if has_decorator ''indexed'' f
          then ''CREATE INDEX IF NOT EXISTS '' @ table @ ''_'' @ col @ ''_idx ON '' @ table @ '' ('' @ col @ '');'' @ nl
          else [])
         @ (if has_decorator ''searchable'' f
            then ''CREATE INDEX IF NOT EXISTS '' @ table @ ''_'' @ col @ ''_fts_idx ON '' @ table
                 @ '' USING gin (to_tsvector('' @ sq @ ''english'' @ sq @ '', '' @ col @ ''));'' @ nl
            else []))"

definition emit_schema_sql :: "unicode \<Rightarrow> schema_decl \<Rightarrow> string" where
  "emit_schema_sql U s =
     (let table = table_name U (schema_name s)
      in ''CREATE TABLE IF NOT EXISTS '' @ table @ '' ('' @ nl
         @ join_with ('','' @ nl) (column_lines U s)
         @ nl @ '');'' @ nl
         @ ''CREATE INDEX IF NOT EXISTS '' @ table @ ''_tenant_idx ON '' @ table @ '' (tenant);'' @ nl
         @ concat (map (field_indexes table) (schema_fields s))
         @ ''CREATE INDEX IF NOT EXISTS '' @ table @ ''_body_fts_idx ON '' @ table
         @ '' USING gin (to_tsvector('' @ sq @ ''english'' @ sq @ '', body));'' @ nl)"

definition emit_sql :: "unicode \<Rightarrow> typed_file \<Rightarrow> string" where
  "emit_sql U tf =
     ''-- Generated by sealstack-csl. Do not edit manually.'' @ nl
     @ (if tf_namespace tf \<noteq> [] then ''-- namespace: '' @ tf_namespace tf @ nl else [])
     @ ''SET statement_timeout = '' @ sq @ ''60s'' @ sq @ '';'' @ nl @ nl
     @ concat (map (\<lambda>s. emit_schema_sql U (ts_decl s) @ nl) (ordered_schemas tf))"

end
