(* ===== verification/Csl_Ddl.thy ===== *)
theory Csl_Ddl
  imports Csl_Sql Engine_Store Engine_Ingest
begin

text \<open>
  The generated DDL meets the store that applies it: the text of the Postgres generator is
  split by the store's statement splitter into exactly the statements that were generated.
\<close>

section \<open>The statements of a schema\<close>

definition index_statements :: "string \<Rightarrow> field_decl \<Rightarrow> string list" where
  "index_statements table f =
     (let col = field_name f
      in (if has_decorator ''indexed'' f
          then [''CREATE INDEX IF NOT EXISTS '' @ table @ ''_'' @ col @ ''_idx ON '' @ table @ '' ('' @ col @ '')'']
          else [])
         @ (if has_decorator ''searchable'' f
            then [''CREATE INDEX IF NOT EXISTS '' @ table @ ''_'' @ col @ ''_fts_idx ON '' @ table
                  @ '' USING gin (to_tsvector('' @ sq @ ''english'' @ sq @ '', '' @ col @ ''))'']
            else []))"

definition ddl_statements :: "unicode \<Rightarrow> schema_decl \<Rightarrow> string list" where
  "ddl_statements U s =
     (let table = table_name U (schema_name s)
      in [''CREATE TABLE IF NOT EXISTS '' @ table @ '' ('' @ nl @ join_with ('','' @ nl) (column_lines U s) @ nl @ '')'',
          ''CREATE INDEX IF NOT EXISTS '' @ table @ ''_tenant_idx ON '' @ table @ '' (tenant)'']
         @ concat (map (index_statements table) (schema_fields s))
         @ [''CREATE INDEX IF NOT EXISTS '' @ table @ ''_body_fts_idx ON '' @ table
            @ '' USING gin (to_tsvector('' @ sq @ ''english'' @ sq @ '', body))''])"

definition terminated :: "string list \<Rightarrow> string" where
  "terminated ss = concat (map (\<lambda>s. s @ '';'' @ nl) ss)"

lemma terminated_simps [simp]: "terminated [] = []" "terminated (s # ss) = s @ '';'' @ nl @ terminated ss"
  "terminated (ss @ ts) = terminated ss @ terminated ts"
  by (simp_all add: terminated_def)

lemma field_indexes_terminated: "field_indexes table f = terminated (index_statements table f)"
  by (simp add: field_indexes_def index_statements_def Let_def)

lemma indexes_terminated:
  "concat (map (field_indexes table) fs) = terminated (concat (map (index_statements table) fs))"
  by (induction fs) (simp_all add: field_indexes_terminated)

lemma emit_schema_terminated: "emit_schema_sql U s = terminated (ddl_statements U s)"
  by (simp add: emit_schema_sql_def ddl_statements_def Let_def indexes_terminated)

section \<open>Texts the splitter copies\<close>

definition sql_safe :: "char \<Rightarrow> bool" where
  "sql_safe c \<longleftrightarrow> (of_char c :: nat) < 128 \<and> c \<noteq> CHR '';'' \<and> c \<noteq> CHR ''-'' \<and> c \<noteq> CHR ''$''"

definition sql_text :: "string \<Rightarrow> bool" where
  "sql_text u \<longleftrightarrow> list_all sql_safe u \<and> even (count_list u single_quote)"

lemma scan_safe:
  assumes "list_all sql_safe u" "ss_dollar_tag st = None"
  shows "split_scan (u @ t) st = split_scan t
    (st\<lparr>ss_current := ss_current st @ u, ss_in_str := (ss_in_str st = even (count_list u single_quote))\<rparr>)"
  using assms
proof (induction u arbitrary: st)
  case (Cons c u)
  then have c: "sql_safe c" by simp
  then have no: "\<not> comment_start (c # u @ t) st" "dollar_arm (c # u @ t) st = None"
    by (auto simp: sql_safe_def comment_start_def dollar_arm_def nth_opt_def)
  have arm: "byte_arm c st = st\<lparr>ss_current := ss_current st @ [c],
      ss_in_str := (if c = single_quote then \<not> ss_in_str st else ss_in_str st)\<rparr>"
    using c Cons.prems(2) by (auto simp: byte_arm_def sql_safe_def byte_as_char_def)
  show ?case
    using Cons.IH [of "byte_arm c st"] Cons.prems no
    by (cases "ss_in_str st") (simp_all add: split_scan.simps [of "c # u @ t"] arm)
qed simp

lemma scan_semicolon:
  assumes "ss_dollar_tag st = None" "\<not> ss_in_str st"
  shows "split_scan (CHR '';'' # t) st = split_scan t
    (st\<lparr>ss_out := (if trim (ss_current st) \<noteq> [] then ss_out st @ [trim (ss_current st)] else ss_out st), ss_current := []\<rparr>)"
proof -
  have "\<not> comment_start (CHR '';'' # t) st" "dollar_arm (CHR '';'' # t) st = None"
    by (simp_all add: comment_start_def nth_opt_def dollar_arm_def)
  moreover have "CHR '';'' \<noteq> single_quote" by code_simp
  ultimately show ?thesis
    using assms by (simp add: split_scan.simps [of "CHR '';'' # t"] byte_arm_def)
qed

lemma newline_chars: "CHR ''-'' \<noteq> newline" "CHR '';'' \<noteq> newline" "sql_safe newline" "newline \<noteq> single_quote"
  by code_simp+

lemma nl_newline: "nl = [newline]"
  by (simp add: nl_def newline_def)

lemma scan_comment:
  assumes "ss_dollar_tag st = None" "\<not> ss_in_str st" "newline \<notin> set u"
  shows "split_scan (''--'' @ u @ nl @ t) st = split_scan (nl @ t) st"
proof -
  have "comment_start (''--'' @ u @ nl @ t) st"
    using assms by (simp add: comment_start_def nth_opt_def)
  moreover have "dropWhile (\<lambda>c. c \<noteq> newline) (''--'' @ u @ nl @ t) = nl @ t"
    using assms(3) newline_chars by (induction u) (auto simp: nl_newline)
  ultimately show ?thesis by (simp add: split_scan.simps [of "CHR ''-'' # _"])
qed

section \<open>Trimming a statement\<close>

lemma white_space_bytes:
  "list_all (\<lambda>w. \<not> (33 \<le> (of_char (hd w) :: nat) \<and> (of_char (hd w) :: nat) < 128)
     \<and> \<not> (33 \<le> (of_char (last w) :: nat) \<and> (of_char (last w) :: nat) < 128)) white_space"
  by code_simp

definition graphic :: "char \<Rightarrow> bool" where
  "graphic c \<longleftrightarrow> 33 \<le> (of_char c :: nat) \<and> (of_char c :: nat) < 128"

lemma starts_with_hd: "starts_with s w \<Longrightarrow> w \<noteq> [] \<Longrightarrow> s \<noteq> [] \<and> hd s = hd w"
  by (cases s; cases w) (auto simp: starts_with_def)

lemma trim_start_graphic: "s \<noteq> [] \<Longrightarrow> graphic (hd s) \<Longrightarrow> trim_start s = s"
  unfolding trim_start_def
  by (rule trim_prefixes_None) (use white_space_bytes starts_with_hd in \<open>fastforce simp: find_None_iff list_all_iff graphic_def\<close>)

lemma trim_end_graphic: "s \<noteq> [] \<Longrightarrow> graphic (last s) \<Longrightarrow> trim_end s = s"
proof -
  assume s: "s \<noteq> []" "graphic (last s)"
  have "\<not> (w \<noteq> [] \<and> starts_with (rev s) w)" if "w \<in> set (map rev white_space)" for w
  proof
    assume w: "w \<noteq> [] \<and> starts_with (rev s) w"
    then have "last s = hd w" using starts_with_hd [of "rev s" w] s(1) by (simp add: hd_rev)
    moreover from that obtain v where "v \<in> set white_space" "w = rev v" by auto
    ultimately show False
      using white_space_bytes s(2) w by (auto simp: list_all_iff graphic_def hd_rev)
  qed
  then have "trim_prefixes (map rev white_space) (rev s) = rev s"
    by (intro trim_prefixes_None) (auto simp: find_None_iff)
  then show ?thesis by (simp add: trim_end_def)
qed

lemma find_newline: "find (\<lambda>w. w \<noteq> [] \<and> starts_with (newline # s) w) white_space = Some [newline]"
proof -
  have "find (\<lambda>w. w \<noteq> [] \<and> starts_with (newline # s) w) ([[char_of (9 :: nat)], [newline]] @ drop 2 white_space)
    = Some [newline]"
    using newline_chars by (simp add: starts_with_def newline_def)
  moreover have "white_space = [[char_of (9 :: nat)], [newline]] @ drop 2 white_space" by code_simp
  ultimately show ?thesis by metis
qed

lemma trim_newlines: "trim (replicate n newline @ s) = trim s"
proof -
  have "trim_start (replicate n newline @ s) = trim_start s"
    by (induction n) (simp_all add: trim_start_def trim_prefixes_Some [OF find_newline])
  then show ?thesis by (simp add: trim_def)
qed

lemma trim_graphic: "s \<noteq> [] \<Longrightarrow> graphic (hd s) \<Longrightarrow> graphic (last s) \<Longrightarrow> trim s = s"
  by (simp add: trim_def trim_start_graphic trim_end_graphic)

section \<open>Scanning statements\<close>

text \<open>Between statements there are only newlines.\<close>

definition between :: "string list \<Rightarrow> nat \<Rightarrow> SplitState" where
  "between out n = split_init\<lparr>ss_out := out, ss_current := replicate n newline\<rparr>"

lemma between_sel [simp]: "ss_dollar_tag (between out n) = None" "\<not> ss_in_str (between out n)"
  "ss_out (between out n) = out" "ss_current (between out n) = replicate n newline"
  by (simp_all add: between_def split_init_def)

lemma scan_newline: "split_scan (nl @ t) (between out n) = split_scan t (between out (Suc n))"
  using scan_safe [of nl "between out n" t] newline_chars
  by (simp add: nl_newline between_def split_init_def replicate_append_same)

definition statement :: "string \<Rightarrow> bool" where
  "statement s \<longleftrightarrow> sql_text s \<and> s \<noteq> [] \<and> graphic (hd s) \<and> graphic (last s)"

lemma scan_statement:
  assumes "statement s"
  shows "split_scan (s @ '';'' @ nl @ t) (between out n) = split_scan t (between (out @ [s]) 1)"
proof -
  have safe: "list_all sql_safe s" "even (count_list s single_quote)" "trim s = s" "s \<noteq> []"
    using assms by (auto simp: statement_def sql_text_def trim_graphic)
  define st where "st = (between out n)\<lparr>ss_current := replicate n newline @ s\<rparr>"
  have "split_scan (s @ '';'' @ nl @ t) (between out n) = split_scan ('';'' @ nl @ t) st"
    using scan_safe [OF safe(1)] safe(2) by (simp add: st_def)
  also have "\<dots> = split_scan (nl @ t) (between (out @ [s]) 0)"
    using scan_semicolon [of st "nl @ t"] trim_newlines [of n s] safe(3,4)
    by (simp add: st_def between_def split_init_def)
  also have "\<dots> = split_scan t (between (out @ [s]) 1)" by (simp add: scan_newline)
  finally show ?thesis .
qed

lemma scan_statements:
  "list_all statement ss \<Longrightarrow> \<exists>m. split_scan (terminated ss @ t) (between out n) = split_scan t (between (out @ ss) m)"
proof (induction ss arbitrary: out n)
  case (Cons s ss)
  then have "split_scan (terminated (s # ss) @ t) (between out n) = split_scan (terminated ss @ t) (between (out @ [s]) 1)"
    using scan_statement [of s "terminated ss @ t"] by simp
  with Cons.IH [of "out @ [s]" 1] Cons.prems show ?case by simp
qed auto

section \<open>Names\<close>

text \<open>A name of ASCII letters, digits and underscores: the identifiers of the language but for other alphabets.\<close>

definition sql_name :: "string \<Rightarrow> bool" where
  "sql_name s \<longleftrightarrow> list_all tag_char s"

definition sql_field :: "field_decl \<Rightarrow> bool" where
  "sql_field f \<longleftrightarrow> sql_name (field_name f) \<and> (case field_ty f of TRef target _ \<Rightarrow> sql_name target | _ \<Rightarrow> True)"

definition sql_schema :: "schema_decl \<Rightarrow> bool" where
  "sql_schema s \<longleftrightarrow> sql_name (schema_name s) \<and> list_all sql_field (schema_fields s)"

named_theorems sql_texts \<open>texts the splitter copies\<close>

lemma sql_text_Nil [sql_texts]: "sql_text []"
  by (simp add: sql_text_def)

lemma sql_text_append [sql_texts]: "sql_text u \<Longrightarrow> sql_text v \<Longrightarrow> sql_text (u @ v)"
  by (simp add: sql_text_def)

lemma sql_text_if [sql_texts]: "sql_text u \<Longrightarrow> sql_text v \<Longrightarrow> sql_text (if b then u else v)"
  by simp

lemma sql_text_join [sql_texts]: "sql_text sep \<Longrightarrow> list_all sql_text xs \<Longrightarrow> sql_text (join_with sep xs)"
  by (induction sep xs rule: join_with.induct) (auto intro: sql_text_append sql_text_Nil)

lemma tag_char_safe: "tag_char c \<Longrightarrow> sql_safe c \<and> c \<noteq> single_quote"
proof -
  have "\<not> tag_char single_quote" by code_simp
  then show "tag_char c \<Longrightarrow> ?thesis" by (auto simp: tag_char_def ascii_alnum_def sql_safe_def Let_def)
qed

lemma sql_text_name [sql_texts]: "sql_name s \<Longrightarrow> sql_text s"
proof -
  assume "sql_name s"
  then have "list_all (\<lambda>c. sql_safe c \<and> c \<noteq> single_quote) s"
    using tag_char_safe by (auto simp: sql_name_def list_all_iff)
  then show ?thesis by (induction s) (auto simp: sql_text_def)
qed

lemma to_ascii_lower_tag: "tag_char c \<Longrightarrow> tag_char (to_ascii_lower c)"
  by (auto simp: to_ascii_lower_def tag_char_def ascii_alnum_def ascii_upper_def Let_def)

lemma ascii_sql_name: "sql_name s \<Longrightarrow> ascii_name s"
  using tag_char_safe by (auto simp: sql_name_def ascii_name_def list_all_iff sql_safe_def)

lemma sql_name_table: "sql_name s \<Longrightarrow> sql_name (table_name U s)"
proof -
  assume s: "sql_name s"
  have "tag_char (CHR ''_'')" by code_simp
  then have "list_all tag_char (concat (map (\<lambda>(i, c).
     if ascii_upper c then (if 0 < i then ''_'' else []) @ [to_ascii_lower c] else [c]) (enumerate n s)))" for n
    using s by (induction s arbitrary: n) (auto simp: sql_name_def to_ascii_lower_tag)
  then show ?thesis
    using snake_ascii [OF ascii_sql_name [OF s]] by (simp add: table_name_def sql_name_def to_snake_def)
qed

lemma sql_consts [sql_texts]:
  "sql_text ''  ''" "sql_text '' ''" "sql_text '' NOT NULL''" "sql_text '' PRIMARY KEY''" "sql_text '' UNIQUE''"
  "sql_text (''  body text NOT NULL DEFAULT '' @ sq @ sq)" "sql_text ''  created_at timestamptz NOT NULL DEFAULT now()''"
  "sql_text (''  tenant text NOT NULL DEFAULT '' @ sq @ sq)"
  "sql_text (''  metadata jsonb NOT NULL DEFAULT '' @ sq @ ''{}'' @ sq @ ''::jsonb'')"
  "sql_text ''  FOREIGN KEY (''" "sql_text '') REFERENCES ''" "sql_text '' (id)''" "sql_text ''_''" "sql_text ''_idx ON ''"
  "sql_text '' (''" "sql_text '')''" "sql_text ''_fts_idx ON ''" "sql_text ''_tenant_idx ON ''" "sql_text '' (tenant)''"
  "sql_text ''_body_fts_idx ON ''" "sql_text (''CREATE INDEX IF NOT EXISTS '')" "sql_text (''CREATE TABLE IF NOT EXISTS '')"
  "sql_text nl" "sql_text '',''" "sql_text ''))''"
  "sql_text ('' USING gin (to_tsvector('' @ sq @ ''english'' @ sq @ '', '')"
  "sql_text ('' USING gin (to_tsvector('' @ sq @ ''english'' @ sq @ '', body))'')"
  by code_simp+

lemma sql_text_primitive [sql_texts]: "sql_text (map_primitive p)"
  by (cases p; simp only: map_primitive.simps; code_simp)

lemma sql_type_consts: "sql_text ''text''" "sql_text ''jsonb''" "sql_text ''bytea''"
  by code_simp+

lemma sql_text_type [sql_texts]: "sql_text (map_type ty)"
  by (induction ty) (simp_all add: sql_type_consts sql_text_primitive)

section \<open>Generated statements are statements\<close>

lemma sql_column: "sql_field f \<Longrightarrow> sql_text (column_line f)"
  unfolding column_line_def by (intro sql_texts) (simp add: sql_field_def)

lemma sql_conventions: "list_all sql_text (convention_lines s)"
  by (simp add: convention_lines_def sql_texts [simplified])

lemma sql_foreign_keys: "list_all sql_field fs \<Longrightarrow> list_all sql_text (List.map_filter (foreign_key_line U) fs)"
proof -
  have "sql_text line" if "foreign_key_line U f = Some line" "sql_field f" for f line
  proof -
    from that obtain target sp where "field_ty f = TRef target sp"
      "line = ''  FOREIGN KEY ('' @ field_name f @ '') REFERENCES '' @ table_name U target @ '' (id)''"
      by (auto simp: foreign_key_line_def split: type_expr.splits)
    moreover from this(1) that(2) have "sql_name (field_name f)" "sql_name (table_name U target)"
      by (simp_all add: sql_field_def sql_name_table)
    ultimately show ?thesis
      by (simp only:) (intro sql_text_append sql_consts sql_text_name)
  qed
  then show "list_all sql_field fs \<Longrightarrow> ?thesis"
    by (fastforce simp: list_all_iff map_filter_def)
qed

lemma statementI: "sql_text s \<Longrightarrow> s \<noteq> [] \<Longrightarrow> graphic (hd s) \<Longrightarrow> graphic (last s) \<Longrightarrow> statement s"
  by (simp add: statement_def)

lemma graphics: "graphic (CHR ''C'')" "graphic (CHR '')'')" "graphic (CHR ''S'')"
  by code_simp+

lemma sql_indexes:
  assumes "sql_name table" "sql_field f"
  shows "list_all statement (index_statements table f)"
proof -
  have "sql_name (field_name f)" using assms(2) by (simp add: sql_field_def)
  note names = sql_text_name [OF this] sql_text_name [OF assms(1)]
  have "sql_text (''CREATE INDEX IF NOT EXISTS '' @ table @ ''_'' @ field_name f @ ''_idx ON '' @ table @ '' ('' @ field_name f @ '')'')"
    by (intro sql_text_append sql_consts names)
  moreover have "sql_text (''CREATE INDEX IF NOT EXISTS '' @ table @ ''_'' @ field_name f @ ''_fts_idx ON '' @ table
      @ ('' USING gin (to_tsvector('' @ sq @ ''english'' @ sq @ '', '') @ field_name f @ ''))'')"
    by (intro sql_text_append [of _ "table @ _"] sql_text_append [of table] sql_text_append [of _ "field_name f @ _"]
      sql_text_append [of "field_name f"] sql_text_append [of "''_fts_idx ON ''"]
      sql_text_append [of "'' USING gin (to_tsvector('' @ sq @ ''english'' @ sq @ '', ''"] sql_consts names)
  ultimately show ?thesis
    by (simp add: index_statements_def Let_def statement_def graphics)
qed

lemma sql_ddl:
  assumes "sql_schema s"
  shows "list_all statement (ddl_statements U s)"
proof -
  have table: "sql_name (table_name U (schema_name s))" using assms by (simp add: sql_schema_def sql_name_table)
  have fields: "list_all sql_field (schema_fields s)" using assms by (simp add: sql_schema_def)
  have "list_all sql_text (column_lines U s)"
    using fields by (simp add: column_lines_def sql_conventions sql_foreign_keys) (simp add: list_all_iff sql_column)
  then have "sql_text (''CREATE TABLE IF NOT EXISTS '' @ table_name U (schema_name s) @ '' ('' @ nl
      @ join_with ('','' @ nl) (column_lines U s) @ nl @ '')'')"
    by (intro sql_text_append sql_consts sql_text_name [OF table] sql_text_join)
  moreover have "sql_text (''CREATE INDEX IF NOT EXISTS '' @ table_name U (schema_name s) @ ''_tenant_idx ON ''
      @ table_name U (schema_name s) @ '' (tenant)'')"
    by (intro sql_text_append sql_consts sql_text_name [OF table])
  moreover have "sql_text (''CREATE INDEX IF NOT EXISTS '' @ table_name U (schema_name s) @ ''_body_fts_idx ON ''
      @ table_name U (schema_name s) @ ('' USING gin (to_tsvector('' @ sq @ ''english'' @ sq @ '', body))''))"
    by (intro sql_text_append [of "''CREATE INDEX IF NOT EXISTS ''"] sql_text_append [of "table_name U (schema_name s)"]
      sql_text_append [of "''_body_fts_idx ON ''"] sql_consts sql_text_name [OF table])
  moreover have "list_all statement (concat (map (index_statements (table_name U (schema_name s))) (schema_fields s)))"
    using fields sql_indexes [OF table] by (auto simp: list_all_iff)
  ultimately show ?thesis
    by (simp add: ddl_statements_def Let_def statement_def graphics)
qed

section \<open>The whole text\<close>

definition set_timeout :: string where
  "set_timeout = ''SET statement_timeout = '' @ sq @ ''60s'' @ sq"

lemma set_timeout_statement: "statement set_timeout"
  by code_simp

lemma scan_schemas:
  "list_all (\<lambda>s. sql_schema (ts_decl s)) ss \<Longrightarrow>
   \<exists>m. split_scan (concat (map (\<lambda>s. emit_schema_sql U (ts_decl s) @ nl) ss)) (between out n)
     = between (out @ concat (map (\<lambda>s. ddl_statements U (ts_decl s)) ss)) m"
proof (induction ss arbitrary: out n)
  case (Cons s ss)
  let ?rest = "concat (map (\<lambda>s. emit_schema_sql U (ts_decl s) @ nl) ss)"
  from Cons.prems obtain m where
    "split_scan (terminated (ddl_statements U (ts_decl s)) @ nl @ ?rest) (between out n)
      = split_scan (nl @ ?rest) (between (out @ ddl_statements U (ts_decl s)) m)"
    using scan_statements [OF sql_ddl] by fastforce
  with Cons.IH [of "out @ ddl_statements U (ts_decl s)" "Suc m"] Cons.prems show ?case
    by (simp add: emit_schema_terminated scan_newline)
qed auto

lemma scan_line:
  "newline \<notin> set u \<Longrightarrow> split_scan (''--'' @ u @ nl @ t) (between out n) = split_scan t (between out (Suc n))"
  using scan_comment [of "between out n" u t] by (simp add: scan_newline)

lemma header_lines: "newline \<notin> set '' Generated by sealstack-csl. Do not edit manually.''"
  "newline \<notin> set '' namespace: ''"
  by code_simp+

lemma scan_header:
  assumes "newline \<notin> set (tf_namespace tf)"
  shows "\<exists>n. split_scan (''-- Generated by sealstack-csl. Do not edit manually.'' @ nl
     @ (if tf_namespace tf \<noteq> [] then ''-- namespace: '' @ tf_namespace tf @ nl else []) @ t) (between [] 0)
   = split_scan t (between [] n)"
proof -
  have ns: "newline \<notin> set ('' namespace: '' @ tf_namespace tf)"
    using assms header_lines(2) unfolding set_append by blast
  show ?thesis
    using scan_line [OF header_lines(1), of "(if tf_namespace tf \<noteq> [] then ''-- namespace: '' @ tf_namespace tf @ nl else []) @ t" "[]" 0]
      scan_line [OF ns, of t "[]" 1]
    by (cases "tf_namespace tf = []") auto
qed

text \<open>
  C26: the store runs exactly the DDL the compiler generated: for schemas whose names are ASCII
  the text of the generator, its comments included, is split into the timeout setting and the
  statements of each schema in declaration order, none of them altered, split or merged.
\<close>

theorem store_splits_generated_ddl:
  assumes "list_all (\<lambda>s. sql_schema (ts_decl s)) (ordered_schemas tf)" and "newline \<notin> set (tf_namespace tf)"
  shows "split_sql (emit_sql U tf)
    = set_timeout # concat (map (\<lambda>s. ddl_statements U (ts_decl s)) (ordered_schemas tf))"
proof -
  let ?schemas = "concat (map (\<lambda>s. emit_schema_sql U (ts_decl s) @ nl) (ordered_schemas tf))"
  let ?set = "set_timeout @ '';'' @ nl @ nl @ ?schemas"
  have init: "split_init = between [] 0" by (simp add: between_def split_init_def)
  have "\<exists>n. split_scan (emit_sql U tf) split_init = split_scan ?set (between [] n)"
    using scan_header [OF assms(2), of ?set] by (simp add: emit_sql_def init set_timeout_def)
  then obtain n where n: "split_scan (emit_sql U tf) split_init = split_scan ?set (between [] n)" by blast
  have "split_scan ?set (between [] n) = split_scan (nl @ ?schemas) (between ([] @ [set_timeout]) 1)"
    by (rule scan_statement [OF set_timeout_statement])
  also have "\<dots> = split_scan ?schemas (between [set_timeout] (Suc 1))"
    unfolding append_Nil by (rule scan_newline)
  finally have "split_scan ?set (between [] n) = split_scan ?schemas (between [set_timeout] (Suc 1))" .
  moreover obtain m where "split_scan ?schemas (between [set_timeout] (Suc 1))
      = between ([set_timeout] @ concat (map (\<lambda>s. ddl_statements U (ts_decl s)) (ordered_schemas tf))) m"
    using scan_schemas [OF assms(1)] by blast
  ultimately have "split_scan (emit_sql U tf) split_init
      = between (set_timeout # concat (map (\<lambda>s. ddl_statements U (ts_decl s)) (ordered_schemas tf))) m"
    using n by simp
  moreover have "trim (replicate m newline) = []" using trim_newlines [of m "[]"] by (simp add: trim_blank)
  ultimately show ?thesis by (simp add: split_sql_def Let_def)
qed

definition ddl_schema :: schema_decl where
  "ddl_schema = sample_schema ''DocNote''
     [sample_field ''id'' (TPrimitive PUlid (span_point 0)) [''primary''],
      sample_field ''title'' (TOptional (TPrimitive PString (span_point 0)) (span_point 0)) [''searchable''],
      sample_field ''owner'' (TRef ''User'' (span_point 0)) [''indexed'', ''unique'']] None"

definition ddl_file :: typed_file where
  "ddl_file = \<lparr>tf_namespace = ''acme.crm'', tf_filename = None, tf_source = [],
     tf_schemas = [(''DocNote'', \<lparr>ts_decl = ddl_schema, ts_primary_idx = 0, ts_refs_to = [''User''], ts_decorator_index = []\<rparr>)],
     tf_enums = [], tf_decl_order = [''DocNote'']\<rparr>"

definition no_unicode :: unicode where
  "no_unicode = \<lparr>uc_is_upper = (\<lambda>_. False), uc_to_upper = (\<lambda>s. s)\<rparr>"

lemma ddl_file_safe: "list_all (\<lambda>s. sql_schema (ts_decl s)) (ordered_schemas ddl_file)"
  "newline \<notin> set (tf_namespace ddl_file)"
  by code_simp+

lemma ddl_file_count: "length (concat (map (\<lambda>s. ddl_statements no_unicode (ts_decl s)) (ordered_schemas ddl_file))) = 5"
  "ddl_statements no_unicode ddl_schema ! 3 = ''CREATE INDEX IF NOT EXISTS doc_note_owner_idx ON doc_note (owner)''"
  by code_simp+

theorem store_splits_generated_ddl_witness:
  "length (split_sql (emit_sql no_unicode ddl_file)) = 6
   \<and> hd (split_sql (emit_sql no_unicode ddl_file)) = set_timeout"
  using store_splits_generated_ddl [OF ddl_file_safe, of no_unicode] ddl_file_count by simp

section \<open>The columns the row writer needs\<close>

definition ddl_columns :: "schema_decl \<Rightarrow> string list" where
  "ddl_columns s =
     map field_name (schema_fields s)
     @ (if \<not> declares s ''body'' \<and> \<not> list_ex is_chunked (schema_fields s) then [''body''] else [])
     @ filter (\<lambda>c. \<not> declares s c) [''created_at'', ''tenant'', ''metadata'']"

definition written_columns :: "string list" where
  "written_columns = [''id'', ''title'', ''body'', ''created_at'', ''tenant'', ''metadata'']"

definition column_of :: "string \<Rightarrow> string \<Rightarrow> bool" where
  "column_of name line \<longleftrightarrow> prefix (''  '' @ name @ '' '') line"

lemma column_ofI: "column_of name (''  '' @ name @ '' '' @ rest)"
  by (simp add: column_of_def)

lemma declared_columns: "list_all2 column_of (map field_name fs) (map column_line fs)"
  by (induction fs) (simp_all add: column_line_def column_of_def)

lemma convention_columns:
  "list_all2 column_of
     ((if \<not> declares s ''body'' \<and> \<not> list_ex is_chunked (schema_fields s) then [''body''] else [])
      @ filter (\<lambda>c. \<not> declares s c) [''created_at'', ''tenant'', ''metadata'']) (convention_lines s)"
  by (simp add: convention_lines_def column_of_def)

text \<open>
  The generator and the row writer agree on the table but for two cases. The column lines
  of a generated table define its declared fields and the conventional columns, in order; and
  the columns the ingestor's \<open>INSERT\<close> names are all among them exactly when the schema
  declares \<open>id\<close> and \<open>title\<close>, and does not leave out \<open>body\<close> while it chunks another field
  (then the full-text index of the table names a column that does not exist either).
\<close>

theorem ddl_carries_written_columns:
  "list_all2 column_of (ddl_columns s) (take (length (ddl_columns s)) (column_lines U s))
   \<and> (\<exists>rest. upsert_row_sql table = ''INSERT INTO '' @ table @ '' ('' @ join_with '', '' written_columns @ '') '' @ rest)
   \<and> (set written_columns \<subseteq> set (ddl_columns s) \<longleftrightarrow>
        declares s ''id'' \<and> declares s ''title''
        \<and> \<not> (list_ex is_chunked (schema_fields s) \<and> \<not> declares s ''body''))"
proof (intro conjI)
  have all: "list_all2 column_of (ddl_columns s) (map column_line (schema_fields s) @ convention_lines s)"
    unfolding ddl_columns_def using declared_columns convention_columns by (rule list_all2_appendI)
  moreover from all have "length (ddl_columns s) = length (map column_line (schema_fields s) @ convention_lines s)"
    by (rule list_all2_lengthD)
  ultimately show "list_all2 column_of (ddl_columns s) (take (length (ddl_columns s)) (column_lines U s))"
    by (simp add: column_lines_def)
  show "\<exists>rest. upsert_row_sql table = ''INSERT INTO '' @ table @ '' ('' @ join_with '', '' written_columns @ '') '' @ rest"
    by (simp add: upsert_row_sql_def written_columns_def)
  have "declares s c \<longleftrightarrow> c \<in> field_name ` set (schema_fields s)" for c
    by (auto simp: declares_def list_ex_iff)
  then show "set written_columns \<subseteq> set (ddl_columns s) \<longleftrightarrow>
      declares s ''id'' \<and> declares s ''title''
      \<and> \<not> (list_ex is_chunked (schema_fields s) \<and> \<not> declares s ''body'')"
    by (auto simp: ddl_columns_def written_columns_def)
qed

end
