(* ===== verification/Csl_Meta.thy ===== *)
theory Csl_Meta
  imports Csl_Names Json_Value Rust_Parse
begin

text \<open>
  The engine-facing metadata of a compilation (\<open>sealstack-csl/src/codegen/mod.rs\<close>): the
  vector-store plan and one JSON document per schema. The keys of a JSON object are sorted,
  as \<open>serde_json\<close> keeps them.
\<close>

section \<open>JSON values\<close>

definition json_u64 :: "u64 \<Rightarrow> json" where "json_u64 n = JNumber (PosInt n)"
definition json_u32 :: "u32 \<Rightarrow> json" where "json_u32 n = JNumber (PosInt (ucast n))"

definition json_i64 :: "i64 \<Rightarrow> json" where
  "json_i64 n = JNumber (if n <s 0 then NegInt n else PosInt n)"

text \<open>\<open>Number::from_f64\<close> fails on NaN and infinities, which become null.\<close>

definition json_f64 :: "f64 \<Rightarrow> json" where
  "json_f64 x = (if f64_is_nan x \<or> f64_mag x = f64_inf_mag then JNull else JNumber (JFloat x))"

definition json_opt :: "('a \<Rightarrow> json) \<Rightarrow> 'a option \<Rightarrow> json" where
  "json_opt f x = (case x of None \<Rightarrow> JNull | Some v \<Rightarrow> f v)"

text \<open>\<open>serde_json::Map::insert\<close>: sorted by key, the last value of a key winning.\<close>

fun object_insert :: "string \<Rightarrow> json \<Rightarrow> (string \<times> json) list \<Rightarrow> (string \<times> json) list" where
  "object_insert k v [] = [(k, v)]"
| "object_insert k v ((k', v') # kvs) =
     (if k = k' then (k, v) # kvs
      else if byte_less k k' then (k, v) # (k', v') # kvs
      else (k', v') # object_insert k v kvs)"

section \<open>Rendering types\<close>

fun render_type_expr :: "type_expr \<Rightarrow> string" where
  "render_type_expr (TPrimitive p _) = primitive_display_name p"
| "render_type_expr (TRef target _) = ''Ref<'' @ target @ ''>''"
| "render_type_expr (TList inner _) = ''List<'' @ render_type_expr inner @ ''>''"
| "render_type_expr (TMap k v _) = ''Map<'' @ render_type_expr k @ '','' @ render_type_expr v @ ''>''"
| "render_type_expr (TNamed name _) = name"
| "render_type_expr (TOptional inner _) = render_type_expr inner @ ''?''"
| "render_type_expr (TVector n _) = ''Vector<'' @ show_word n @ ''>''"

section \<open>Literals of the context block\<close>

definition int_literal :: "expr \<Rightarrow> i64 option" where
  "int_literal e = (case e of ELiteral (LInteger n) _ \<Rightarrow> Some n | _ \<Rightarrow> None)"

definition string_literal :: "expr \<Rightarrow> string option" where
  "string_literal e = (case e of ELiteral (LString s) _ \<Rightarrow> Some s | _ \<Rightarrow> None)"

definition float_literal :: "expr \<Rightarrow> f64 option" where
  "float_literal e = (case e of ELiteral (LFloat x) _ \<Rightarrow> Some x | _ \<Rightarrow> None)"

text \<open>\<open>u64::try_from\<close> of an \<open>i64\<close>.\<close>

definition u64_of_i64 :: "i64 \<Rightarrow> u64 option" where
  "u64_of_i64 n = (if n <s 0 then None else Some n)"

definition nth_int :: "expr list \<Rightarrow> nat \<Rightarrow> i64 option" where
  "nth_int args n = nth_opt (List.map_filter int_literal args) n"

fun duration_mult :: "duration_unit \<Rightarrow> nat option" where
  "duration_mult DuNs = None"
| "duration_mult DuUs = None"
| "duration_mult DuMs = None"
| "duration_mult DuS = Some 1"
| "duration_mult DuM = Some 60"
| "duration_mult DuH = Some 3600"
| "duration_mult DuD = Some 86400"
| "duration_mult DuW = Some (7 * 86400)"
| "duration_mult DuMo = Some (30 * 86400)"
| "duration_mult DuY = Some (365 * 86400)"

text \<open>Units below the second are zero; a product beyond \<open>u64\<close> saturates.\<close>

definition duration_to_secs :: "i64 \<Rightarrow> duration_unit \<Rightarrow> u64" where
  "duration_to_secs n u =
     (case duration_mult u of
        None \<Rightarrow> 0
      | Some factor \<Rightarrow> (let v = (if n <s 0 then 0 else unat n)
                     in if v * factor < 2 ^ 64 then of_nat (v * factor) else - 1))"

definition duration_literal :: "expr \<Rightarrow> u64 option" where
  "duration_literal e =
     (case e of
        ELiteral (LDuration v u) _ \<Rightarrow> Some (duration_to_secs v u)
      | ELiteral (LInteger i) _ \<Rightarrow> u64_of_i64 i
      | _ \<Rightarrow> None)"

definition nth_duration :: "expr list \<Rightarrow> nat \<Rightarrow> u64 option" where
  "nth_duration args n = nth_opt (List.map_filter duration_literal args) n"

definition option_or :: "'a option \<Rightarrow> 'a \<Rightarrow> 'a" where
  "option_or x d = (case x of None \<Rightarrow> d | Some v \<Rightarrow> v)"

definition semantic_json :: "json \<Rightarrow> json \<Rightarrow> json" where
  "semantic_json max_tokens overlap =
     JObject [(''kind'', JString ''semantic''), (''max_tokens'', max_tokens), (''overlap'', overlap)]"

definition chunking_to_json :: "expr \<Rightarrow> json option" where
  "chunking_to_json e =
     (case e of
        ECall name args _ \<Rightarrow>
          if joined name = ''semantic'' then
            Some (semantic_json (json_i64 (option_or (nth_int args 0) 512)) (json_i64 (option_or (nth_int args 1) 64)))
          else if joined name = ''fixed'' then
            Some (JObject [(''kind'', JString ''fixed''), (''size'', json_i64 (option_or (nth_int args 0) 1024))])
          else None
      | _ \<Rightarrow> None)"

definition decay_to_json :: "expr \<Rightarrow> json option" where
  "decay_to_json e =
     (case e of
        ECall name args _ \<Rightarrow>
          if joined name = ''exponential'' then
            Some (JObject [(''half_life_secs'', json_u64 (option_or (nth_duration args 0) (30 * 24 * 3600))),
                           (''kind'', JString ''exponential'')])
          else if joined name = ''linear'' then
            Some (JObject [(''kind'', JString ''linear''),
                           (''window_secs'', json_u64 (option_or (nth_duration args 0) (30 * 24 * 3600)))])
          else None
      | _ \<Rightarrow> None)"

section \<open>The context block\<close>

record ContextVars =
  cv_embedder :: string
  cv_vector_dims :: u64
  cv_chunking :: json
  cv_freshness_decay :: json
  cv_default_top_k :: "u64 option"

definition context_init :: ContextVars where
  "context_init = \<lparr>cv_embedder = ''stub'', cv_vector_dims = 64,
     cv_chunking = semantic_json (json_u64 512) (json_u64 64),
     cv_freshness_decay = JObject [(''kind'', JString ''none'')], cv_default_top_k = None\<rparr>"

definition context_stmt_step :: "context_stmt \<Rightarrow> ContextVars \<Rightarrow> ContextVars" where
  "context_stmt_step st v =
     (let key = ctx_key st; e = ctx_value st
      in if key = ''embedder'' then
           (case string_literal e of None \<Rightarrow> v | Some s \<Rightarrow> v\<lparr>cv_embedder := s\<rparr>)
         else if key = ''vector_dims'' then
           (case int_literal e of None \<Rightarrow> v | Some n \<Rightarrow> v\<lparr>cv_vector_dims := option_or (u64_of_i64 n) 64\<rparr>)
         else if key = ''default_top_k'' then
           (case int_literal e of None \<Rightarrow> v | Some n \<Rightarrow> v\<lparr>cv_default_top_k := u64_of_i64 n\<rparr>)
         else if key = ''chunking'' then
           v\<lparr>cv_chunking := option_or (chunking_to_json e) (cv_chunking v)\<rparr>
         else if key = ''freshness_decay'' then
           v\<lparr>cv_freshness_decay := option_or (decay_to_json e) (cv_freshness_decay v)\<rparr>
         else v)"

definition context_stmts :: "schema_decl \<Rightarrow> context_stmt list" where
  "context_stmts s = (case schema_context s of None \<Rightarrow> [] | Some cb \<Rightarrow> ctx_stmts cb)"

definition context_vars :: "schema_decl \<Rightarrow> ContextVars" where
  "context_vars s = fold context_stmt_step (context_stmts s) context_init"

definition emit_context_meta :: "schema_decl \<Rightarrow> json" where
  "emit_context_meta s =
     (let v = context_vars s
      in JObject [(''chunking'', cv_chunking v), (''default_top_k'', json_opt json_u64 (cv_default_top_k v)),
                  (''embedder'', JString (cv_embedder v)), (''freshness_decay'', cv_freshness_decay v),
                  (''vector_dims'', json_u64 (cv_vector_dims v))])"

section \<open>Fields and relations\<close>

definition boost_arg :: "expr \<Rightarrow> f64 option" where
  "boost_arg e =
     (case e of
        ELiteral (LFloat x) _ \<Rightarrow> Some x
      | ELiteral (LInteger n) _ \<Rightarrow> Some (f64_of_i64 n)
      | _ \<Rightarrow> None)"

definition boost_value :: "field_decl \<Rightarrow> f64 option" where
  "boost_value f = find_map (\<lambda>d. if decorator_is d ''boost'' then find_map boost_arg (dec_args d) else None)
     (field_decorators f)"

definition pii_value :: "field_decl \<Rightarrow> string option" where
  "pii_value f =
     (case find (\<lambda>d. decorator_is d ''pii'') (field_decorators f) of
        None \<Rightarrow> None
      | Some d \<Rightarrow>
          Some (case dec_args d of
                  a # _ \<Rightarrow> option_or (string_literal a) ''unspecified''
                | [] \<Rightarrow> ''unspecified''))"

definition schema_level_hybrid_alpha :: "schema_decl \<Rightarrow> f64 option" where
  "schema_level_hybrid_alpha s =
     find_map (\<lambda>st. if ctx_key st = ''hybrid_alpha'' then float_literal (ctx_value st) else None) (context_stmts s)"

definition field_meta :: "field_decl \<Rightarrow> json" where
  "field_meta f = JObject
     [(''boost'', json_opt json_f64 (boost_value f)),
      (''chunked'', JBool (has_decorator ''chunked'' f)),
      (''column'', JString (to_snake (field_name f))),
      (''facet'', JBool (has_decorator ''facet'' f)),
      (''indexed'', JBool (has_decorator ''indexed'' f)),
      (''name'', JString (field_name f)),
      (''optional'', JBool (is_optional (field_ty f))),
      (''pii'', json_opt JString (pii_value f)),
      (''primary'', JBool (has_decorator ''primary'' f)),
      (''searchable'', JBool (has_decorator ''searchable'' f)),
      (''ty'', JString (render_type_expr (field_ty f))),
      (''unique'', JBool (has_decorator ''unique'' f))]"

fun cardinality_text :: "cardinality \<Rightarrow> string" where
  "cardinality_text COne = ''one''"
| "cardinality_text CMany = ''many''"

definition relation_target :: "string \<Rightarrow> relation_decl \<Rightarrow> string \<times> string" where
  "relation_target namespace r =
     (case split_once (CHR ''.'') (rel_target r) of
        None \<Rightarrow> (namespace, rel_target r)
      | Some (a, b) \<Rightarrow> (a, b))"

definition relation_meta :: "string \<Rightarrow> relation_decl \<Rightarrow> json" where
  "relation_meta namespace r =
     (case relation_target namespace r of (target_namespace, target_schema) \<Rightarrow>
      JObject
       [(''foreign_key'', JString (joined (rel_via r))),
        (''kind'', JString (cardinality_text (rel_cardinality r))),
        (''name'', JString (rel_name r)),
        (''target_namespace'', JString target_namespace),
        (''target_schema'', JString target_schema)])"

text \<open>The last primary field wins; there is exactly one after type checking.\<close>

definition primary_key_of :: "schema_decl \<Rightarrow> string" where
  "primary_key_of s = fold (\<lambda>f k. if has_decorator ''primary'' f then field_name f else k) (schema_fields s) []"

definition collection_name :: "schema_decl \<Rightarrow> string" where
  "collection_name s = to_snake (schema_name s) @ ''_v'' @ show_word (schema_version_or_1 s)"

definition schema_meta_json :: "typed_file \<Rightarrow> schema_decl \<Rightarrow> json" where
  "schema_meta_json tf s =
     (let namespace = default_namespace (tf_namespace tf)
      in JObject
       [(''chunked_fields'', JArray (map (\<lambda>f. JString (field_name f)) (filter (has_decorator ''chunked'') (schema_fields s)))),
        (''collection'', JString (collection_name s)),
        (''context'', emit_context_meta s),
        (''facets'', JArray (map (\<lambda>f. JString (field_name f)) (filter (has_decorator ''facet'') (schema_fields s)))),
        (''fields'', JArray (map field_meta (schema_fields s))),
        (''hybrid_alpha'', json_opt json_f64 (schema_level_hybrid_alpha s)),
        (''name'', JString (schema_name s)),
        (''namespace'', JString namespace),
        (''primary_key'', JString (primary_key_of s)),
        (''relations'', JObject (fold (\<lambda>r m. object_insert (rel_name r) (relation_meta namespace r) m) (schema_relations s) [])),
        (''table'', JString (to_snake (schema_name s))),
        (''version'', json_u32 (schema_version_or_1 s))])"

definition emit_schemas_meta :: "typed_file \<Rightarrow> json list" where
  "emit_schemas_meta tf = map (\<lambda>s. schema_meta_json tf (ts_decl s)) (ordered_schemas tf)"

section \<open>The vector-store plan\<close>

definition needs_collection :: "schema_decl \<Rightarrow> bool" where
  "needs_collection s \<longleftrightarrow>
     list_ex (\<lambda>f. case field_ty f of TVector _ _ \<Rightarrow> True | _ \<Rightarrow> False) (schema_fields s)
     \<or> list_ex (has_decorator ''chunked'') (schema_fields s)"

definition plan_stmt :: "context_stmt \<Rightarrow> string" where
  "plan_stmt st =
     (if ctx_key st = ''vector_dims'' then
        (case int_literal (ctx_value st) of None \<Rightarrow> [] | Some n \<Rightarrow> ''    dims: '' @ show_i64 n @ nl) else [])
     @ (if ctx_key st = ''embedder'' then
        (case string_literal (ctx_value st) of None \<Rightarrow> [] | Some s \<Rightarrow> ''    embedder: '' @ s @ nl) else [])"

definition plan_entry :: "schema_decl \<Rightarrow> string" where
  "plan_entry s =
     (if \<not> needs_collection s then []
      else let version = show_word (schema_version_or_1 s)
           in ''  - name: '' @ ascii_lowercase (schema_name s) @ ''_'' @ version @ nl
              @ ''    schema: '' @ schema_name s @ nl @ ''    version: '' @ version @ nl
              @ concat (map plan_stmt (context_stmts s)))"

definition emit_vector_plan :: "typed_file \<Rightarrow> string" where
  "emit_vector_plan tf =
     ''# Vector store plan (generated from CSL)'' @ nl @ ''collections:'' @ nl
     @ concat (map (\<lambda>s. plan_entry (ts_decl s)) (ordered_schemas tf))"

end
