(* ===== verification/Csl_Load.thy ===== *)
theory Csl_Load
  imports Csl_Meta Csl_Sql Engine_Api
begin

text \<open>
  The compiler's metadata meets the registry that loads it: what the derived readers of
  \<open>SchemaMeta\<close> (\<open>sealstack-engine/src/schema_registry.rs\<close>) make of the documents of
  \<open>emit_schemas_meta\<close>. The readers are on objects: a key is looked up, unknown keys are
  ignored, an optional field may be missing or null.
\<close>

section \<open>Reading scalars\<close>

definition f32_of_f64 :: "f64 \<Rightarrow> f32" where
  "f32_of_f64 x =
     (let m = f64_mag x; ex = m div 2 ^ 52; fr = m mod 2 ^ 52
      in if f64_is_nan x then f32_nan
         else if m = f64_inf_mag then f32_make (f64_neg x) f32_inf_mag
         else if ex = 0 then f32_round (f64_neg x) fr (- 1074)
         else f32_round (f64_neg x) (2 ^ 52 + fr) (int ex - 1075))"

fun read_string :: "json \<Rightarrow> string option" where
  "read_string (JString s) = Some s"
| "read_string _ = None"

fun read_bool :: "json \<Rightarrow> bool option" where
  "read_bool (JBool b) = Some b"
| "read_bool _ = None"

fun read_u64 :: "json \<Rightarrow> u64 option" where
  "read_u64 (JNumber (PosInt n)) = Some n"
| "read_u64 _ = None"

definition read_u32 :: "json \<Rightarrow> u32 option" where
  "read_u32 v = Option.bind (read_u64 v) (\<lambda>n. if unat n < 2 ^ 32 then Some (ucast n) else None)"

definition read_usize :: "json \<Rightarrow> nat option" where
  "read_usize v = map_option unat (read_u64 v)"

fun read_f32 :: "json \<Rightarrow> f32 option" where
  "read_f32 (JNumber (PosInt n)) = Some (f32_of_nat (unat n))"
| "read_f32 (JNumber (NegInt n)) = Some (f32_of_int (sint n))"
| "read_f32 (JNumber (JFloat x)) = Some (f32_of_f64 x)"
| "read_f32 _ = None"

definition read_opt :: "(json \<Rightarrow> 'a option) \<Rightarrow> json \<Rightarrow> 'a option option" where
  "read_opt r v = (if v = JNull then Some None else map_option Some (r v))"

fun read_all :: "(json \<Rightarrow> 'a option) \<Rightarrow> json list \<Rightarrow> 'a list option" where
  "read_all r [] = Some []"
| "read_all r (v # vs) = Option.bind (r v) (\<lambda>x. map_option (Cons x) (read_all r vs))"

fun read_list :: "(json \<Rightarrow> 'a option) \<Rightarrow> json \<Rightarrow> 'a list option" where
  "read_list r (JArray vs) = read_all r vs"
| "read_list r _ = None"

definition required :: "json \<Rightarrow> string \<Rightarrow> (json \<Rightarrow> 'a option) \<Rightarrow> 'a option" where
  "required v key r = Option.bind (json_get v key) r"

definition optional :: "json \<Rightarrow> string \<Rightarrow> (json \<Rightarrow> 'a option) \<Rightarrow> 'a option option" where
  "optional v key r = (case json_get v key of None \<Rightarrow> Some None | Some w \<Rightarrow> read_opt r w)"

text \<open>
  A derived reader takes a struct from an object by name, or from an array by position: a
  field with a default may be missing, and an array may not be longer than the struct.
\<close>

definition struct_fields :: "string list \<Rightarrow> json \<Rightarrow> json option list option" where
  "struct_fields names v =
     (case v of
        JObject kvs \<Rightarrow> Some (map (map_of kvs) names)
      | JArray xs \<Rightarrow> if length xs \<le> length names
          then Some (map Some xs @ replicate (length names - length xs) None) else None
      | _ \<Rightarrow> None)"

text \<open>An optional value: absent and null are both nothing.\<close>

fun optional_value :: "json option \<Rightarrow> json option" where
  "optional_value None = None"
| "optional_value (Some JNull) = None"
| "optional_value (Some v) = Some v"

definition string_field :: "json option \<Rightarrow> string option" where
  "string_field v = Option.bind v json_as_str"

section \<open>Reading records\<close>

definition read_field :: "json \<Rightarrow> FieldMeta option" where
  "read_field v =
     Option.bind (required v ''name'' read_string) (\<lambda>name.
     Option.bind (required v ''column'' read_string) (\<lambda>column.
     Option.bind (required v ''ty'' read_string) (\<lambda>ty.
     Option.bind (required v ''primary'' read_bool) (\<lambda>primary.
     Option.bind (required v ''indexed'' read_bool) (\<lambda>indexed.
     Option.bind (required v ''searchable'' read_bool) (\<lambda>searchable.
     Option.bind (required v ''chunked'' read_bool) (\<lambda>chunked.
     Option.bind (required v ''facet'' read_bool) (\<lambda>facet.
     Option.bind (required v ''optional'' read_bool) (\<lambda>opt.
     Option.bind (optional v ''boost'' read_f32) (\<lambda>boost.
     map_option (\<lambda>pii.
       \<lparr>fm_name = name, fm_column = column, fm_ty = ty, fm_primary = primary, fm_indexed = indexed,
        fm_searchable = searchable, fm_chunked = chunked, fm_facet = facet, fm_optional = opt,
        fm_boost = boost, fm_pii = pii\<rparr>) (optional v ''pii'' read_string)))))))))))"

definition read_kind :: "json \<Rightarrow> RelationKind option" where
  "read_kind v = Option.bind (read_string v) (\<lambda>s.
     if s = ''one'' then Some KindOne else if s = ''many'' then Some KindMany else None)"

definition read_relation :: "json \<Rightarrow> RelationMeta option" where
  "read_relation v =
     Option.bind (required v ''name'' read_string) (\<lambda>name.
     Option.bind (required v ''kind'' read_kind) (\<lambda>kind.
     Option.bind (required v ''target_namespace'' read_string) (\<lambda>tn.
     Option.bind (required v ''target_schema'' read_string) (\<lambda>ts.
     map_option (\<lambda>fk. \<lparr>rm_name = name, rm_kind = kind, rm_target_namespace = tn, rm_target_schema = ts,
        rm_foreign_key = fk\<rparr>) (required v ''foreign_key'' read_string)))))"

fun read_entries :: "(json \<Rightarrow> 'a option) \<Rightarrow> (string \<times> json) list \<Rightarrow> (string \<times> 'a) list option" where
  "read_entries r [] = Some []"
| "read_entries r ((k, v) # kvs) = Option.bind (r v) (\<lambda>x. map_option (Cons (k, x)) (read_entries r kvs))"

fun read_map :: "(json \<Rightarrow> 'a option) \<Rightarrow> json \<Rightarrow> (string \<Rightarrow> 'a option) option" where
  "read_map r (JObject kvs) = map_option map_of (read_entries r kvs)"
| "read_map r _ = None"

text \<open>The enums are tagged by \<open>kind\<close>.\<close>

definition read_chunking :: "json \<Rightarrow> ChunkingStrategy option" where
  "read_chunking v = Option.bind (required v ''kind'' read_string) (\<lambda>kind.
     if kind = ''semantic'' then
       Option.bind (required v ''max_tokens'' read_usize) (\<lambda>m.
         case json_get v ''overlap'' of
           None \<Rightarrow> Some (Semantic m 0)
         | Some w \<Rightarrow> map_option (Semantic m) (read_usize w))
     else if kind = ''fixed'' then map_option Fixed (required v ''size'' read_usize)
     else if kind = ''recursive'' then
       Option.bind (required v ''split'' (read_list read_string)) (\<lambda>seps.
         map_option (Recursive seps) (required v ''max_tokens'' read_usize))
     else None)"

definition read_decay :: "json \<Rightarrow> FreshnessDecay option" where
  "read_decay v = Option.bind (required v ''kind'' read_string) (\<lambda>kind.
     if kind = ''none'' then Some FreshNone
     else if kind = ''exponential'' then map_option Exponential (required v ''half_life_secs'' read_u64)
     else if kind = ''linear'' then map_option Linear (required v ''window_secs'' read_u64)
     else if kind = ''step'' then
       Option.bind (required v ''cliffs'' (read_list read_u64)) (\<lambda>cs.
         map_option (Step cs) (required v ''factors'' (read_list read_f32)))
     else None)"

definition read_context :: "json \<Rightarrow> ContextMeta option" where
  "read_context v =
     Option.bind (required v ''embedder'' read_string) (\<lambda>embedder.
     Option.bind (required v ''vector_dims'' read_usize) (\<lambda>dims.
     Option.bind (required v ''chunking'' read_chunking) (\<lambda>chunking.
     Option.bind (case json_get v ''freshness_decay'' of None \<Rightarrow> Some FreshNone | Some w \<Rightarrow> read_decay w) (\<lambda>decay.
     map_option (\<lambda>k. \<lparr>cm_embedder = embedder, cm_vector_dims = dims, cm_chunking = chunking,
        cm_freshness_decay = decay, cm_default_top_k = k\<rparr>) (optional v ''default_top_k'' read_usize)))))"

definition read_schema_meta :: "json \<Rightarrow> SchemaMeta option" where
  "read_schema_meta v =
     Option.bind (required v ''namespace'' read_string) (\<lambda>namespace.
     Option.bind (required v ''name'' read_string) (\<lambda>name.
     Option.bind (required v ''version'' read_u32) (\<lambda>version.
     Option.bind (required v ''primary_key'' read_string) (\<lambda>pk.
     Option.bind (required v ''fields'' (read_list read_field)) (\<lambda>fs.
     Option.bind (required v ''relations'' (read_map read_relation)) (\<lambda>rels.
     Option.bind (required v ''facets'' (read_list read_string)) (\<lambda>facets.
     Option.bind (required v ''chunked_fields'' (read_list read_string)) (\<lambda>chunked.
     Option.bind (required v ''context'' read_context) (\<lambda>context.
     Option.bind (required v ''collection'' read_string) (\<lambda>collection.
     Option.bind (required v ''table'' read_string) (\<lambda>table.
     map_option (\<lambda>alpha.
       \<lparr>sm_namespace = namespace, sm_name = name, sm_version = version, sm_primary_key = pk, sm_fields = fs,
        sm_relations = rels, sm_facets = facets, sm_chunked_fields = chunked, sm_context = context,
        sm_collection = collection, sm_table = table, sm_hybrid_alpha = alpha\<rparr>)
     (optional v ''hybrid_alpha'' read_f32))))))))))))"

section \<open>What the compiler means\<close>

text \<open>A number that JSON cannot carry is dropped.\<close>

definition finite_f32 :: "f64 option \<Rightarrow> f32 option" where
  "finite_f32 x = Option.bind x (\<lambda>v. if f64_is_nan v \<or> f64_mag v = f64_inf_mag then None else Some (f32_of_f64 v))"

definition field_of :: "field_decl \<Rightarrow> FieldMeta" where
  "field_of f = \<lparr>fm_name = field_name f, fm_column = to_snake (field_name f),
     fm_ty = render_type_expr (field_ty f), fm_primary = has_decorator ''primary'' f,
     fm_indexed = has_decorator ''indexed'' f, fm_searchable = has_decorator ''searchable'' f,
     fm_chunked = has_decorator ''chunked'' f, fm_facet = has_decorator ''facet'' f,
     fm_optional = is_optional (field_ty f), fm_boost = finite_f32 (boost_value f), fm_pii = pii_value f\<rparr>"

definition relation_of :: "string \<Rightarrow> relation_decl \<Rightarrow> RelationMeta" where
  "relation_of namespace r = \<lparr>rm_name = rel_name r,
     rm_kind = (case rel_cardinality r of COne \<Rightarrow> KindOne | CMany \<Rightarrow> KindMany),
     rm_target_namespace = fst (relation_target namespace r), rm_target_schema = snd (relation_target namespace r),
     rm_foreign_key = joined (rel_via r)\<rparr>"

lemma read_all_map: "(\<And>x. x \<in> set xs \<Longrightarrow> r (f x) = Some (g x)) \<Longrightarrow> read_all r (map f xs) = Some (map g xs)"
  by (induction xs) simp_all

lemma read_all_strings [simp]: "read_all read_string (map (\<lambda>x. JString (f x)) xs) = Some (map f xs)"
  by (rule read_all_map) simp

lemma read_opt_f64: "read_opt read_f32 (json_opt json_f64 x) = Some (finite_f32 x)"
  by (cases x) (simp_all add: read_opt_def json_opt_def json_f64_def finite_f32_def)

lemma read_opt_string: "read_opt read_string (json_opt JString x) = Some x"
  by (cases x) (simp_all add: read_opt_def json_opt_def)

lemma read_field_meta: "read_field (field_meta f) = Some (field_of f)"
  by (simp add: read_field_def field_meta_def field_of_def required_def optional_def read_opt_f64 read_opt_string)

lemma read_relation_meta: "read_relation (relation_meta ns r) = Some (relation_of ns r)"
  by (cases "rel_cardinality r")
    (simp_all add: read_relation_def relation_meta_def relation_of_def required_def read_kind_def split: prod.split)

section \<open>The context block, read\<close>

text \<open>Chunk sizes that the registry can read: none of the integers taken is negative.\<close>

definition nonneg_arg :: "i64 option \<Rightarrow> bool" where
  "nonneg_arg n = (case n of None \<Rightarrow> True | Some k \<Rightarrow> \<not> k <s 0)"

definition nonneg_chunking :: "context_stmt \<Rightarrow> bool" where
  "nonneg_chunking st =
     (ctx_key st \<noteq> ''chunking''
      \<or> (case ctx_value st of
           ECall name args _ \<Rightarrow>
             if joined name = ''semantic'' then nonneg_arg (nth_int args 0) \<and> nonneg_arg (nth_int args 1)
             else joined name = ''fixed'' \<longrightarrow> nonneg_arg (nth_int args 0)
         | _ \<Rightarrow> True))"

definition readable :: "ContextVars \<Rightarrow> bool" where
  "readable v \<longleftrightarrow> read_chunking (cv_chunking v) \<noteq> None \<and> read_decay (cv_freshness_decay v) \<noteq> None"

lemma read_usize_i64: "\<not> n <s 0 \<Longrightarrow> read_usize (json_i64 n) = Some (unat n)"
  by (simp add: read_usize_def json_i64_def)

lemma nonneg_or: "nonneg_arg n \<Longrightarrow> \<not> d <s 0 \<Longrightarrow> \<not> option_or n d <s 0"
  by (simp add: nonneg_arg_def option_or_def split: option.splits)

lemma defaults_nonneg: "\<not> (512 :: i64) <s 0" "\<not> (64 :: i64) <s 0" "\<not> (1024 :: i64) <s 0"
  by (simp_all add: word_sless_alt)

lemma chunking_readable:
  "nonneg_chunking st \<Longrightarrow> ctx_key st = ''chunking'' \<Longrightarrow> chunking_to_json (ctx_value st) = Some j \<Longrightarrow> read_chunking j \<noteq> None"
  by (auto simp: nonneg_chunking_def chunking_to_json_def read_chunking_def required_def semantic_json_def
      read_usize_i64 nonneg_or defaults_nonneg split: expr.splits if_splits)

lemma decay_readable: "decay_to_json e = Some j \<Longrightarrow> read_decay j \<noteq> None"
  by (auto simp: decay_to_json_def read_decay_def required_def json_u64_def split: expr.splits if_splits)

lemma readable_step: "nonneg_chunking st \<Longrightarrow> readable v \<Longrightarrow> readable (context_stmt_step st v)"
proof -
  assume st: "nonneg_chunking st" and v: "readable v"
  have "read_chunking (option_or (chunking_to_json (ctx_value st)) (cv_chunking v)) \<noteq> None" if "ctx_key st = ''chunking''"
    using chunking_readable [OF st that] v
    by (cases "chunking_to_json (ctx_value st)") (auto simp: option_or_def readable_def)
  moreover have "read_decay (option_or (decay_to_json (ctx_value st)) (cv_freshness_decay v)) \<noteq> None"
    using decay_readable [of "ctx_value st"] v
    by (cases "decay_to_json (ctx_value st)") (auto simp: option_or_def readable_def)
  ultimately show ?thesis
    using v by (auto simp: context_stmt_step_def Let_def readable_def split: option.split)
qed

lemma readable_init: "readable context_init"
  by (simp add: readable_def context_init_def read_chunking_def read_decay_def required_def semantic_json_def
      json_u64_def read_usize_def)

lemma context_readable: "list_all nonneg_chunking (context_stmts s) \<Longrightarrow> readable (context_vars s)"
proof -
  have "list_all nonneg_chunking sts \<Longrightarrow> readable v \<Longrightarrow> readable (fold context_stmt_step sts v)" for sts v
    by (induction sts arbitrary: v) (simp_all add: readable_step)
  then show "list_all nonneg_chunking (context_stmts s) \<Longrightarrow> ?thesis"
    using readable_init by (simp add: context_vars_def)
qed

definition context_is :: "ContextVars \<Rightarrow> ContextMeta \<Rightarrow> bool" where
  "context_is v c \<longleftrightarrow> cm_embedder c = cv_embedder v \<and> cm_vector_dims c = unat (cv_vector_dims v)
     \<and> cm_default_top_k c = map_option unat (cv_default_top_k v)
     \<and> read_chunking (cv_chunking v) = Some (cm_chunking c)
     \<and> read_decay (cv_freshness_decay v) = Some (cm_freshness_decay c)"

lemma read_context_meta:
  assumes "readable (context_vars s)"
  shows "\<exists>c. read_context (emit_context_meta s) = Some c \<and> context_is (context_vars s) c"
proof -
  have "read_opt read_usize (json_opt json_u64 k) = Some (map_option unat k)" for k
    by (cases k) (simp_all add: read_opt_def json_opt_def json_u64_def read_usize_def)
  with assms show ?thesis
    by (auto simp: readable_def read_context_def emit_context_meta_def required_def optional_def context_is_def
        json_u64_def read_usize_def Let_def)
qed

section \<open>Relations, read\<close>

definition relation_named :: "schema_decl \<Rightarrow> string \<Rightarrow> relation_decl option" where
  "relation_named s = fold (\<lambda>r m. m(rel_name r \<mapsto> r)) (schema_relations s) Map.empty"

lemma map_of_object_insert [simp]: "map_of (object_insert k v m) = (map_of m)(k \<mapsto> v)"
  by (induction m) auto

lemma set_object_insert: "snd ` set (object_insert k v m) \<subseteq> insert v (snd ` set m)"
  by (induction m) (force split: if_splits)+

lemma relations_object:
  "(\<And>k. map_of kvs k = map_option (relation_meta ns) (M k)) \<Longrightarrow>
   map_of (fold (\<lambda>r m. object_insert (rel_name r) (relation_meta ns r) m) rels kvs) k
     = map_option (relation_meta ns) (fold (\<lambda>r m. m(rel_name r \<mapsto> r)) rels M k)"
  by (induction rels arbitrary: kvs M) simp_all

lemma relations_values:
  "snd ` set (fold (\<lambda>r m. object_insert (rel_name r) (relation_meta ns r) m) rels kvs)
     \<subseteq> relation_meta ns ` set rels \<union> snd ` set kvs"
proof (induction rels arbitrary: kvs)
  case (Cons r rels)
  from Cons.IH [of "object_insert (rel_name r) (relation_meta ns r) kvs"]
  show ?case using set_object_insert [of "rel_name r" "relation_meta ns r" kvs] by auto
qed simp

lemma read_entries_map:
  "(\<And>v. v \<in> snd ` set kvs \<Longrightarrow> r v = Some (g v)) \<Longrightarrow> read_entries r kvs = Some (map (\<lambda>(k, v). (k, g v)) kvs)"
  by (induction kvs) auto

lemma read_relations:
  "read_map read_relation (JObject (fold (\<lambda>r m. object_insert (rel_name r) (relation_meta ns r) m) (schema_relations s) []))
     = Some (map_option (relation_of ns) \<circ> relation_named s)"
proof -
  let ?kvs = "fold (\<lambda>r m. object_insert (rel_name r) (relation_meta ns r) m) (schema_relations s) []"
  define g where "g v = the (read_relation v)" for v
  have g: "g (relation_meta ns r) = relation_of ns r" for r by (simp add: g_def read_relation_meta)
  have "read_relation v = Some (g v)" if "v \<in> snd ` set ?kvs" for v
    using that relations_values [of ns "schema_relations s" "[]"] by (auto simp: g read_relation_meta)
  then have "read_entries read_relation ?kvs = Some (map (\<lambda>(k, v). (k, g v)) ?kvs)"
    by (rule read_entries_map)
  moreover have "map_of (map (\<lambda>(k, v). (k, g v)) ?kvs) k = map_option (relation_of ns) (relation_named s k)" for k
    using relations_object [of "[]" ns Map.empty "schema_relations s" k]
    by (simp add: map_of_map relation_named_def option.map_comp comp_def g)
  ultimately show ?thesis by (simp add: comp_def fun_eq_iff)
qed

section \<open>The metadata, read\<close>

definition registry_entry :: "typed_file \<Rightarrow> schema_decl \<Rightarrow> ContextMeta \<Rightarrow> SchemaMeta" where
  "registry_entry tf s c =
     (let namespace = default_namespace (tf_namespace tf)
      in \<lparr>sm_namespace = namespace, sm_name = schema_name s, sm_version = schema_version_or_1 s,
          sm_primary_key = primary_key_of s, sm_fields = map field_of (schema_fields s),
          sm_relations = map_option (relation_of namespace) \<circ> relation_named s,
          sm_facets = map field_name (filter (has_decorator ''facet'') (schema_fields s)),
          sm_chunked_fields = map field_name (filter (has_decorator ''chunked'') (schema_fields s)),
          sm_context = c, sm_collection = collection_name s, sm_table = to_snake (schema_name s),
          sm_hybrid_alpha = finite_f32 (schema_level_hybrid_alpha s)\<rparr>)"


definition context_sample :: schema_decl where
  "context_sample = (sample_schema ''Doc''
     [sample_field ''id'' (TPrimitive PUlid (span_new 0 0)) [''primary''],
      sample_field ''authorId'' (TRef ''User'' (span_new 0 0)) [''facet'']] None)
     \<lparr>schema_context := Some \<lparr>ctx_stmts =
        [\<lparr>ctx_key = ''chunking'', ctx_value = ECall (sample_path [''semantic'']) [ELiteral (LInteger 256) (span_new 0 0)] (span_new 0 0),
          ctx_span = span_new 0 0\<rparr>,
         \<lparr>ctx_key = ''freshness_decay'',
          ctx_value = ECall (sample_path [''linear'']) [ELiteral (LDuration 2 DuH) (span_new 0 0)] (span_new 0 0),
          ctx_span = span_new 0 0\<rparr>],
       ctx_block_span = span_new 0 0\<rparr>,
      schema_relations := [\<lparr>rel_name = ''comments'', rel_cardinality = CMany, rel_target = ''crm.Comment'',
         rel_via = sample_path [''doc''], rel_on_delete = None, rel_span = span_new 0 0\<rparr>]\<rparr>"

definition context_file :: typed_file where
  "context_file = \<lparr>tf_namespace = [], tf_filename = None, tf_source = [],
     tf_schemas = [], tf_enums = [], tf_decl_order = []\<rparr>"

lemma context_sample_chunking:
  "list_all nonneg_chunking (context_stmts context_sample)"
  "read_chunking (cv_chunking (context_vars context_sample)) = Some (Semantic 256 64)"
  "read_decay (cv_freshness_decay (context_vars context_sample)) = Some (Linear 7200)"
  by code_simp+


text \<open>A negative chunk size is written as it is, and the document no longer loads.\<close>

lemma negative_chunking_unreadable:
  "read_chunking (semantic_json (json_i64 (- 1)) (json_i64 64)) = None"
  by code_simp

end
