(* ===== verification/Csl_Rust.thy ===== *)
theory Csl_Rust
  imports Csl_Names
begin

text \<open>
  The Rust generator (\<open>sealstack-csl/src/codegen/rust.rs\<close>): one module per namespace with the
  enums sorted by name and a struct with its constants per schema.
\<close>

section \<open>Types\<close>

fun rust_primitive :: "primitive_type \<Rightarrow> string" where
  "rust_primitive PString = ''String''"
| "rust_primitive PText = ''String''"
| "rust_primitive PUlid = ''String''"
| "rust_primitive PUuid = ''String''"
| "rust_primitive PI32 = ''i32''"
| "rust_primitive PI64 = ''i64''"
| "rust_primitive PF32 = ''f32''"
| "rust_primitive PF64 = ''f64''"
| "rust_primitive PBool = ''bool''"
| "rust_primitive PInstant = ''String''"
| "rust_primitive PDuration = ''String''"
| "rust_primitive PJson = ''serde_json::Value''"

fun rust_field_type :: "type_expr \<Rightarrow> string" where
  "rust_field_type (TPrimitive p _) = rust_primitive p"
| "rust_field_type (TRef _ _) = ''String''"
| "rust_field_type (TNamed name _) = name"
| "rust_field_type (TOptional inner _) = ''Option<'' @ rust_field_type inner @ ''>''"
| "rust_field_type (TList inner _) = ''Vec<'' @ rust_field_type inner @ ''>''"
| "rust_field_type (TMap k v _) =
     ''std::collections::HashMap<'' @ rust_field_type k @ '', '' @ rust_field_type v @ ''>''"
| "rust_field_type (TVector _ _) = ''/* vector - skipped */''"

definition namespace_module_name :: "string \<Rightarrow> string" where
  "namespace_module_name namespace = (if namespace = [] then ''default'' else replace_char (CHR ''.'') ''_'' namespace)"

section \<open>Header, enums and constants\<close>

definition rust_file_header :: string where
  "rust_file_header =
     ''//! Generated by `sealstack compile`. Do not edit by hand.'' @ nl
     @ ''//!'' @ nl
     @ ''//! CSL namespaces with dots are flattened to snake_case modules:'' @ nl
     @ ''//! `acme.crm` -> `acme_crm`. This trades nested-module structure for'' @ nl
     @ ''//! shorter paths in compile errors consumers will actually read.'' @ nl
     @ nl
     @ ''#![allow(clippy::pedantic, clippy::nursery)]'' @ nl
     @ ''#![allow(dead_code)]'' @ nl
     @ nl"

definition rust_derive :: string where
  "rust_derive = ''    #[derive(Clone, Debug, PartialEq, Serialize, Deserialize)]'' @ nl"

text \<open>Backslashes and double quotes are escaped, in this order.\<close>

definition escape_dq :: "string \<Rightarrow> string" where
  "escape_dq s = replace_char (hd dq) (bslash @ dq) (replace_char (hd bslash) (bslash @ bslash) s)"

definition rust_variant :: "enum_variant \<Rightarrow> string" where
  "rust_variant v = ''        #[serde(rename = '' @ dq @ escape_dq (wire_of v) @ dq @ '')] '' @ variant_name v @ '','' @ nl"

definition rust_enum :: "enum_decl \<Rightarrow> string" where
  "rust_enum en = rust_derive @ ''    pub enum '' @ enum_name en @ '' {'' @ nl
     @ concat (map rust_variant (enum_variants en)) @ ''    }'' @ nl"

definition rust_const :: "string \<Rightarrow> string \<Rightarrow> string" where
  "rust_const name literal = ''        pub const '' @ name @ '' = '' @ literal @ '';'' @ nl"

definition rust_relation :: "relation_decl \<Rightarrow> string" where
  "rust_relation r =
     ''        pub const RELATION_'' @ ascii_uppercase (rel_name r) @ '': (&''
     @ sq @ ''static str, &'' @ sq @ ''static str) = ('' @ dq @ rel_target r @ dq @ '', '' @ dq @ foreign_key r @ dq @ '');'' @ nl"

definition str_const :: "string \<Rightarrow> string" where
  "str_const name = name @ ''&'' @ sq @ ''static str''"

definition rust_schema_impl :: "schema_decl \<Rightarrow> string \<Rightarrow> string" where
  "rust_schema_impl s namespace =
     ''    impl '' @ schema_name s @ '' {'' @ nl
     @ rust_const (str_const ''NAMESPACE:   '') (dq @ default_namespace namespace @ dq)
     @ rust_const (str_const ''SCHEMA:      '') (dq @ schema_name s @ dq)
     @ rust_const (str_const ''TABLE:       '') (dq @ to_snake (schema_name s) @ dq)
     @ rust_const ''VERSION:     u32         '' (show_word (schema_version_or_1 s))
     @ rust_const (str_const ''PRIMARY_KEY: '') (dq @ primary_name s @ dq)
     @ concat (map rust_relation (schema_relations s))
     @ ''    }'' @ nl"

section \<open>Structs\<close>

definition is_string_type :: "type_expr \<Rightarrow> bool" where
  "is_string_type ty = (case ty of TPrimitive PString _ \<Rightarrow> True | TPrimitive PText _ \<Rightarrow> True | _ \<Rightarrow> False)"

definition tenant_error :: "schema_decl \<Rightarrow> string \<Rightarrow> csl_error" where
  "tenant_error s target =
     Codegen (''schema `'' @ schema_name s
       @ ''` declares `tenant` field with non-String type; the tenant column is always `text` in SQL and the ''
       @ target)"

text \<open>One field: nothing for a vector, an error for a tenant that is not a string.\<close>

definition rust_field :: "schema_decl \<Rightarrow> field_decl \<Rightarrow> csl_error + string" where
  "rust_field s f =
     (case field_ty f of
        TVector _ _ \<Rightarrow> Inr []
      | ty \<Rightarrow>
          if field_name f = ''tenant'' \<and> \<not> is_string_type ty
          then Inl (tenant_error s ''Rust struct must match'')
          else Inr ((if is_optional ty
                     then ''        #[serde(default, skip_serializing_if = '' @ dq @ ''Option::is_none'' @ dq @ '')]'' @ nl
                     else [])
                    @ ''        pub '' @ field_name f @ '': '' @ rust_field_type ty @ '','' @ nl))"

text \<open>A tenant field that is a vector is skipped before it counts.\<close>

definition emits_tenant :: "(type_expr \<Rightarrow> bool) \<Rightarrow> schema_decl \<Rightarrow> bool" where
  "emits_tenant skipped s = list_ex (\<lambda>f. \<not> skipped (field_ty f) \<and> field_name f = ''tenant'') (schema_fields s)"

definition is_vector :: "type_expr \<Rightarrow> bool" where
  "is_vector ty = (case ty of TVector _ _ \<Rightarrow> True | _ \<Rightarrow> False)"

definition rust_schema :: "schema_decl \<Rightarrow> string \<Rightarrow> csl_error + string" where
  "rust_schema s namespace = bindR (mapR (rust_field s) (schema_fields s)) (\<lambda>fields.
     Inr (rust_derive @ ''    pub struct '' @ schema_name s @ '' {'' @ nl
          @ concat fields
          @ (if emits_tenant is_vector s then [] else ''        pub tenant: String,'' @ nl)
          @ ''    }'' @ nl @ nl
          @ rust_schema_impl s namespace))"

definition rust_namespace_module :: "typed_file \<Rightarrow> csl_error + string" where
  "rust_namespace_module tf =
     bindR (mapR (\<lambda>s. rust_schema (ts_decl s) (tf_namespace tf)) (ordered_schemas tf)) (\<lambda>schemas.
       Inr (''pub mod '' @ namespace_module_name (tf_namespace tf) @ '' {'' @ nl
            @ ''    use serde::{Deserialize, Serialize};'' @ nl @ nl
            @ concat (map (\<lambda>en. rust_enum en @ nl) (sorted_enums tf))
            @ concat (map (\<lambda>t. t @ nl) schemas)
            @ ''}'' @ nl))"

definition emit_rust :: "typed_file \<Rightarrow> csl_error + string" where
  "emit_rust tf = bindR (rust_namespace_module tf) (\<lambda>m. Inr (rust_file_header @ m))"

text \<open>An optional vector is not skipped, and renders as a type that is no Rust.\<close>

lemma optional_vector_rendered:
  "rust_field_type (TOptional (TVector n sp) sp) = ''Option</* vector - skipped */>''"
  by simp

end
