(* ===== verification/Csl_Typescript.thy ===== *)
theory Csl_Typescript
  imports Csl_Rust
begin

text \<open>
  The TypeScript generator (\<open>sealstack-csl/src/codegen/typescript.rs\<close>): enums as unions of
  literals, an interface and a metadata constant per schema.
\<close>

definition ts_file_header :: string where
  "ts_file_header =
     ''// Generated by `sealstack compile`. Do not edit.'' @ nl
     @ ''/* eslint-disable */'' @ nl @ ''/* tslint:disable */'' @ nl @ nl"

fun ts_primitive :: "primitive_type \<Rightarrow> string" where
  "ts_primitive PString = ''string''"
| "ts_primitive PText = ''string''"
| "ts_primitive PUlid = ''string''"
| "ts_primitive PUuid = ''string''"
| "ts_primitive PI32 = ''number''"
| "ts_primitive PI64 = ''number''"
| "ts_primitive PF32 = ''number''"
| "ts_primitive PF64 = ''number''"
| "ts_primitive PBool = ''boolean''"
| "ts_primitive PInstant = ''string''"
| "ts_primitive PDuration = ''string''"
| "ts_primitive PJson = ''unknown''"

definition vector_reached :: csl_error where
  "vector_reached = Codegen (''Vector<N> reached render_field_type; callers must filter vector fields before ''
     @ ''rendering them (see emit_schema'' @ sq @ ''s is_vector guard)'')"

definition map_unsupported :: "string \<Rightarrow> csl_error" where
  "map_unsupported target = Codegen (''Map<K, V> fields are not supported in '' @ target
     @ '' codegen (type checker should have rejected this)'')"

fun ts_field_type :: "type_expr \<Rightarrow> csl_error + string" where
  "ts_field_type (TPrimitive p _) = Inr (ts_primitive p)"
| "ts_field_type (TRef _ _) = Inr ''string''"
| "ts_field_type (TNamed name _) = Inr name"
| "ts_field_type (TOptional inner _) = ts_field_type inner"
| "ts_field_type (TList inner _) = bindR (ts_field_type inner) (\<lambda>t. Inr (t @ ''[]''))"
| "ts_field_type (TVector _ _) = Inl vector_reached"
| "ts_field_type (TMap _ _ _) = Inl (map_unsupported ''TypeScript'')"

fun is_i64 :: "type_expr \<Rightarrow> bool" where
  "is_i64 (TPrimitive PI64 _) = True"
| "is_i64 (TOptional inner _) = is_i64 inner"
| "is_i64 _ = False"

text \<open>Backslashes and single quotes are escaped.\<close>

definition escape_sq :: "string \<Rightarrow> string" where
  "escape_sq s = replace_char (hd sq) (bslash @ sq) (replace_char (hd bslash) (bslash @ bslash) s)"

definition ts_literal :: "string \<Rightarrow> string" where
  "ts_literal s = sq @ escape_sq s @ sq"

definition ts_enum :: "enum_decl \<Rightarrow> string" where
  "ts_enum en = ''export type '' @ enum_name en @ '' = ''
     @ join_with '' | '' (map (\<lambda>v. ts_literal (wire_of v)) (enum_variants en)) @ '';'' @ nl"

section \<open>Metadata\<close>

definition ts_relation :: "relation_decl \<Rightarrow> string" where
  "ts_relation r = ''    '' @ rel_name r @ '': { target: '' @ ts_literal (rel_target r) @ '', fk: ''
     @ ts_literal (foreign_key r) @ '' },'' @ nl"

definition ts_schema_meta :: "schema_decl \<Rightarrow> string \<Rightarrow> string" where
  "ts_schema_meta s namespace =
     ''export const '' @ schema_name s @ ''Meta = {'' @ nl
     @ ''  NAMESPACE: '' @ ts_literal (default_namespace namespace) @ '','' @ nl
     @ ''  SCHEMA: '' @ ts_literal (schema_name s) @ '','' @ nl
     @ ''  TABLE: '' @ ts_literal (to_snake (schema_name s)) @ '','' @ nl
     @ ''  VERSION: '' @ show_word (schema_version_or_1 s) @ '','' @ nl
     @ ''  PRIMARY_KEY: '' @ ts_literal (primary_name s) @ '','' @ nl
     @ ''  RELATIONS: {''
     @ (if schema_relations s = [] then ''},'' @ nl
        else nl @ concat (map ts_relation (schema_relations s)) @ ''  },'' @ nl)
     @ ''} as const;'' @ nl"

section \<open>Interfaces\<close>

text \<open>A vector, bare or optional, is not on the record.\<close>

definition is_vector_or_optional :: "type_expr \<Rightarrow> bool" where
  "is_vector_or_optional ty =
     (case ty of TVector _ _ \<Rightarrow> True | TOptional inner _ \<Rightarrow> is_vector inner | _ \<Rightarrow> False)"

definition ts_field :: "schema_decl \<Rightarrow> field_decl \<Rightarrow> csl_error + string" where
  "ts_field s f =
     (let ty = field_ty f
      in if is_vector_or_optional ty then Inr []
         else if field_name f = ''tenant'' \<and> \<not> is_string_type ty
         then Inl (tenant_error s (''TypeScript interface must match (see spec '' @ byte_str [0xC2, 0xA7] @ ''6)''))
         else bindR (ts_field_type ty) (\<lambda>ty_str.
           Inr ((if is_i64 ty then ''  /** CSL I64; values above 2^53 lose precision. */'' @ nl else [])
                @ ''  '' @ field_name f @ (if is_optional ty then ''?'' else []) @ '': '' @ ty_str @ '';'' @ nl)))"

definition ts_schema :: "schema_decl \<Rightarrow> csl_error + string" where
  "ts_schema s = bindR (mapR (ts_field s) (schema_fields s)) (\<lambda>fields.
     Inr (''export interface '' @ schema_name s @ '' {'' @ nl
          @ concat fields
          @ (if emits_tenant is_vector_or_optional s then [] else ''  tenant: string;'' @ nl)
          @ ''}'' @ nl))"

definition emit_typescript :: "typed_file \<Rightarrow> csl_error + string" where
  "emit_typescript tf =
     bindR (mapR (\<lambda>s. bindR (ts_schema (ts_decl s)) (\<lambda>i.
              Inr (i @ nl @ ts_schema_meta (ts_decl s) (tf_namespace tf) @ nl))) (ordered_schemas tf)) (\<lambda>schemas.
       Inr (ts_file_header @ concat (map ts_enum (sorted_enums tf))
            @ (if tf_enums tf \<noteq> [] then nl else []) @ concat schemas))"

end
