(* ===== verification/Csl_Python.thy ===== *)
theory Csl_Python
  imports Csl_Typescript
begin

text \<open>
  The Python generator (\<open>sealstack-csl/src/codegen/python.rs\<close>): a \<open>TypedDict\<close> per schema, in
  class form or, when a field is named like a keyword, in functional form, with a metadata
  constant, and a \<open>Literal\<close> per enum.
\<close>

definition py_file_header :: string where
  "py_file_header =
     ''# Generated by `sealstack compile`. Do not edit.'' @ nl @ ''# ruff: noqa'' @ nl @ nl
     @ ''from typing import Any, Final, Literal, NotRequired, TypedDict'' @ nl @ nl"

fun py_primitive :: "primitive_type \<Rightarrow> string" where
  "py_primitive PString = ''str''"
| "py_primitive PText = ''str''"
| "py_primitive PUlid = ''str''"
| "py_primitive PUuid = ''str''"
| "py_primitive PI32 = ''int''"
| "py_primitive PI64 = ''int''"
| "py_primitive PF32 = ''float''"
| "py_primitive PF64 = ''float''"
| "py_primitive PBool = ''bool''"
| "py_primitive PInstant = ''str''"
| "py_primitive PDuration = ''str''"
| "py_primitive PJson = ''Any''"

fun py_field_type :: "type_expr \<Rightarrow> bool \<Rightarrow> csl_error + string" where
  "py_field_type (TPrimitive p _) opt = Inr (py_primitive p)"
| "py_field_type (TRef _ _) opt = Inr ''str''"
| "py_field_type (TNamed name _) opt = Inr name"
| "py_field_type (TOptional inner _) opt = bindR (py_field_type inner False) (\<lambda>inner_str.
     Inr (if opt then ''NotRequired['' @ inner_str @ '']'' else inner_str))"
| "py_field_type (TList inner _) opt = bindR (py_field_type inner False) (\<lambda>t. Inr (''list['' @ t @ '']''))"
| "py_field_type (TVector _ _) opt = Inl vector_reached"
| "py_field_type (TMap _ _ _) opt = Inl (map_unsupported ''Python'')"

definition py_literal :: "string \<Rightarrow> string" where
  "py_literal s = dq @ escape_dq s @ dq"

definition py_enum :: "enum_decl \<Rightarrow> string" where
  "py_enum en = enum_name en @ '' = Literal[''
     @ join_with '', '' (map (\<lambda>v. py_literal (wire_of v)) (enum_variants en)) @ '']'' @ nl"

definition python_keywords :: "string list" where
  "python_keywords =
     [''False'', ''None'', ''True'', ''and'', ''as'', ''assert'', ''async'', ''await'', ''break'', ''class'',
      ''continue'', ''def'', ''del'', ''elif'', ''else'', ''except'', ''finally'', ''for'', ''from'', ''global'',
      ''if'', ''import'', ''in'', ''is'', ''lambda'', ''nonlocal'', ''not'', ''or'', ''pass'', ''raise'', ''return'',
      ''try'', ''while'', ''with'', ''yield'', ''match'', ''case'']"

definition is_python_keyword :: "string \<Rightarrow> bool" where
  "is_python_keyword name \<longleftrightarrow> name \<in> set python_keywords"

definition needs_functional_syntax :: "schema_decl \<Rightarrow> bool" where
  "needs_functional_syntax s = list_ex (\<lambda>f. is_python_keyword (field_name f)) (schema_fields s)"

section \<open>Typed dictionaries\<close>

text \<open>The loop the two forms share; \<open>line\<close> writes one field.\<close>

definition py_field :: "(string \<Rightarrow> string \<Rightarrow> string) \<Rightarrow> schema_decl \<Rightarrow> field_decl \<Rightarrow> csl_error + string" where
  "py_field line s f =
     (let ty = field_ty f
      in if is_vector_or_optional ty then Inr []
         else if field_name f = ''tenant'' \<and> \<not> is_string_type ty
         then Inl (tenant_error s (''Python TypedDict must match (see spec '' @ byte_str [0xC2, 0xA7] @ ''6)''))
         else bindR (py_field_type ty (is_optional ty)) (\<lambda>ty_str. Inr (line (field_name f) ty_str)))"

definition py_functional_line :: "string \<Rightarrow> string \<Rightarrow> string" where
  "py_functional_line name ty = ''        '' @ py_literal name @ '': '' @ ty @ '','' @ nl"

definition py_class_line :: "string \<Rightarrow> string \<Rightarrow> string" where
  "py_class_line name ty = ''    '' @ name @ '': '' @ ty @ nl"

definition py_schema_functional_form :: "schema_decl \<Rightarrow> csl_error + string" where
  "py_schema_functional_form s = bindR (mapR (py_field py_functional_line s) (schema_fields s)) (\<lambda>fields.
     Inr (schema_name s @ '' = TypedDict('' @ nl @ ''    '' @ dq @ schema_name s @ dq @ '','' @ nl @ ''    {'' @ nl
          @ concat fields
          @ (if emits_tenant is_vector_or_optional s then [] else ''        '' @ dq @ ''tenant'' @ dq @ '': str,'' @ nl)
          @ ''    },'' @ nl @ '')'' @ nl @ nl))"

text \<open>
  A class body is never empty: without a tenant field one is added, so the \<open>pass\<close> of the
  code is written only when no field and no tenant was.
\<close>

definition py_schema_class_form :: "schema_decl \<Rightarrow> csl_error + string" where
  "py_schema_class_form s = bindR (mapR (py_field py_class_line s) (schema_fields s)) (\<lambda>fields.
     let emitted_tenant = emits_tenant is_vector_or_optional s;
         emitted_any_field = list_ex (\<lambda>f. \<not> is_vector_or_optional (field_ty f)) (schema_fields s) \<or> \<not> emitted_tenant
     in Inr (''class '' @ schema_name s @ ''(TypedDict):'' @ nl
          @ concat fields
          @ (if emitted_tenant then [] else ''    tenant: str'' @ nl)
          @ (if emitted_any_field then [] else ''    pass'' @ nl)
          @ nl))"

definition py_schema :: "schema_decl \<Rightarrow> csl_error + string" where
  "py_schema s = (if needs_functional_syntax s then py_schema_functional_form s else py_schema_class_form s)"

section \<open>Metadata\<close>

definition schema_meta_name :: "unicode \<Rightarrow> string \<Rightarrow> string" where
  "schema_meta_name U schema = to_uppercase U (to_snake schema) @ ''_META''"

definition py_entry :: "string \<Rightarrow> string \<Rightarrow> string" where
  "py_entry key literal = ''    '' @ dq @ key @ dq @ '': '' @ literal @ '','' @ nl"

definition py_relation :: "relation_decl \<Rightarrow> string" where
  "py_relation r = ''        '' @ py_literal (rel_name r) @ '': {'' @ dq @ ''target'' @ dq @ '': '' @ py_literal (rel_target r)
     @ '', '' @ dq @ ''fk'' @ dq @ '': '' @ py_literal (foreign_key r) @ ''},'' @ nl"

definition py_schema_meta :: "unicode \<Rightarrow> schema_decl \<Rightarrow> string \<Rightarrow> string" where
  "py_schema_meta U s namespace =
     schema_meta_name U (schema_name s) @ '': Final = {'' @ nl
     @ py_entry ''NAMESPACE'' (py_literal (default_namespace namespace))
     @ py_entry ''SCHEMA'' (py_literal (schema_name s))
     @ py_entry ''TABLE'' (py_literal (to_snake (schema_name s)))
     @ py_entry ''VERSION'' (show_word (schema_version_or_1 s))
     @ py_entry ''PRIMARY_KEY'' (py_literal (primary_name s))
     @ (if schema_relations s = [] then ''    '' @ dq @ ''RELATIONS'' @ dq @ '': {},'' @ nl
        else ''    '' @ dq @ ''RELATIONS'' @ dq @ '': {'' @ nl
             @ concat (map py_relation (schema_relations s)) @ ''    },'' @ nl)
     @ ''}'' @ nl"

definition emit_python :: "unicode \<Rightarrow> typed_file \<Rightarrow> csl_error + string" where
  "emit_python U tf =
     bindR (mapR (\<lambda>s. bindR (py_schema (ts_decl s)) (\<lambda>c.
              Inr (c @ py_schema_meta U (ts_decl s) (tf_namespace tf) @ nl))) (ordered_schemas tf)) (\<lambda>schemas.
       Inr (py_file_header @ concat (map py_enum (sorted_enums tf))
            @ (if tf_enums tf \<noteq> [] then nl else []) @ concat schemas))"

end
