(* ===== verification/Csl_Mcp.thy ===== *)
theory Csl_Mcp
  imports Csl_Meta
begin

text \<open>
  The MCP generator (\<open>sealstack-csl/src/codegen/mcp.rs\<close>): a manifest with a server per schema
  and its tools, with their JSON schemas. Indexing the primary field or the decorator index
  out of range would panic, which is the value \<open>None\<close>.
\<close>

definition obj :: "(string \<times> json) list \<Rightarrow> json" where
  "obj kvs = JObject (fold (\<lambda>(k, v) m. object_insert k v m) kvs [])"

definition jnat :: "nat \<Rightarrow> json" where "jnat n = json_u64 (of_nat n)"
definition jstrings :: "string list \<Rightarrow> json" where "jstrings ss = JArray (map JString ss)"
definition jtype :: "string \<Rightarrow> json" where "jtype t = obj [(''type'', JString t)]"

section \<open>JSON schemas\<close>

fun json_prim :: "primitive_type \<Rightarrow> string" where
  "json_prim PString = ''string''"
| "json_prim PText = ''string''"
| "json_prim PUlid = ''string''"
| "json_prim PUuid = ''string''"
| "json_prim PInstant = ''string''"
| "json_prim PDuration = ''string''"
| "json_prim PI32 = ''integer''"
| "json_prim PI64 = ''integer''"
| "json_prim PF32 = ''number''"
| "json_prim PF64 = ''number''"
| "json_prim PBool = ''boolean''"
| "json_prim PJson = ''object''"

fun json_type_for :: "type_expr \<Rightarrow> json" where
  "json_type_for (TOptional inner _) = json_type_for inner"
| "json_type_for (TPrimitive p _) = JString (json_prim p)"
| "json_type_for (TRef _ _) = JString ''string''"
| "json_type_for (TList _ _) = JString ''array''"
| "json_type_for (TMap _ _ _) = JString ''object''"
| "json_type_for (TNamed _ _) = JString ''string''"
| "json_type_for (TVector n _) =
     obj [(''type'', JString ''array''), (''items'', jtype ''number''), (''minItems'', json_u32 n), (''maxItems'', json_u32 n)]"

text \<open>The fields with the index entry \<open>facet\<close>, in order.\<close>

fun facets_from :: "string list list \<Rightarrow> field_decl list \<Rightarrow> field_decl list option" where
  "facets_from ds [] = Some []"
| "facets_from [] (f # fs) = None"
| "facets_from (d # ds) (f # fs) = map_option (\<lambda>rest. if ''facet'' \<in> set d then f # rest else rest) (facets_from ds fs)"

definition facet_fields :: "typed_schema \<Rightarrow> field_decl list option" where
  "facet_fields ts = facets_from (ts_decorator_index ts) (schema_fields (ts_decl ts))"

definition facet_property :: "field_decl \<Rightarrow> json" where
  "facet_property f = obj
     [(''oneOf'', JArray [json_type_for (field_ty f),
        obj [(''type'', JString ''array''), (''items'', json_type_for (field_ty f))]]),
      (''description'', JString (''Exact-match filter on `'' @ field_name f @ ''`; array matches any.''))]"

definition facet_filter_properties :: "field_decl list \<Rightarrow> json" where
  "facet_filter_properties facets = obj (map (\<lambda>f. (field_name f, facet_property f)) facets)"

definition field_description :: "field_decl \<Rightarrow> string option" where
  "field_description f = find_map (\<lambda>d.
     if decorator_is d ''description'' \<or> decorator_is d ''doc''
     then (case dec_args d of a # _ \<Rightarrow> string_literal a | [] \<Rightarrow> None) else None) (field_decorators f)"

definition add_description :: "string option \<Rightarrow> (string \<times> json) list \<Rightarrow> (string \<times> json) list" where
  "add_description d m = (case d of None \<Rightarrow> m | Some s \<Rightarrow> object_insert ''description'' (JString s) m)"

definition field_schema :: "field_decl \<Rightarrow> json" where
  "field_schema f =
     (case json_type_for (field_ty f) of
        JObject m \<Rightarrow> JObject (add_description (field_description f) m)
      | JString t \<Rightarrow> JObject (add_description (field_description f) [(''type'', JString t)])
      | other \<Rightarrow> other)"

definition record_schema :: "typed_schema \<Rightarrow> json" where
  "record_schema ts =
     (let fields = schema_fields (ts_decl ts)
      in obj [(''type'', JString ''object''),
              (''properties'', obj (map (\<lambda>f. (field_name f, field_schema f)) fields)),
              (''required'', jstrings (map field_name (filter (\<lambda>f. \<not> is_optional (field_ty f)) fields)))])"

definition search_result_schema :: "typed_schema \<Rightarrow> json" where
  "search_result_schema ts = obj
     [(''type'', JString ''object''),
      (''properties'', obj
        [(''results'', obj
           [(''type'', JString ''array''),
            (''items'', obj
              [(''type'', JString ''object''),
               (''properties'', obj
                 [(''record'', record_schema ts),
                  (''score'', obj [(''type'', JString ''number''), (''minimum'', JNumber (JFloat 0)),
                                   (''maximum'', JNumber (JFloat 0x3FF0000000000000))]),
                  (''highlights'', obj [(''type'', JString ''array''), (''items'', jtype ''string'')]),
                  (''freshness'', obj [(''type'', JString ''string''), (''enum'', jstrings [''fresh'', ''stale'', ''unknown''])])]),
               (''required'', jstrings [''record'', ''score''])])]),
         (''receipt_id'', obj [(''type'', JString ''string''),
            (''description'', JString ''ID of the grounded-answer receipt for audit.'')]),
         (''took_ms'', jtype ''integer'')]),
      (''required'', jstrings [''results'', ''receipt_id''])]"

definition paged_result_schema :: "typed_schema \<Rightarrow> json" where
  "paged_result_schema ts = obj
     [(''type'', JString ''object''),
      (''properties'', obj
        [(''items'', obj [(''type'', JString ''array''), (''items'', record_schema ts)]),
         (''next_cursor'', jtype ''string''),
         (''total_est'', jtype ''integer'')]),
      (''required'', jstrings [''items''])]"

text \<open>The first statement of that key with an integer decides.\<close>

definition default_top_k :: "typed_schema \<Rightarrow> u64 option" where
  "default_top_k ts =
     (case find (\<lambda>st. ctx_key st = ''default_top_k'' \<and> int_literal (ctx_value st) \<noteq> None) (context_stmts (ts_decl ts)) of
        None \<Rightarrow> None
      | Some st \<Rightarrow> Option.bind (int_literal (ctx_value st)) u64_of_i64)"

section \<open>Tools\<close>

definition annotations :: "string \<Rightarrow> json" where
  "annotations category = obj [(''readOnly'', JBool True), (''idempotent'', JBool True), (''category'', JString category)]"

definition closed_object :: "(string \<times> json) list \<Rightarrow> string list option \<Rightarrow> json" where
  "closed_object properties req = obj
     ([(''type'', JString ''object''), (''additionalProperties'', JBool False), (''properties'', obj properties)]
      @ (case req of None \<Rightarrow> [] | Some r \<Rightarrow> [(''required'', jstrings r)]))"

definition limit_schema :: json where
  "limit_schema = obj [(''type'', JString ''integer''), (''minimum'', jnat 1), (''maximum'', jnat 100), (''default'', jnat 20)]"

definition the_tool :: "string \<Rightarrow> string \<Rightarrow> string \<Rightarrow> json \<Rightarrow> json \<Rightarrow> string \<Rightarrow> json" where
  "the_tool name title description input output category = obj
     [(''name'', JString name), (''title'', JString title), (''description'', JString description),
      (''inputSchema'', input), (''outputSchema'', output), (''annotations'', annotations category)]"

definition tool_search :: "typed_schema \<Rightarrow> field_decl list \<Rightarrow> string \<Rightarrow> json" where
  "tool_search ts facets snake_name =
     (let name = schema_name (ts_decl ts);
          input = closed_object
            [(''query'', obj [(''type'', JString ''string''), (''minLength'', jnat 1), (''maxLength'', jnat 2048),
                (''description'', JString ''Natural-language query. Hybrid vector + BM25 search is used.'')]),
             (''top_k'', obj [(''type'', JString ''integer''), (''minimum'', jnat 1), (''maximum'', jnat 100),
                (''default'', json_u64 (option_or (default_top_k ts) 12)),
                (''description'', JString ''Maximum number of results to return.'')]),
             (''filters'', obj [(''type'', JString ''object''), (''description'', JString ''Optional facet filters.''),
                (''additionalProperties'', JBool False), (''properties'', facet_filter_properties facets)]),
             (''freshness'', obj [(''type'', JString ''string''), (''enum'', jstrings [''any'', ''fresh'', ''stale_ok'']),
                (''default'', JString ''any''),
                (''description'', JString (''Controls inclusion of stale chunks per the schema'' @ [char_of (39 :: nat)] @ ''s freshness_decay.''))])]
            (Some [''query''])
      in the_tool (''search_'' @ snake_name) (''Search '' @ name)
           (''Hybrid retrieval over `'' @ name
            @ ''` records. Respects caller permissions declared in the schema `policy` block.'')
           input (search_result_schema ts) ''retrieval'')"

definition tool_get :: "typed_schema \<Rightarrow> field_decl \<Rightarrow> string \<Rightarrow> json" where
  "tool_get ts pk snake_name =
     (let name = schema_name (ts_decl ts)
      in the_tool (''get_'' @ snake_name) (''Get '' @ name)
           (''Fetch a single `'' @ name @ ''` record by primary key.'')
           (closed_object [(''id'', obj [(''type'', json_type_for (field_ty pk)),
                (''description'', JString (''The `'' @ field_name pk @ ''` field.''))])] (Some [''id'']))
           (record_schema ts) ''retrieval'')"

definition tool_list :: "typed_schema \<Rightarrow> field_decl list \<Rightarrow> string \<Rightarrow> json" where
  "tool_list ts facets snake_name =
     (let name = schema_name (ts_decl ts)
      in the_tool (''list_'' @ snake_name) (''List '' @ name)
           (''Paginated, permission-filtered list of `'' @ name @ ''`.'')
           (closed_object
             [(''filters'', obj [(''type'', JString ''object''), (''additionalProperties'', JBool False),
                (''properties'', facet_filter_properties facets)]),
              (''limit'', limit_schema),
              (''cursor'', obj [(''type'', JString ''string''), (''description'', JString ''Opaque pagination cursor.'')]),
              (''order_by'', obj [(''type'', JString ''string''),
                (''description'', JString ''Field name to order by; must be @indexed or @primary.'')]),
              (''direction'', obj [(''type'', JString ''string''), (''enum'', jstrings [''asc'', ''desc'']),
                (''default'', JString ''desc'')])] None)
           (paged_result_schema ts) ''retrieval'')"

definition tool_list_relation :: "typed_schema \<Rightarrow> field_decl \<Rightarrow> string \<Rightarrow> string \<Rightarrow> string \<Rightarrow> json" where
  "tool_list_relation ts pk owner_snake relation target =
     (let name = schema_name (ts_decl ts)
      in the_tool (''list_'' @ owner_snake @ ''_'' @ relation) (''List '' @ target @ '' of '' @ name)
           (''Walk the `'' @ relation @ ''` relation from `'' @ name @ ''` to `'' @ target @ ''`.'')
           (closed_object
             [(''parent_id'', obj [(''type'', json_type_for (field_ty pk)),
                (''description'', JString (''The '' @ name @ '' being queried.''))]),
              (''limit'', limit_schema), (''cursor'', jtype ''string'')] (Some [''parent_id'']))
           (obj [(''type'', JString ''object''),
             (''properties'', obj [(''items'', obj [(''type'', JString ''array''), (''items'', jtype ''object'')]),
                                   (''next_cursor'', jtype ''string'')])])
           ''relations'')"

definition agg_kind :: "json \<Rightarrow> string" where
  "agg_kind facet_type =
     (case facet_type of JString t \<Rightarrow> if t = ''number'' then ''bucket_histogram'' else ''histogram'' | _ \<Rightarrow> ''histogram'')"

definition tool_aggregate :: "string \<Rightarrow> field_decl \<Rightarrow> json" where
  "tool_aggregate snake_name f =
     the_tool (''aggregate_'' @ snake_name @ ''_'' @ field_name f) (''Aggregate by '' @ field_name f)
       (''Counts over the `'' @ field_name f @ ''` facet. Returns a '' @ agg_kind (json_type_for (field_ty f)) @ ''.'')
       (closed_object
         [(''filters'', obj [(''type'', JString ''object''), (''additionalProperties'', JBool True)]),
          (''buckets'', obj [(''type'', JString ''integer''), (''minimum'', jnat 1), (''maximum'', jnat 500), (''default'', jnat 20)])]
         None)
       (obj [(''type'', JString ''object''),
         (''properties'', obj [(''facet'', jtype ''string''),
            (''buckets'', obj [(''type'', JString ''array''), (''items'', jtype ''object'')])])])
       ''analytics''"

definition generate_tools :: "unicode \<Rightarrow> typed_schema \<Rightarrow> json list option" where
  "generate_tools U ts =
     (let snake_name = unicode_snake U (schema_name (ts_decl ts))
      in Option.bind (facet_fields ts) (\<lambda>facets.
         Option.bind (primary_field ts) (\<lambda>pk.
           Some ([tool_search ts facets snake_name, tool_get ts pk snake_name, tool_list ts facets snake_name]
             @ map (\<lambda>r. tool_list_relation ts pk snake_name (rel_name r) (rel_target r))
                 (filter (\<lambda>r. rel_cardinality r = CMany) (schema_relations (ts_decl ts)))
             @ map (tool_aggregate snake_name) facets))))"

section \<open>The manifest\<close>

definition generate_resources :: "unicode \<Rightarrow> typed_schema \<Rightarrow> json" where
  "generate_resources U ts =
     (let name = schema_name (ts_decl ts)
      in JArray [obj
        [(''uriTemplate'', JString (''context://'' @ unicode_snake U name @ ''/{id}'')),
         (''name'', JString (name @ '' record'')),
         (''description'', JString (''A single `'' @ name @ ''` record, returned as JSON. Subject to the schema''
            @ [char_of (39 :: nat)] @ ''s read policy.'')),
         (''mimeType'', JString ''application/json'')]])"

definition mcp_qualified_name :: "string \<Rightarrow> string \<Rightarrow> string" where
  "mcp_qualified_name namespace name = (if namespace = [] then name else namespace @ ''.'' @ name)"

definition server_entry :: "unicode \<Rightarrow> typed_file \<Rightarrow> typed_schema \<Rightarrow> json option" where
  "server_entry U tf ts =
     (let name = schema_name (ts_decl ts); lower = ascii_lowercase name
      in map_option (\<lambda>tools. obj
        [(''name'', JString (mcp_qualified_name (tf_namespace tf) name)),
         (''uri'', JString (''/mcp/'' @ (if tf_namespace tf = [] then lower else tf_namespace tf @ ''.'' @ lower))),
         (''description'', JString (''Context tools for schema `'' @ name @ ''`'')),
         (''capabilities'', obj
           [(''tools'', obj [(''listChanged'', JBool True)]),
            (''resources'', obj [(''subscribe'', JBool True), (''listChanged'', JBool True)])]),
         (''auth'', obj [(''type'', JString ''oauth2.1''), (''scopes'', jstrings [''context.read'', ''context.search''])]),
         (''tools'', JArray tools),
         (''resources'', generate_resources U ts)]) (generate_tools U ts))"

fun server_entries :: "unicode \<Rightarrow> typed_file \<Rightarrow> typed_schema list \<Rightarrow> json list option" where
  "server_entries U tf [] = Some []"
| "server_entries U tf (ts # tss) =
     Option.bind (server_entry U tf ts) (\<lambda>s. map_option (Cons s) (server_entries U tf tss))"

definition emit_mcp_descriptors :: "unicode \<Rightarrow> typed_file \<Rightarrow> json option" where
  "emit_mcp_descriptors U tf =
     map_option (\<lambda>servers. obj
       [(''$schema'', JString ''https://modelcontextprotocol.io/schemas/server-manifest-2025-11.json''),
        (''servers'', JArray servers)]) (server_entries U tf (ordered_schemas tf))"

end
