(* ===== verification/Csl_Emit.thy ===== *)
theory Csl_Emit
  imports Csl_Sql Csl_Meta Csl_Python Csl_Mcp Policy_Codegen
begin

text \<open>
  The compiler's front door (\<open>sealstack-csl/src/lib.rs\<close>, \<open>codegen/mod.rs\<close>): the target flags,
  the bundle of artefacts and the dispatch to the generators. The parser is a parameter.
\<close>

section \<open>Targets and output\<close>

text \<open>\<open>CompileTargets\<close> is a bit set in 32 bits; \<open>contains\<close> asks for all bits of a flag.\<close>

type_synonym CompileTargets = u32

definition TARGET_SQL :: CompileTargets where "TARGET_SQL = 1"
definition TARGET_RUST :: CompileTargets where "TARGET_RUST = 2"
definition TARGET_MCP :: CompileTargets where "TARGET_MCP = 4"
definition TARGET_VECTOR_PLAN :: CompileTargets where "TARGET_VECTOR_PLAN = 8"
definition TARGET_TYPESCRIPT :: CompileTargets where "TARGET_TYPESCRIPT = 16"
definition TARGET_PYTHON :: CompileTargets where "TARGET_PYTHON = 32"
definition TARGET_WASM_POLICY :: CompileTargets where "TARGET_WASM_POLICY = 64"

definition all_targets :: CompileTargets where
  "all_targets = TARGET_SQL OR TARGET_RUST OR TARGET_MCP OR TARGET_VECTOR_PLAN OR TARGET_TYPESCRIPT
     OR TARGET_PYTHON OR TARGET_WASM_POLICY"

definition targets_contain :: "CompileTargets \<Rightarrow> CompileTargets \<Rightarrow> bool" where
  "targets_contain ts flag \<longleftrightarrow> ts AND flag = flag"

record Warning =
  warn_code :: string
  warn_span :: span
  warn_message :: string

definition show_warning :: "Warning \<Rightarrow> string" where
  "show_warning w = ''['' @ warn_code w @ ''] '' @ warn_message w"

record CompileOutput =
  out_sql :: string
  out_rust :: string
  out_mcp_tools :: json
  out_vector_plan :: string
  out_typescript :: string
  out_python :: string
  out_diagnostics :: "Warning list"
  out_schemas_meta :: "json list"
  out_policy_bundles :: "policy_bundle list"

definition output_default :: CompileOutput where
  "output_default = \<lparr>out_sql = [], out_rust = [], out_mcp_tools = JNull, out_vector_plan = [], out_typescript = [],
     out_python = [], out_diagnostics = [], out_schemas_meta = [], out_policy_bundles = []\<rparr>"

text \<open>What a compilation ends with: an error of the compiler, or a panic of a generator.\<close>

datatype failure = Rejected csl_error | PolicyRejected emit_error | Panicked

section \<open>Dispatch\<close>

fun rejected :: "csl_error + 'a \<Rightarrow> failure + 'a" where
  "rejected (Inl e) = Inl (Rejected e)"
| "rejected (Inr x) = Inr x"

fun policy_rejected :: "emit_error + 'a \<Rightarrow> failure + 'a" where
  "policy_rejected (Inl e) = Inl (PolicyRejected e)"
| "policy_rejected (Inr x) = Inr x"

definition or_panic :: "'a option \<Rightarrow> failure + 'a" where
  "or_panic x = ok_or x Panicked"

text \<open>One target: its generator runs only when the flag is set.\<close>

definition when_target :: "CompileTargets \<Rightarrow> CompileTargets \<Rightarrow> failure + 'a \<Rightarrow> ('a \<Rightarrow> CompileOutput \<Rightarrow> CompileOutput)
    \<Rightarrow> CompileOutput \<Rightarrow> failure + CompileOutput" where
  "when_target ts flag run store out =
     (if targets_contain ts flag then bindR run (\<lambda>x. Inr (store x out)) else Inr out)"

text \<open>What the generators take beside the typed file: case tables, the segment parser and the runtime module.\<close>

record codegen_env =
  env_unicode :: unicode
  env_segments :: "u8 list \<Rightarrow> segment_item list"
  env_runtime :: "u8 list"

definition emit :: "codegen_env \<Rightarrow> typed_file \<Rightarrow> CompileTargets \<Rightarrow> failure + CompileOutput" where
  "emit env typed ts =
     bindR (when_target ts TARGET_SQL (Inr (emit_sql (env_unicode env) typed)) (\<lambda>x o1. o1\<lparr>out_sql := x\<rparr>) output_default) (\<lambda>o1.
     bindR (when_target ts TARGET_MCP (or_panic (emit_mcp_descriptors (env_unicode env) typed)) (\<lambda>x o2. o2\<lparr>out_mcp_tools := x\<rparr>) o1) (\<lambda>o2.
     bindR (when_target ts TARGET_VECTOR_PLAN (Inr (emit_vector_plan typed)) (\<lambda>x o3. o3\<lparr>out_vector_plan := x\<rparr>) o2) (\<lambda>o3.
     let o4 = o3\<lparr>out_schemas_meta := emit_schemas_meta typed\<rparr> in
     bindR (when_target ts TARGET_RUST (rejected (emit_rust typed)) (\<lambda>x o5. o5\<lparr>out_rust := x\<rparr>) o4) (\<lambda>o5.
     bindR (when_target ts TARGET_TYPESCRIPT (rejected (emit_typescript typed)) (\<lambda>x o6. o6\<lparr>out_typescript := x\<rparr>) o5) (\<lambda>o6.
     bindR (when_target ts TARGET_PYTHON (rejected (emit_python (env_unicode env) typed)) (\<lambda>x o7. o7\<lparr>out_python := x\<rparr>) o6) (\<lambda>o7.
     when_target ts TARGET_WASM_POLICY (policy_rejected (emit_policy_bundles (env_segments env) (env_runtime env) typed))
       (\<lambda>x o8. o8\<lparr>out_policy_bundles := x\<rparr>) o7))))))"

text \<open>\<open>parse_named\<close> is the parser on a named text; \<open>it\<close> the iteration order of the checker's hash tables.\<close>

definition compile :: "(string \<Rightarrow> csl_error + csl_file) \<Rightarrow> (string list \<Rightarrow> string list) \<Rightarrow> codegen_env
    \<Rightarrow> string \<Rightarrow> CompileTargets \<Rightarrow> failure + CompileOutput" where
  "compile parse_file it env source ts =
     bindR (rejected (parse_file source)) (\<lambda>f.
     bindR (rejected (check it f)) (\<lambda>typed. emit env typed ts))"

definition compile_project :: "(string \<Rightarrow> string \<Rightarrow> csl_error + csl_file) \<Rightarrow> (string list \<Rightarrow> string list) \<Rightarrow> codegen_env
    \<Rightarrow> (string \<times> string) list \<Rightarrow> CompileTargets \<Rightarrow> failure + CompileOutput" where
  "compile_project parse_file_named it env files ts =
     bindR (rejected (mapR (\<lambda>(name, src). parse_file_named name src) files)) (\<lambda>parsed.
     bindR (rejected (check_project it parsed)) (\<lambda>typed. emit env typed ts))"

section \<open>What the generators accept\<close>

text \<open>The interface generators render every type but maps, and vectors only directly on a field.\<close>

fun renderable :: "type_expr \<Rightarrow> bool" where
  "renderable (TOptional inner _) = renderable inner"
| "renderable (TList inner _) = renderable inner"
| "renderable (TVector _ _) = False"
| "renderable (TMap _ _ _) = False"
| "renderable _ = True"

definition rust_accepts :: "schema_decl \<Rightarrow> bool" where
  "rust_accepts s \<longleftrightarrow> (\<forall>f \<in> set (schema_fields s).
     is_vector (field_ty f) \<or> field_name f \<noteq> ''tenant'' \<or> is_string_type (field_ty f))"

definition script_accepts :: "schema_decl \<Rightarrow> bool" where
  "script_accepts s \<longleftrightarrow> (\<forall>f \<in> set (schema_fields s).
     is_vector_or_optional (field_ty f)
     \<or> renderable (field_ty f) \<and> (field_name f = ''tenant'' \<longrightarrow> is_string_type (field_ty f)))"

lemma mapR_isl: "isl (mapR f xs) \<longleftrightarrow> (\<exists>x \<in> set xs. isl (f x))"
proof (induction xs)
  case (Cons x xs)
  then show ?case by (cases "f x"; cases "mapR f xs") auto
qed simp

lemma bindR_isl: "(\<And>v. x = Inr v \<Longrightarrow> \<not> isl (f v)) \<Longrightarrow> isl (bindR x f) \<longleftrightarrow> isl x"
  by (cases x) auto

lemma rust_field_isl:
  "isl (rust_field s f) \<longleftrightarrow> \<not> (is_vector (field_ty f) \<or> field_name f \<noteq> ''tenant'' \<or> is_string_type (field_ty f))"
  by (cases "field_ty f") (simp_all add: rust_field_def is_vector_def)

lemma rust_schema_isl: "isl (rust_schema s ns) \<longleftrightarrow> \<not> rust_accepts s"
  unfolding rust_schema_def rust_accepts_def by (subst bindR_isl) (auto simp: mapR_isl rust_field_isl)

lemma emit_rust_isl: "isl (emit_rust tf) \<longleftrightarrow> \<not> (\<forall>ts \<in> set (ordered_schemas tf). rust_accepts (ts_decl ts))"
  unfolding emit_rust_def rust_namespace_module_def
  by (subst bindR_isl, simp, subst bindR_isl) (auto simp: mapR_isl rust_schema_isl)

lemma ts_field_type_isl: "isl (ts_field_type ty) \<longleftrightarrow> \<not> renderable ty"
  by (induction ty) (simp_all add: bindR_isl)

lemma py_field_type_isl: "isl (py_field_type ty opt) \<longleftrightarrow> \<not> renderable ty"
  by (induction ty arbitrary: opt) (simp_all add: bindR_isl)

lemma ts_field_isl: "isl (ts_field s f) \<longleftrightarrow> \<not> (is_vector_or_optional (field_ty f)
     \<or> renderable (field_ty f) \<and> (field_name f = ''tenant'' \<longrightarrow> is_string_type (field_ty f)))"
  by (auto simp: ts_field_def Let_def bindR_isl ts_field_type_isl)

lemma py_field_isl: "isl (py_field line s f) \<longleftrightarrow> \<not> (is_vector_or_optional (field_ty f)
     \<or> renderable (field_ty f) \<and> (field_name f = ''tenant'' \<longrightarrow> is_string_type (field_ty f)))"
  by (auto simp: py_field_def Let_def bindR_isl py_field_type_isl)

lemma ts_schema_isl: "isl (ts_schema s) \<longleftrightarrow> \<not> script_accepts s"
  unfolding ts_schema_def script_accepts_def by (subst bindR_isl) (auto simp: mapR_isl ts_field_isl)

lemma py_schema_isl: "isl (py_schema s) \<longleftrightarrow> \<not> script_accepts s"
  unfolding py_schema_def py_schema_functional_form_def py_schema_class_form_def script_accepts_def Let_def
  by (auto simp: bindR_isl mapR_isl py_field_isl)

lemma emit_typescript_isl: "isl (emit_typescript tf) \<longleftrightarrow> \<not> (\<forall>ts \<in> set (ordered_schemas tf). script_accepts (ts_decl ts))"
  unfolding emit_typescript_def by (subst bindR_isl) (auto simp: mapR_isl bindR_isl ts_schema_isl)

lemma emit_python_isl: "isl (emit_python U tf) \<longleftrightarrow> \<not> (\<forall>ts \<in> set (ordered_schemas tf). script_accepts (ts_decl ts))"
  unfolding emit_python_def by (subst bindR_isl) (auto simp: mapR_isl bindR_isl py_schema_isl)

section \<open>No panic on checked files\<close>

text \<open>The tool generator indexes the primary field and one decorator set per field.\<close>

definition indexed_schema :: "typed_schema \<Rightarrow> bool" where
  "indexed_schema ts \<longleftrightarrow> primary_field ts \<noteq> None
     \<and> length (ts_decorator_index ts) = length (schema_fields (ts_decl ts))"

lemma facets_from_total: "length ds = length fs \<Longrightarrow> facets_from ds fs \<noteq> None"
  by (induction ds fs rule: facets_from.induct) auto

lemma server_entry_total: "indexed_schema ts \<Longrightarrow> server_entry U tf ts \<noteq> None"
  using facets_from_total [of "ts_decorator_index ts" "schema_fields (ts_decl ts)"]
  by (auto simp: server_entry_def generate_tools_def facet_fields_def indexed_schema_def Let_def)

lemma server_entries_total: "\<forall>ts \<in> set tss. indexed_schema ts \<Longrightarrow> server_entries U tf tss \<noteq> None"
proof (induction tss)
  case (Cons ts tss)
  then show ?case using server_entry_total [of ts U tf] by auto
qed simp

lemma emit_mcp_total: "\<forall>ts \<in> set (ordered_schemas tf). indexed_schema ts \<Longrightarrow> emit_mcp_descriptors U tf \<noteq> None"
  using server_entries_total [of "ordered_schemas tf" U tf] by (simp add: emit_mcp_descriptors_def)

lemma typed_ok_indexed: "typed_ok known ts \<Longrightarrow> indexed_schema ts"
  by (auto simp: typed_ok_def indexed_schema_def decorator_index_def)


lemma map_filter_total: "\<forall>x \<in> set xs. \<exists>y. f x = Some y \<and> g y = h x \<Longrightarrow> map g (List.map_filter f xs) = map h xs"
  by (induction xs) (auto simp: List.map_filter_simps)

lemma checked_order:
  assumes it: "\<And>xs. set (it xs) = set xs" and run: "check_project it files = Inr tf"
  shows "map ts_decl (ordered_schemas tf) = all_schemas files"
    and "\<forall>ts \<in> set (ordered_schemas tf). indexed_schema ts"
proof -
  note sound = check_project_sound [OF it run]
  have "map ts_decl (List.map_filter (\<lambda>s. map_of (tf_schemas tf) (schema_name s)) (all_schemas files)) = map (\<lambda>s. s) (all_schemas files)"
    using sound(4) by (intro map_filter_total) blast
  moreover have of: "ordered_schemas tf = List.map_filter (\<lambda>s. map_of (tf_schemas tf) (schema_name s)) (all_schemas files)"
    by (simp add: ordered_schemas_def sound(2) List.map_filter_def comp_def filter_map)
  ultimately show "map ts_decl (ordered_schemas tf) = all_schemas files" by simp
  show "\<forall>ts \<in> set (ordered_schemas tf). indexed_schema ts"
  proof
    fix ts assume "ts \<in> set (ordered_schemas tf)"
    then obtain s where "s \<in> set (all_schemas files)" "map_of (tf_schemas tf) (schema_name s) = Some ts"
      unfolding of by (auto simp: List.map_filter_def)
    with sound(4) show "indexed_schema ts" using typed_ok_indexed by force
  qed
qed

lemma checked_schemas:
  assumes "\<And>xs. set (it xs) = set xs" and "check_project it files = Inr tf"
  shows "(\<forall>ts \<in> set (ordered_schemas tf). P (ts_decl ts)) \<longleftrightarrow> (\<forall>s \<in> set (all_schemas files). P s)"
proof -
  have "set (all_schemas files) = ts_decl ` set (ordered_schemas tf)"
    using checked_order(1) [OF assms] by (metis set_map)
  then show ?thesis by simp
qed

lemma rejected_simps [simp]: "isl (rejected x) = isl x" "rejected x \<noteq> Inl Panicked"
  by (cases x; simp)+

lemma policy_rejected_simps [simp]: "isl (policy_rejected x) = isl x" "policy_rejected x \<noteq> Inl Panicked"
  by (cases x; simp)+

lemma when_target_isl: "isl (when_target ts flag run store out) \<longleftrightarrow> targets_contain ts flag \<and> isl run"
  by (cases run) (auto simp: when_target_def)

lemma when_target_panic: "when_target ts flag run store out = Inl e \<longleftrightarrow> targets_contain ts flag \<and> run = Inl e"
  by (cases run) (auto simp: when_target_def)

lemma emit_panics:
  "emit env tf ts = Inl Panicked \<longleftrightarrow> targets_contain ts TARGET_MCP \<and> emit_mcp_descriptors (env_unicode env) tf = None"
  by (auto simp: emit_def Let_def bindR_Inl_iff when_target_panic or_panic_def ok_or_Inl_iff)
     (simp add: when_target_def)

lemma emit_isl:
  "isl (emit env tf ts) \<longleftrightarrow>
     (targets_contain ts TARGET_MCP \<and> emit_mcp_descriptors (env_unicode env) tf = None)
     \<or> (targets_contain ts TARGET_RUST \<and> isl (emit_rust tf))
     \<or> (targets_contain ts TARGET_TYPESCRIPT \<and> isl (emit_typescript tf))
     \<or> (targets_contain ts TARGET_PYTHON \<and> isl (emit_python (env_unicode env) tf))
     \<or> (targets_contain ts TARGET_WASM_POLICY \<and> isl (emit_policy_bundles (env_segments env) (env_runtime env) tf))"
proof -
  have bind: "isl (bindR x f) \<longleftrightarrow> isl x \<or> (\<exists>v. x = Inr v \<and> isl (f v))" for x :: "failure + CompileOutput" and f :: "CompileOutput \<Rightarrow> failure + CompileOutput"
    by (cases x) auto
  have val: "(\<exists>v. when_target ts flag run store out = Inr v \<and> P) \<longleftrightarrow> \<not> (targets_contain ts flag \<and> isl run) \<and> P"
    for flag out P and run :: "failure + 'b" and store by (cases run) (auto simp: when_target_def)
  have panic: "isl (or_panic x) \<longleftrightarrow> x = None" for x :: "'c option" by (cases x) (auto simp: or_panic_def)
  show ?thesis
    by (simp only: emit_def Let_def bind when_target_isl val panic rejected_simps policy_rejected_simps sum.disc) blast
qed

text \<open>What each field of a successful output holds: the text of its target, or the default.\<close>

lemma when_target_keeps:
  "when_target ts flag run store out = Inr out' \<Longrightarrow> (\<And>x o1. g (store x o1) = g o1) \<Longrightarrow> g out' = g out"
  by (auto simp: when_target_def bindR_Inr_iff split: if_splits)

lemma when_target_sets:
  "when_target ts flag run store out = Inr out' \<Longrightarrow> (\<And>x o1. g (store x o1) = x) \<Longrightarrow>
     (if targets_contain ts flag then run = Inr (g out') else g out' = g out)"
  by (auto simp: when_target_def bindR_Inr_iff)

lemma rejected_Inr [simp]: "rejected x = Inr y \<longleftrightarrow> x = Inr y"
  by (cases x) auto

lemma policy_rejected_Inr [simp]: "policy_rejected x = Inr y \<longleftrightarrow> x = Inr y"
  by (cases x) auto

lemma emit_outputs:
  assumes "emit env tf ts = Inr out"
  shows "out_schemas_meta out = emit_schemas_meta tf"
    and "out_sql out = (if targets_contain ts TARGET_SQL then emit_sql (env_unicode env) tf else [])"
    and "targets_contain ts TARGET_MCP \<Longrightarrow> emit_mcp_descriptors (env_unicode env) tf = Some (out_mcp_tools out)"
    and "targets_contain ts TARGET_RUST \<Longrightarrow> emit_rust tf = Inr (out_rust out)"
    and "targets_contain ts TARGET_TYPESCRIPT \<Longrightarrow> emit_typescript tf = Inr (out_typescript out)"
    and "targets_contain ts TARGET_PYTHON \<Longrightarrow> emit_python (env_unicode env) tf = Inr (out_python out)"
    and "targets_contain ts TARGET_WASM_POLICY \<Longrightarrow>
       emit_policy_bundles (env_segments env) (env_runtime env) tf = Inr (out_policy_bundles out)"
proof -
  from assms obtain o1 o2 o3 o5 o6 o7 where
    s1: "when_target ts TARGET_SQL (Inr (emit_sql (env_unicode env) tf)) (\<lambda>x o1. o1\<lparr>out_sql := x\<rparr>) output_default = Inr o1" and
    s2: "when_target ts TARGET_MCP (or_panic (emit_mcp_descriptors (env_unicode env) tf)) (\<lambda>x o2. o2\<lparr>out_mcp_tools := x\<rparr>) o1 = Inr o2" and
    s3: "when_target ts TARGET_VECTOR_PLAN (Inr (emit_vector_plan tf)) (\<lambda>x o3. o3\<lparr>out_vector_plan := x\<rparr>) o2 = Inr o3" and
    s5: "when_target ts TARGET_RUST (rejected (emit_rust tf)) (\<lambda>x o5. o5\<lparr>out_rust := x\<rparr>) (o3\<lparr>out_schemas_meta := emit_schemas_meta tf\<rparr>) = Inr o5" and
    s6: "when_target ts TARGET_TYPESCRIPT (rejected (emit_typescript tf)) (\<lambda>x o6. o6\<lparr>out_typescript := x\<rparr>) o5 = Inr o6" and
    s7: "when_target ts TARGET_PYTHON (rejected (emit_python (env_unicode env) tf)) (\<lambda>x o7. o7\<lparr>out_python := x\<rparr>) o6 = Inr o7" and
    s8: "when_target ts TARGET_WASM_POLICY (policy_rejected (emit_policy_bundles (env_segments env) (env_runtime env) tf))
       (\<lambda>x o8. o8\<lparr>out_policy_bundles := x\<rparr>) o7 = Inr out"
    unfolding emit_def Let_def bindR_Inr_iff by blast
  note after_rust = when_target_keeps [OF s6] when_target_keeps [OF s7] when_target_keeps [OF s8]
  have "out_schemas_meta out = out_schemas_meta o5" by (simp add: after_rust)
  also have "\<dots> = emit_schemas_meta tf" by (subst when_target_keeps [OF s5]) simp_all
  finally show "out_schemas_meta out = emit_schemas_meta tf" .
  have "out_sql out = out_sql o5" by (simp add: after_rust)
  also have "\<dots> = out_sql o1"
    by (subst when_target_keeps [OF s5], simp, simp, subst when_target_keeps [OF s3], simp, subst when_target_keeps [OF s2]) simp_all
  finally show "out_sql out = (if targets_contain ts TARGET_SQL then emit_sql (env_unicode env) tf else [])"
    using when_target_sets [OF s1, where g = out_sql] by (simp add: output_default_def split: if_splits)
  have "out_mcp_tools out = out_mcp_tools o5" by (simp add: after_rust)
  also have "\<dots> = out_mcp_tools o2"
    by (subst when_target_keeps [OF s5], simp, simp, subst when_target_keeps [OF s3]) simp_all
  finally show "targets_contain ts TARGET_MCP \<Longrightarrow> emit_mcp_descriptors (env_unicode env) tf = Some (out_mcp_tools out)"
    using when_target_sets [OF s2, where g = out_mcp_tools] by (simp add: or_panic_def ok_or_Inr_iff)
  have "out_rust out = out_rust o5" by (simp add: after_rust)
  then show "targets_contain ts TARGET_RUST \<Longrightarrow> emit_rust tf = Inr (out_rust out)"
    using when_target_sets [OF s5, where g = out_rust] by simp
  have "out_typescript out = out_typescript o6"
    by (simp add: when_target_keeps [OF s7] when_target_keeps [OF s8])
  then show "targets_contain ts TARGET_TYPESCRIPT \<Longrightarrow> emit_typescript tf = Inr (out_typescript out)"
    using when_target_sets [OF s6, where g = out_typescript] by simp
  have "out_python out = out_python o7" by (simp add: when_target_keeps [OF s8])
  then show "targets_contain ts TARGET_PYTHON \<Longrightarrow> emit_python (env_unicode env) tf = Inr (out_python out)"
    using when_target_sets [OF s7, where g = out_python] by simp
  show "targets_contain ts TARGET_WASM_POLICY \<Longrightarrow>
       emit_policy_bundles (env_segments env) (env_runtime env) tf = Inr (out_policy_bundles out)"
    using when_target_sets [OF s8, where g = out_policy_bundles] by simp
qed

section \<open>What the policy target accepts\<close>

text \<open>
  The policy of a schema lowers to code that fits the slot, and that the native interpreter runs
  for every action on the empty caller and record without an error.
\<close>

definition policy_accepts :: "schema_decl \<Rightarrow> bool" where
  "policy_accepts s \<longleftrightarrow>
     (case lower_policy_block_body s of
        Inl _ \<Rightarrow> False
      | Inr body \<Rightarrow> length (ir_section body) \<le> IR_SECTION_BYTES
          \<and> self_pass (ir_section body) all_action_bits = None)"

text \<open>The runtime module holds a reserved slot.\<close>

definition has_slot :: "codegen_env \<Rightarrow> bool" where
  "has_slot env \<longleftrightarrow> \<not> isl (locate_predicate_section (env_segments env) (env_runtime env))"

lemma lower_schema_isl:
  assumes "map_of (tf_schemas tf) n = Some ts"
  shows "(case lower_schema_to_ir tf n of Inl _ \<Rightarrow> True
       | Inr ir \<Rightarrow> self_pass ir all_action_bits \<noteq> None \<or> isl (patch_runtime segs wasm ir))
     \<longleftrightarrow> \<not> (policy_accepts (ts_decl ts) \<and> \<not> isl (locate_predicate_section segs wasm))"
proof (cases "lower_policy_block_body (ts_decl ts)")
  case (Inl e)
  with assms show ?thesis by (simp add: lower_schema_to_ir_def policy_accepts_def)
next
  case (Inr body)
  have "length (ir_section body) \<le> IR_SECTION_BYTES \<Longrightarrow> length body < 2 ^ 32"
    by (simp add: ir_section_def IR_SECTION_BYTES_def IR_MAX_BYTES_def)
  with assms Inr show ?thesis
    by (auto simp: lower_schema_to_ir_def policy_accepts_def patch_runtime_def bindR_isl)
qed

lemma emit_bundles_isl:
  "isl (emit_bundles segs wasm tf ns) \<longleftrightarrow>
     \<not> (\<forall>n \<in> set ns. \<forall>ts. map_of (tf_schemas tf) n = Some ts \<longrightarrow>
          policy_accepts (ts_decl ts) \<and> \<not> isl (locate_predicate_section segs wasm))"
proof (induction ns)
  case (Cons n ns)
  show ?case
  proof (cases "map_of (tf_schemas tf) n")
    case None
    with Cons show ?thesis by simp
  next
    case (Some ts)
    have "isl (emit_bundles segs wasm tf (n # ns)) \<longleftrightarrow>
       (case lower_schema_to_ir tf n of Inl _ \<Rightarrow> True
         | Inr ir \<Rightarrow> self_pass ir all_action_bits \<noteq> None \<or> isl (patch_runtime segs wasm ir))
       \<or> isl (emit_bundles segs wasm tf ns)"
      using Some by (auto simp: bindR_isl split: sum.splits option.splits)
    then show ?thesis using lower_schema_isl [OF Some, of segs wasm] Cons.IH Some by auto
  qed
qed simp

lemma emit_policy_isl:
  "isl (emit_policy_bundles (env_segments env) (env_runtime env) tf) \<longleftrightarrow>
     \<not> (\<forall>ts \<in> set (ordered_schemas tf). policy_accepts (ts_decl ts) \<and> has_slot env)"
proof -
  have "set (ordered_schemas tf) = {ts. \<exists>n \<in> set (tf_decl_order tf). map_of (tf_schemas tf) n = Some ts}"
    by (force simp: ordered_schemas_def List.map_filter_def)
  then show ?thesis by (auto simp: emit_policy_bundles_def emit_bundles_isl has_slot_def)
qed

section \<open>Properties\<close>

text \<open>
  C28: compiling a project never panics, whatever the files and targets: the typed file keeps
  the indexes the tool generator uses in range. It succeeds exactly when every file parses, the
  checker accepts the project (with the checks it makes, which are fewer than its module comment
  lists), a tenant field is a string wherever the Rust generator looks at it, for TypeScript and
  Python alike no rendered field holds a map or a nested vector and a tenant is a string, and
  for the policy target the runtime has a slot and every policy lowers to code that fits it and
  passes the self-pass. The other targets refuse nothing.
\<close>

theorem compile_accepts:
  assumes it: "\<And>xs. set (it xs) = set xs"
  shows "compile_project parse_file_named it env files ts \<noteq> Inl Panicked
    \<and> ((\<exists>out. compile_project parse_file_named it env files ts = Inr out) \<longleftrightarrow>
       (\<exists>parsed. mapR (\<lambda>(name, src). parse_file_named name src) files = Inr parsed
         \<and> distinct (map schema_name (all_schemas parsed))
         \<and> (\<forall>s \<in> set (all_schemas parsed).
              schema_ok (known_types parsed) s
              \<and> (targets_contain ts TARGET_RUST \<longrightarrow> rust_accepts s)
              \<and> (targets_contain ts TARGET_TYPESCRIPT \<or> targets_contain ts TARGET_PYTHON \<longrightarrow> script_accepts s)
              \<and> (targets_contain ts TARGET_WASM_POLICY \<longrightarrow> policy_accepts s \<and> has_slot env))))"
proof (cases "mapR (\<lambda>(name, src). parse_file_named name src) files")
  case (Inl e)
  then show ?thesis by (simp add: compile_project_def)
next
  case parsed: (Inr parsed)
  show ?thesis
  proof (cases "check_project it parsed")
    case (Inl e)
    then have "\<not> (distinct (map schema_name (all_schemas parsed))
       \<and> (\<forall>s \<in> set (all_schemas parsed). schema_ok (known_types parsed) s))"
      using check_project_complete [OF it] by fastforce
    with Inl parsed show ?thesis by (auto simp: compile_project_def)
  next
    case (Inr tf)
    then have ok: "distinct (map schema_name (all_schemas parsed))"
       "\<forall>s \<in> set (all_schemas parsed). schema_ok (known_types parsed) s"
      using check_project_sound [OF it Inr] by (fastforce simp: typed_ok_def)+
    have total: "emit_mcp_descriptors U tf \<noteq> None" for U
      using emit_mcp_total checked_order(2) [OF it Inr] by blast
    have run: "compile_project parse_file_named it env files ts = emit env tf ts"
      using parsed Inr by (simp add: compile_project_def)
    have "(\<exists>out. emit env tf ts = Inr out) \<longleftrightarrow> \<not> isl (emit env tf ts)"
      by (cases "emit env tf ts") simp_all
    then have "(\<exists>out. emit env tf ts = Inr out) \<longleftrightarrow> (\<forall>s \<in> set (all_schemas parsed).
              (targets_contain ts TARGET_RUST \<longrightarrow> rust_accepts s)
              \<and> (targets_contain ts TARGET_TYPESCRIPT \<or> targets_contain ts TARGET_PYTHON \<longrightarrow> script_accepts s)
              \<and> (targets_contain ts TARGET_WASM_POLICY \<longrightarrow> policy_accepts s \<and> has_slot env))"
      by (simp only: emit_isl emit_rust_isl emit_typescript_isl emit_python_isl emit_policy_isl
          checked_schemas [OF it Inr] checked_schemas [OF it Inr, of "\<lambda>s. policy_accepts s \<and> has_slot env"] total) blast
    moreover have "compile_project parse_file_named it env files ts \<noteq> Inl Panicked"
      using total by (simp add: run emit_panics)
    ultimately show ?thesis using ok by (simp only: run parsed sum.inject ex_simps simp_thms) blast
  qed
qed

definition sample_env :: codegen_env where
  "sample_env = \<lparr>env_unicode = \<lparr>uc_is_upper = (\<lambda>_. False), uc_to_upper = (\<lambda>s. s)\<rparr>,
     env_segments = (\<lambda>_. [ModuleError ''not a module'']), env_runtime = []\<rparr>"

lemma compile_accepts_witness:
  "\<exists>out. compile_project (\<lambda>_ _. Inr (sample_file None)) rev sample_env [(''acme.csl'', [])] 63 = Inr out"
proof -
  have no: "\<not> targets_contain 63 TARGET_WASM_POLICY" by code_simp
  have "\<not> isl (check_project rev [sample_file None])" by code_simp
  then obtain t where "check_project rev [sample_file None] = Inr t"
    by (cases "check_project rev [sample_file None]") simp_all
  then have ok: "distinct (map schema_name (all_schemas [sample_file None]))"
    "\<forall>s \<in> set (all_schemas [sample_file None]). schema_ok (known_types [sample_file None]) s"
    using check_project_sound [of rev "[sample_file None]" t] by (simp, fastforce simp: typed_ok_def)
  have "\<forall>s \<in> set (all_schemas [sample_file None]). rust_accepts s"
    "\<forall>s \<in> set (all_schemas [sample_file None]). script_accepts s" by code_simp+
  with compile_accepts [of rev "\<lambda>_ _. Inr (sample_file None)" sample_env "[(''acme.csl'', [])]" 63] ok no
  show ?thesis by simp
qed

end
