(* ===== verification/Csl_Literals.thy ===== *)
theory Csl_Literals
  imports Csl_Rust Csl_Typescript Csl_Python
begin

text \<open>
  Reading back the literals the generators write. The reader is the part of the literal
  grammars that TypeScript and Python share: a literal ends at its quote, a backslash
  stands before a quote or a backslash, and a line break is not allowed. It decides whether
  the escaping keeps the wire names of enums.
\<close>

definition line_break :: "char \<Rightarrow> bool" where
  "line_break c \<longleftrightarrow> (of_char c :: nat) = 10 \<or> (of_char c :: nat) = 13"

fun read_quoted :: "char \<Rightarrow> string \<Rightarrow> (string \<times> string) option" where
  "read_quoted q [] = None"
| "read_quoted q (c # s) =
     (if c = q then Some ([], s)
      else if c = hd bslash then
        (case s of [] \<Rightarrow> None
         | d # rest \<Rightarrow> if d = q \<or> d = hd bslash then map_option (apfst (Cons d)) (read_quoted q rest) else None)
      else if line_break c then None
      else map_option (apfst (Cons c)) (read_quoted q s))"

text \<open>A literal with its opening quote, and a number of them with a separator between.\<close>

definition read_literal :: "char \<Rightarrow> string \<Rightarrow> (string \<times> string) option" where
  "read_literal q s = (case s of [] \<Rightarrow> None | c # rest \<Rightarrow> if c = q then read_quoted q rest else None)"

definition skip_text :: "string \<Rightarrow> string \<Rightarrow> string option" where
  "skip_text t s = (if take (length t) s = t then Some (drop (length t) s) else None)"

fun read_literals :: "char \<Rightarrow> string \<Rightarrow> nat \<Rightarrow> string \<Rightarrow> (string list \<times> string) option" where
  "read_literals q sep 0 s = Some ([], s)"
| "read_literals q sep (Suc 0) s = map_option (apfst (\<lambda>t. [t])) (read_literal q s)"
| "read_literals q sep (Suc (Suc n)) s =
     Option.bind (read_literal q s) (\<lambda>(t, r).
     Option.bind (skip_text sep r) (\<lambda>r. map_option (apfst (Cons t)) (read_literals q sep (Suc n) r)))"

definition escape :: "char \<Rightarrow> string \<Rightarrow> string" where
  "escape q s = replace_char q (bslash @ [q]) (replace_char (hd bslash) (bslash @ bslash) s)"

lemma escape_simps:
  assumes "q \<noteq> hd bslash"
  shows "escape q [] = []"
    and "escape q (c # s) = (if c = hd bslash then bslash @ bslash else if c = q then bslash @ [q] else [c]) @ escape q s"
  using assms by (auto simp: escape_def replace_char_def bslash_def)

lemma read_escaped:
  assumes q: "q \<noteq> hd bslash" "\<not> line_break q"
  shows "read_quoted q (escape q s @ q # rest) =
    (if list_ex line_break s then None else Some (s, rest))"
proof (induction s)
  case Nil
  then show ?case by (simp add: escape_simps [OF q(1)])
next
  case (Cons c s)
  have "\<not> line_break (hd bslash)" by code_simp
  with Cons q show ?case
    by (auto simp: escape_simps [OF q(1)] bslash_def)
qed

lemma quotes: "hd sq \<noteq> hd bslash" "\<not> line_break (hd sq)" "hd dq \<noteq> hd bslash" "\<not> line_break (hd dq)"
  by code_simp+

lemma read_ts_literal:
  "read_literal (hd sq) (ts_literal s @ rest) = (if list_ex line_break s then None else Some (s, rest))"
  using read_escaped [OF quotes(1,2), of s rest]
  by (simp add: read_literal_def ts_literal_def escape_sq_def escape_def sq_def)

lemma read_py_literal:
  "read_literal (hd dq) (py_literal s @ rest) = (if list_ex line_break s then None else Some (s, rest))"
  using read_escaped [OF quotes(3,4), of s rest]
  by (simp add: read_literal_def py_literal_def escape_dq_def escape_def dq_def)

lemma skip_text_append [simp]: "skip_text t (t @ s) = Some s"
  by (simp add: skip_text_def)

lemma read_joined:
  assumes "\<And>s rest. read_literal q (lit s @ rest) = (if list_ex line_break s then None else Some (s, rest))"
  shows "read_literals q sep (length ws) (join_with sep (map lit ws) @ rest)
    = (if list_ex (list_ex line_break) ws then None else Some (ws, rest))"
proof (induction ws rule: induct_list012)
  case (3 w v ws)
  then show ?case by (auto simp: assms)
qed (simp_all add: assms)

definition ts_enum_head :: "enum_decl \<Rightarrow> string" where
  "ts_enum_head en = ''export type '' @ enum_name en @ '' = ''"

definition py_enum_head :: "enum_decl \<Rightarrow> string" where
  "py_enum_head en = enum_name en @ '' = Literal[''"

definition read_ts_enum :: "enum_decl \<Rightarrow> string \<Rightarrow> string list option" where
  "read_ts_enum en text = Option.bind (skip_text (ts_enum_head en) text) (\<lambda>s.
     Option.bind (read_literals (hd sq) '' | '' (length (enum_variants en)) s) (\<lambda>(ws, rest).
     if rest = '';'' @ nl then Some ws else None))"

definition read_py_enum :: "enum_decl \<Rightarrow> string \<Rightarrow> string list option" where
  "read_py_enum en text = Option.bind (skip_text (py_enum_head en) text) (\<lambda>s.
     Option.bind (read_literals (hd dq) '', '' (length (enum_variants en)) s) (\<lambda>(ws, rest).
     if rest = '']'' @ nl then Some ws else None))"

text \<open>
  C29: the wire names of an enum survive the generators: reading the literals of the
  TypeScript union and of the Python \<open>Literal\<close> back gives the wire names in order, whatever
  quotes and backslashes they hold, unless one of them holds a line break, which neither
  generator escapes.
\<close>

theorem enum_literals_roundtrip:
  "read_ts_enum en (ts_enum en) = read_py_enum en (py_enum en)
   \<and> read_ts_enum en (ts_enum en) =
     (let wires = map wire_of (enum_variants en)
      in if list_ex (list_ex line_break) wires then None else Some wires)"
proof -
  let ?ws = "map wire_of (enum_variants en)"
  have len: "length (enum_variants en) = length ?ws" by simp
  have "read_ts_enum en (ts_enum en) = (if list_ex (list_ex line_break) ?ws then None else Some ?ws)"
    using read_joined [OF read_ts_literal, of "'' | ''" ?ws "'';'' @ nl"]
    unfolding len read_ts_enum_def ts_enum_def ts_enum_head_def by (simp add: skip_text_def comp_def)
  moreover have "read_py_enum en (py_enum en) = (if list_ex (list_ex line_break) ?ws then None else Some ?ws)"
    using read_joined [OF read_py_literal, of "'', ''" ?ws "'']'' @ nl"]
    unfolding len read_py_enum_def py_enum_def py_enum_head_def by (simp add: skip_text_def comp_def)
  ultimately show ?thesis by (simp add: Let_def)
qed

end
