(* ===== verification/Gateway_Tools.thy ===== *)
theory Gateway_Tools
  imports Engine_Facade Csl_Mcp "HOL-Library.AList"
begin

text \<open>
  The tools of the gateway (\<open>sealstack-gateway/src/mcp\<close>: \<open>types.rs\<close>, \<open>registry.rs\<close>, \<open>handlers.rs\<close>,
  \<open>bootstrap.rs\<close>): the registry of handlers, the handlers registered for every schema at boot,
  and their invocation of the engine through the facade.
\<close>

section \<open>Callers and errors\<close>

record GwCaller =
  gc_id :: string
  gc_tenant :: string
  gc_groups :: "string list"
  gc_roles :: "string list"
  gc_attrs :: metadata

definition gw_has_role :: "GwCaller \<Rightarrow> string \<Rightarrow> bool" where
  "gw_has_role c role = list_ex (\<lambda>r. r = role) (gc_roles c)"

definition caller_to_engine :: "GwCaller \<Rightarrow> Caller" where
  "caller_to_engine c =
     \<lparr>cl_id = gc_id c, cl_tenant = gc_tenant c, cl_groups = gc_groups c, cl_roles = gc_roles c, cl_attrs = gc_attrs c\<rparr>"

datatype ToolError =
    TeInvalidArgs string
  | TeUnauthorized
  | TePolicyDenied
  | TeNotFound
  | TeBackend string
  | TeUnimplemented

fun engine_error_to_tool_error :: "EngineError \<Rightarrow> ToolError" where
  "engine_error_to_tool_error EeNotFound = TeNotFound"
| "engine_error_to_tool_error (EePolicyDenied r) = TePolicyDenied"
| "engine_error_to_tool_error (EeInvalidArgument m) = TeInvalidArgs m"
| "engine_error_to_tool_error (EeBackend m) = TeBackend m"
| "engine_error_to_tool_error (EeUnknownSchema ns schema) =
     TeInvalidArgs (''unknown schema `'' @ ns @ ''.'' @ schema @ ''`'')"

section \<open>Descriptors and handlers\<close>

record ToolDescriptor =
  td_name :: string
  td_title :: "string option"
  td_description :: string
  td_input_schema :: json
  td_output_schema :: "json option"
  td_annotations :: "json option"

definition optional_entry :: "string \<Rightarrow> ('a \<Rightarrow> json) \<Rightarrow> 'a option \<Rightarrow> (string \<times> json) list" where
  "optional_entry key f x = (case x of None \<Rightarrow> [] | Some v \<Rightarrow> [(key, f v)])"

definition descriptor_value :: "ToolDescriptor \<Rightarrow> json" where
  "descriptor_value d = obj
     ([(''name'', JString (td_name d))] @ optional_entry ''title'' JString (td_title d)
      @ [(''description'', JString (td_description d)), (''inputSchema'', td_input_schema d)]
      @ optional_entry ''outputSchema'' id (td_output_schema d) @ optional_entry ''annotations'' id (td_annotations d))"

text \<open>The facade trait of the engine, over a state its calls change.\<close>

record 'st EngineFacade =
  ef_search :: "Caller \<Rightarrow> string \<Rightarrow> string \<Rightarrow> nat \<Rightarrow> json \<Rightarrow> 'st \<Rightarrow> 'st \<times> (EngineError + json)"
  ef_get :: "Caller \<Rightarrow> string \<Rightarrow> json \<Rightarrow> 'st \<Rightarrow> 'st \<times> (EngineError + json)"
  ef_list :: "Caller \<Rightarrow> string \<Rightarrow> json \<Rightarrow> nat \<Rightarrow> string option \<Rightarrow> string option \<Rightarrow> string \<Rightarrow> 'st \<Rightarrow> 'st \<times> (EngineError + json)"
  ef_list_relation :: "Caller \<Rightarrow> string \<Rightarrow> string \<Rightarrow> json \<Rightarrow> nat \<Rightarrow> string option \<Rightarrow> 'st \<Rightarrow> 'st \<times> (EngineError + json)"
  ef_aggregate :: "Caller \<Rightarrow> string \<Rightarrow> string \<Rightarrow> json \<Rightarrow> nat \<Rightarrow> 'st \<Rightarrow> 'st \<times> (EngineError + json)"

datatype HandlerKind = HkSearch | HkGet | HkList | HkListRelation | HkAggregate

record 'st GeneratedHandler =
  gh_descriptor :: ToolDescriptor
  gh_kind :: HandlerKind
  gh_schema :: string
  gh_relation :: "string option"
  gh_facet :: "string option"
  gh_engine :: "'st EngineFacade"

fun json_as_u64 :: "json \<Rightarrow> u64 option" where
  "json_as_u64 (JNumber (PosInt n)) = Some n"
| "json_as_u64 _ = None"

definition arg_str :: "json \<Rightarrow> string \<Rightarrow> string option" where
  "arg_str args k = Option.bind (json_get args k) json_as_str"

definition arg_usize :: "json \<Rightarrow> string \<Rightarrow> nat \<Rightarrow> nat" where
  "arg_usize args k dflt =
     (case Option.bind (json_get args k) json_as_u64 of None \<Rightarrow> dflt | Some n \<Rightarrow> unat n)"

definition arg_filters :: "json \<Rightarrow> json" where
  "arg_filters args = (case json_get args ''filters'' of None \<Rightarrow> JObject [] | Some v \<Rightarrow> v)"

definition lift_engine :: "'st \<times> (EngineError + json) \<Rightarrow> 'st \<times> (ToolError + json)" where
  "lift_engine r = (case r of (st, Inl e) \<Rightarrow> (st, Inl (engine_error_to_tool_error e)) | (st, Inr v) \<Rightarrow> (st, Inr v))"

definition invoke_search :: "'st GeneratedHandler \<Rightarrow> Caller \<Rightarrow> json \<Rightarrow> 'st \<Rightarrow> 'st \<times> (ToolError + json)" where
  "invoke_search h caller args st =
     (case arg_str args ''query'' of
        None \<Rightarrow> (st, Inl (TeInvalidArgs ''missing `query`''))
      | Some query \<Rightarrow> lift_engine
          (ef_search (gh_engine h) caller (gh_schema h) query (arg_usize args ''top_k'' 12) (arg_filters args) st))"

definition invoke_get :: "'st GeneratedHandler \<Rightarrow> Caller \<Rightarrow> json \<Rightarrow> 'st \<Rightarrow> 'st \<times> (ToolError + json)" where
  "invoke_get h caller args st =
     (case json_get args ''id'' of
        None \<Rightarrow> (st, Inl (TeInvalidArgs ''missing `id`''))
      | Some i \<Rightarrow> lift_engine (ef_get (gh_engine h) caller (gh_schema h) i st))"

definition invoke_list :: "'st GeneratedHandler \<Rightarrow> Caller \<Rightarrow> json \<Rightarrow> 'st \<Rightarrow> 'st \<times> (ToolError + json)" where
  "invoke_list h caller args st = lift_engine
     (ef_list (gh_engine h) caller (gh_schema h) (arg_filters args) (arg_usize args ''limit'' 20)
        (arg_str args ''cursor'') (arg_str args ''order_by'')
        (case arg_str args ''direction'' of None \<Rightarrow> ''desc'' | Some d \<Rightarrow> d) st)"

definition invoke_list_relation :: "'st GeneratedHandler \<Rightarrow> Caller \<Rightarrow> json \<Rightarrow> 'st \<Rightarrow> 'st \<times> (ToolError + json)" where
  "invoke_list_relation h caller args st =
     (case gh_relation h of
        None \<Rightarrow> (st, Inl (TeBackend ''relation handler missing rel name''))
      | Some relation \<Rightarrow>
     (case json_get args ''parent_id'' of
        None \<Rightarrow> (st, Inl (TeInvalidArgs ''missing `parent_id`''))
      | Some parent_id \<Rightarrow> lift_engine
          (ef_list_relation (gh_engine h) caller (gh_schema h) relation parent_id
             (arg_usize args ''limit'' 20) (arg_str args ''cursor'') st)))"

definition invoke_aggregate :: "'st GeneratedHandler \<Rightarrow> Caller \<Rightarrow> json \<Rightarrow> 'st \<Rightarrow> 'st \<times> (ToolError + json)" where
  "invoke_aggregate h caller args st =
     (case gh_facet h of
        None \<Rightarrow> (st, Inl (TeBackend ''aggregate handler missing facet''))
      | Some facet \<Rightarrow> lift_engine
          (ef_aggregate (gh_engine h) caller (gh_schema h) facet (arg_filters args) (arg_usize args ''buckets'' 20) st))"

definition tool_invoke :: "'st GeneratedHandler \<Rightarrow> GwCaller \<Rightarrow> json \<Rightarrow> 'st \<Rightarrow> 'st \<times> (ToolError + json)" where
  "tool_invoke h caller args st =
     (let engine_caller = caller_to_engine caller
      in case gh_kind h of
           HkSearch \<Rightarrow> invoke_search h engine_caller args st
         | HkGet \<Rightarrow> invoke_get h engine_caller args st
         | HkList \<Rightarrow> invoke_list h engine_caller args st
         | HkListRelation \<Rightarrow> invoke_list_relation h engine_caller args st
         | HkAggregate \<Rightarrow> invoke_aggregate h engine_caller args st)"

section \<open>The registry\<close>

text \<open>
  The concurrent map of handlers by server and tool name; its iteration order is the order
  of the list, which no result depends on.
\<close>

type_synonym 'st ToolRegistry = "((string \<times> string) \<times> 'st GeneratedHandler) list"

definition tool_register :: "string \<Rightarrow> 'st GeneratedHandler \<Rightarrow> 'st ToolRegistry \<Rightarrow> 'st ToolRegistry" where
  "tool_register server h reg = AList.update (server, td_name (gh_descriptor h)) h reg"

definition list_for :: "'st ToolRegistry \<Rightarrow> string \<Rightarrow> ToolDescriptor list" where
  "list_for reg server = map (\<lambda>(k, h). gh_descriptor h) (filter (\<lambda>(k, h). fst k = server) reg)"

definition tool_get_handler :: "'st ToolRegistry \<Rightarrow> string \<Rightarrow> string \<Rightarrow> 'st GeneratedHandler option" where
  "tool_get_handler reg server name = map_of reg (server, name)"

section \<open>Registration at boot\<close>

definition SERVER_NAME :: string where "SERVER_NAME = ''sealstack''"

definition slug_char :: "string \<Rightarrow> char" where
  "slug_char ch = (case ch of [c] \<Rightarrow> if ascii_alnum c \<or> c = CHR ''_'' \<or> c = CHR ''-'' then c else CHR ''_'' | _ \<Rightarrow> CHR ''_'')"

definition slugify_for_tool_name :: "string \<Rightarrow> string" where
  "slugify_for_tool_name qualified = map slug_char (utf8_chars qualified)"

definition int_range :: "nat \<Rightarrow> nat \<Rightarrow> json" where
  "int_range lo hi = obj [(''type'', JString ''integer''), (''minimum'', jnat lo), (''maximum'', jnat hi)]"

definition input_object :: "(string \<times> json) list \<Rightarrow> string list \<Rightarrow> json" where
  "input_object props req = obj
     ([(''type'', JString ''object''), (''properties'', obj props)]
      @ (if req = [] then [] else [(''required'', jstrings req)]) @ [(''additionalProperties'', JBool False)])"

definition descriptor :: "string \<Rightarrow> string \<Rightarrow> string \<Rightarrow> json \<Rightarrow> ToolDescriptor" where
  "descriptor name title desc input =
     \<lparr>td_name = name, td_title = Some title, td_description = desc, td_input_schema = input,
      td_output_schema = None, td_annotations = None\<rparr>"

definition search_descriptor :: "string \<Rightarrow> string \<Rightarrow> ToolDescriptor" where
  "search_descriptor slug qualified =
     descriptor (''search_'' @ slug) (''Search '' @ qualified) (''Hybrid BM25 + vector search over '' @ qualified @ ''.'')
       (input_object [(''query'', jtype ''string''), (''top_k'', int_range 1 200), (''filters'', jtype ''object'')] [''query''])"

definition get_descriptor :: "string \<Rightarrow> string \<Rightarrow> ToolDescriptor" where
  "get_descriptor slug qualified =
     descriptor (''get_'' @ slug) (''Get '' @ qualified @ '' by id'')
       (''Fetch a single '' @ qualified @ '' record by primary key.'')
       (input_object [(''id'', obj [])] [''id''])"

definition list_descriptor :: "string \<Rightarrow> string \<Rightarrow> ToolDescriptor" where
  "list_descriptor slug qualified =
     descriptor (''list_'' @ slug) (''List '' @ qualified)
       (''List '' @ qualified @ '' records with optional filters and cursor pagination.'')
       (input_object [(''filters'', jtype ''object''), (''limit'', int_range 1 500), (''cursor'', jtype ''string''),
          (''order_by'', jtype ''string''),
          (''direction'', obj [(''type'', JString ''string''), (''enum'', jstrings [''asc'', ''desc''])])] [])"

definition list_relation_descriptor :: "string \<Rightarrow> string \<Rightarrow> string \<Rightarrow> ToolDescriptor" where
  "list_relation_descriptor slug qualified relation =
     descriptor (''list_'' @ slug @ ''_'' @ slugify_for_tool_name relation) (''List '' @ relation @ '' of '' @ qualified)
       (''List the `'' @ relation @ ''` related records for a parent '' @ qualified @ ''.'')
       (input_object [(''parent_id'', obj []), (''limit'', int_range 1 500), (''cursor'', jtype ''string'')] [''parent_id''])"

definition aggregate_descriptor :: "string \<Rightarrow> string \<Rightarrow> string \<Rightarrow> ToolDescriptor" where
  "aggregate_descriptor slug qualified facet =
     descriptor (''aggregate_'' @ slug @ ''_'' @ slugify_for_tool_name facet) (''Aggregate '' @ qualified @ '' by '' @ facet)
       (''Facet histogram over `'' @ facet @ ''` on '' @ qualified @ ''.'')
       (input_object [(''filters'', jtype ''object''), (''buckets'', int_range 1 1000)] [])"

text \<open>The names of the \<open>many\<close> relations, in the iteration order \<open>rels\<close> of the relation map.\<close>

definition many_relations :: "string list \<Rightarrow> SchemaMeta \<Rightarrow> string list" where
  "many_relations rels meta =
     filter (\<lambda>n. case sm_relations meta n of Some rel \<Rightarrow> rm_kind rel = KindMany | None \<Rightarrow> False) rels"

definition schema_handlers :: "'st EngineFacade \<Rightarrow> string list \<Rightarrow> SchemaMeta \<Rightarrow> 'st GeneratedHandler list" where
  "schema_handlers F rels meta =
     (let qualified = qualified_name meta; slug = slugify_for_tool_name qualified;
          handler = (\<lambda>d kind relation facet. \<lparr>gh_descriptor = d, gh_kind = kind, gh_schema = qualified,
                       gh_relation = relation, gh_facet = facet, gh_engine = F\<rparr>)
      in [handler (search_descriptor slug qualified) HkSearch None None,
          handler (get_descriptor slug qualified) HkGet None None,
          handler (list_descriptor slug qualified) HkList None None]
         @ map (\<lambda>r. handler (list_relation_descriptor slug qualified r) HkListRelation (Some r) None) (many_relations rels meta)
         @ map (\<lambda>f. handler (aggregate_descriptor slug qualified f) HkAggregate None (Some f)) (sm_facets meta))"

definition register_schema_tools :: "'st EngineFacade \<Rightarrow> string list \<Rightarrow> SchemaMeta \<Rightarrow> 'st ToolRegistry \<Rightarrow> 'st ToolRegistry \<times> nat" where
  "register_schema_tools F rels meta tools =
     (fold (tool_register SERVER_NAME) (schema_handlers F rels meta) tools, length (schema_handlers F rels meta))"

fun register_all :: "'st EngineFacade \<Rightarrow> (SchemaMeta \<Rightarrow> string list) \<Rightarrow> SchemaMeta list \<Rightarrow> 'st ToolRegistry \<Rightarrow> 'st ToolRegistry \<times> nat" where
  "register_all F rels [] tools = (tools, 0)"
| "register_all F rels (meta # metas) tools =
     (let (tools', n) = register_schema_tools F (rels meta) meta tools;
          (tools'', count) = register_all F rels metas tools'
      in (tools'', n + count))"

section \<open>The engine as a facade\<close>

text \<open>The world a gateway call changes: the database, and the supply of clocks and ULIDs.\<close>

record ('vs, 'db) World =
  wd_db :: 'db
  wd_vectors :: 'vs
  wd_calls :: nat

definition in_world :: "('vs, 'db) World \<Rightarrow> 'db \<times> 'r \<Rightarrow> ('vs, 'db) World \<times> 'r" where
  "in_world w r = (w\<lparr>wd_db := fst r, wd_calls := Suc (wd_calls w)\<rparr>, snd r)"

definition engine_facade :: "('vs, 'db) Engine \<Rightarrow> (nat \<Rightarrow> CallEnv) \<Rightarrow> ('vs, 'db) World EngineFacade" where
  "engine_facade E envs =
     \<lparr>ef_search = (\<lambda>c s q k f w. in_world w (facade_search E (envs (wd_calls w)) (wd_vectors w) (wd_db w) c s q k f)),
      ef_get = (\<lambda>c s i w. in_world w (facade_get E (envs (wd_calls w)) (wd_db w) c s i)),
      ef_list = (\<lambda>c s f l cu ob d w. in_world w (wd_db w, facade_list E (wd_db w) c s f l cu ob d)),
      ef_list_relation = (\<lambda>c s r p l cu w. in_world w (wd_db w, facade_list_relation E (wd_db w) c s r p l cu)),
      ef_aggregate = (\<lambda>c s fa f b w. in_world w (facade_aggregate E (envs (wd_calls w)) (wd_db w) c s fa f b))\<rparr>"

section \<open>What registration leaves in the registry\<close>

definition tool_name_of :: "'st GeneratedHandler \<Rightarrow> string" where
  "tool_name_of h = td_name (gh_descriptor h)"

definition all_handlers :: "'st EngineFacade \<Rightarrow> (SchemaMeta \<Rightarrow> string list) \<Rightarrow> SchemaMeta list \<Rightarrow> 'st GeneratedHandler list" where
  "all_handlers F rels metas = concat (map (\<lambda>m. schema_handlers F (rels m) m) metas)"

lemma register_all_fold:
  "register_all F rels metas tools =
     (fold (tool_register SERVER_NAME) (all_handlers F rels metas) tools, length (all_handlers F rels metas))"
  by (induction metas arbitrary: tools) (simp_all add: register_schema_tools_def all_handlers_def)

lemma map_of_register_fold:
  "map_of (fold (tool_register server) hs tools) (s, n) =
     (if s = server then (case find (\<lambda>h. tool_name_of h = n) (rev hs) of Some h \<Rightarrow> Some h | None \<Rightarrow> map_of tools (s, n))
      else map_of tools (s, n))"
proof (induction hs arbitrary: tools)
  case (Cons h hs)
  have "find P (xs @ [x]) = (case find P xs of Some y \<Rightarrow> Some y | None \<Rightarrow> if P x then Some x else None)"
    for P :: "'a GeneratedHandler \<Rightarrow> bool" and xs x by (induction xs) auto
  with Cons show ?case
    by (auto simp: tool_register_def update_conv tool_name_of_def split: option.splits)
qed simp

lemma distinct_register_fold:
  "distinct (map fst tools) \<Longrightarrow> distinct (map fst (fold (tool_register server) hs tools))"
  by (induction hs arbitrary: tools) (simp_all add: tool_register_def distinct_update)

lemma register_fold_keys:
  "\<forall>(k, h) \<in> set tools. k = (fst k, tool_name_of h) \<Longrightarrow>
   \<forall>(k, h) \<in> set (fold (tool_register server) hs tools). k = (fst k, tool_name_of h)"
proof (induction hs arbitrary: tools)
  case (Cons h hs)
  have "\<forall>(k, h) \<in> set (tool_register server h tools). k = (fst k, tool_name_of h)"
    using Cons.prems by (induction tools) (auto simp: tool_register_def tool_name_of_def)
  with Cons.IH show ?case by simp
qed simp

lemma find_distinct:
  "distinct (map f xs) \<Longrightarrow> x \<in> set xs \<Longrightarrow> find (\<lambda>y. f y = f x) (rev xs) = Some x"
proof -
  assume d: "distinct (map f xs)" and x: "x \<in> set xs"
  have "find (\<lambda>y. f y = f x) ys = Some x" if "distinct (map f ys)" "x \<in> set ys" for ys
    using that by (induction ys) (auto simp: image_iff)
  then show ?thesis using d x by (simp add: rev_map [symmetric] distinct_rev)
qed

text \<open>When no two tool names collide, every generated handler is found under its name.\<close>

lemma registered_handler:
  assumes "distinct (map tool_name_of (all_handlers F rels metas))" and "h \<in> set (all_handlers F rels metas)"
  shows "tool_get_handler (fst (register_all F rels metas [])) SERVER_NAME (tool_name_of h) = Some h"
  using find_distinct [OF assms]
  by (simp add: tool_get_handler_def register_all_fold map_of_register_fold)

end
