(* ===== verification/Gateway_Protocol.thy ===== *)
theory Gateway_Protocol
  imports Gateway_Tools Csl_Load
begin

text \<open>
  The JSON-RPC dispatcher of the gateway (\<open>sealstack-gateway/src/mcp/protocol.rs\<close>, the envelopes
  of \<open>types.rs\<close>): reading a request from a JSON value, the methods, and the error codes. The
  texts of serde's error messages are parameters.
\<close>

section \<open>Envelopes\<close>

record JsonRpcRequest =
  jr_jsonrpc :: string
  jr_id :: "json option"
  jr_method :: string
  jr_params :: "json option"

record JsonRpcError =
  je_code :: int
  je_message :: string
  je_data :: "json option"

record JsonRpcResponse =
  jp_jsonrpc :: string
  jp_id :: json
  jp_result :: "json option"
  jp_error :: "JsonRpcError option"

definition PARSE_ERROR :: int where "PARSE_ERROR = - 32700"
definition INVALID_REQUEST :: int where "INVALID_REQUEST = - 32600"
definition METHOD_NOT_FOUND :: int where "METHOD_NOT_FOUND = - 32601"
definition INVALID_PARAMS :: int where "INVALID_PARAMS = - 32602"
definition INTERNAL_ERROR :: int where "INTERNAL_ERROR = - 32603"
definition UNAUTHORIZED :: int where "UNAUTHORIZED = - 32001"
definition POLICY_DENIED :: int where "POLICY_DENIED = - 32002"

definition rpc_error :: "int \<Rightarrow> string \<Rightarrow> JsonRpcError" where
  "rpc_error code message = \<lparr>je_code = code, je_message = message, je_data = None\<rparr>"

definition json_int :: "int \<Rightarrow> json" where
  "json_int i = JNumber (if 0 \<le> i then PosInt (word_of_int i) else NegInt (word_of_int i))"

definition rpc_error_value :: "JsonRpcError \<Rightarrow> json" where
  "rpc_error_value e = obj
     ([(''code'', json_int (je_code e)), (''message'', JString (je_message e))] @ optional_entry ''data'' id (je_data e))"

definition rpc_response_value :: "JsonRpcResponse \<Rightarrow> json" where
  "rpc_response_value r = obj
     ([(''jsonrpc'', JString (jp_jsonrpc r)), (''id'', jp_id r)] @ optional_entry ''result'' id (jp_result r)
      @ optional_entry ''error'' rpc_error_value (jp_error r))"

section \<open>Reading requests\<close>

definition read_request :: "json \<Rightarrow> JsonRpcRequest option" where
  "read_request v =
     (case struct_fields [''jsonrpc'', ''id'', ''method'', ''params''] v of
        Some [jsonrpc, i, method, params] \<Rightarrow>
          Option.bind (string_field jsonrpc) (\<lambda>j.
          Option.bind (string_field method) (\<lambda>m.
            Some \<lparr>jr_jsonrpc = j, jr_id = optional_value i, jr_method = m, jr_params = optional_value params\<rparr>))
      | _ \<Rightarrow> None)"

record ToolsCallParams =
  tp_name :: string
  tp_arguments :: json

definition read_call_params :: "json \<Rightarrow> ToolsCallParams option" where
  "read_call_params v =
     (case struct_fields [''name'', ''arguments''] v of
        Some [name, arguments] \<Rightarrow>
          map_option (\<lambda>n. \<lparr>tp_name = n, tp_arguments = (case arguments of None \<Rightarrow> JNull | Some a \<Rightarrow> a)\<rparr>) (string_field name)
      | _ \<Rightarrow> None)"

text \<open>The client's capabilities have a flattened rest, so they are read from objects only.\<close>

definition reads_client_info :: "json option \<Rightarrow> bool" where
  "reads_client_info v \<longleftrightarrow>
     (case Option.bind v (struct_fields [''name'', ''version'']) of
        Some [name, version] \<Rightarrow> string_field name \<noteq> None \<and> string_field version \<noteq> None
      | _ \<Rightarrow> False)"

definition reads_initialize_params :: "json \<Rightarrow> bool" where
  "reads_initialize_params v \<longleftrightarrow>
     (case struct_fields [''protocolVersion'', ''capabilities'', ''clientInfo''] v of
        Some [version, capabilities, client_info] \<Rightarrow>
          string_field version \<noteq> None
          \<and> (case capabilities of None \<Rightarrow> True | Some c \<Rightarrow> json_as_object c \<noteq> None)
          \<and> reads_client_info client_info
      | _ \<Rightarrow> False)"

text \<open>The messages of serde for a value it rejects.\<close>

record SerdeTexts =
  st_request :: "json \<Rightarrow> string"
  st_call :: "json \<Rightarrow> string"
  st_initialize :: "json \<Rightarrow> string"

section \<open>Methods\<close>

definition PROTOCOL_VERSION :: string where "PROTOCOL_VERSION = ''2025-11-25''"

definition server_info :: "string \<Rightarrow> json" where
  "server_info pkg_version = obj [(''name'', JString ''sealstack-gateway''), (''version'', JString pkg_version)]"

definition initialize_result :: "string \<Rightarrow> json" where
  "initialize_result pkg_version = obj
     [(''protocolVersion'', JString PROTOCOL_VERSION),
      (''capabilities'', obj
        [(''tools'', obj [(''listChanged'', JBool True)]),
         (''resources'', obj [(''subscribe'', JBool False), (''listChanged'', JBool True)]),
         (''logging'', obj [])]),
      (''serverInfo'', server_info pkg_version)]"

definition handle_initialize :: "SerdeTexts \<Rightarrow> string \<Rightarrow> json option \<Rightarrow> JsonRpcError + json" where
  "handle_initialize texts pkg_version params =
     (case params of
        None \<Rightarrow> Inl (rpc_error INVALID_PARAMS ''initialize requires params'')
      | Some v \<Rightarrow> if reads_initialize_params v then Inr (initialize_result pkg_version)
                  else Inl (rpc_error INVALID_PARAMS (st_initialize texts v)))"

definition name_before :: "ToolDescriptor \<Rightarrow> ToolDescriptor \<Rightarrow> bool" where
  "name_before a b = byte_less (td_name a) (td_name b)"

definition sorted_tools :: "'st ToolRegistry \<Rightarrow> string \<Rightarrow> ToolDescriptor list" where
  "sorted_tools reg server = sort_by name_before (list_for reg server)"

definition handle_tools_list :: "string \<Rightarrow> 'st ToolRegistry \<Rightarrow> JsonRpcError + json" where
  "handle_tools_list server reg = Inr (obj [(''tools'', JArray (map descriptor_value (sorted_tools reg server)))])"

definition call_result :: "json \<Rightarrow> json" where
  "call_result payload = obj
     [(''content'', JArray [obj [(''type'', JString ''json''), (''json'', payload)]]),
      (''isError'', JBool False), (''structuredContent'', payload)]"

fun tool_error_code :: "ToolError \<Rightarrow> JsonRpcError" where
  "tool_error_code (TeInvalidArgs msg) = rpc_error INVALID_PARAMS msg"
| "tool_error_code TeUnauthorized = rpc_error UNAUTHORIZED ''unauthorized''"
| "tool_error_code TePolicyDenied = rpc_error POLICY_DENIED ''policy denied''"
| "tool_error_code TeNotFound = rpc_error (- 32004) ''not found''"
| "tool_error_code TeUnimplemented = rpc_error (- 32010) ''unimplemented''"
| "tool_error_code (TeBackend msg) = rpc_error INTERNAL_ERROR msg"

definition call_outcome :: "'st \<times> (ToolError + json) \<Rightarrow> 'st \<times> (JsonRpcError + json)" where
  "call_outcome r = (case r of (st, Inl e) \<Rightarrow> (st, Inl (tool_error_code e)) | (st, Inr payload) \<Rightarrow> (st, Inr (call_result payload)))"

definition handle_tools_call :: "SerdeTexts \<Rightarrow> string \<Rightarrow> 'st ToolRegistry \<Rightarrow> GwCaller \<Rightarrow> json option \<Rightarrow> 'st
    \<Rightarrow> 'st \<times> (JsonRpcError + json)" where
  "handle_tools_call texts server reg caller params st =
     (case params of
        None \<Rightarrow> (st, Inl (rpc_error INVALID_PARAMS ''tools/call requires params''))
      | Some v \<Rightarrow>
     (case read_call_params v of
        None \<Rightarrow> (st, Inl (rpc_error INVALID_PARAMS (st_call texts v)))
      | Some p \<Rightarrow>
     (case tool_get_handler reg server (tp_name p) of
        None \<Rightarrow> (st, Inl (rpc_error METHOD_NOT_FOUND
                   (''tool `'' @ tp_name p @ ''` not found on server `'' @ server @ ''`'')))
      | Some h \<Rightarrow> call_outcome (tool_invoke h caller (tp_arguments p) st))))"

definition handle_resources_list :: "string \<Rightarrow> JsonRpcError + json" where
  "handle_resources_list server = Inr (obj [(''resources'', JArray [])])"

definition run_method :: "SerdeTexts \<Rightarrow> string \<Rightarrow> string \<Rightarrow> 'st ToolRegistry \<Rightarrow> GwCaller \<Rightarrow> JsonRpcRequest \<Rightarrow> 'st
    \<Rightarrow> 'st \<times> (JsonRpcError + json)" where
  "run_method texts pkg_version server reg caller req st =
     (let method = jr_method req
      in if method = ''initialize'' then (st, handle_initialize texts pkg_version (jr_params req))
         else if method = ''tools/list'' then (st, handle_tools_list server reg)
         else if method = ''tools/call'' then handle_tools_call texts server reg caller (jr_params req) st
         else if method = ''resources/list'' then (st, handle_resources_list server)
         else if method = ''ping'' then (st, Inr (obj []))
         else (st, Inl (rpc_error METHOD_NOT_FOUND
                (''method `'' @ method @ ''` is not supported by SealStack v0.1''))))"

definition rpc_reply :: "json \<Rightarrow> JsonRpcError + json \<Rightarrow> JsonRpcResponse" where
  "rpc_reply i r =
     (case r of
        Inr v \<Rightarrow> \<lparr>jp_jsonrpc = ''2.0'', jp_id = i, jp_result = Some v, jp_error = None\<rparr>
      | Inl e \<Rightarrow> \<lparr>jp_jsonrpc = ''2.0'', jp_id = i, jp_result = None, jp_error = Some e\<rparr>)"

definition dispatch :: "SerdeTexts \<Rightarrow> string \<Rightarrow> string \<Rightarrow> 'st ToolRegistry \<Rightarrow> GwCaller \<Rightarrow> JsonRpcRequest \<Rightarrow> 'st
    \<Rightarrow> 'st \<times> JsonRpcResponse option" where
  "dispatch texts pkg_version server reg caller req st =
     (case jr_id req of
        None \<Rightarrow> (st, None)
      | Some i \<Rightarrow> (case run_method texts pkg_version server reg caller req st of
          (st', r) \<Rightarrow> (st', Some (rpc_reply i r))))"

text \<open>A batch: items are answered in order; one that is no request is answered with a null id.\<close>

definition rpc_parse_failure :: "SerdeTexts \<Rightarrow> json \<Rightarrow> JsonRpcResponse" where
  "rpc_parse_failure texts v = rpc_reply JNull (Inl (rpc_error PARSE_ERROR (st_request texts v)))"

fun dispatch_batch :: "SerdeTexts \<Rightarrow> string \<Rightarrow> string \<Rightarrow> 'st ToolRegistry \<Rightarrow> GwCaller \<Rightarrow> json list \<Rightarrow> 'st
    \<Rightarrow> 'st \<times> JsonRpcResponse list" where
  "dispatch_batch texts pkg server reg caller [] st = (st, [])"
| "dispatch_batch texts pkg server reg caller (item # items) st =
     (case read_request item of
        Some req \<Rightarrow>
          (case dispatch texts pkg server reg caller req st of
             (st', r) \<Rightarrow> apsnd (\<lambda>out. (case r of None \<Rightarrow> out | Some resp \<Rightarrow> resp # out))
               (dispatch_batch texts pkg server reg caller items st'))
      | None \<Rightarrow> apsnd (Cons (rpc_parse_failure texts item)) (dispatch_batch texts pkg server reg caller items st))"

section \<open>Replies\<close>

text \<open>The id a batch item is answered under: none for a notification.\<close>

definition reply_id :: "json \<Rightarrow> json option" where
  "reply_id item = (case read_request item of None \<Rightarrow> Some JNull | Some req \<Rightarrow> jr_id req)"

definition well_formed_reply :: "JsonRpcResponse \<Rightarrow> bool" where
  "well_formed_reply r \<longleftrightarrow> jp_jsonrpc r = ''2.0'' \<and> (jp_result r = None) \<noteq> (jp_error r = None)"

lemma rpc_reply_simps [simp]: "well_formed_reply (rpc_reply i r)" "jp_id (rpc_reply i r) = i"
  by (cases r; simp add: rpc_reply_def well_formed_reply_def)+

lemma dispatch_batch_replies:
  "map jp_id (snd (dispatch_batch texts pkg server reg caller items st)) = List.map_filter reply_id items
   \<and> (\<forall>r \<in> set (snd (dispatch_batch texts pkg server reg caller items st)). well_formed_reply r)"
proof (induction items arbitrary: st)
  case (Cons item items)
  show ?case
  proof (cases "read_request item")
    case None
    with Cons [of st] show ?thesis
      by (simp add: reply_id_def List.map_filter_simps rpc_parse_failure_def)
  next
    case (Some req)
    obtain st' r where d: "dispatch texts pkg server reg caller req st = (st', r)" by fastforce
    then have "r = None \<and> jr_id req = None \<or> (\<exists>i x. r = Some (rpc_reply i x) \<and> jr_id req = Some i)"
      by (auto simp: dispatch_def split: option.splits prod.splits)
    with Some d Cons [of st'] show ?thesis
      by (auto simp: reply_id_def List.map_filter_simps)
  qed
qed (simp add: List.map_filter_simps)

end
