(* ===== verification/Gateway_Transport.thy ===== *)
theory Gateway_Transport
  imports Gateway_Protocol Sdk_Http
begin

text \<open>
  Authentication and transport of the gateway (\<open>sealstack-gateway/src/auth.rs\<close>,
  \<open>mcp/transport.rs\<close>): the bearer middleware, the session table, and the POST, GET and DELETE
  handlers. The validation of a JWT is a parameter, as are clocks and ULIDs.
\<close>

section \<open>Authentication\<close>

datatype AuthMode = Disabled | Hs256 string "string list" "string list"

definition split_csv :: "(string \<Rightarrow> string option) \<Rightarrow> string \<Rightarrow> string list" where
  "split_csv env var =
     (case env var of None \<Rightarrow> [] | Some v \<Rightarrow> filter (\<lambda>s. s \<noteq> []) (map trim (split_char (CHR '','') v)))"

definition auth_mode_from_env :: "(string \<Rightarrow> string option) \<Rightarrow> AuthMode" where
  "auth_mode_from_env env =
     (let mode = (case env ''SEALSTACK_AUTH_MODE'' of None \<Rightarrow> ''disabled'' | Some m \<Rightarrow> m)
      in if mode = ''hs256'' then
           (let secret = (case env ''SEALSTACK_AUTH_HS256_SECRET'' of None \<Rightarrow> [] | Some s \<Rightarrow> s)
            in if secret = [] then Disabled
               else Hs256 secret (split_csv env ''SEALSTACK_AUTH_ISSUERS'') (split_csv env ''SEALSTACK_AUTH_AUDIENCES''))
         else Disabled)"

fun auth_enforces :: "AuthMode \<Rightarrow> bool" where
  "auth_enforces (Hs256 secret issuers audiences) = True"
| "auth_enforces Disabled = False"

record AuthenticatedCaller =
  au_id :: string
  au_tenant :: string
  au_roles :: "string list"
  au_attrs :: metadata

record Claims =
  cm_sub :: string
  cm_tenant :: string
  cm_roles :: "string list"
  cm_extras :: metadata

text \<open>
  The decoder of the crate \<open>jsonwebtoken\<close>: the issuers and audiences are checked when given.
\<close>

record Validation =
  vd_secret :: string
  vd_issuers :: "string list option"
  vd_audiences :: "string list option"

type_synonym jwt_decode = "string \<Rightarrow> Validation \<Rightarrow> string + Claims"

definition anonymous_caller :: AuthenticatedCaller where
  "anonymous_caller = \<lparr>au_id = ''anonymous'', au_tenant = [], au_roles = [], au_attrs = []\<rparr>"

definition validation_of :: "string \<Rightarrow> string list \<Rightarrow> string list \<Rightarrow> Validation" where
  "validation_of secret issuers audiences =
     \<lparr>vd_secret = secret, vd_issuers = (if issuers = [] then None else Some issuers),
      vd_audiences = (if audiences = [] then None else Some audiences)\<rparr>"

definition authenticated_of :: "Claims \<Rightarrow> AuthenticatedCaller" where
  "authenticated_of c = \<lparr>au_id = cm_sub c, au_tenant = cm_tenant c, au_roles = cm_roles c, au_attrs = cm_extras c\<rparr>"

definition extract_and_validate :: "jwt_decode \<Rightarrow> u8 list option \<Rightarrow> string \<Rightarrow> string list \<Rightarrow> string list
    \<Rightarrow> string + AuthenticatedCaller" where
  "extract_and_validate decode authorization secret issuers audiences =
     (case authorization of
        None \<Rightarrow> Inl ''missing Authorization header''
      | Some raw \<Rightarrow>
     (case to_str raw of
        None \<Rightarrow> Inl ''invalid Authorization header encoding''
      | Some auth \<Rightarrow>
     (case strip_prefix auth ''Bearer '' of
        None \<Rightarrow> Inl ''Authorization scheme must be Bearer''
      | Some token \<Rightarrow>
     (case decode token (validation_of secret issuers audiences) of
        Inl e \<Rightarrow> Inl (''invalid token: '' @ e)
      | Inr claims \<Rightarrow> Inr (authenticated_of claims)))))"

definition authenticate :: "jwt_decode \<Rightarrow> AuthMode \<Rightarrow> u8 list option \<Rightarrow> string + AuthenticatedCaller" where
  "authenticate decode mode authorization =
     (case mode of
        Disabled \<Rightarrow> Inr anonymous_caller
      | Hs256 secret issuers audiences \<Rightarrow> extract_and_validate decode authorization secret issuers audiences)"

text \<open>An HTTP answer: its status, headers and JSON body.\<close>

record HttpAnswer =
  an_status :: nat
  an_headers :: "(string \<times> string) list"
  an_body :: "json option"

definition unauthorized :: "string \<Rightarrow> HttpAnswer" where
  "unauthorized reason =
     \<lparr>an_status = 401,
      an_headers = [(''www-authenticate'', ''Bearer realm='' @ dq @ ''sealstack'' @ dq @ '', error='' @ dq @ ''invalid_token'' @ dq
         @ '', resource_metadata='' @ dq @ ''/.well-known/oauth-protected-resource'' @ dq)],
      an_body = Some (obj [(''data'', JNull),
         (''error'', obj [(''code'', JString ''unauthorized''), (''message'', JString reason)])])\<rparr>"

section \<open>Sessions\<close>

type_synonym tick = nat

record Session =
  sn_id :: string
  sn_created :: tick
  sn_last_seen :: tick
  sn_caller :: GwCaller
  sn_protocol_version :: string

record 'st TransportState =
  tr_registry :: "'st ToolRegistry"
  tr_sessions :: "string \<Rightarrow> Session option"
  tr_session_ttl :: duration

definition DEFAULT_SESSION_TTL :: duration where "DEFAULT_SESSION_TTL = secs (30 * 60)"

definition SESSION_HEADER :: string where "SESSION_HEADER = ''mcp-session-id''"

definition transport_new :: "'st ToolRegistry \<Rightarrow> 'st TransportState" where
  "transport_new reg = \<lparr>tr_registry = reg, tr_sessions = Map.empty, tr_session_ttl = DEFAULT_SESSION_TTL\<rparr>"

text \<open>What a request reads from its surroundings: two clock readings and a ULID.\<close>

record RequestEnv =
  rq_reap_now :: tick
  rq_now :: tick
  rq_ulid :: string

definition reap_expired :: "tick \<Rightarrow> 'st TransportState \<Rightarrow> 'st TransportState" where
  "reap_expired now s = s\<lparr>tr_sessions := (\<lambda>k. case tr_sessions s k of
       None \<Rightarrow> None
     | Some sn \<Rightarrow> if now - sn_last_seen sn < tr_session_ttl s then Some sn else None)\<rparr>"

definition session_caller :: "AuthenticatedCaller \<Rightarrow> GwCaller" where
  "session_caller a =
     \<lparr>gc_id = au_id a, gc_tenant = au_tenant a, gc_groups = [], gc_roles = au_roles a, gc_attrs = au_attrs a\<rparr>"

definition issue_session :: "RequestEnv \<Rightarrow> AuthenticatedCaller \<Rightarrow> 'st TransportState
    \<Rightarrow> 'st TransportState \<times> string \<times> GwCaller" where
  "issue_session env auth s =
     (let caller = session_caller auth; sid = rq_ulid env
      in (s\<lparr>tr_sessions := (tr_sessions s)(sid \<mapsto> \<lparr>sn_id = sid, sn_created = rq_now env, sn_last_seen = rq_now env,
              sn_caller = caller, sn_protocol_version = PROTOCOL_VERSION\<rparr>)\<rparr>, sid, caller))"

definition resolve_session :: "RequestEnv \<Rightarrow> u8 list option \<Rightarrow> AuthenticatedCaller \<Rightarrow> 'st TransportState
    \<Rightarrow> 'st TransportState \<times> string \<times> GwCaller" where
  "resolve_session env header auth s0 =
     (let s = reap_expired (rq_reap_now env) s0
      in case Option.bind header to_str of
           None \<Rightarrow> issue_session env auth s
         | Some sid \<Rightarrow>
             (case tr_sessions s sid of
                None \<Rightarrow> issue_session env auth s
              | Some sn \<Rightarrow>
                  (s\<lparr>tr_sessions := (tr_sessions s)(sid \<mapsto> sn\<lparr>sn_last_seen := rq_now env\<rparr>)\<rparr>, sn_id sn, sn_caller sn)))"

section \<open>Handlers\<close>

definition header_value_ok :: "string \<Rightarrow> bool" where
  "header_value_ok s \<longleftrightarrow> list_all (\<lambda>c. (32 \<le> (of_char c :: nat) \<and> (of_char c :: nat) \<noteq> 127) \<or> (of_char c :: nat) = 9) s"

definition json_answer :: "nat \<Rightarrow> json \<Rightarrow> HttpAnswer" where
  "json_answer status v = \<lparr>an_status = status, an_headers = [(''content-type'', ''application/json'')], an_body = Some v\<rparr>"

definition empty_answer :: "nat \<Rightarrow> HttpAnswer" where
  "empty_answer status = \<lparr>an_status = status, an_headers = [], an_body = None\<rparr>"

definition rpc_answer :: "string \<Rightarrow> JsonRpcResponse list \<Rightarrow> HttpAnswer" where
  "rpc_answer sid responses =
     (let body = (case responses of [r] \<Rightarrow> rpc_response_value r | _ \<Rightarrow> JArray (map rpc_response_value responses));
          a = json_answer 200 body
      in a\<lparr>an_headers := an_headers a
             @ [(SESSION_HEADER, if header_value_ok sid then sid else ''invalid''), (''cache-control'', ''no-store'')]\<rparr>)"

definition handle_post :: "SerdeTexts \<Rightarrow> string \<Rightarrow> RequestEnv \<Rightarrow> string \<Rightarrow> u8 list option \<Rightarrow> AuthenticatedCaller \<Rightarrow> json
    \<Rightarrow> 'st TransportState \<times> 'st \<Rightarrow> ('st TransportState \<times> 'st) \<times> HttpAnswer" where
  "handle_post texts pkg env server header auth body w =
     (case resolve_session env header auth (fst w) of
        (s, sid, caller) \<Rightarrow>
          (case body of
             JArray items \<Rightarrow>
               (case dispatch_batch texts pkg server (tr_registry s) caller items (snd w) of
                  (st, responses) \<Rightarrow> ((s, st), rpc_answer sid responses))
           | _ \<Rightarrow>
               (case read_request body of
                  None \<Rightarrow> ((s, snd w), json_answer 400 (rpc_response_value (rpc_parse_failure texts body)))
                | Some req \<Rightarrow>
                    (case dispatch texts pkg server (tr_registry s) caller req (snd w) of
                       (st, None) \<Rightarrow> ((s, st), empty_answer 202)
                     | (st, Some r) \<Rightarrow> ((s, st), rpc_answer sid [r])))))"

definition handle_get :: "HttpAnswer" where
  "handle_get = \<lparr>an_status = 200, an_headers = [(''content-type'', ''text/event-stream'')], an_body = None\<rparr>"

definition handle_delete :: "u8 list option \<Rightarrow> 'st TransportState \<Rightarrow> 'st TransportState \<times> HttpAnswer" where
  "handle_delete header s =
     (case Option.bind header to_str of
        None \<Rightarrow> (s, empty_answer 204)
      | Some sid \<Rightarrow> (s\<lparr>tr_sessions := (tr_sessions s)(sid := None)\<rparr>, empty_answer 204))"

text \<open>The middleware in front of the three handlers.\<close>

datatype McpMethod = McpPost json | McpGet | McpDelete

record McpRequest =
  mr_method :: McpMethod
  mr_server :: string
  mr_authorization :: "u8 list option"
  mr_session :: "u8 list option"
  mr_env :: RequestEnv

definition require_bearer :: "jwt_decode \<Rightarrow> AuthMode \<Rightarrow> u8 list option
    \<Rightarrow> (AuthenticatedCaller \<Rightarrow> 'w \<Rightarrow> 'w \<times> HttpAnswer) \<Rightarrow> 'w \<Rightarrow> 'w \<times> HttpAnswer" where
  "require_bearer decode mode authorization inner w =
     (case authenticate decode mode authorization of
        Inl reason \<Rightarrow> (w, unauthorized reason)
      | Inr auth \<Rightarrow> inner auth w)"

definition mcp_route :: "SerdeTexts \<Rightarrow> string \<Rightarrow> McpRequest \<Rightarrow> AuthenticatedCaller
    \<Rightarrow> 'st TransportState \<times> 'st \<Rightarrow> ('st TransportState \<times> 'st) \<times> HttpAnswer" where
  "mcp_route texts pkg req auth w =
     (case mr_method req of
        McpPost body \<Rightarrow> handle_post texts pkg (mr_env req) (mr_server req) (mr_session req) auth body w
      | McpGet \<Rightarrow> (w, handle_get)
      | McpDelete \<Rightarrow> (case handle_delete (mr_session req) (fst w) of (s, a) \<Rightarrow> ((s, snd w), a)))"

definition mcp_serve :: "jwt_decode \<Rightarrow> AuthMode \<Rightarrow> SerdeTexts \<Rightarrow> string \<Rightarrow> McpRequest
    \<Rightarrow> 'st TransportState \<times> 'st \<Rightarrow> ('st TransportState \<times> 'st) \<times> HttpAnswer" where
  "mcp_serve decode mode texts pkg req =
     require_bearer decode mode (mr_authorization req) (mcp_route texts pkg req)"

end
