(* ===== verification/Ingest_Runtime.thy ===== *)
theory Ingest_Runtime
  imports Engine_Ingest Engine_Store Sdk_Types "HOL-Library.AList"
begin

text \<open>
  The ingest runtime (\<open>sealstack-ingest/src/runtime.rs\<close>, \<open>registry.rs\<close>, \<open>chunkers.rs\<close>, \<open>parsers.rs\<close>) and the
  part of the gateway's state that drives it (\<open>sealstack-gateway/src/server.rs\<close>): bindings of
  connectors to schemas, a sync cycle, the background loops, and the rebuilding of the
  bindings at boot. A connector acts on an external world; its list is a finite stream.
\<close>

section \<open>Bindings\<close>

record 'w ConnectorBinding =
  cb_connector :: "'w Connector"
  cb_target_namespace :: string
  cb_target_schema :: string
  cb_tenant :: string
  cb_interval :: "duration option"

definition binding_id :: "'w ConnectorBinding \<Rightarrow> string" where
  "binding_id b = cn_name (cb_connector b) @ ''/'' @ cb_target_namespace b @ ''.'' @ cb_target_schema b"

record ConnectorBindingInfo =
  bi_id :: string
  bi_connector :: string
  bi_version :: string
  bi_namespace :: string
  bi_schema :: string
  bi_tenant :: string
  bi_interval_secs :: "nat option"

type_synonym 'w ConnectorRegistry = "(string \<times> 'w ConnectorBinding) list"

definition binding_register :: "'w ConnectorBinding \<Rightarrow> 'w ConnectorRegistry \<Rightarrow> 'w ConnectorRegistry" where
  "binding_register b reg = AList.update (binding_id b) b reg"

definition binding_deregister :: "string \<Rightarrow> 'w ConnectorRegistry \<Rightarrow> 'w ConnectorRegistry \<times> bool" where
  "binding_deregister i reg = (AList.delete i reg, map_of reg i \<noteq> None)"

definition binding_get :: "'w ConnectorRegistry \<Rightarrow> string \<Rightarrow> 'w ConnectorBinding option" where
  "binding_get reg i = map_of reg i"

definition binding_list :: "'w ConnectorRegistry \<Rightarrow> 'w ConnectorBinding list" where
  "binding_list reg = map snd reg"

definition binding_info :: "'w ConnectorBinding \<Rightarrow> ConnectorBindingInfo" where
  "binding_info b =
     \<lparr>bi_id = binding_id b, bi_connector = cn_name (cb_connector b), bi_version = cn_version (cb_connector b),
      bi_namespace = cb_target_namespace b, bi_schema = cb_target_schema b, bi_tenant = cb_tenant b,
      bi_interval_secs = map_option dur_secs (cb_interval b)\<rparr>"

definition binding_list_info :: "'w ConnectorRegistry \<Rightarrow> ConnectorBindingInfo list" where
  "binding_list_info reg = map (\<lambda>(i, b). binding_info b) reg"

section \<open>Chunkers and parsers of the crate\<close>

text \<open>Chunks of a number of characters; a Rust string is chunked by characters, not bytes.\<close>

fun chunks_of :: "nat \<Rightarrow> 'a list \<Rightarrow> 'a list list" where
  "chunks_of n [] = []"
| "chunks_of n (x # xs) = (x # take (n - 1) xs) # chunks_of n (drop (n - 1) xs)"

definition fixed_chars :: "string \<Rightarrow> nat \<Rightarrow> string list" where
  "fixed_chars text' size' = (if size' = 0 then [text'] else map concat (chunks_of size' (utf8_chars text')))"

definition markdown_to_text :: "string \<Rightarrow> string" where
  "markdown_to_text src = src"

section \<open>A sync cycle\<close>

datatype SyncOutcomeKind = SyncCompleted | SyncFailedList | SyncCancelled | SyncNotFound

text \<open>The counters are unbounded here; a stream of \<open>2^64\<close> resources does not fit a process.\<close>

record SyncOutcome =
  so_binding_id :: string
  so_kind :: SyncOutcomeKind
  so_resources_seen :: nat
  so_resources_ingested :: nat
  so_resources_failed :: nat
  so_chunks_written :: nat
  so_started_at :: timestamp
  so_finished_at :: timestamp
  so_elapsed_ms :: nat
  so_error :: "string option"
  so_first_resource_error :: "string option"

record ('w, 'vs, 'db) Runtime =
  rn_schemas :: SchemaRegistry
  rn_ingestor :: "('vs, 'db) Ingestor"
  rn_ids :: "nat \<Rightarrow> IngestIds"

text \<open>What the loops change: the external world, the stores, and the supply of identifiers.\<close>

record ('w, 'vs, 'db) RunState =
  rw_world :: 'w
  rw_stores :: "('vs, 'db) IngestState"
  rw_fresh :: nat

text \<open>What a cycle reads of the clocks.\<close>

record SyncClock =
  sc_started :: timestamp
  sc_finished :: timestamp
  sc_elapsed_ms :: nat

definition count_result :: "EngineError + IngestOutcome \<Rightarrow> SyncOutcome \<Rightarrow> SyncOutcome" where
  "count_result r out =
     (case r of
        Inr res \<Rightarrow> out\<lparr>so_resources_ingested := so_resources_ingested out + 1,
                       so_chunks_written := so_chunks_written out + io_chunks_written res\<rparr>
      | Inl e \<Rightarrow> out\<lparr>so_resources_failed := so_resources_failed out + 1,
                     so_first_resource_error := (case so_first_resource_error out of
                        None \<Rightarrow> Some (show_engine_error e) | Some m \<Rightarrow> Some m)\<rparr>)"

definition ingest_step :: "('w, 'vs, 'db) Runtime \<Rightarrow> SchemaMeta \<Rightarrow> string \<Rightarrow> Resource \<Rightarrow> ('w, 'vs, 'db) RunState
    \<Rightarrow> ('w, 'vs, 'db) RunState \<times> (EngineError + IngestOutcome)" where
  "ingest_step R meta tenant r st =
     (case ingest (rn_ingestor R) (rn_ids R (rw_fresh st)) meta tenant r (rw_stores st) of
        (stores, res) \<Rightarrow> (st\<lparr>rw_stores := stores, rw_fresh := Suc (rw_fresh st)\<rparr>, res))"

fun sync_loop :: "('w, 'vs, 'db) Runtime \<Rightarrow> SchemaMeta \<Rightarrow> string \<Rightarrow> Resource list \<Rightarrow> ('w, 'vs, 'db) RunState \<Rightarrow> SyncOutcome
    \<Rightarrow> ('w, 'vs, 'db) RunState \<times> SyncOutcome" where
  "sync_loop R meta tenant [] st out = (st, out)"
| "sync_loop R meta tenant (r # rs) st out =
     (case ingest_step R meta tenant r st of
        (st', res) \<Rightarrow> sync_loop R meta tenant rs st'
          (count_result res (out\<lparr>so_resources_seen := so_resources_seen out + 1\<rparr>)))"

definition run_sync :: "('w, 'vs, 'db) Runtime \<Rightarrow> 'w ConnectorBinding \<Rightarrow> ('w, 'vs, 'db) RunState \<Rightarrow> SyncOutcome
    \<Rightarrow> ('w, 'vs, 'db) RunState \<times> SyncOutcome \<times> (SealStackError + unit)" where
  "run_sync R b st out =
     (case registry_get (rn_schemas R) (cb_target_namespace b) (cb_target_schema b) of
        Inl (EeUnknownSchema ns schema) \<Rightarrow> (st, out,
          Inl (SeConfig (''target schema `'' @ ns @ ''.'' @ schema @ ''` is not registered with the engine'')))
      | Inl other \<Rightarrow> (st, out, Inl (SeBackend (show_engine_error other)))
      | Inr meta \<Rightarrow>
          (case cn_list (cb_connector b) (rw_world st) of
             (w, Inl e) \<Rightarrow> (st\<lparr>rw_world := w\<rparr>, out, Inl e)
           | (w, Inr resources) \<Rightarrow>
               (case sync_loop R meta (cb_tenant b) resources (st\<lparr>rw_world := w\<rparr>) out of
                  (st', out') \<Rightarrow> (st', out', Inr ()))))"

definition outcome_init :: "string \<Rightarrow> timestamp \<Rightarrow> SyncOutcome" where
  "outcome_init i started =
     \<lparr>so_binding_id = i, so_kind = SyncCompleted, so_resources_seen = 0, so_resources_ingested = 0,
      so_resources_failed = 0, so_chunks_written = 0, so_started_at = started, so_finished_at = started,
      so_elapsed_ms = 0, so_error = None, so_first_resource_error = None\<rparr>"

definition sync_once :: "('w, 'vs, 'db) Runtime \<Rightarrow> 'w ConnectorRegistry \<Rightarrow> SyncClock \<Rightarrow> string \<Rightarrow> ('w, 'vs, 'db) RunState
    \<Rightarrow> ('w, 'vs, 'db) RunState \<times> SyncOutcome" where
  "sync_once R reg clock i st =
     (let out = outcome_init i (sc_started clock)
      in case binding_get reg i of
           None \<Rightarrow> (st, out\<lparr>so_kind := SyncNotFound,
                     so_error := Some (''binding `'' @ i @ ''` not registered''), so_finished_at := sc_finished clock\<rparr>)
         | Some b \<Rightarrow>
             (case run_sync R b st out of
                (st', out', res) \<Rightarrow>
                  (let out' = out'\<lparr>so_finished_at := sc_finished clock, so_elapsed_ms := min (sc_elapsed_ms clock) (2 ^ 64 - 1)\<rparr>
                   in (st', case res of
                         Inr u \<Rightarrow> out'
                       | Inl e \<Rightarrow> out'\<lparr>so_error := Some (show_error e),
                           so_kind := (if so_kind out' = SyncCompleted then SyncFailedList else so_kind out')\<rparr>))))"

section \<open>Background loops\<close>

text \<open>
  The poll loop syncs at every tick until its binding is gone. The ticks the process lives
  for are a list: the bindings registered then, and the clocks of the cycle.
\<close>

fun poll_loop :: "('w, 'vs, 'db) Runtime \<Rightarrow> string \<Rightarrow> ('w ConnectorRegistry \<times> SyncClock) list \<Rightarrow> ('w, 'vs, 'db) RunState
    \<Rightarrow> ('w, 'vs, 'db) RunState \<times> SyncOutcome list" where
  "poll_loop R i [] st = (st, [])"
| "poll_loop R i ((reg, clock) # ticks) st =
     (case sync_once R reg clock i st of
        (st', out) \<Rightarrow> if so_kind out = SyncNotFound then (st', [out])
                      else apsnd (Cons out) (poll_loop R i ticks st'))"

text \<open>The bindings a poll loop is started for, with its interval.\<close>

definition polled :: "'w ConnectorRegistry \<Rightarrow> (string \<times> duration) list" where
  "polled reg = List.map_filter (\<lambda>b. map_option (Pair (binding_id b)) (cb_interval b)) (binding_list reg)"

text \<open>The bindings a subscribe loop is started for, with their streams; failures are skipped.\<close>

fun subscribed :: "'w ConnectorBinding list \<Rightarrow> 'w \<Rightarrow> 'w \<times> ('w ConnectorBinding \<times> ChangeEvent list) list" where
  "subscribed [] w = (w, [])"
| "subscribed (b # bs) w =
     (case cn_subscribe (cb_connector b) w of
        (w', Inr (Some stream)) \<Rightarrow> apsnd (Cons (b, stream)) (subscribed bs w')
      | (w', other) \<Rightarrow> subscribed bs w')"

fun subscribe_loop :: "('w, 'vs, 'db) Runtime \<Rightarrow> SchemaMeta \<Rightarrow> string \<Rightarrow> ChangeEvent list \<Rightarrow> ('w, 'vs, 'db) RunState
    \<Rightarrow> ('w, 'vs, 'db) RunState" where
  "subscribe_loop R meta tenant [] st = st"
| "subscribe_loop R meta tenant (Upsert r # es) st = subscribe_loop R meta tenant es (fst (ingest_step R meta tenant r st))"
| "subscribe_loop R meta tenant (Delete i # es) st = subscribe_loop R meta tenant es st"

definition subscribe_task :: "('w, 'vs, 'db) Runtime \<Rightarrow> 'w ConnectorBinding \<Rightarrow> ChangeEvent list \<Rightarrow> ('w, 'vs, 'db) RunState
    \<Rightarrow> ('w, 'vs, 'db) RunState" where
  "subscribe_task R b stream st =
     (case registry_get (rn_schemas R) (cb_target_namespace b) (cb_target_schema b) of
        Inl e \<Rightarrow> st
      | Inr meta \<Rightarrow> subscribe_loop R meta (cb_tenant b) stream st)"

section \<open>Registration and boot\<close>

text \<open>The factory that builds a connector from its kind and configuration.\<close>

type_synonym 'w connector_factory = "string \<Rightarrow> json \<Rightarrow> string + 'w Connector"

definition app_sync_connector :: "('w, 'vs, 'db) Runtime \<Rightarrow> 'w ConnectorRegistry \<Rightarrow> SyncClock \<Rightarrow> string
    \<Rightarrow> ('w, 'vs, 'db) RunState \<Rightarrow> ('w, 'vs, 'db) RunState \<times> SyncOutcome option" where
  "app_sync_connector R reg clock i st =
     (if binding_get reg i = None then (st, None) else apsnd Some (sync_once R reg clock i st))"

definition persisted_of :: "string \<Rightarrow> json \<Rightarrow> 'w ConnectorBinding \<Rightarrow> PersistedConnector" where
  "persisted_of kind config b =
     \<lparr>pc_id = binding_id b, pc_kind = kind, pc_target_namespace = cb_target_namespace b,
      pc_target_schema = cb_target_schema b, pc_tenant = cb_tenant b, pc_config = config,
      pc_interval_secs = map_option (\<lambda>d. word_of_nat (dur_secs d)) (cb_interval b)\<rparr>"

definition new_binding :: "'w Connector \<Rightarrow> string \<Rightarrow> string \<Rightarrow> 'w ConnectorBinding" where
  "new_binding c namespace schema =
     \<lparr>cb_connector = c, cb_target_namespace = namespace, cb_target_schema = schema, cb_tenant = [], cb_interval = None\<rparr>"

definition app_register_connector :: "'w connector_factory \<Rightarrow> 'db Postgres \<Rightarrow> string \<Rightarrow> string \<Rightarrow> string \<Rightarrow> json
    \<Rightarrow> 'db \<times> 'w ConnectorRegistry \<Rightarrow> ('db \<times> 'w ConnectorRegistry) \<times> (string + string)" where
  "app_register_connector factory pg kind namespace schema config s =
     (case factory kind config of
        Inl e \<Rightarrow> (s, Inl e)
      | Inr c \<Rightarrow>
     (let b = new_binding c namespace schema
      in case put_connector pg (fst s) (persisted_of kind config b) of
           (db, Inl e) \<Rightarrow> ((db, snd s), Inl (''failed to persist connector: '' @ show_engine_error e))
         | (db, Inr u) \<Rightarrow> ((db, binding_register b (snd s)), Inr (binding_id b))))"

definition hydrated_binding :: "'w Connector \<Rightarrow> PersistedConnector \<Rightarrow> 'w ConnectorBinding" where
  "hydrated_binding c row =
     \<lparr>cb_connector = c, cb_target_namespace = pc_target_namespace row, cb_target_schema = pc_target_schema row,
      cb_tenant = pc_tenant row, cb_interval = map_option (\<lambda>n. secs (unat n)) (pc_interval_secs row)\<rparr>"

fun hydrate_rows :: "'w connector_factory \<Rightarrow> PersistedConnector list \<Rightarrow> 'w ConnectorRegistry \<Rightarrow> 'w ConnectorRegistry" where
  "hydrate_rows factory [] reg = reg"
| "hydrate_rows factory (row # rows) reg =
     (case factory (pc_kind row) (pc_config row) of
        Inr c \<Rightarrow> hydrate_rows factory rows (binding_register (hydrated_binding c row) reg)
      | Inl e \<Rightarrow> hydrate_rows factory rows reg)"

definition hydrate_connectors :: "'w connector_factory \<Rightarrow> EngineError + PersistedConnector list \<Rightarrow> 'w ConnectorRegistry
    \<Rightarrow> 'w ConnectorRegistry" where
  "hydrate_connectors factory stored reg =
     (case stored of Inl e \<Rightarrow> reg | Inr rows \<Rightarrow> hydrate_rows factory rows reg)"


section \<open>What a cycle does\<close>

text \<open>The reference: the resources are ingested one after the other, whatever each comes to.\<close>

fun ingest_all :: "('w, 'vs, 'db) Runtime \<Rightarrow> SchemaMeta \<Rightarrow> string \<Rightarrow> Resource list \<Rightarrow> ('w, 'vs, 'db) RunState
    \<Rightarrow> ('w, 'vs, 'db) RunState \<times> (EngineError + IngestOutcome) list" where
  "ingest_all R meta tenant [] st = (st, [])"
| "ingest_all R meta tenant (r # rs) st =
     (case ingest_step R meta tenant r st of
        (st', res) \<Rightarrow> apsnd (Cons res) (ingest_all R meta tenant rs st'))"

definition successes :: "(EngineError + 'a) list \<Rightarrow> 'a list" where
  "successes rs = List.map_filter (\<lambda>r. case r of Inr x \<Rightarrow> Some x | Inl e \<Rightarrow> None) rs"

definition failures :: "(EngineError + 'a) list \<Rightarrow> EngineError list" where
  "failures rs = List.map_filter (\<lambda>r. case r of Inl e \<Rightarrow> Some e | Inr x \<Rightarrow> None) rs"

definition first_error :: "(EngineError + 'a) list \<Rightarrow> string option" where
  "first_error rs = (case failures rs of [] \<Rightarrow> None | e # es \<Rightarrow> Some (show_engine_error e))"

lemma result_lists [simp]:
  "successes [] = []" "failures [] = []"
  "successes (Inr x # rs) = x # successes rs" "successes (Inl e # rs) = successes rs"
  "failures (Inr x # rs) = failures rs" "failures (Inl e # rs) = e # failures rs"
  by (simp_all add: successes_def failures_def List.map_filter_simps)

lemma length_ingest_all: "length (snd (ingest_all R meta tenant rs st)) = length rs"
  by (induction rs arbitrary: st) (simp_all split: prod.splits)

lemma results_split: "length (successes rs) + length (failures rs) = length rs"
  by (induction rs) (auto simp: successes_def failures_def List.map_filter_simps split: sum.splits)

lemma sync_loop_all:
  "sync_loop R meta tenant rs st out =
     (let (st', results) = ingest_all R meta tenant rs st
      in (st', out\<lparr>so_resources_seen := so_resources_seen out + length rs,
                   so_resources_ingested := so_resources_ingested out + length (successes results),
                   so_resources_failed := so_resources_failed out + length (failures results),
                   so_chunks_written := so_chunks_written out + sum_list (map io_chunks_written (successes results)),
                   so_first_resource_error := (case so_first_resource_error out of
                      Some m \<Rightarrow> Some m | None \<Rightarrow> first_error results)\<rparr>))"
proof (induction rs arbitrary: st out)
  case Nil
  then show ?case by (simp add: first_error_def split: option.splits)
next
  case (Cons r rs)
  obtain st' res where step: "ingest_step R meta tenant r st = (st', res)" by fastforce
  obtain st'' results where rest: "ingest_all R meta tenant rs st' = (st'', results)" by fastforce
  show ?case
    by (cases res; cases "so_first_resource_error out")
      (simp_all add: step rest Cons count_result_def first_error_def add.assoc)
qed

text \<open>
  C35: a sync of a registered binding whose schema is known and whose connector lists its
  resources ingests every listed resource once, in order, and a failing resource stops
  nothing: the stores end as after ingesting them one after the other, the counters account
  for every resource, and the first failure is reported although the sync counts as complete.
\<close>

theorem sync_accounts:
  assumes "binding_get reg i = Some b"
    and "registry_get (rn_schemas R) (cb_target_namespace b) (cb_target_schema b) = Inr meta"
    and "cn_list (cb_connector b) (rw_world st) = (w, Inr resources)"
    and "ingest_all R meta (cb_tenant b) resources (st\<lparr>rw_world := w\<rparr>) = (st', results)"
  shows "\<exists>out. sync_once R reg clock i st = (st', out)
    \<and> so_kind out = SyncCompleted \<and> so_error out = None
    \<and> so_resources_seen out = length resources
    \<and> so_resources_ingested out = length (successes results)
    \<and> so_resources_failed out = length (failures results)
    \<and> so_resources_ingested out + so_resources_failed out = so_resources_seen out
    \<and> so_chunks_written out = sum_list (map io_chunks_written (successes results))
    \<and> so_first_resource_error out = first_error results"
proof -
  have "length results = length resources"
    using length_ingest_all [of R meta "cb_tenant b" resources "st\<lparr>rw_world := w\<rparr>"] assms(4) by simp
  then have "length (successes results) + length (failures results) = length resources"
    using results_split [of results] by simp
  with assms show ?thesis
    by (simp add: sync_once_def run_sync_def sync_loop_all outcome_init_def Let_def)
qed

text \<open>A binding that fails to list, or whose schema is unknown, ingests nothing.\<close>

lemma failed_list_ingests_nothing:
  assumes "binding_get reg i = Some b" and "run_sync R b st (outcome_init i (sc_started clock)) = (st', out', Inl e)"
  shows "so_kind (snd (sync_once R reg clock i st)) = SyncFailedList"
    and "rw_stores (fst (sync_once R reg clock i st)) = rw_stores st"
    and "so_resources_seen (snd (sync_once R reg clock i st)) = 0"
proof -
  have out: "out' = outcome_init i (sc_started clock)" "rw_stores st' = rw_stores st"
    using assms(2) by (auto simp: run_sync_def split: sum.splits EngineError.splits prod.splits)
  with assms show "so_kind (snd (sync_once R reg clock i st)) = SyncFailedList"
    "rw_stores (fst (sync_once R reg clock i st)) = rw_stores st"
    "so_resources_seen (snd (sync_once R reg clock i st)) = 0"
    by (simp_all add: sync_once_def outcome_init_def Let_def)
qed

text \<open>A removed binding ends its poll loop at the next tick.\<close>

lemma poll_loop_ends:
  "binding_get reg i = None \<Longrightarrow> fst (poll_loop R i ((reg, clock) # ticks) st) = st
     \<and> length (snd (poll_loop R i ((reg, clock) # ticks) st)) = 1"
  by (simp add: sync_once_def Let_def)

section \<open>Bindings survive a restart\<close>

lemma hydrated_new_binding: "hydrated_binding c (persisted_of kind config (new_binding c ns schema)) = new_binding c ns schema"
  by (simp add: hydrated_binding_def persisted_of_def new_binding_def)

text \<open>Rebuilding from the persisted rows is registering the bindings again, in order.\<close>

lemma hydrate_persisted:
  assumes "\<forall>(kind, config, c, ns, schema) \<in> set specs. factory kind config = Inr c"
  shows "hydrate_rows factory (map (\<lambda>(kind, config, c, ns, schema). persisted_of kind config (new_binding c ns schema)) specs) reg
    = fold (\<lambda>(kind, config, c, ns, schema). binding_register (new_binding c ns schema)) specs reg"
  using assms
proof (induction specs arbitrary: reg)
  case (Cons spec specs)
  obtain kind config c ns schema where spec: "spec = (kind, config, c, ns, schema)" by (metis prod_cases5)
  have row: "pc_kind (persisted_of kind config b) = kind" "pc_config (persisted_of kind config b) = config" for b :: "'a ConnectorBinding"
    by (simp_all add: persisted_of_def)
  from Cons spec show ?case by (simp add: row hydrated_new_binding)
qed simp

section \<open>A sample sync\<close>

text \<open>Two resources for a schema whose table name is not a plain identifier: both fail.\<close>

definition sync_schema :: SchemaMeta where
  "sync_schema = \<lparr>sm_namespace = ''acme'', sm_name = ''Doc'', sm_version = 1, sm_primary_key = ''id'',
     sm_fields = [], sm_relations = Map.empty, sm_facets = [], sm_chunked_fields = [],
     sm_context = \<lparr>cm_embedder = ''stub'', cm_vector_dims = 64, cm_chunking = chunking_default,
       cm_freshness_decay = FreshNone, cm_default_top_k = None\<rparr>,
     sm_collection = ''doc'', sm_table = ''my doc'', sm_hybrid_alpha = None\<rparr>"

definition sync_connector :: "unit Connector" where
  "sync_connector = \<lparr>cn_name = ''local'', cn_version = ''1'',
     cn_list = (\<lambda>w. (w, Inr [resource_stub 0 ''a'' ''x'', resource_stub 0 ''b'' ''y''])),
     cn_fetch = (\<lambda>w i. (w, Inl (SeNotFound i))), cn_subscribe = (\<lambda>w. (w, Inr None)), cn_healthcheck = (\<lambda>w. (w, Inr ()))\<rparr>"

definition sync_runtime :: "(unit, unit, unit) Runtime" where
  "sync_runtime = \<lparr>rn_schemas = registry_insert sync_schema registry_empty,
     rn_ingestor = \<lparr>ig_vector_store = undefined, ig_embed = (\<lambda>cs. Inr []),
       ig_store = undefined, ig_count = char_approx, ig_rfc3339 = (\<lambda>t. None)\<rparr>,
     rn_ids = (\<lambda>n. \<lparr>ii_record = ''r'', ii_chunk = (\<lambda>k. 0)\<rparr>)\<rparr>"

definition sync_state :: "(unit, unit, unit) RunState" where
  "sync_state = \<lparr>rw_world = (), rw_stores = \<lparr>is_vectors = (), is_db = (), is_ensured = {}\<rparr>, rw_fresh = 0\<rparr>"

lemma sync_step_fails:
  "ingest_step sync_runtime sync_schema tenant r st
     = (st\<lparr>rw_fresh := Suc (rw_fresh st)\<rparr>, Inl (ingest_unsafe_table sync_schema))"
proof -
  have "\<not> is_safe_ident (sm_table sync_schema)" by code_simp
  then show ?thesis by (simp add: ingest_step_def ingest_def upsert_row_def)
qed

lemma sync_accounts_witness:
  "\<exists>out. snd (sync_once sync_runtime [(''local/acme.Doc'', new_binding sync_connector ''acme'' ''Doc'')]
        \<lparr>sc_started = 0, sc_finished = 1, sc_elapsed_ms = 1\<rparr> ''local/acme.Doc'' sync_state) = out
     \<and> so_kind out = SyncCompleted \<and> so_resources_seen out = 2 \<and> so_resources_failed out = 2
     \<and> so_first_resource_error out = Some (show_engine_error (ingest_unsafe_table sync_schema))"
proof -
  have reg: "registry_get (rn_schemas sync_runtime) ''acme'' ''Doc'' = Inr sync_schema"
    by (simp add: sync_runtime_def registry_get_def registry_insert_def ok_or_def) (simp add: sync_schema_def)
  have all: "ingest_all sync_runtime sync_schema [] [resource_stub 0 ''a'' ''x'', resource_stub 0 ''b'' ''y''] (sync_state\<lparr>rw_world := ()\<rparr>)
    = (sync_state\<lparr>rw_world := (), rw_fresh := 2\<rparr>, [Inl (ingest_unsafe_table sync_schema), Inl (ingest_unsafe_table sync_schema)])"
    by (simp add: sync_step_fails sync_state_def numeral_2_eq_2)
  show ?thesis
    using sync_accounts [where reg = "[(''local/acme.Doc'', new_binding sync_connector ''acme'' ''Doc'')]"
        and i = "''local/acme.Doc''" and b = "new_binding sync_connector ''acme'' ''Doc''" and R = sync_runtime
        and meta = sync_schema and st = sync_state and w = "()"
        and resources = "[resource_stub 0 ''a'' ''x'', resource_stub 0 ''b'' ''y'']"
        and clock = "\<lparr>sc_started = 0, sc_finished = 1, sc_elapsed_ms = 1\<rparr>"] reg all
    by (fastforce simp: new_binding_def binding_get_def sync_connector_def first_error_def)
qed

end
