(* ===== verification/Gateway_Rest.thy ===== *)
theory Gateway_Rest
  imports Gateway_Transport Ingest_Runtime Csl_Load
begin

text \<open>
  The REST surface of the gateway (\<open>sealstack-gateway/src/rest.rs\<close>, the shared state of
  \<open>server.rs\<close>, the wire types of \<open>sealstack-api-types\<close>): the envelopes, the caller a request is
  taken to come from, and every handler on the state the process keeps. A handler that panics
  gives no answer. What axum answers to a body that does not deserialize is a parameter.
\<close>

section \<open>Wire types\<close>

record QueryRequest =
  qr_schema :: string
  qr_query :: string
  qr_top_k :: "u32 option"
  qr_filters :: "json option"

definition opt_u32 :: "json option \<Rightarrow> u32 option option" where
  "opt_u32 v = (case optional_value v of None \<Rightarrow> Some None | Some n \<Rightarrow> map_option Some (read_u32 n))"

definition read_query_request :: "json \<Rightarrow> QueryRequest option" where
  "read_query_request v =
     (case struct_fields [''schema'', ''query'', ''top_k'', ''filters''] v of
        Some [schema, query, top_k, filters] \<Rightarrow>
          Option.bind (string_field schema) (\<lambda>s.
          Option.bind (string_field query) (\<lambda>q.
          Option.bind (opt_u32 top_k) (\<lambda>k.
            Some \<lparr>qr_schema = s, qr_query = q, qr_top_k = k, qr_filters = optional_value filters\<rparr>)))
      | _ \<Rightarrow> None)"

record QueryHit =
  qh_id :: string
  qh_score :: f32
  qh_excerpt :: string
  qh_record :: json

record QueryResponse =
  qp_receipt_id :: string
  qp_results :: "QueryHit list"

definition query_hit_value :: "QueryHit \<Rightarrow> json" where
  "query_hit_value h = JObject
     [(''excerpt'', JString (qh_excerpt h)), (''id'', JString (qh_id h)), (''record'', qh_record h),
      (''score'', json_of_f32 (qh_score h))]"

definition query_response_value :: "QueryResponse \<Rightarrow> json" where
  "query_response_value r = JObject
     [(''receipt_id'', JString (qp_receipt_id r)), (''results'', JArray (map query_hit_value (qp_results r)))]"

definition read_register_schema :: "json \<Rightarrow> json option" where
  "read_register_schema v =
     (case struct_fields [''meta''] v of Some [meta] \<Rightarrow> meta | _ \<Rightarrow> None)"

definition read_apply_ddl :: "json \<Rightarrow> string option" where
  "read_apply_ddl v =
     (case struct_fields [''ddl''] v of Some [ddl] \<Rightarrow> string_field ddl | _ \<Rightarrow> None)"

record SchemaMetaWire =
  mw_namespace :: string
  mw_name :: string
  mw_version :: u32
  mw_primary_key :: string
  mw_table :: string
  mw_collection :: string
  mw_hybrid_alpha :: f32

definition schema_wire_value :: "SchemaMetaWire \<Rightarrow> json" where
  "schema_wire_value m = obj
     [(''namespace'', JString (mw_namespace m)), (''name'', JString (mw_name m)),
      (''version'', jnat (unat (mw_version m))), (''primary_key'', JString (mw_primary_key m)),
      (''table'', JString (mw_table m)), (''collection'', JString (mw_collection m)),
      (''hybrid_alpha'', json_of_f32 (mw_hybrid_alpha m))]"

record RegisterConnectorRequest =
  rr_kind :: string
  rr_schema :: string
  rr_config :: json

definition read_register_connector :: "json \<Rightarrow> RegisterConnectorRequest option" where
  "read_register_connector v =
     (case struct_fields [''kind'', ''schema'', ''config''] v of
        Some [kind, schema, Some config] \<Rightarrow>
          Option.bind (string_field kind) (\<lambda>k.
          map_option (\<lambda>s. \<lparr>rr_kind = k, rr_schema = s, rr_config = config\<rparr>) (string_field schema))
      | _ \<Rightarrow> None)"

record ConnectorBindingWire =
  bw_id :: string
  bw_kind :: string
  bw_schema :: string
  bw_enabled :: bool

definition binding_wire_value :: "ConnectorBindingWire \<Rightarrow> json" where
  "binding_wire_value b = obj
     [(''id'', JString (bw_id b)), (''kind'', JString (bw_kind b)), (''schema'', JString (bw_schema b)),
      (''enabled'', JBool (bw_enabled b))]"

record ReceiptSource =
  rs_chunk_id :: string
  rs_source_uri :: string
  rs_score :: f32

record ReceiptWire =
  rw_id :: string
  rw_caller_id :: string
  rw_tenant :: string
  rw_sources :: "ReceiptSource list"
  rw_issued_at :: timestamp

definition receipt_source_value :: "ReceiptSource \<Rightarrow> json" where
  "receipt_source_value s = obj
     [(''chunk_id'', JString (rs_chunk_id s)), (''source_uri'', JString (rs_source_uri s)),
      (''score'', json_of_f32 (rs_score s))]"

definition receipt_wire_value :: "ReceiptWire \<Rightarrow> string \<Rightarrow> json" where
  "receipt_wire_value r issued_at = obj
     [(''id'', JString (rw_id r)), (''caller_id'', JString (rw_caller_id r)), (''tenant'', JString (rw_tenant r)),
      (''sources'', JArray (map receipt_source_value (rw_sources r))), (''issued_at'', JString issued_at)]"

section \<open>Projections\<close>

definition DEFAULT_HYBRID_ALPHA :: f32 where "DEFAULT_HYBRID_ALPHA = 0x3F19999A"

definition search_response_to_wire :: "SearchResponse \<Rightarrow> QueryResponse" where
  "search_response_to_wire resp =
     \<lparr>qp_receipt_id = sp_receipt_id resp,
      qp_results = map (\<lambda>h. \<lparr>qh_id = sh_id h, qh_score = sh_score h, qh_excerpt = sh_excerpt h, qh_record = sh_record h\<rparr>)
                       (sp_results resp)\<rparr>"

definition schema_meta_to_wire :: "SchemaMeta \<Rightarrow> SchemaMetaWire" where
  "schema_meta_to_wire m =
     \<lparr>mw_namespace = sm_namespace m, mw_name = sm_name m, mw_version = sm_version m,
      mw_primary_key = sm_primary_key m, mw_table = sm_table m, mw_collection = sm_collection m,
      mw_hybrid_alpha = (case sm_hybrid_alpha m of None \<Rightarrow> DEFAULT_HYBRID_ALPHA | Some a \<Rightarrow> a)\<rparr>"

definition connector_binding_to_wire :: "ConnectorBindingInfo \<Rightarrow> ConnectorBindingWire" where
  "connector_binding_to_wire info =
     \<lparr>bw_id = bi_id info, bw_kind = bi_connector info, bw_schema = bi_namespace info @ ''.'' @ bi_schema info,
      bw_enabled = True\<rparr>"

definition receipt_to_wire :: "Receipt \<Rightarrow> ReceiptWire" where
  "receipt_to_wire r =
     \<lparr>rw_id = rc_id r, rw_caller_id = cl_id (rc_caller r), rw_tenant = cl_tenant (rc_caller r),
      rw_sources = map (\<lambda>s. \<lparr>rs_chunk_id = (case sf_chunk_id s of None \<Rightarrow> [] | Some c \<Rightarrow> c),
                             rs_source_uri = sf_schema s @ '':'' @ sf_record_id s, rs_score = sf_score s\<rparr>) (rc_sources r),
      rw_issued_at = rc_created_at r\<rparr>"

section \<open>Envelopes\<close>

definition rest_ok :: "json \<Rightarrow> HttpAnswer" where
  "rest_ok data = json_answer 200 (obj [(''data'', data), (''error'', JNull)])"

definition rest_error :: "nat \<Rightarrow> string \<Rightarrow> string \<Rightarrow> HttpAnswer" where
  "rest_error status code message = json_answer status
     (obj [(''data'', JNull), (''error'', obj [(''code'', JString code), (''message'', JString message)])])"

definition bad_request :: "string \<Rightarrow> HttpAnswer" where
  "bad_request message = rest_error 400 ''invalid_argument'' message"

definition rest_not_found :: "string \<Rightarrow> HttpAnswer" where
  "rest_not_found message = rest_error 404 ''not_found'' message"

fun error_status :: "EngineError \<Rightarrow> nat \<times> string" where
  "error_status EeNotFound = (404, ''not_found'')"
| "error_status (EePolicyDenied r) = (403, ''policy_denied'')"
| "error_status (EeInvalidArgument m) = (400, ''invalid_argument'')"
| "error_status (EeUnknownSchema ns s) = (404, ''unknown_schema'')"
| "error_status (EeBackend m) = (500, ''backend'')"

definition engine_error_response :: "EngineError \<Rightarrow> HttpAnswer" where
  "engine_error_response e = rest_error (fst (error_status e)) (snd (error_status e)) (show_engine_error e)"

definition anyhow_error_response :: "string \<Rightarrow> HttpAnswer" where
  "anyhow_error_response e = rest_error 500 ''internal'' e"

definition rest_split_qualified :: "string \<Rightarrow> string + (string \<times> string)" where
  "rest_split_qualified qualified =
     (case rsplit_once (CHR ''.'') qualified of
        None \<Rightarrow> Inl (''schema `'' @ qualified @ ''` must be qualified as `namespace.Name`'')
      | Some (ns, name) \<Rightarrow>
          if ns = [] \<or> name = [] then Inl (''schema `'' @ qualified @ ''` has an empty namespace or name'')
          else Inr (ns, name))"

section \<open>The caller\<close>

text \<open>What the extractor reads of a request: the identity a middleware left, and the headers.\<close>

record RestParts =
  rp_authenticated :: "AuthenticatedCaller option"
  rp_header :: "string \<Rightarrow> u8 list option"

definition header_text :: "RestParts \<Rightarrow> string \<Rightarrow> string option" where
  "header_text p name = Option.bind (rp_header p name) to_str"

definition comma_list :: "string \<Rightarrow> string list" where
  "comma_list s = filter (\<lambda>x. x \<noteq> []) (map trim (split_char (CHR '','') s))"

definition caller_ext :: "RestParts \<Rightarrow> Caller" where
  "caller_ext p =
     (case rp_authenticated p of
        Some a \<Rightarrow> \<lparr>cl_id = au_id a, cl_tenant = au_tenant a, cl_groups = [], cl_roles = au_roles a, cl_attrs = au_attrs a\<rparr>
      | None \<Rightarrow>
          \<lparr>cl_id = (case header_text p ''x-sealstack-user'' of None \<Rightarrow> ''anon'' | Some u \<Rightarrow> u),
           cl_tenant = (case header_text p ''x-sealstack-tenant'' of None \<Rightarrow> [] | Some t \<Rightarrow> t),
           cl_groups = [],
           cl_roles = (case header_text p ''x-sealstack-roles'' of None \<Rightarrow> [] | Some r \<Rightarrow> comma_list r),
           cl_attrs = []\<rparr>)"

section \<open>Counting statements\<close>

record CountState =
  ct_count :: u32
  ct_has_text :: bool
  ct_in_str :: bool
  ct_tag :: "string option"

text \<open>White space among the code points below 256, which a byte taken as a char is.\<close>

definition byte_whitespace :: "char \<Rightarrow> bool" where
  "byte_whitespace c \<longleftrightarrow> (let n = (of_char c :: nat) in 9 \<le> n \<and> n \<le> 13 \<or> n = 32 \<or> n = 0x85 \<or> n = 0xA0)"

definition count_comment :: "string \<Rightarrow> CountState \<Rightarrow> bool" where
  "count_comment s st \<longleftrightarrow>
     \<not> ct_in_str st \<and> ct_tag st = None \<and> nth_opt s 0 = Some (CHR ''-'') \<and> nth_opt s 1 = Some (CHR ''-'')"

definition count_open :: "string \<Rightarrow> CountState \<Rightarrow> (string \<times> CountState) option" where
  "count_open s st =
     (if ct_in_str st \<or> ct_tag st \<noteq> None \<or> nth_opt s 0 \<noteq> Some (CHR ''$'') then None
      else case find_str ''$'' (tl s) of
        None \<Rightarrow> None
      | Some j \<Rightarrow> (let tag = ''$'' @ take j (tl s) @ ''$''
                   in Some (drop (length tag) s, st\<lparr>ct_tag := Some tag, ct_has_text := True\<rparr>)))"

definition count_byte :: "char \<Rightarrow> CountState \<Rightarrow> CountState" where
  "count_byte c st =
     (if c = single_quote then st\<lparr>ct_in_str := \<not> ct_in_str st, ct_has_text := True\<rparr>
      else if \<not> ct_in_str st \<and> c = CHR '';''
      then st\<lparr>ct_count := (if ct_has_text st then ct_count st + 1 else ct_count st), ct_has_text := False\<rparr>
      else if \<not> byte_whitespace c then st\<lparr>ct_has_text := True\<rparr> else st)"

lemma count_comment_drops:
  "count_comment s st \<Longrightarrow> length (dropWhile (\<lambda>c. c \<noteq> newline) s) < length s"
  using comment_start_drops [of s split_init] by (simp add: count_comment_def comment_start_def split_init_def)

lemma count_open_drops: "count_open s st = Some (rest, st') \<Longrightarrow> length rest < length s"
  by (cases s) (auto simp: count_open_def Let_def nth_opt_def split: if_splits option.splits)

text \<open>
  Slicing the text at a byte inside a character panics, which is \<open>None\<close>; a tag is never empty,
  which the guard on its length only states for the recursion.
\<close>

function count_scan :: "string \<Rightarrow> CountState \<Rightarrow> CountState option" where
  "count_scan s st =
     (case s of
        [] \<Rightarrow> Some st
      | c # s' \<Rightarrow>
          if count_comment s st then count_scan (dropWhile (\<lambda>c. c \<noteq> newline) s) st
          else case count_open s st of
            Some (rest, st') \<Rightarrow> count_scan rest st'
          | None \<Rightarrow>
              (case ct_tag st of
                 Some tag \<Rightarrow>
                   if is_cont c then None
                   else if starts_with s tag \<and> tag \<noteq> [] then count_scan (drop (length tag) s) (st\<lparr>ct_tag := None\<rparr>)
                   else count_scan s' st
               | None \<Rightarrow> count_scan s' (count_byte c st)))"
  by pat_completeness auto
termination
  by (relation "measure (\<lambda>(s, st). length s)") (auto dest: count_comment_drops count_open_drops)

declare count_scan.simps [simp del]

definition count_ddl_statements :: "string \<Rightarrow> u32 option" where
  "count_ddl_statements ddl =
     map_option (\<lambda>st. if ct_has_text st then ct_count st + 1 else ct_count st)
       (count_scan ddl \<lparr>ct_count = 0, ct_has_text = False, ct_in_str = False, ct_tag = None\<rparr>)"

section \<open>The state of the process\<close>

text \<open>
  What the handlers share: the schema registry of the engine, the stores, the session table with
  the tools, the connector bindings, and the external world the connectors read. A tool reaches
  the engine through its facade, which reads the registry as it is at the call.
\<close>

type_synonym ('vs, 'db) EngineState = "SchemaRegistry \<times> ('vs, 'db) World"

record ('w, 'vs, 'db) App =
  ap_schemas :: SchemaRegistry
  ap_world :: "('vs, 'db) World"
  ap_transport :: "('vs, 'db) EngineState TransportState"
  ap_bindings :: "'w ConnectorRegistry"
  ap_source :: 'w
  ap_ensured :: "string set"
  ap_fresh :: nat

text \<open>
  What the process is built with: the engine and runtime whose registry is the shared one, the
  connector factory, the clocks, the transaction of the pool, the row lookup of receipts, and
  the serde and iteration orders the sources rely on.
\<close>

record ('w, 'vs, 'db) AppConfig =
  ac_engine :: "('vs, 'db) Engine"
  ac_runtime :: "('w, 'vs, 'db) Runtime"
  ac_factory :: "'w connector_factory"
  ac_envs :: "nat \<Rightarrow> CallEnv"
  ac_clock :: SyncClock
  ac_begin :: "'db \<Rightarrow> string + 'db"
  ac_commit :: "'db \<Rightarrow> string + 'db"
  ac_receipt_row :: "'db \<Rightarrow> string \<Rightarrow> PgValue list \<Rightarrow> string + json option"
  ac_receipt_of :: "json \<Rightarrow> string + Receipt"
  ac_to_value :: "SchemaMeta \<Rightarrow> string + json"
  ac_meta_error :: "json \<Rightarrow> string"
  ac_reject :: "json \<Rightarrow> HttpAnswer"
  ac_iter :: "SchemaRegistry \<Rightarrow> SchemaMeta list"
  ac_relations :: "SchemaMeta \<Rightarrow> string list"

definition app_engine :: "('w, 'vs, 'db) AppConfig \<Rightarrow> SchemaRegistry \<Rightarrow> ('vs, 'db) Engine" where
  "app_engine A reg = (ac_engine A)\<lparr>eg_registry := reg\<rparr>"

definition with_registry :: "('w, 'vs, 'db) AppConfig
    \<Rightarrow> (('vs, 'db) World EngineFacade \<Rightarrow> ('vs, 'db) World \<Rightarrow> ('vs, 'db) World \<times> (EngineError + json))
    \<Rightarrow> ('vs, 'db) EngineState \<Rightarrow> ('vs, 'db) EngineState \<times> (EngineError + json)" where
  "with_registry A call st =
     (case st of (reg, w) \<Rightarrow> apfst (Pair reg) (call (engine_facade (app_engine A reg) (ac_envs A)) w))"

definition app_facade :: "('w, 'vs, 'db) AppConfig \<Rightarrow> ('vs, 'db) EngineState EngineFacade" where
  "app_facade A =
     \<lparr>ef_search = (\<lambda>c s q k f. with_registry A (\<lambda>F. ef_search F c s q k f)),
      ef_get = (\<lambda>c s i. with_registry A (\<lambda>F. ef_get F c s i)),
      ef_list = (\<lambda>c s f l cu ob d. with_registry A (\<lambda>F. ef_list F c s f l cu ob d)),
      ef_list_relation = (\<lambda>c s r p l cu. with_registry A (\<lambda>F. ef_list_relation F c s r p l cu)),
      ef_aggregate = (\<lambda>c s fa f b. with_registry A (\<lambda>F. ef_aggregate F c s fa f b))\<rparr>"

definition app_tools :: "('w, 'vs, 'db) App \<Rightarrow> ('vs, 'db) EngineState ToolRegistry" where
  "app_tools app = tr_registry (ap_transport app)"

definition set_tools :: "('vs, 'db) EngineState ToolRegistry \<Rightarrow> ('w, 'vs, 'db) App \<Rightarrow> ('w, 'vs, 'db) App" where
  "set_tools tools app = app\<lparr>ap_transport := (ap_transport app)\<lparr>tr_registry := tools\<rparr>\<rparr>"

definition set_db :: "'db \<Rightarrow> ('w, 'vs, 'db) App \<Rightarrow> ('w, 'vs, 'db) App" where
  "set_db db app = app\<lparr>ap_world := (ap_world app)\<lparr>wd_db := db\<rparr>\<rparr>"

definition run_state :: "('w, 'vs, 'db) App \<Rightarrow> ('w, 'vs, 'db) RunState" where
  "run_state app =
     \<lparr>rw_world = ap_source app,
      rw_stores = \<lparr>is_vectors = wd_vectors (ap_world app), is_db = wd_db (ap_world app), is_ensured = ap_ensured app\<rparr>,
      rw_fresh = ap_fresh app\<rparr>"

definition set_run_state :: "('w, 'vs, 'db) RunState \<Rightarrow> ('w, 'vs, 'db) App \<Rightarrow> ('w, 'vs, 'db) App" where
  "set_run_state st app =
     app\<lparr>ap_source := rw_world st, ap_fresh := rw_fresh st, ap_ensured := is_ensured (rw_stores st),
         ap_world := (ap_world app)\<lparr>wd_vectors := is_vectors (rw_stores st), wd_db := is_db (rw_stores st)\<rparr>\<rparr>"

section \<open>Handlers\<close>

definition healthz :: HttpAnswer where
  "healthz = rest_ok (obj [(''status'', JString ''ok'')])"

definition readyz :: HttpAnswer where
  "readyz = rest_ok (obj [(''status'', JString ''ok'')])"

definition post_query :: "('w, 'vs, 'db) AppConfig \<Rightarrow> Caller \<Rightarrow> QueryRequest \<Rightarrow> ('w, 'vs, 'db) App
    \<Rightarrow> ('w, 'vs, 'db) App \<times> HttpAnswer" where
  "post_query A caller body app =
     (case rest_split_qualified (qr_schema body) of
        Inl m \<Rightarrow> (app, bad_request m)
      | Inr (ns, name) \<Rightarrow>
     (let w = ap_world app;
          req = \<lparr>sq_caller = caller, sq_namespace = ns, sq_schema = name, sq_query = qr_query body,
                 sq_top_k = (case qr_top_k body of None \<Rightarrow> 0 | Some k \<Rightarrow> unat k),
                 sq_filters = (case qr_filters body of None \<Rightarrow> JNull | Some f \<Rightarrow> f)\<rparr>
      in case in_world w (engine_search (app_engine A (ap_schemas app)) (ac_envs A (wd_calls w)) (wd_vectors w) (wd_db w) req) of
           (w', Inr resp) \<Rightarrow> (app\<lparr>ap_world := w'\<rparr>, rest_ok (query_response_value (search_response_to_wire resp)))
         | (w', Inl e) \<Rightarrow> (app\<lparr>ap_world := w'\<rparr>, engine_error_response e)))"

definition rest_register_schema :: "('w, 'vs, 'db) AppConfig \<Rightarrow> json \<Rightarrow> ('w, 'vs, 'db) App
    \<Rightarrow> ('w, 'vs, 'db) App \<times> HttpAnswer" where
  "rest_register_schema A body_meta app =
     (case read_schema_meta body_meta of
        None \<Rightarrow> (app, bad_request (''invalid schema meta: '' @ ac_meta_error A body_meta))
      | Some meta \<Rightarrow>
     (case put_schema (eg_store (ac_engine A)) (ac_to_value A) (wd_db (ap_world app)) meta of
        (db, Inl e) \<Rightarrow> (set_db db app, engine_error_response e)
      | (db, Inr u) \<Rightarrow>
          (let app1 = (set_db db app)\<lparr>ap_schemas := registry_insert meta (ap_schemas app)\<rparr>;
               tools = fst (register_schema_tools (app_facade A) (ac_relations A meta) meta (app_tools app))
           in (set_tools tools app1, rest_ok (obj [(''qualified'', JString (qualified_name meta))])))))"

definition rest_list_schemas :: "('w, 'vs, 'db) AppConfig \<Rightarrow> ('w, 'vs, 'db) App \<Rightarrow> HttpAnswer" where
  "rest_list_schemas A app = rest_ok (obj [(''schemas'', JArray
     (map (\<lambda>m. schema_wire_value (schema_meta_to_wire m)) (ac_iter A (ap_schemas app))))])"

definition rest_get_schema :: "string \<Rightarrow> ('w, 'vs, 'db) App \<Rightarrow> HttpAnswer" where
  "rest_get_schema qualified app =
     (case rest_split_qualified qualified of
        Inl m \<Rightarrow> bad_request m
      | Inr (ns, name) \<Rightarrow>
          (case registry_get (ap_schemas app) ns name of
             Inr meta \<Rightarrow> rest_ok (schema_wire_value (schema_meta_to_wire meta))
           | Inl e \<Rightarrow> engine_error_response e))"

definition rest_apply_ddl :: "('w, 'vs, 'db) AppConfig \<Rightarrow> string \<Rightarrow> string \<Rightarrow> ('w, 'vs, 'db) App
    \<Rightarrow> ('w, 'vs, 'db) App \<times> HttpAnswer option" where
  "rest_apply_ddl A qualified ddl app =
     (case rest_split_qualified qualified of
        Inl m \<Rightarrow> (app, Some (bad_request m))
      | Inr q \<Rightarrow>
     (case count_ddl_statements ddl of
        None \<Rightarrow> (app, None)
      | Some applied \<Rightarrow>
     (case apply_schema_ddl (eg_store (ac_engine A)) (ac_begin A) (ac_commit A) (wd_db (ap_world app)) ddl of
        (db, Inr u) \<Rightarrow> (set_db db app, Some (rest_ok (obj [(''applied'', jnat (unat applied))])))
      | (db, Inl e) \<Rightarrow> (set_db db app, Some (engine_error_response e)))))"

definition rest_list_connectors :: "('w, 'vs, 'db) App \<Rightarrow> HttpAnswer" where
  "rest_list_connectors app = rest_ok (obj [(''connectors'', JArray
     (map (\<lambda>i. binding_wire_value (connector_binding_to_wire i)) (binding_list_info (ap_bindings app))))])"

definition rest_register_connector :: "('w, 'vs, 'db) AppConfig \<Rightarrow> RegisterConnectorRequest \<Rightarrow> ('w, 'vs, 'db) App
    \<Rightarrow> ('w, 'vs, 'db) App \<times> HttpAnswer" where
  "rest_register_connector A body app =
     (case rest_split_qualified (rr_schema body) of
        Inl m \<Rightarrow> (app, bad_request m)
      | Inr (ns, name) \<Rightarrow>
          (case app_register_connector (ac_factory A) (eg_store (ac_engine A)) (rr_kind body) ns name (rr_config body)
                  (wd_db (ap_world app), ap_bindings app) of
             ((db, bindings), Inr i) \<Rightarrow>
               ((set_db db app)\<lparr>ap_bindings := bindings\<rparr>, rest_ok (obj [(''id'', JString i)]))
           | ((db, bindings), Inl e) \<Rightarrow> ((set_db db app)\<lparr>ap_bindings := bindings\<rparr>, anyhow_error_response e)))"

definition rest_sync_connector :: "('w, 'vs, 'db) AppConfig \<Rightarrow> string \<Rightarrow> ('w, 'vs, 'db) App
    \<Rightarrow> ('w, 'vs, 'db) App \<times> HttpAnswer" where
  "rest_sync_connector A i app =
     (case app_sync_connector ((ac_runtime A)\<lparr>rn_schemas := ap_schemas app\<rparr>) (ap_bindings app) (ac_clock A) i (run_state app) of
        (st, Some outcome) \<Rightarrow> (set_run_state st app, rest_ok (obj [(''job_id'', JString (so_binding_id outcome))]))
      | (st, None) \<Rightarrow> (app, rest_not_found (''connector binding `'' @ i @ ''` not found'')))"

definition rest_get_receipt :: "('w, 'vs, 'db) AppConfig \<Rightarrow> string \<Rightarrow> ('w, 'vs, 'db) App \<Rightarrow> HttpAnswer option" where
  "rest_get_receipt A i app =
     (case receipt_fetch (ac_receipt_row A) (ac_receipt_of A) (wd_db (ap_world app)) i of
        Inr r \<Rightarrow> map_option (\<lambda>t. rest_ok (receipt_wire_value (receipt_to_wire r) t))
                   (eg_rfc3339 (ac_engine A) (rc_created_at r))
      | Inl e \<Rightarrow> Some (engine_error_response e))"

section \<open>Routes\<close>

datatype RestRoute =
    GetHealthz
  | GetReadyz
  | PostQuery json
  | ListSchemas
  | RegisterSchema json
  | GetSchema string
  | ApplyDdl string json
  | ListConnectors
  | RegisterConnector json
  | SyncConnector string
  | GetReceipt string

definition rest_body :: "('w, 'vs, 'db) AppConfig \<Rightarrow> (json \<Rightarrow> 'b option) \<Rightarrow> json
    \<Rightarrow> ('b \<Rightarrow> ('w, 'vs, 'db) App \<Rightarrow> ('w, 'vs, 'db) App \<times> HttpAnswer option) \<Rightarrow> ('w, 'vs, 'db) App
    \<Rightarrow> ('w, 'vs, 'db) App \<times> HttpAnswer option" where
  "rest_body A reader body handler app =
     (case reader body of None \<Rightarrow> (app, Some (ac_reject A body)) | Some b \<Rightarrow> handler b app)"

fun rest_route :: "('w, 'vs, 'db) AppConfig \<Rightarrow> RestParts \<Rightarrow> RestRoute \<Rightarrow> ('w, 'vs, 'db) App
    \<Rightarrow> ('w, 'vs, 'db) App \<times> HttpAnswer option" where
  "rest_route A parts GetHealthz app = (app, Some healthz)"
| "rest_route A parts GetReadyz app = (app, Some readyz)"
| "rest_route A parts (PostQuery body) app =
     rest_body A read_query_request body (\<lambda>b app. apsnd Some (post_query A (caller_ext parts) b app)) app"
| "rest_route A parts ListSchemas app = (app, Some (rest_list_schemas A app))"
| "rest_route A parts (RegisterSchema body) app =
     rest_body A read_register_schema body (\<lambda>b app. apsnd Some (rest_register_schema A b app)) app"
| "rest_route A parts (GetSchema q) app = (app, Some (rest_get_schema q app))"
| "rest_route A parts (ApplyDdl q body) app = rest_body A read_apply_ddl body (rest_apply_ddl A q) app"
| "rest_route A parts ListConnectors app = (app, Some (rest_list_connectors app))"
| "rest_route A parts (RegisterConnector body) app =
     rest_body A read_register_connector body (\<lambda>b app. apsnd Some (rest_register_connector A b app)) app"
| "rest_route A parts (SyncConnector i) app = apsnd Some (rest_sync_connector A i app)"
| "rest_route A parts (GetReceipt i) app = (app, rest_get_receipt A i app)"

end
