(* ===== verification/Gateway_Laws.thy ===== *)
theory Gateway_Laws
  imports Gateway_Protocol Engine_Access
begin

text \<open>
  Properties of the gateway's tools: what is listed can be called, a call on a registered
  tool reaches the engine with the schema and the caller it should, and a read through
  JSON-RPC discloses what the policy allows.
\<close>

section \<open>Listing\<close>

lemma name_before_order: "weak_order_on A name_before"
  unfolding weak_order_on_def name_before_def
  using byte_less_irrefl byte_less_trans byte_less_total by metis


text \<open>Every entry sits under the name its descriptor advertises, and keys are distinct.\<close>

definition registry_ok :: "'st ToolRegistry \<Rightarrow> bool" where
  "registry_ok reg \<longleftrightarrow> distinct (map fst reg) \<and> (\<forall>(k, h) \<in> set reg. snd k = tool_name_of h)"

lemma registry_ok_register:
  assumes "registry_ok reg" shows "registry_ok (tool_register server h reg)"
proof -
  have "\<forall>(k, h') \<in> set (AList.update (server, tool_name_of h) h reg). snd k = tool_name_of h'"
    using assms unfolding registry_ok_def by (induction reg) auto
  with assms show ?thesis
    by (simp add: registry_ok_def tool_register_def distinct_update tool_name_of_def)
qed

lemma registry_ok_fold: "registry_ok reg \<Longrightarrow> registry_ok (fold (tool_register server) hs reg)"
  by (induction hs arbitrary: reg) (simp_all add: registry_ok_register)

lemma registry_ok_Nil [simp]: "registry_ok []"
  by (simp add: registry_ok_def)

lemma list_for_names:
  assumes "registry_ok reg"
  shows "map td_name (list_for reg server) = map (snd \<circ> fst) (filter (\<lambda>(k, h). fst k = server) reg)"
  using assms by (auto simp: list_for_def registry_ok_def tool_name_of_def)

lemma list_for_set:
  assumes "registry_ok reg"
  shows "td_name ` set (list_for reg server) = {n. tool_get_handler reg server n \<noteq> None}"
proof -
  have "td_name ` set (list_for reg server) = set (map (snd \<circ> fst) (filter (\<lambda>(k, h). fst k = server) reg))"
    unfolding list_for_names [OF assms, symmetric] by simp
  also have "\<dots> = {n. (server, n) \<in> fst ` set reg}" by force
  finally show ?thesis by (simp add: tool_get_handler_def map_of_eq_None_iff)
qed

lemma list_for_distinct:
  assumes "registry_ok reg" shows "distinct (map td_name (list_for reg server))"
proof -
  have "distinct (map fst (filter (\<lambda>(k, h). fst k = server) reg))"
    using assms distinct_map_filter unfolding registry_ok_def by blast
  moreover have "inj_on snd (fst ` set (filter (\<lambda>(k, h). fst k = server) reg))"
    by (auto simp: inj_on_def)
  ultimately have "distinct (map snd (map fst (filter (\<lambda>(k, h). fst k = server) reg)))"
    unfolding distinct_map [of snd] set_map by blast
  then show ?thesis by (simp add: list_for_names [OF assms])
qed

lemma sorted_distinct_names:
  assumes "sorted_wrt (\<lambda>a b. \<not> name_before b a) ds" "distinct (map td_name ds)"
  shows "sorted_wrt byte_less (map td_name ds)"
  using assms
proof (induction ds)
  case (Cons d ds)
  then have "byte_less (td_name d) (td_name e)" if "e \<in> set ds" for e
    using that byte_less_total [of "td_name d" "td_name e"] by (auto simp: name_before_def image_iff)
  with Cons show ?case by auto
qed simp

text \<open>
  What \<open>tools/list\<close> advertises is what \<open>tools/call\<close> finds: the listed names are exactly the
  names with a handler, each listed once, in the byte order of the names whatever the
  iteration order of the map.
\<close>

lemma listed_names:
  assumes ok: "registry_ok reg"
  shows "set (map td_name (sorted_tools reg server)) = {n. tool_get_handler reg server n \<noteq> None}"
    and "sorted_wrt byte_less (map td_name (sorted_tools reg server))"
proof -
  have "sorted_wrt (\<lambda>a b. \<not> name_before b a) (sorted_tools reg server)"
    unfolding sorted_tools_def by (rule sort_by_sorted [OF name_before_order])
  moreover have "distinct (map td_name (sorted_tools reg server))"
    using list_for_distinct [OF ok] by (simp add: sorted_tools_def)
  ultimately show "sorted_wrt byte_less (map td_name (sorted_tools reg server))"
    by (rule sorted_distinct_names)
  show "set (map td_name (sorted_tools reg server)) = {n. tool_get_handler reg server n \<noteq> None}"
    using list_for_set [OF ok, of server] by (simp add: sorted_tools_def)
qed

section \<open>Calling\<close>

lemma string_arg [simp]: "string_field (Some (JString s)) = Some s"
  by (simp add: string_field_def)

lemma read_call_object:
  "read_call_params (JObject [(''arguments'', args), (''name'', JString name)]) = Some \<lparr>tp_name = name, tp_arguments = args\<rparr>"
  by (simp add: read_call_params_def struct_fields_def)

definition call_request :: "json \<Rightarrow> string \<Rightarrow> json \<Rightarrow> JsonRpcRequest" where
  "call_request i name args =
     \<lparr>jr_jsonrpc = ''2.0'', jr_id = Some i, jr_method = ''tools/call'',
      jr_params = Some (JObject [(''arguments'', args), (''name'', JString name)])\<rparr>"

lemma dispatch_call:
  assumes "tool_get_handler reg server name = Some h"
  shows "dispatch texts pkg server reg caller (call_request i name args) st =
     (case call_outcome (tool_invoke h caller args st) of (st', r) \<Rightarrow> (st', Some (rpc_reply i r)))"
  using assms by (simp add: dispatch_def call_request_def run_method_def handle_tools_call_def read_call_object)

definition get_handler :: "'st EngineFacade \<Rightarrow> SchemaMeta \<Rightarrow> 'st GeneratedHandler" where
  "get_handler F meta =
     \<lparr>gh_descriptor = get_descriptor (slugify_for_tool_name (qualified_name meta)) (qualified_name meta), gh_kind = HkGet,
      gh_schema = qualified_name meta, gh_relation = None, gh_facet = None, gh_engine = F\<rparr>"

definition get_tool_name :: "SchemaMeta \<Rightarrow> string" where
  "get_tool_name meta = ''get_'' @ slugify_for_tool_name (qualified_name meta)"

lemma get_handler_registered:
  "meta \<in> set metas \<Longrightarrow> get_handler F meta \<in> set (all_handlers F rels metas)"
  "tool_name_of (get_handler F meta) = get_tool_name meta"
  by (auto simp: all_handlers_def schema_handlers_def get_handler_def Let_def tool_name_of_def
      get_descriptor_def descriptor_def get_tool_name_def intro!: bexI [of _ meta])

lemma payload_keys:
  "\<not> byte_less ''isError'' ''content''" "\<not> byte_less ''structuredContent'' ''content''"
  "\<not> byte_less ''structuredContent'' ''isError''" "''isError'' \<noteq> ''content''" "''structuredContent'' \<noteq> ''content''"
  "''structuredContent'' \<noteq> ''isError''"
  by code_simp+

lemma obj_payload: "json_get (call_result p) ''structuredContent'' = Some p"
  unfolding call_result_def obj_def [of "[(''content'', _), _, _]"] fold_simps prod.case comp_def object_insert.simps
    json_get.simps map_of.simps fun_upd_apply fst_conv snd_conv
  by (simp only: payload_keys object_insert.simps map_of.simps fst_conv snd_conv fun_upd_apply if_True if_False simp_thms)

lemma call_result_inj: "call_result p = call_result q \<longleftrightarrow> p = q"
  by (metis obj_payload option.inject)


section \<open>A read through JSON-RPC\<close>

definition read_allowed :: "('vs, 'db) Engine \<Rightarrow> 'db \<Rightarrow> SchemaMeta \<Rightarrow> Caller \<Rightarrow> string \<Rightarrow> json \<Rightarrow> bool" where
  "read_allowed E db meta caller i rec \<longleftrightarrow>
     fetch_row_raw E db meta i = Inr rec
     \<and> pe_evaluate (eg_policy E) (policy_input (sm_namespace meta) (sm_name meta) PaRead caller rec) = Inr PvAllow"

definition read_hidden :: "('vs, 'db) Engine \<Rightarrow> 'db \<Rightarrow> SchemaMeta \<Rightarrow> Caller \<Rightarrow> string \<Rightarrow> bool" where
  "read_hidden E db meta caller i \<longleftrightarrow>
     fetch_row_raw E db meta i = Inl EeNotFound
     \<or> (\<exists>rec why. fetch_row_raw E db meta i = Inr rec
          \<and> pe_evaluate (eg_policy E) (policy_input (sm_namespace meta) (sm_name meta) PaRead caller rec) = Inr (PvDeny why))"

definition qualifiable :: "SchemaMeta \<Rightarrow> bool" where
  "qualifiable m \<longleftrightarrow> sm_namespace m \<noteq> [] \<and> sm_name m \<noteq> [] \<and> CHR ''.'' \<notin> set (sm_name m)"

lemma split_qualified_name: "qualifiable m \<Longrightarrow> split_qualified (qualified_name m) = Inr (sm_namespace m, sm_name m)"
  by (auto simp: qualifiable_def qualified_name_def split_qualified_def result_simps rsplit_once_Some)

lemma facade_get_engine:
  assumes "qualifiable meta"
  shows "facade_get E env db caller (qualified_name meta) (JString i)
    = engine_get E env db \<lparr>gq_caller = caller, gq_namespace = sm_namespace meta, gq_schema = sm_name meta, gq_id = i\<rparr>"
  using split_qualified_name [OF assms] by (simp add: facade_get_def id_to_string_def)

lemma invoke_get_handler:
  "json_get args ''id'' = Some (JString i) \<Longrightarrow> qualifiable meta \<Longrightarrow>
   tool_invoke (get_handler (engine_facade E envs) meta) caller args w
   = lift_engine (in_world w (engine_get E (envs (wd_calls w)) (wd_db w)
       \<lparr>gq_caller = caller_to_engine caller, gq_namespace = sm_namespace meta, gq_schema = sm_name meta, gq_id = i\<rparr>))"
  by (simp add: tool_invoke_def get_handler_def invoke_get_def engine_facade_def facade_get_engine Let_def)

definition get_reply :: "EngineError + json \<Rightarrow> JsonRpcError + json" where
  "get_reply r = (case r of Inl e \<Rightarrow> Inl (tool_error_code (engine_error_to_tool_error e)) | Inr rec \<Rightarrow> Inr (call_result rec))"

lemma dispatch_get:
  assumes "distinct (map tool_name_of (all_handlers (engine_facade E envs) rels metas))" and "meta \<in> set metas"
    and "json_get args ''id'' = Some (JString i)" and "qualifiable meta"
  shows "snd (dispatch texts pkg SERVER_NAME (fst (register_all (engine_facade E envs) rels metas [])) caller
        (call_request rid (get_tool_name meta) args) w)
    = Some (rpc_reply rid (get_reply (snd (engine_get E (envs (wd_calls w)) (wd_db w)
       \<lparr>gq_caller = caller_to_engine caller, gq_namespace = sm_namespace meta, gq_schema = sm_name meta, gq_id = i\<rparr>))))"
proof -
  note h = get_handler_registered(1) [OF assms(2), of "engine_facade E envs" rels]
  from registered_handler [OF assms(1) h]
  have found: "tool_get_handler (fst (register_all (engine_facade E envs) rels metas [])) SERVER_NAME (get_tool_name meta)
      = Some (get_handler (engine_facade E envs) meta)"
    unfolding get_handler_registered(2) .
  show ?thesis
    by (simp add: dispatch_call [OF found] invoke_get_handler [OF assms(3,4)] lift_engine_def in_world_def
        call_outcome_def get_reply_def split: prod.splits sum.splits)
qed

lemma rpc_reply_inj: "rpc_reply i r = rpc_reply i s \<longleftrightarrow> r = s"
  by (cases r; cases s) (simp_all add: rpc_reply_def)

lemma not_found_code:
  "tool_error_code (engine_error_to_tool_error e) = rpc_error (- 32004) ''not found'' \<longleftrightarrow> e = EeNotFound"
  by (cases e) (simp_all add: rpc_error_def INVALID_PARAMS_def POLICY_DENIED_def INTERNAL_ERROR_def)

text \<open>
  C31: a read through JSON-RPC discloses what the policy of the schema allows, and hides the
  rest. With the tools of the registered schemas under distinct names, a call of the get tool
  of a schema is answered with a record exactly when the row exists and the policy engine
  allows the session's caller to read it; and, for a policy engine that does not itself
  report "not found", it is answered with "not found" exactly when the row is missing or the
  policy denies it.
\<close>

theorem mcp_get_discloses_allowed:
  assumes "distinct (map tool_name_of (all_handlers (engine_facade E envs) rels metas))" and "meta \<in> set metas"
    and "registry_get (eg_registry E) (sm_namespace meta) (sm_name meta) = Inr meta" and "qualifiable meta"
    and "json_get args ''id'' = Some (JString i)"
    and policy: "\<And>inp. pe_evaluate (eg_policy E) inp \<noteq> Inl EeNotFound"
  shows "let reply = snd (dispatch texts pkg SERVER_NAME (fst (register_all (engine_facade E envs) rels metas [])) caller
                       (call_request rid (get_tool_name meta) args) w)
         in (reply = Some (rpc_reply rid (Inr (call_result rec)))
               \<longleftrightarrow> read_allowed E (wd_db w) meta (caller_to_engine caller) i rec)
            \<and> (reply = Some (rpc_reply rid (Inl (rpc_error (- 32004) ''not found'')))
               \<longleftrightarrow> read_hidden E (wd_db w) meta (caller_to_engine caller) i)"
proof -
  let ?req = "\<lparr>gq_caller = caller_to_engine caller, gq_namespace = sm_namespace meta, gq_schema = sm_name meta, gq_id = i\<rparr>"
  let ?r = "snd (engine_get E (envs (wd_calls w)) (wd_db w) ?req)"
  have "get_reply ?r = Inr (call_result rec) \<longleftrightarrow> ?r = Inr rec"
    by (cases ?r) (simp_all add: get_reply_def call_result_inj)
  moreover have "get_reply ?r = Inl (rpc_error (- 32004) ''not found'') \<longleftrightarrow> ?r = Inl EeNotFound"
    by (cases ?r) (simp_all add: get_reply_def not_found_code)
  ultimately show ?thesis
    using engine_get_outcomes [of E "envs (wd_calls w)" "wd_db w" ?req rec] assms(3) policy
    by (simp add: dispatch_get [OF assms(1,2,5,4)] rpc_reply_inj read_allowed_def read_hidden_def Let_def)
qed

section \<open>Slugs\<close>

definition tool_char :: "char \<Rightarrow> bool" where
  "tool_char c \<longleftrightarrow> ascii_alnum c \<or> c = CHR ''_'' \<or> c = CHR ''-''"

lemma slug_legal: "list_all tool_char (slugify_for_tool_name q)"
proof -
  have "tool_char (slug_char ch)" for ch
    by (cases ch rule: list.exhaust; simp add: slug_char_def tool_char_def split: list.splits)
  then show ?thesis by (simp add: slugify_for_tool_name_def list_all_iff)
qed

text \<open>Different schemas can have the same slug, and then the tools of one are lost.\<close>

lemma slug_collision: "slugify_for_tool_name ''a.b.Doc'' = slugify_for_tool_name ''a_b.Doc''"
  by code_simp


section \<open>A sample call\<close>

definition sample_serde :: SerdeTexts where
  "sample_serde = \<lparr>st_request = (\<lambda>v. []), st_call = (\<lambda>v. []), st_initialize = (\<lambda>v. [])\<rparr>"

definition sample_world :: "(InMemoryStore, string list) World" where
  "sample_world = \<lparr>wd_db = [], wd_vectors = mem_new, wd_calls = 0\<rparr>"

lemma sample_tool_names:
  "map tool_name_of (all_handlers F (\<lambda>m. []) [sample_meta])
     = [''search_acme_Doc'', ''get_acme_Doc'', ''list_acme_Doc'', ''aggregate_acme_Doc_kind'']"
proof -
  have slug: "slugify_for_tool_name (qualified_name sample_meta) = ''acme_Doc''" "slugify_for_tool_name ''kind'' = ''kind''"
    by code_simp+
  have facets: "sm_facets sample_meta = [''kind'']" by (simp add: sample_meta_def)
  show ?thesis
    by (simp add: facets all_handlers_def schema_handlers_def Let_def slug tool_name_of_def many_relations_def search_descriptor_def
        get_descriptor_def list_descriptor_def aggregate_descriptor_def descriptor_def)
qed

lemma mcp_get_discloses_allowed_witness:
  "\<forall>caller. snd (dispatch sample_serde ''0.3.0'' SERVER_NAME
      (fst (register_all (engine_facade sample_engine (\<lambda>n. sample_env)) (\<lambda>m. []) [sample_meta] [])) caller
      (call_request (JNumber (PosInt 1)) (get_tool_name sample_meta) (JObject [(''id'', JString ''a'')])) sample_world)
   = Some (rpc_reply (JNumber (PosInt 1)) (Inr (call_result (row_json (\<lambda>t. None) (sample_row ''a'')))))"
  (is "\<forall>caller. ?P caller")
proof (rule allI)
  fix caller
  let ?F = "engine_facade sample_engine (\<lambda>n. sample_env)"
  have names: "distinct (map tool_name_of (all_handlers ?F (\<lambda>m. []) [sample_meta]))"
    unfolding sample_tool_names by code_simp
  have reg: "registry_get (eg_registry sample_engine) (sm_namespace sample_meta) (sm_name sample_meta) = Inr sample_meta"
    by (simp add: sample_engine_def registry_get_insert)
  have q: "qualifiable sample_meta" by (simp add: qualifiable_def sample_meta_def)
  have arg: "json_get (JObject [(''id'', JString ''a'')]) ''id'' = Some (JString ''a'')" by simp
  have table: "is_safe_ident (sm_table sample_meta)" by code_simp
  have allowed: "read_allowed sample_engine (wd_db sample_world) sample_meta (caller_to_engine caller) ''a'' (row_json (\<lambda>t. None) (sample_row ''a''))"
    by (simp add: read_allowed_def fetch_row_raw_def table sample_engine_def sample_postgres_def sample_rows_def
        sample_row_def default_dev_policy_def allow_all_evaluate_def)
  have policy: "pe_evaluate (eg_policy sample_engine) inp \<noteq> Inl EeNotFound" for inp
    by (simp add: sample_engine_def default_dev_policy_def allow_all_evaluate_def)
  from mcp_get_discloses_allowed [OF names _ reg q arg policy, of _ _ _ _ sample_world] allowed
  show "?P caller" by (simp add: Let_def)
qed

end
