(* ===== verification/Gateway_RestLaws.thy ===== *)
theory Gateway_RestLaws
  imports Gateway_Rest Gateway_Laws
begin

text \<open>
  Laws of the REST surface: the statement counter against the splitter of the store, a query
  against the tool facade, and what registering a schema leaves behind.
\<close>

section \<open>Counting is splitting\<close>

lemma white_shapes:
  "filter (\<lambda>w. length w = 1) white_space = map (\<lambda>n. [char_of (n :: nat)]) [9, 10, 11, 12, 13, 32]"
  "filter (\<lambda>w. length w = 2) white_space = map byte_str [[0xC2, 0x85], [0xC2, 0xA0]]"
  "list_all (\<lambda>w. w \<noteq> [] \<and> length w \<le> 3 \<and> ((of_char (last w) :: nat) < 128) = (length w = 1)
      \<and> (length w = 3 \<longrightarrow> (of_char (w ! 1) :: nat) < 192)) white_space"
  by code_simp+

lemma byte_cases:
  obtains "(of_char c :: nat) < 128" "byte_as_char c = [c]"
  | a b where "128 \<le> (of_char c :: nat)" "(of_char c :: nat) < 256" "byte_as_char c = [a, b]" "192 \<le> (of_char a :: nat)" "128 \<le> (of_char b :: nat)"
      "of_char a = 192 + (of_char c :: nat) div 64" "of_char b = 128 + (of_char c :: nat) mod 64"
proof (cases "(of_char c :: nat) < 128")
  case True
  then show thesis by (intro that(1)) (simp_all add: byte_as_char_def)
next
  case False
  have n: "(of_char c :: nat) < 256" by (cases c) (simp add: of_char_def horner_sum_simps split: if_splits)
  let ?n = "of_char c :: nat"
  have "?n div 64 < 4" "?n mod 64 < 64" using n by (simp_all add: less_mult_imp_div_less)
  then have ab: "of_char (char_of (192 + ?n div 64) :: char) = 192 + ?n div 64"
    "of_char (char_of (128 + ?n mod 64) :: char) = 128 + ?n mod 64"
    by (simp_all add: of_char_of take_bit_eq_mod)
  with False n show thesis
    by (intro that(2) [of "char_of (192 + ?n div 64)" "char_of (128 + ?n mod 64)"])
      (simp_all add: byte_as_char_def Let_def)
qed

lemma char_of_is: "n < 256 \<Longrightarrow> c = char_of n \<longleftrightarrow> (of_char c :: nat) = n"
  by (metis char_of_eq_iff mod_less take_bit_eq_mod numeral_eq_iff of_char_of char_of_char power2_eq_square)

lemma byte_whitespace_split:
  fixes q r :: nat
  assumes "r < 64" "128 \<le> 64 * q + r" "64 * q + r < 256"
  shows "q = 2 \<and> (r = 5 \<or> r = 32) \<longleftrightarrow> 64 * q + r = 0x85 \<or> 64 * q + r = 0xA0"
proof -
  have "q = 2 \<or> q = 3" using assms by linarith
  then show ?thesis using assms by auto
qed

lemma byte_whitespace_iff: "byte_as_char c \<in> set white_space \<longleftrightarrow> byte_whitespace c"
proof (cases c rule: byte_cases)
  case 1
  have "[c] \<in> set white_space \<longleftrightarrow> [c] \<in> set (filter (\<lambda>w. length w = 1) white_space)" by simp
  also have "\<dots> \<longleftrightarrow> byte_whitespace c"
    unfolding white_shapes(1) using 1(1) by (auto simp: char_of_is byte_whitespace_def Let_def)
  finally show ?thesis using 1(2) by simp
next
  case (2 a b)
  have "[a, b] \<in> set white_space \<longleftrightarrow> [a, b] \<in> set (filter (\<lambda>w. length w = 2) white_space)" by simp
  also have "\<dots> \<longleftrightarrow> (of_char a :: nat) = 0xC2 \<and> ((of_char b :: nat) = 0x85 \<or> (of_char b :: nat) = 0xA0)"
    unfolding white_shapes(2) by (auto simp: byte_str_def char_of_is)
  also have "\<dots> \<longleftrightarrow> byte_whitespace c"
    using 2(1, 2) byte_whitespace_split [of "of_char c mod 64" "of_char c div 64"]
    by (simp add: 2(6, 7) byte_whitespace_def Let_def)
  finally show ?thesis using 2(3) by simp
qed

lemma white_suffix:
  assumes w: "w \<in> set white_space" and "suffix w (byte_as_char c) \<or> suffix (byte_as_char c) w"
  shows "w = byte_as_char c"
proof -
  have shape: "w \<noteq> []" "length w \<le> 3" "((of_char (last w) :: nat) < 128) = (length w = 1)"
    "length w = 3 \<Longrightarrow> (of_char (w ! 1) :: nat) < 192"
    using white_shapes(3) w by (auto simp: list_all_iff)
  show ?thesis
  proof (cases c rule: byte_cases)
    case 1
    with assms(2) shape(1) have "last w = c" by (auto simp: suffix_def Cons_eq_append_conv)
    with 1 shape(3) obtain x where "w = [x]" by (auto simp: length_Suc_conv)
    with \<open>last w = c\<close> 1(2) show ?thesis by simp
  next
    case (2 a b)
    with assms(2) shape(1) have "last w = b" by (auto simp: suffix_def Cons_eq_append_conv)
    with 2(5) shape(3) have "length w \<noteq> 1" by simp
    with shape(1, 2) have "length w = 2 \<or> length w = 3" by (cases "length w") auto
    then consider x y where "w = [x, y]" | x y z where "w = [x, y, z]"
      by (auto simp: length_Suc_conv eval_nat_numeral)
    then show ?thesis
      using assms(2) 2(3, 4) shape(4) by cases (auto simp: suffix_def Cons_eq_append_conv)
  qed
qed

lemma blank_byte: "blank (s @ byte_as_char c) \<longleftrightarrow> blank s \<and> byte_whitespace c"
proof
  assume "blank (s @ byte_as_char c)"
  then obtain ws where ws: "set ws \<subseteq> set white_space" "concat ws = s @ byte_as_char c" by (auto simp: blank_def)
  have "byte_as_char c \<noteq> []" by (simp add: byte_as_char_def Let_def)
  with ws(2) obtain us w where us: "ws = us @ [w]" by (cases ws rule: rev_cases) auto
  then have w: "w \<in> set white_space" "concat us @ w = s @ byte_as_char c" using ws by auto
  then have "suffix w (byte_as_char c) \<or> suffix (byte_as_char c) w"
    using suffix_same_cases [of w "concat us @ w" "byte_as_char c"] by (metis suffixI)
  then have "w = byte_as_char c" using white_suffix w(1) by blast
  with w us ws(1) show "blank s \<and> byte_whitespace c"
    by (auto simp: byte_whitespace_iff [symmetric] blank_def)
next
  assume "blank s \<and> byte_whitespace c"
  moreover have "blank (byte_as_char c)" if "byte_whitespace c"
    unfolding blank_def using that byte_whitespace_iff by (intro exI [of _ "[byte_as_char c]"]) simp
  ultimately show "blank (s @ byte_as_char c)" by (simp add: blank_append)
qed

text \<open>Both scans agree step by step on a text without dollars.\<close>

definition counts :: "SplitState \<Rightarrow> CountState \<Rightarrow> bool" where
  "counts ss ct \<longleftrightarrow> ss_dollar_tag ss = None \<and> ct_tag ct = None \<and> ss_in_str ss = ct_in_str ct
     \<and> ct_has_text ct = (trim (ss_current ss) \<noteq> []) \<and> ct_count ct = word_of_nat (length (ss_out ss))"

lemma counts_byte: "counts ss ct \<Longrightarrow> counts (byte_arm c ss) (count_byte c ct)"
proof -
  have q: "byte_as_char single_quote = [single_quote]" "\<not> byte_whitespace single_quote" by code_simp+
  have "trim (s @ byte_as_char c) \<noteq> [] \<longleftrightarrow> trim s \<noteq> [] \<or> \<not> byte_whitespace c" for s
    by (simp add: trim_blank blank_byte)
  moreover have "trim (s @ [single_quote]) \<noteq> []" for s
    using blank_byte [of s single_quote] q by (simp add: trim_blank)
  moreover have "trim [] = []" by (simp add: trim_blank)
  moreover assume "counts ss ct"
  ultimately show ?thesis by (simp add: counts_def byte_arm_def count_byte_def)
qed

lemma count_scan_Nil [simp]: "count_scan [] st = Some st"
  by (simp add: count_scan.simps)

lemma counts_scan:
  "CHR ''$'' \<notin> set s \<Longrightarrow> counts ss ct \<Longrightarrow> \<exists>ct'. count_scan s ct = Some ct' \<and> counts (split_scan s ss) ct'"
proof (induction s ct arbitrary: ss rule: count_scan.induct)
  case (1 s ct)
  show ?case
  proof (cases s)
    case Nil
    with "1.prems"(2) show ?thesis by simp
  next
    case (Cons c s')
    have tag: "ct_tag ct = None" "ss_dollar_tag ss = None" and str: "ss_in_str ss = ct_in_str ct"
      using "1.prems"(2) by (simp_all add: counts_def)
    have d: "CHR ''$'' \<notin> set s'" "c \<noteq> CHR ''$''" using "1.prems"(1) Cons by auto
    have open_none: "count_open s ct = None" "dollar_arm s ss = None"
      using d(2) Cons by (simp_all add: count_open_def dollar_arm_def nth_opt_def)
    have comment: "count_comment s ct = comment_start s ss"
      using tag str by (simp add: count_comment_def comment_start_def)
    show ?thesis
    proof (cases "count_comment s ct")
      case True
      have "CHR ''$'' \<notin> set (dropWhile (\<lambda>c. c \<noteq> newline) s)" using "1.prems"(1) by (meson set_dropWhileD)
      from "1.IH"(1) [OF Cons True this "1.prems"(2)] show ?thesis
        using True comment Cons by (simp add: count_scan.simps [of "c # s'"] split_scan.simps [of "c # s'"])
    next
      case False
      from "1.IH"(2) [OF Cons False open_none(1) tag(1) d(1) counts_byte [OF "1.prems"(2)]] show ?thesis
        using False comment Cons open_none tag by (simp add: count_scan.simps [of "c # s'"] split_scan.simps [of "c # s'"])
    qed
  qed
qed

text \<open>
  On a text without dollar signs the statement counter of the REST layer, the comment that
  calls it naive notwithstanding, reports exactly the number of statements the store runs,
  whatever quotes, comments and bytes outside ASCII the text holds. (With dollar quotes it can
  panic; see \<open>count_panics\<close>.)
\<close>

theorem count_is_split:
  assumes "CHR ''$'' \<notin> set ddl"
  shows "count_ddl_statements ddl = Some (word_of_nat (length (split_sql ddl)))"
proof -
  have "counts split_init \<lparr>ct_count = 0, ct_has_text = False, ct_in_str = False, ct_tag = None\<rparr>"
    by (simp add: counts_def split_init_def trim_blank)
  from counts_scan [OF assms this] show ?thesis
    by (auto simp: count_ddl_statements_def split_sql_def Let_def counts_def)
qed

lemma count_is_split_witness:
  "count_ddl_statements ''CREATE TABLE a(); -- b;'' = Some 1"
proof -
  have "CHR ''$'' \<notin> set ''CREATE TABLE a(); -- b;''" by code_simp
  from count_is_split [OF this] moreover have "length (split_sql ''CREATE TABLE a(); -- b;'') = 1" by code_simp
  ultimately show ?thesis by simp
qed

text \<open>Inside a dollar quote a character outside ASCII makes the counter slice inside it.\<close>

lemma count_panics:
  "count_ddl_statements (''$$'' @ byte_str [0xC3, 0xA9] @ ''$$'') = None"
  by code_simp

section \<open>A query is the search tool\<close>

definition answer_code :: "HttpAnswer \<Rightarrow> string option" where
  "answer_code a = Option.bind (an_body a) (\<lambda>b.
     Option.bind (json_get b ''error'') (\<lambda>e. Option.bind (json_get e ''code'') json_as_str))"

lemma rest_error_parts [simp]:
  "an_status (rest_error s c m) = s" "answer_code (rest_error s c m) = Some c"
  by (simp_all add: rest_error_def answer_code_def json_answer_def obj_def)

lemma rest_ok_status [simp]: "an_status (rest_ok v) = 200"
  by (simp add: rest_ok_def json_answer_def)

lemma error_status_not_200 [simp]: "fst (error_status e) \<noteq> 200"
  by (cases e) simp_all

lemma rest_split_agrees: "rest_split_qualified q = Inr x \<Longrightarrow> split_qualified q = Inr x"
  by (auto simp: split_qualified_def rest_split_qualified_def result_simps split: option.splits if_splits)

lemma rest_split_rejects:
  assumes "rest_split_qualified q = Inl m"
  obtains t where "split_qualified q = Inl (EeInvalidArgument t)"
proof (cases "rsplit_once (CHR ''.'') q")
  case None
  with that show thesis by (simp add: split_qualified_def result_simps)
next
  case (Some p)
  obtain ns name where p: "p = (ns, name)" by fastforce
  with Some assms have "ns = [] \<or> name = []"
    by (auto simp: rest_split_qualified_def split: if_splits)
  with Some p that show thesis by (simp add: split_qualified_def result_simps)
qed

lemma query_results_agree:
  "query_response_value (search_response_to_wire resp) = JObject
     [(''receipt_id'', JString (sp_receipt_id resp)), (''results'', JArray (map hit_value (sp_results resp)))]"
  by (simp add: query_response_value_def search_response_to_wire_def query_hit_value_def hit_value_def)

text \<open>
  C33: a query over REST and the search through the facade, which is what the search tools of MCP
  call, are the same operation: on the same arguments the database ends the same, a result is
  answered with status 200 and the same document as data, and an error with the status and the
  code of its kind.
\<close>

theorem rest_query_is_tool_search:
  "let w = ap_world app;
       r = facade_search (app_engine A (ap_schemas app)) (ac_envs A (wd_calls w)) (wd_vectors w) (wd_db w) caller
             (qr_schema b) (qr_query b) (case qr_top_k b of None \<Rightarrow> 0 | Some k \<Rightarrow> unat k)
             (case qr_filters b of None \<Rightarrow> JNull | Some f \<Rightarrow> f);
       (app', ans) = post_query A caller b app
   in wd_db (ap_world app') = fst r
      \<and> (case snd r of Inr v \<Rightarrow> ans = rest_ok v
         | Inl e \<Rightarrow> an_status ans = fst (error_status e) \<and> answer_code ans = Some (snd (error_status e)))"
proof (cases "rest_split_qualified (qr_schema b)")
  case (Inl m)
  then obtain t where "split_qualified (qr_schema b) = Inl (EeInvalidArgument t)" by (rule rest_split_rejects)
  with Inl show ?thesis
    by (auto simp: post_query_def facade_search_def bad_request_def)
next
  case (Inr q)
  then show ?thesis
    using rest_split_agrees [OF Inr]
    by (auto simp: post_query_def facade_search_def in_world_def engine_error_response_def query_results_agree Let_def
        split: prod.splits sum.splits)
qed

section \<open>Registering a schema\<close>

lemma set_sel [simp]:
  "ap_schemas (set_db db app) = ap_schemas app" "app_tools (set_db db app) = app_tools app"
  "app_tools (set_tools tools app) = tools" "ap_schemas (set_tools tools app) = ap_schemas app"
  "tr_sessions (ap_transport (set_tools tools app)) = tr_sessions (ap_transport app)"
  "tr_sessions (ap_transport (set_db db app)) = tr_sessions (ap_transport app)"
  "wd_db (ap_world (set_db db app)) = db" "ap_world (set_tools tools app) = ap_world app"
  by (simp_all add: set_db_def set_tools_def app_tools_def)

lemma register_finds:
  "set (map tool_name_of (schema_handlers F rels meta))
     \<subseteq> {n. tool_get_handler (fst (register_schema_tools F rels meta tools)) SERVER_NAME n \<noteq> None}"
  by (auto simp: register_schema_tools_def tool_get_handler_def map_of_register_fold find_None_iff split: option.split)

lemma register_keeps:
  "{n. tool_get_handler tools SERVER_NAME n \<noteq> None}
     \<subseteq> {n. tool_get_handler (fst (register_schema_tools F rels meta tools)) SERVER_NAME n \<noteq> None}"
  by (auto simp: register_schema_tools_def tool_get_handler_def map_of_register_fold split: option.split)

text \<open>What the store is asked to write for a schema: one row, keyed by namespace, name and version.\<close>

definition schema_row :: "SchemaMeta \<Rightarrow> json \<Rightarrow> PgValue list" where
  "schema_row meta definition' =
     [PgText (sm_namespace meta), PgText (sm_name meta), PgInt (min (int (unat (sm_version meta))) (2 ^ 31 - 1)),
      PgJson definition']"

lemma put_schema_row:
  "put_schema pg to_value db meta =
     (case to_value meta of
        Inl e \<Rightarrow> (db, Inl (EeBackend e))
      | Inr d \<Rightarrow>
          (case pg_execute pg db (''INSERT INTO sealstack_schemas (namespace, name, version, definition) ''
                   @ ''VALUES ($1, $2, $3, $4) ON CONFLICT (namespace, name, version) ''
                   @ ''DO UPDATE SET definition = EXCLUDED.definition'') (schema_row meta d) of
             (db', Inl e) \<Rightarrow> (db', Inl (EeBackend e))
           | (db', Inr n) \<Rightarrow> (db', Inr ())))"
proof -
  have "(if n < 2 ^ 31 then int n else 2 ^ 31 - 1) = min (int n) (2 ^ 31 - 1)" for n :: nat by auto
  from this [of "unat (sm_version meta)"]
  show ?thesis
    unfolding put_schema_def schema_row_def executed_def
    by (simp only:) (auto split: sum.split prod.split)
qed

text \<open>
  C34: registering a schema over REST is all or nothing for the process. With status 200 the
  store has executed the upsert of the schema's row, with its document as a parameter, the
  engine finds the schema, every tool of the schema has a handler for every session, open ones
  included, and no tool is lost; with any other status the schemas and the tools are what
  they were, and the database was not touched but by an upsert that failed.
\<close>

theorem rest_registration_all_or_nothing:
  "let (app', ans) = rest_register_schema A doc app;
       upsert = (\<lambda>meta d. pg_execute (eg_store (ac_engine A)) (wd_db (ap_world app))
         (''INSERT INTO sealstack_schemas (namespace, name, version, definition) ''
            @ ''VALUES ($1, $2, $3, $4) ON CONFLICT (namespace, name, version) ''
            @ ''DO UPDATE SET definition = EXCLUDED.definition'')
         [PgText (sm_namespace meta), PgText (sm_name meta),
          PgInt (min (int (unat (sm_version meta))) (2 ^ 31 - 1)), PgJson d])
   in if an_status ans = 200 then
     (\<exists>meta d n. read_schema_meta doc = Some meta \<and> ac_to_value A meta = Inr d
        \<and> upsert meta d = (wd_db (ap_world app'), Inr n)
        \<and> ap_schemas app' = registry_insert meta (ap_schemas app)
        \<and> registry_get (ap_schemas app') (sm_namespace meta) (sm_name meta) = Inr meta
        \<and> set (map tool_name_of (schema_handlers (app_facade A) (ac_relations A meta) meta))
            \<union> {n. tool_get_handler (app_tools app) SERVER_NAME n \<noteq> None}
          \<subseteq> {n. tool_get_handler (app_tools app') SERVER_NAME n \<noteq> None}
        \<and> tr_sessions (ap_transport app') = tr_sessions (ap_transport app))
   else ap_schemas app' = ap_schemas app \<and> ap_transport app' = ap_transport app
     \<and> (wd_db (ap_world app') = wd_db (ap_world app)
        \<or> (\<exists>meta d e. read_schema_meta doc = Some meta \<and> upsert meta d = (wd_db (ap_world app'), Inl e)))"
proof (cases "read_schema_meta doc")
  case None
  then show ?thesis by (simp add: rest_register_schema_def bad_request_def)
next
  case (Some meta)
  note row = put_schema_row [of "eg_store (ac_engine A)" "ac_to_value A" "wd_db (ap_world app)" meta, unfolded schema_row_def]
  show ?thesis
  proof (cases "ac_to_value A meta")
    case (Inl e)
    with Some show ?thesis by (simp add: rest_register_schema_def row engine_error_response_def set_db_def)
  next
    case (Inr d)
    obtain db r where put: "pg_execute (eg_store (ac_engine A)) (wd_db (ap_world app))
         (''INSERT INTO sealstack_schemas (namespace, name, version, definition) ''
            @ ''VALUES ($1, $2, $3, $4) ON CONFLICT (namespace, name, version) ''
            @ ''DO UPDATE SET definition = EXCLUDED.definition'')
         [PgText (sm_namespace meta), PgText (sm_name meta),
          PgInt (min (int (unat (sm_version meta))) (2 ^ 31 - 1)), PgJson d] = (db, r)"
      by fastforce
    have res: "put_schema (eg_store (ac_engine A)) (ac_to_value A) (wd_db (ap_world app)) meta
        = (db, case r of Inl e \<Rightarrow> Inl (EeBackend e) | Inr n \<Rightarrow> Inr ())"
      unfolding row Inr sum.case put by (simp split: sum.split)
    show ?thesis
    proof (cases r)
      case error: (Inl e)
      have "rest_register_schema A doc app = (set_db db app, engine_error_response (EeBackend e))"
        using Some res error by (simp add: rest_register_schema_def)
      moreover have "an_status (engine_error_response (EeBackend e)) \<noteq> 200" by (simp add: engine_error_response_def)
      moreover note put [unfolded error]
      ultimately show ?thesis
        using Some unfolding Let_def by (auto simp: set_db_def simp del: uint_nat)
    next
      case ok: (Inr n)
      with Some Inr res put register_finds [of "app_facade A" "ac_relations A meta" meta "app_tools app"]
        register_keeps [of "app_tools app" "app_facade A" "ac_relations A meta" meta]
      show ?thesis
        by (simp add: rest_register_schema_def Let_def registry_get_insert)
    qed
  qed
qed

section \<open>Error codes\<close>

text \<open>The codes of the wire type (\<open>envelope.rs\<close>); the one of a failed connector registration is not among them.\<close>

definition wire_error_codes :: "string list" where
  "wire_error_codes = [''not_found'', ''unknown_schema'', ''unauthorized'', ''policy_denied'', ''invalid_argument'',
     ''rate_limited'', ''backend'']"

lemma engine_errors_on_wire: "snd (error_status e) \<in> set wire_error_codes"
  by (cases e) (simp_all add: wire_error_codes_def)

lemma connector_errors_off_wire: "answer_code (anyhow_error_response m) \<notin> Some ` set wire_error_codes"
  by (simp add: anyhow_error_response_def wire_error_codes_def)

end
