(* ===== verification/Gateway_Sessions.thy ===== *)
theory Gateway_Sessions
  imports Gateway_Transport
begin

text \<open>
  Runs of the gateway's MCP endpoint: which identity the calls of a request are dispatched
  for. A run serves requests one after the other, from an empty session table.
\<close>

inductive serves :: "jwt_decode \<Rightarrow> AuthMode \<Rightarrow> SerdeTexts \<Rightarrow> string \<Rightarrow> 'st TransportState \<times> 'st
    \<Rightarrow> McpRequest list \<Rightarrow> 'st TransportState \<times> 'st \<Rightarrow> bool"
  for decode mode texts pkg w0 where
  start: "serves decode mode texts pkg w0 [] w0"
| request: "serves decode mode texts pkg w0 reqs w
     \<Longrightarrow> mcp_serve decode mode texts pkg req w = (w', answer)
     \<Longrightarrow> serves decode mode texts pkg w0 (req # reqs) w'"

inductive_cases serves_cons: "serves decode mode texts pkg w0 (req # reqs) w"

text \<open>A request opens the session of its ULID for the caller it was authenticated as.\<close>

definition opens :: "jwt_decode \<Rightarrow> AuthMode \<Rightarrow> McpRequest \<Rightarrow> string \<Rightarrow> GwCaller \<Rightarrow> bool" where
  "opens decode mode req sid c \<longleftrightarrow>
     sid = rq_ulid (mr_env req)
     \<and> (\<exists>auth. authenticate decode mode (mr_authorization req) = Inr auth \<and> c = session_caller auth)"

text \<open>The invariant: the registry is the one it began with, and every session of the table was opened.\<close>

definition sessions_opened :: "jwt_decode \<Rightarrow> AuthMode \<Rightarrow> 'st ToolRegistry \<Rightarrow> McpRequest list
    \<Rightarrow> 'st TransportState \<Rightarrow> bool" where
  "sessions_opened decode mode reg reqs s \<longleftrightarrow>
     tr_registry s = reg
     \<and> (\<forall>sid sn. tr_sessions s sid = Some sn \<longrightarrow> sn_id sn = sid
          \<and> (\<exists>req \<in> set reqs. opens decode mode req sid (sn_caller sn)))"

text \<open>Resolving a session: it was in the table, or it is opened now.\<close>

lemma resolve_cases:
  assumes "resolve_session env header auth s = (s', sid, c)"
  obtains (found) key sn where "Option.bind header to_str = Some key" "tr_sessions s key = Some sn"
      "sid = sn_id sn" "c = sn_caller sn"
    | (issued) "sid = rq_ulid env" "c = session_caller auth"
  using assms that
  by (auto simp: resolve_session_def issue_session_def Let_def reap_expired_def split: option.splits if_splits)

lemma resolve_sessions:
  assumes "resolve_session env header auth s = (s', sid, c)" and "tr_sessions s' k = Some sn"
  shows "(\<exists>sn0. tr_sessions s k = Some sn0 \<and> sn_id sn = sn_id sn0 \<and> sn_caller sn = sn_caller sn0)
       \<or> (k = sid \<and> sn_id sn = sid \<and> sn_caller sn = c \<and> sid = rq_ulid env \<and> c = session_caller auth)"
  using assms
  by (auto simp: resolve_session_def issue_session_def Let_def reap_expired_def split: option.splits if_splits)

lemma resolve_registry [simp]: "tr_registry (fst (resolve_session env header auth s)) = tr_registry s"
  by (simp add: resolve_session_def issue_session_def reap_expired_def Let_def split: option.split)

lemma handle_post_sessions:
  "fst (fst (handle_post texts pkg env server header auth body w)) = fst (resolve_session env header auth (fst w))"
  by (auto simp: handle_post_def split: prod.splits json.splits option.splits)

text \<open>What a request does to the table.\<close>

lemma serve_sessions:
  assumes "mcp_serve decode mode texts pkg req w = (w', answer)"
  shows "(\<exists>auth. authenticate decode mode (mr_authorization req) = Inr auth
            \<and> fst w' = fst (resolve_session (mr_env req) (mr_session req) auth (fst w)))
       \<or> (tr_registry (fst w') = tr_registry (fst w)
            \<and> (\<forall>k sn. tr_sessions (fst w') k = Some sn \<longrightarrow> tr_sessions (fst w) k = Some sn))"
  using assms handle_post_sessions [of texts pkg "mr_env req" "mr_server req" "mr_session req" _ _ w]
  by (auto simp: mcp_serve_def require_bearer_def mcp_route_def handle_delete_def
      split: sum.splits McpMethod.splits option.splits if_splits) (metis fst_conv)+

lemma serve_keeps_opened:
  assumes inv: "sessions_opened decode mode reg reqs (fst w)"
    and run: "mcp_serve decode mode texts pkg req w = (w', answer)"
  shows "sessions_opened decode mode reg (req # reqs) (fst w')"
  using serve_sessions [OF run]
proof (elim disjE exE conjE)
  fix auth
  assume post: "authenticate decode mode (mr_authorization req) = Inr auth"
    "fst w' = fst (resolve_session (mr_env req) (mr_session req) auth (fst w))"
  obtain s' sid c where r: "resolve_session (mr_env req) (mr_session req) auth (fst w) = (s', sid, c)"
    by (metis prod_cases3)
  then have s': "fst w' = s'" using post by simp
  have "sn_id sn = k \<and> (\<exists>q \<in> set (req # reqs). opens decode mode q k (sn_caller sn))"
    if "tr_sessions s' k = Some sn" for k sn
    using resolve_sessions [OF r that] inv post(1) by (auto simp: sessions_opened_def opens_def)
  then show ?thesis
    using inv post(2) by (simp add: sessions_opened_def s' [symmetric])
next
  assume "tr_registry (fst w') = tr_registry (fst w)"
    "\<forall>k sn. tr_sessions (fst w') k = Some sn \<longrightarrow> tr_sessions (fst w) k = Some sn"
  with inv show ?thesis by (auto simp: sessions_opened_def)
qed

lemma serves_opened:
  "serves decode mode texts pkg (transport_new reg, st) reqs w \<Longrightarrow> sessions_opened decode mode reg reqs (fst w)"
proof (induction rule: serves.induct)
  case start
  show ?case by (simp add: sessions_opened_def transport_new_def)
next
  case (request reqs w req w' answer)
  then show ?case by (rule_tac serve_keeps_opened)
qed

text \<open>A live session is resumed for whoever names it: the identity of the request is not compared.\<close>

lemma session_resumed_for_anyone:
  assumes "to_str h = Some sid" "tr_sessions s sid = Some sn" "rq_reap_now env - sn_last_seen sn < tr_session_ttl s"
  shows "snd (resolve_session env (Some h) auth s) = (sn_id sn, sn_caller sn)"
  using assms by (simp add: resolve_session_def reap_expired_def Let_def)

text \<open>An idle session is never resumed.\<close>

lemma idle_session_expires:
  assumes "to_str h = Some sid" "tr_sessions s sid = Some sn" "tr_session_ttl s \<le> rq_reap_now env - sn_last_seen sn"
  shows "snd (resolve_session env (Some h) auth s) = (rq_ulid env, session_caller auth)"
  using assms by (simp add: resolve_session_def reap_expired_def issue_session_def Let_def)

section \<open>What a request does, and for whom\<close>

text \<open>The claims of the bearer token of a request, when it carries an accepted one.\<close>

definition bearer_claims :: "jwt_decode \<Rightarrow> string \<Rightarrow> string list \<Rightarrow> string list \<Rightarrow> McpRequest \<Rightarrow> Claims option" where
  "bearer_claims decode secret issuers audiences req =
     (case Option.bind (mr_authorization req) to_str of
        Some h \<Rightarrow>
          (if take 7 h = ''Bearer ''
           then case decode (drop 7 h) \<lparr>vd_secret = secret, vd_issuers = (if issuers = [] then None else Some issuers),
                    vd_audiences = (if audiences = [] then None else Some audiences)\<rparr> of
                  Inr claims \<Rightarrow> Some claims
                | Inl e \<Rightarrow> None
           else None)
      | None \<Rightarrow> None)"

definition holder :: "Claims \<Rightarrow> GwCaller" where
  "holder claims = \<lparr>gc_id = cm_sub claims, gc_tenant = cm_tenant claims, gc_groups = [],
     gc_roles = cm_roles claims, gc_attrs = cm_extras claims\<rparr>"

text \<open>
  A body was done for a caller in a session: its requests were dispatched to the tools for
  that caller, which gave the new state and the replies, or it holds no request and was refused.
\<close>

definition done_for :: "SerdeTexts \<Rightarrow> string \<Rightarrow> string \<Rightarrow> 'st ToolRegistry \<Rightarrow> GwCaller \<Rightarrow> string \<Rightarrow> json
    \<Rightarrow> 'st \<Rightarrow> 'st \<Rightarrow> HttpAnswer \<Rightarrow> bool" where
  "done_for texts pkg server reg c sid body st st' answer \<longleftrightarrow>
     (\<exists>items replies. body = JArray items \<and> dispatch_batch texts pkg server reg c items st = (st', replies)
        \<and> answer = rpc_answer sid replies)
     \<or> ((\<forall>items. body \<noteq> JArray items)
        \<and> (case read_request body of
             None \<Rightarrow> st' = st \<and> an_status answer = 400
           | Some r \<Rightarrow>
               (\<exists>reply. dispatch texts pkg server reg c r st = (st', reply)
                  \<and> answer = (case reply of None \<Rightarrow> empty_answer 202 | Some x \<Rightarrow> rpc_answer sid [x]))))"

lemma authenticate_bearer:
  "authenticate decode (Hs256 secret issuers audiences) (mr_authorization req) = Inr auth
   \<longleftrightarrow> (\<exists>claims. bearer_claims decode secret issuers audiences req = Some claims \<and> auth = authenticated_of claims)"
proof (cases "Option.bind (mr_authorization req) to_str")
  case None
  then show ?thesis
    by (cases "mr_authorization req") (simp_all add: authenticate_def extract_and_validate_def bearer_claims_def)
next
  case (Some h)
  then obtain raw where raw: "mr_authorization req = Some raw" "to_str raw = Some h"
    by (cases "mr_authorization req") auto
  have prefix: "strip_prefix h ''Bearer '' = (if take 7 h = ''Bearer '' then Some (drop 7 h) else None)"
  proof -
    have "length ''Bearer '' = 7" by simp
    then show ?thesis unfolding strip_prefix_def starts_with_def by (simp only:)
  qed
  show ?thesis
    unfolding authenticate_def extract_and_validate_def bearer_claims_def raw AuthMode.case option.case
      bind.bind_lunit prefix validation_of_def
    by (cases "take 7 h = ''Bearer ''"; cases "decode (drop 7 h) (validation_of secret issuers audiences)")
      (auto simp: validation_of_def)
qed

lemma session_caller_holder: "session_caller (authenticated_of claims) = holder claims"
  by (simp add: session_caller_def authenticated_of_def holder_def)

lemma post_done_for:
  assumes "handle_post texts pkg env server header auth body w = (w', answer)"
    and "resolve_session env header auth (fst w) = (s', sid, c)"
  shows "done_for texts pkg server (tr_registry (fst w)) c sid body (snd w) (snd w') answer"
proof -
  have "tr_registry s' = tr_registry (fst w)" using resolve_registry [of env header auth "fst w"] assms(2) by simp
  then show ?thesis
    using assms unfolding done_for_def handle_post_def
    by (cases body) (auto simp: json_answer_def split: option.splits prod.splits)
qed

text \<open>
  C30: under bearer authentication, in every state requests can bring the MCP endpoint to, a
  request without an accepted token is answered with 401 and changes nothing; a POST with
  one has its body dispatched to the tools for the holder of an accepted token: its own, or
  that of the earlier request that opened the session it names. Replies carry the id of
  that session. Requests of other methods reach no tool. (The claims of a request that resumes
  a session are not compared with those of the session.)
\<close>

theorem mcp_callers_hold_tokens:
  assumes "serves decode (Hs256 secret issuers audiences) texts pkg (transport_new reg, st) reqs w"
    and "mcp_serve decode (Hs256 secret issuers audiences) texts pkg req w = (w', answer)"
  shows "case (bearer_claims decode secret issuers audiences req, mr_method req) of
      (None, _) \<Rightarrow> an_status answer = 401 \<and> w' = w
    | (Some own, McpPost body) \<Rightarrow>
        (\<exists>req' claims sid. (req' = req \<or> req' \<in> set reqs \<and> Option.bind (mr_session req) to_str = Some sid)
           \<and> bearer_claims decode secret issuers audiences req' = Some claims \<and> rq_ulid (mr_env req') = sid
           \<and> done_for texts pkg (mr_server req) reg (holder claims) sid body (snd w) (snd w') answer)
    | (Some own, _) \<Rightarrow> snd w' = snd w"
proof (cases "bearer_claims decode secret issuers audiences req")
  case None
  then have "\<nexists>auth. authenticate decode (Hs256 secret issuers audiences) (mr_authorization req) = Inr auth"
    by (simp add: authenticate_bearer)
  then obtain e where "authenticate decode (Hs256 secret issuers audiences) (mr_authorization req) = Inl e"
    by (cases "authenticate decode (Hs256 secret issuers audiences) (mr_authorization req)") auto
  with None assms(2) show ?thesis by (auto simp: mcp_serve_def require_bearer_def unauthorized_def)
next
  case (Some own)
  then have auth: "authenticate decode (Hs256 secret issuers audiences) (mr_authorization req) = Inr (authenticated_of own)"
    by (simp add: authenticate_bearer)
  note opened = serves_opened [OF assms(1)]
  show ?thesis
  proof (cases "mr_method req")
    case (McpPost body)
    obtain s' sid c where r: "resolve_session (mr_env req) (mr_session req) (authenticated_of own) (fst w) = (s', sid, c)"
      by (metis prod_cases3)
    have "handle_post texts pkg (mr_env req) (mr_server req) (mr_session req) (authenticated_of own) body w = (w', answer)"
      using assms(2) auth McpPost by (simp add: mcp_serve_def require_bearer_def mcp_route_def)
    from post_done_for [OF this r] opened
    have post: "done_for texts pkg (mr_server req) reg c sid body (snd w) (snd w') answer"
      by (simp add: sessions_opened_def)
    from r have "\<exists>req' claims. (req' = req \<or> req' \<in> set reqs \<and> Option.bind (mr_session req) to_str = Some sid)
        \<and> bearer_claims decode secret issuers audiences req' = Some claims \<and> rq_ulid (mr_env req') = sid
        \<and> c = holder claims"
    proof (cases rule: resolve_cases)
      case (found key sn)
      with opened have "sid = key" "\<exists>q \<in> set reqs. opens decode (Hs256 secret issuers audiences) q sid c"
        by (auto simp: sessions_opened_def)
      with found(1) show ?thesis by (auto simp: opens_def authenticate_bearer session_caller_holder)
    next
      case issued
      with Some show ?thesis by (auto simp: session_caller_holder)
    qed
    with post Some McpPost show ?thesis by auto
  qed (use assms(2) auth Some in \<open>auto simp: mcp_serve_def require_bearer_def mcp_route_def split: prod.splits\<close>)
qed

section \<open>Two identities, one session\<close>

definition claims_for :: "string \<Rightarrow> Claims" where
  "claims_for sub = \<lparr>cm_sub = sub, cm_tenant = ''acme'', cm_roles = [], cm_extras = []\<rparr>"

definition sample_decode :: jwt_decode where
  "sample_decode token v = (if vd_secret v = ''k'' then Inr (claims_for token) else Inl ''InvalidSignature'')"

definition sample_post :: "string \<Rightarrow> string option \<Rightarrow> string \<Rightarrow> McpRequest" where
  "sample_post sub session ulid =
     \<lparr>mr_method = McpPost (JArray []), mr_server = ''sealstack'', mr_authorization = Some (bytes_of (''Bearer '' @ sub)),
      mr_session = map_option bytes_of session, mr_env = \<lparr>rq_reap_now = 5, rq_now = 5, rq_ulid = ulid\<rparr>\<rparr>"

definition sample_texts :: SerdeTexts where
  "sample_texts = \<lparr>st_request = (\<lambda>v. ''invalid type''), st_call = (\<lambda>v. ''invalid type''), st_initialize = (\<lambda>v. ''invalid type'')\<rparr>"

definition sample_w0 :: "unit TransportState \<times> unit" where
  "sample_w0 = (transport_new [], ())"

definition sample_serve :: "McpRequest \<Rightarrow> unit TransportState \<times> unit \<Rightarrow> (unit TransportState \<times> unit) \<times> HttpAnswer" where
  "sample_serve req w = mcp_serve sample_decode (Hs256 ''k'' [] []) sample_texts ''0.3.0'' req w"

lemma sample_claims:
  "bearer_claims sample_decode ''k'' [] [] (sample_post ''alice'' None ''S1'') = Some (claims_for ''alice'')"
  "bearer_claims sample_decode ''k'' [] [] (sample_post ''bob'' (Some ''S1'') ''S2'') = Some (claims_for ''bob'')"
  by code_simp+

lemma mcp_callers_hold_tokens_witness:
  "\<exists>w w' answer claims sid. serves sample_decode (Hs256 ''k'' [] []) sample_texts ''0.3.0'' sample_w0
        [sample_post ''alice'' None ''S1''] w
     \<and> mcp_serve sample_decode (Hs256 ''k'' [] []) sample_texts ''0.3.0'' (sample_post ''bob'' (Some ''S1'') ''S2'') w = (w', answer)
     \<and> done_for sample_texts ''0.3.0'' ''sealstack'' [] (holder claims) sid (JArray []) () () answer
     \<and> (claims, sid) \<in> {(claims_for ''alice'', ''S1''), (claims_for ''bob'', ''S2'')}"
proof -
  let ?a = "sample_post ''alice'' None ''S1''" and ?b = "sample_post ''bob'' (Some ''S1'') ''S2''"
  obtain w1 a1 where s1: "sample_serve ?a sample_w0 = (w1, a1)" by fastforce
  obtain w2 a2 where s2: "sample_serve ?b w1 = (w2, a2)" by fastforce
  have run: "serves sample_decode (Hs256 ''k'' [] []) sample_texts ''0.3.0'' (transport_new [], ()) [?a] w1"
    using serves.request [OF serves.start s1 [unfolded sample_serve_def]] by (simp add: sample_w0_def)
  have fields: "mr_method ?b = McpPost (JArray [])" "mr_server ?b = ''sealstack''"
    "rq_ulid (mr_env ?a) = ''S1''" "rq_ulid (mr_env ?b) = ''S2''"
    by (simp_all add: sample_post_def)
  from mcp_callers_hold_tokens [OF run s2 [unfolded sample_serve_def]]
  obtain req' claims sid where "req' = ?b \<or> req' \<in> set [?a]"
    "bearer_claims sample_decode ''k'' [] [] req' = Some claims" "rq_ulid (mr_env req') = sid"
    "done_for sample_texts ''0.3.0'' ''sealstack'' [] (holder claims) sid (JArray []) (snd w1) (snd w2) a2"
    by (auto simp: sample_claims fields)
  with s2 run show ?thesis
    unfolding sample_w0_def sample_serve_def
    by (intro exI [of _ w1] exI [of _ w2] exI [of _ a2] exI [of _ claims] exI [of _ sid])
      (auto simp: sample_claims fields)
qed

end
