(* ===== verification/Gateway_Process.thy ===== *)
theory Gateway_Process
  imports Gateway_Boot Gateway_Sessions
begin

text \<open>
  The gateway as a process: the steps that REST requests and MCP requests are on the state of
  \<open>build_app\<close>, in any order, and what holds in every state it can reach.
\<close>

section \<open>Steps\<close>

definition mcp_step :: "jwt_decode \<Rightarrow> AuthMode \<Rightarrow> SerdeTexts \<Rightarrow> string \<Rightarrow> McpRequest \<Rightarrow> ('w, 'vs, 'db) App
    \<Rightarrow> ('w, 'vs, 'db) App \<times> HttpAnswer" where
  "mcp_step decode mode texts pkg req app =
     (case mcp_serve decode mode texts pkg req (ap_transport app, (ap_schemas app, ap_world app)) of
        ((transport, (schemas, w)), ans) \<Rightarrow>
          (app\<lparr>ap_transport := transport, ap_schemas := schemas, ap_world := w\<rparr>, ans))"

inductive gateway_step :: "('w, 'vs, 'db) AppConfig \<Rightarrow> jwt_decode \<Rightarrow> AuthMode \<Rightarrow> SerdeTexts \<Rightarrow> string
    \<Rightarrow> ('w, 'vs, 'db) App \<Rightarrow> ('w, 'vs, 'db) App \<Rightarrow> bool"
  for A decode mode texts pkg where
  rest: "rest_route A parts route app = (app', ans) \<Longrightarrow> gateway_step A decode mode texts pkg app app'"
| mcp: "mcp_step decode mode texts pkg req app = (app', ans) \<Longrightarrow> gateway_step A decode mode texts pkg app app'"

section \<open>A tool call leaves the schemas alone\<close>

definition all_engines :: "'st EngineFacade \<Rightarrow> 'st ToolRegistry \<Rightarrow> bool" where
  "all_engines F tools \<longleftrightarrow> (\<forall>(k, h) \<in> set tools. gh_engine h = F)"

lemma with_registry_fst [simp]: "fst (fst (with_registry A call st)) = fst st"
  by (cases st) (simp add: with_registry_def)

lemma lift_engine_fst [simp]: "fst (lift_engine r) = fst r"
  by (simp add: lift_engine_def split: prod.split sum.split)

lemma tool_invoke_schemas:
  "gh_engine h = app_facade A \<Longrightarrow> fst (fst (tool_invoke h caller args st)) = fst st"
  by (cases "gh_kind h")
    (simp_all add: tool_invoke_def invoke_search_def invoke_get_def invoke_list_def invoke_list_relation_def
      invoke_aggregate_def app_facade_def split: option.split)

lemma handler_engine:
  "all_engines F tools \<Longrightarrow> tool_get_handler tools server name = Some h \<Longrightarrow> gh_engine h = F"
  by (auto simp: all_engines_def tool_get_handler_def dest!: map_of_SomeD)

lemma call_outcome_fst [simp]: "fst (call_outcome r) = fst r"
  by (simp add: call_outcome_def split: prod.split sum.split)

lemma run_method_schemas:
  assumes "all_engines (app_facade A) tools"
  shows "fst (fst (run_method texts pkg server tools caller req st)) = fst st"
proof -
  have "fst (fst (tool_invoke h caller args st)) = fst st" if "tool_get_handler tools server name = Some h" for h name args
    using tool_invoke_schemas handler_engine [OF assms that] by blast
  then show ?thesis by (simp add: run_method_def handle_tools_call_def Let_def split: option.split)
qed

lemma dispatch_schemas:
  assumes "all_engines (app_facade A) tools"
  shows "fst (fst (dispatch texts pkg server tools caller req st)) = fst st"
  using run_method_schemas [OF assms, of texts pkg server caller req st]
  by (auto simp: dispatch_def split: option.split prod.splits)

lemma dispatch_batch_schemas:
  assumes "all_engines (app_facade A) tools"
  shows "fst (fst (dispatch_batch texts pkg server tools caller items st)) = fst st"
proof (induction items arbitrary: st)
  case (Cons item items)
  show ?case
  proof (cases "read_request item")
    case None
    with Cons show ?thesis by simp
  next
    case (Some req)
    obtain st' r where d: "dispatch texts pkg server tools caller req st = (st', r)" by fastforce
    with Some Cons [of st'] dispatch_schemas [OF assms, of texts pkg server caller req st] show ?thesis by simp
  qed
qed simp

lemma issue_session_registry [simp]: "tr_registry (fst (issue_session env auth s)) = tr_registry s"
  by (simp add: issue_session_def Let_def)

lemma resolve_session_registry [simp]: "tr_registry (fst (resolve_session env header auth s)) = tr_registry s"
  by (simp add: resolve_session_def reap_expired_def Let_def split: option.split)

lemma handle_post_keeps:
  assumes "all_engines (app_facade A) (tr_registry (fst w))"
    and "handle_post texts pkg env server header auth body w = (w', ans)"
  shows "tr_registry (fst w') = tr_registry (fst w) \<and> fst (snd w') = fst (snd w)"
proof -
  obtain s sid caller where r: "resolve_session env header auth (fst w) = (s, sid, caller)" by (metis prod_cases3)
  then have s: "tr_registry s = tr_registry (fst w)"
    using resolve_session_registry [of env header auth "fst w"] by simp
  note keep = dispatch_schemas [of A "tr_registry s" texts pkg server caller _ "snd w"]
    dispatch_batch_schemas [of A "tr_registry s" texts pkg server caller _ "snd w"]
  show ?thesis
    using assms(2) r s keep assms(1) unfolding handle_post_def
    by (auto split: json.splits option.splits prod.splits) (metis fst_conv)+
qed

lemma mcp_step_keeps:
  assumes "all_engines (app_facade A) (app_tools app)" and "mcp_step decode mode texts pkg req app = (app', ans)"
  shows "app_tools app' = app_tools app \<and> ap_schemas app' = ap_schemas app"
proof -
  obtain w' where w: "mcp_serve decode mode texts pkg req (ap_transport app, (ap_schemas app, ap_world app)) = (w', ans)"
    and app': "app' = app\<lparr>ap_transport := fst w', ap_schemas := fst (snd w'), ap_world := snd (snd w')\<rparr>"
    using assms(2) by (auto simp: mcp_step_def split: prod.splits)
  have "tr_registry (fst w') = tr_registry (ap_transport app) \<and> fst (snd w') = ap_schemas app"
  proof (cases "authenticate decode mode (mr_authorization req)")
    case (Inl e)
    with w show ?thesis by (auto simp: mcp_serve_def require_bearer_def)
  next
    case (Inr auth)
    show ?thesis
    proof (cases "mr_method req")
      case (McpPost body)
      with w Inr have "handle_post texts pkg (mr_env req) (mr_server req) (mr_session req) auth body
          (ap_transport app, (ap_schemas app, ap_world app)) = (w', ans)"
        by (simp add: mcp_serve_def require_bearer_def mcp_route_def)
      from handle_post_keeps [OF _ this] assms(1) show ?thesis by (simp add: app_tools_def)
    next
      case McpGet
      with w Inr show ?thesis by (auto simp: mcp_serve_def require_bearer_def mcp_route_def)
    next
      case McpDelete
      with w Inr show ?thesis
        by (auto simp: mcp_serve_def require_bearer_def mcp_route_def handle_delete_def split: option.splits prod.splits)
    qed
  qed
  with app' show ?thesis by (simp add: app_tools_def)
qed

section \<open>The tools of the registered documents\<close>

text \<open>
  The tools the gateway promises for a schema document: their names, with the operation, the
  relation and the facet each one stands for. \<open>offered\<close> lists those of several documents.
\<close>

type_synonym promised_tool = "string \<times> HandlerKind \<times> string option \<times> string option"

definition promised :: "string list \<Rightarrow> SchemaMeta \<Rightarrow> promised_tool list" where
  "promised rels meta =
     (let s = slugify_for_tool_name (sm_namespace meta @ ''.'' @ sm_name meta)
      in [(''search_'' @ s, HkSearch, None, None), (''get_'' @ s, HkGet, None, None), (''list_'' @ s, HkList, None, None)]
         @ map (\<lambda>r. (''list_'' @ s @ ''_'' @ slugify_for_tool_name r, HkListRelation, Some r, None))
             (filter (\<lambda>r. map_option rm_kind (sm_relations meta r) = Some KindMany) rels)
         @ map (\<lambda>f. (''aggregate_'' @ s @ ''_'' @ slugify_for_tool_name f, HkAggregate, None, Some f)) (sm_facets meta))"

definition offered :: "(SchemaMeta \<Rightarrow> string list) \<Rightarrow> SchemaMeta list \<Rightarrow> (SchemaMeta \<times> promised_tool) list" where
  "offered rels docs = concat (map (\<lambda>m. map (Pair m) (promised (rels m) m)) docs)"

text \<open>A name calls a promised tool of a document: its operation on the schema, in this engine.\<close>

definition calls :: "'st EngineFacade \<Rightarrow> 'st ToolRegistry \<Rightarrow> SchemaMeta \<Rightarrow> promised_tool \<Rightarrow> bool" where
  "calls F tools meta t = (case t of (n, kind, relation, facet) \<Rightarrow>
     (\<exists>h. tool_get_handler tools SERVER_NAME n = Some h \<and> td_name (gh_descriptor h) = n
        \<and> gh_schema h = sm_namespace meta @ ''.'' @ sm_name meta
        \<and> gh_kind h = kind \<and> gh_relation h = relation \<and> gh_facet h = facet \<and> gh_engine h = F))"

definition makes :: "'st EngineFacade \<Rightarrow> 'st GeneratedHandler \<Rightarrow> SchemaMeta \<times> promised_tool \<Rightarrow> bool" where
  "makes F h mt = (case mt of (m, n, kind, relation, facet) \<Rightarrow>
     tool_name_of h = n \<and> gh_schema h = sm_namespace m @ ''.'' @ sm_name m
     \<and> gh_kind h = kind \<and> gh_relation h = relation \<and> gh_facet h = facet \<and> gh_engine h = F)"

lemma schema_handlers_make:
  "list_all2 (makes F) (schema_handlers F rels meta) (map (Pair meta) (promised rels meta))"
proof -
  have "(case sm_relations meta n of Some rel \<Rightarrow> rm_kind rel = KindMany | None \<Rightarrow> False)
      = (map_option rm_kind (sm_relations meta n) = Some KindMany)" for n
    by (auto split: option.split)
  then show ?thesis
    by (auto simp: schema_handlers_def promised_def Let_def makes_def many_relations_def tool_name_of_def
        search_descriptor_def get_descriptor_def list_descriptor_def list_relation_descriptor_def
        aggregate_descriptor_def descriptor_def qualified_name_def list.rel_map list_all2_appendI
        intro!: list_all2_appendI list.rel_refl_strong)
qed

lemma all_handlers_make: "list_all2 (makes F) (all_handlers F rels docs) (offered rels docs)"
  by (induction docs) (auto simp: all_handlers_def offered_def intro!: list_all2_appendI schema_handlers_make)

lemma find_all2:
  assumes "list_all2 R xs ys" and "\<And>x y. R x y \<Longrightarrow> P x = Q y"
  shows "rel_option R (find P xs) (find Q ys)"
  using assms by (induction rule: list_all2_induct) auto

text \<open>A name calls the tool of the last document that offers it.\<close>

lemma registered_tool:
  "case find (\<lambda>(m, t). fst t = n) (rev (offered rels docs)) of
     None \<Rightarrow> tool_get_handler (fst (register_all F rels docs [])) SERVER_NAME n = None
   | Some (m, t) \<Rightarrow> fst t = n \<and> calls F (fst (register_all F rels docs [])) m t"
proof -
  have "list_all2 (makes F) (rev (all_handlers F rels docs)) (rev (offered rels docs))"
    by (simp add: all_handlers_make)
  then have "rel_option (makes F) (find (\<lambda>h. tool_name_of h = n) (rev (all_handlers F rels docs)))
      (find (\<lambda>(m, t). fst t = n) (rev (offered rels docs)))"
    by (rule find_all2) (auto simp: makes_def)
  moreover have "tool_get_handler (fst (register_all F rels docs [])) SERVER_NAME n
      = find (\<lambda>h. tool_name_of h = n) (rev (all_handlers F rels docs))"
    by (simp add: tool_get_handler_def register_all_fold map_of_register_fold split: option.split)
  moreover have "find (\<lambda>(m, t). fst t = n) (rev (offered rels docs)) = Some (m, t) \<Longrightarrow> fst t = n" for m t
    by (auto simp: find_Some_iff)
  ultimately show ?thesis
    by (auto simp: option_rel_Some2 calls_def makes_def tool_name_of_def split: option.split prod.splits)
qed

lemma all_engines_fold:
  "all_engines F tools \<Longrightarrow> \<forall>h \<in> set hs. gh_engine h = F \<Longrightarrow> all_engines F (fold (tool_register server) hs tools)"
proof (induction hs arbitrary: tools)
  case (Cons h hs)
  have "set (tool_register server h tools) \<subseteq> insert ((server, td_name (gh_descriptor h)), h) (set tools)"
    unfolding tool_register_def by (induction tools) auto
  with Cons.prems have "all_engines F (tool_register server h tools)" by (fastforce simp: all_engines_def)
  with Cons show ?case by simp
qed simp

lemma schema_handlers_engine: "h \<in> set (schema_handlers F rels meta) \<Longrightarrow> gh_engine h = F"
  by (auto simp: schema_handlers_def Let_def)

text \<open>
  The invariant: the tools are those of the documents the process began with and of the
  documents registered since, in order, and the schemas are those documents.
\<close>

definition registered_since :: "('w, 'vs, 'db) AppConfig \<Rightarrow> SchemaRegistry \<Rightarrow> SchemaMeta list \<Rightarrow> ('w, 'vs, 'db) App \<Rightarrow> bool" where
  "registered_since A schemas history app \<longleftrightarrow>
     ap_schemas app = fold registry_insert history schemas
     \<and> app_tools app = fst (register_all (app_facade A) (ac_relations A) (ac_iter A schemas @ history) [])"

lemma registered_ok:
  "registered_since A schemas history app \<Longrightarrow> registry_ok (app_tools app) \<and> all_engines (app_facade A) (app_tools app)"
proof -
  assume r: "registered_since A schemas history app"
  have "all_engines (app_facade A) (fold (tool_register SERVER_NAME)
      (all_handlers (app_facade A) (ac_relations A) (ac_iter A schemas @ history)) [])"
    by (rule all_engines_fold) (auto simp: all_engines_def all_handlers_def schema_handlers_engine)
  with r show ?thesis by (simp add: registered_since_def register_all_fold registry_ok_fold)
qed

lemma register_all_snoc:
  "fst (register_all F rels (docs @ [meta]) tools)
   = fst (register_schema_tools F (rels meta) meta (fst (register_all F rels docs tools)))"
  by (simp add: register_all_fold register_schema_tools_def all_handlers_def)

lemma registered_kept:
  "registered_since A schemas history app \<Longrightarrow> app_tools app' = app_tools app \<and> ap_schemas app' = ap_schemas app
   \<Longrightarrow> registered_since A schemas history app'"
  by (simp add: registered_since_def)

definition registers :: "RestRoute \<Rightarrow> bool" where
  "registers route = (case route of RegisterSchema body \<Rightarrow> True | _ \<Rightarrow> False)"

lemma rest_keeps:
  assumes "rest_route A parts route app = (app', ans)" and "\<not> registers route"
  shows "app_tools app' = app_tools app \<and> ap_schemas app' = ap_schemas app"
proof (cases route)
  case (PostQuery body)
  with assms(1) show ?thesis
    by (auto simp: rest_body_def post_query_def app_tools_def Let_def split: option.splits sum.splits prod.splits)
next
  case (ApplyDdl q body)
  with assms(1) show ?thesis
    by (auto simp: rest_body_def rest_apply_ddl_def split: option.splits sum.splits prod.splits)
next
  case (RegisterConnector body)
  with assms(1) show ?thesis
    by (auto simp: rest_body_def rest_register_connector_def app_tools_def set_db_def split: option.splits sum.splits prod.splits)
next
  case (SyncConnector i)
  with assms(1) show ?thesis
    by (auto simp: rest_sync_connector_def app_tools_def set_run_state_def split: option.splits prod.splits)
qed (use assms in \<open>auto simp: registers_def\<close>)

lemma rest_route_registers:
  assumes "registered_since A schemas history app" and "rest_route A parts route app = (app', ans)"
  shows "\<exists>more. registered_since A schemas (history @ more) app'"
proof (cases "registers route")
  case False
  from registered_kept [OF assms(1) rest_keeps [OF assms(2) False]] show ?thesis
    by (intro exI [of _ "[]"]) simp
next
  case True
  then obtain body where route: "route = RegisterSchema body" by (cases route) (auto simp: registers_def)
  show ?thesis
  proof (cases "Option.bind (read_register_schema body) read_schema_meta")
    case None
    with route assms(2) have "app' = app"
      by (cases "read_register_schema body") (auto simp: rest_body_def rest_register_schema_def)
    with assms(1) show ?thesis by (intro exI [of _ "[]"]) simp
  next
    case (Some meta)
    let ?tools = "fst (register_schema_tools (app_facade A) (ac_relations A meta) meta (app_tools app))"
    have "ap_schemas app' = ap_schemas app \<and> app_tools app' = app_tools app
        \<or> ap_schemas app' = registry_insert meta (ap_schemas app) \<and> app_tools app' = ?tools"
      using Some route assms(2)
      by (cases "read_register_schema body")
        (auto simp: rest_body_def rest_register_schema_def Let_def app_tools_def set_tools_def set_db_def
          split: prod.splits sum.splits)
    then show ?thesis
    proof
      assume "ap_schemas app' = ap_schemas app \<and> app_tools app' = app_tools app"
      with registered_kept [OF assms(1)] show ?thesis by (intro exI [of _ "[]"]) simp
    next
      assume "ap_schemas app' = registry_insert meta (ap_schemas app) \<and> app_tools app' = ?tools"
      with assms(1) have "registered_since A schemas (history @ [meta]) app'"
        using register_all_snoc [of "app_facade A" "ac_relations A" "ac_iter A schemas @ history" meta "[]"]
        by (simp add: registered_since_def)
      then show ?thesis by blast
    qed
  qed
qed

lemma reachable_registered:
  assumes "(gateway_step A decode mode texts pkg)\<^sup>*\<^sup>* (build_app A schemas w source stored) app"
  shows "\<exists>history. registered_since A schemas history app"
  using assms
proof (induction rule: rtranclp_induct)
  case base
  have "registered_since A schemas [] (build_app A schemas w source stored)"
    by (simp add: registered_since_def app_tools_def build_app_def transport_new_def)
  then show ?case by blast
next
  case (step app1 app2)
  then obtain history where h: "registered_since A schemas history app1" by blast
  from step(2) show ?case
  proof (cases rule: gateway_step.cases)
    case (rest parts route ans)
    from rest_route_registers [OF h this] show ?thesis by blast
  next
    case (mcp req ans)
    from mcp_step_keeps [OF conjunct2 [OF registered_ok [OF h]] mcp] registered_kept [OF h] show ?thesis by blast
  qed
qed

lemma inserted_ran: "ran (fold registry_insert history schemas) \<subseteq> ran schemas \<union> set history"
proof (induction history arbitrary: schemas)
  case (Cons m history)
  have "ran (registry_insert m schemas) \<subseteq> insert m (ran schemas)"
    by (auto simp: registry_insert_def ran_def split: if_splits)
  with Cons [of "registry_insert m schemas"] show ?case by auto
qed simp

section \<open>Property\<close>



end
