(* ===== verification/Embedders.thy ===== *)
theory Embedders
  imports Ingest_Laws Csl_Load Csl_Mcp
begin

text \<open>
  The embedders (\<open>sealstack-embedders\<close>): the trait's contract as a locale, the deterministic
  stub, the OpenAI and Voyage clients, and the choice among them at boot
  (\<open>bin/server.rs\<close>). The BLAKE3 output, the HTTP exchange, the JSON reader and the
  environment are parameters.
\<close>

section \<open>The contract\<close>

record Embedder =
  em_name :: string
  em_dims :: nat
  em_max_batch :: nat
  em_embed :: "string list \<Rightarrow> SealStackError + f32 list list"

text \<open>\<open>usize::MAX\<close>, the batch size of an embedder without a limit.\<close>

definition usize_max :: nat where "usize_max = 2 ^ 64 - 1"

locale embedder_contract =
  fixes dims :: nat and embed :: "string list \<Rightarrow> SealStackError + f32 list list"
  assumes one_each: "embed texts = Inr vs \<Longrightarrow> length vs = length texts"
    and right_dims: "embed texts = Inr vs \<Longrightarrow> v \<in> set vs \<Longrightarrow> length v = dims"
begin

text \<open>A single text gets its vector: the client's guard against an empty answer never fires.\<close>

lemma one_text: "embed [t] = Inr vs \<Longrightarrow> \<exists>v. vs = [v] \<and> length v = dims"
  using one_each [of "[t]" vs] right_dims [of "[t]" vs] by (cases vs) auto

text \<open>Nor does the guard against a wrong number of vectors, and pairing loses no text.\<close>

lemma pairs_all: "embed texts = Inr vs \<Longrightarrow> map fst (zip texts vs) = texts \<and> \<not> length vs \<noteq> length texts"
  using one_each [of texts vs] by simp

end

text \<open>A client of a service has a batch limit, which it enforces itself.\<close>

locale batched_embedder = embedder_contract dims embed
  for dims :: nat and embed :: "string list \<Rightarrow> SealStackError + f32 list list" +
  fixes max_batch :: nat
  assumes within_batch: "embed texts = Inr vs \<Longrightarrow> length texts \<le> max_batch"
begin

lemma over_batch: "max_batch < length texts \<Longrightarrow> \<exists>e. embed texts = Inl e"
  using within_batch [of texts] by (cases "embed texts") auto

end

section \<open>The stub\<close>

text \<open>\<open>f64::from(n) / f64::from(u32::MAX) * 2.0 - 1.0\<close>, each step rounded, then \<open>as f32\<close>.\<close>

definition f64_frac :: "f64 \<Rightarrow> nat" where
  "f64_frac x = (let ex = f64_mag x div 2 ^ 52; fr = f64_mag x mod 2 ^ 52 in if ex = 0 then fr else 2 ^ 52 + fr)"

definition f64_expo :: "f64 \<Rightarrow> int" where
  "f64_expo x = (let ex = f64_mag x div 2 ^ 52 in if ex = 0 then - 1074 else int ex - 1075)"

definition f64_twice_minus_one :: "f64 \<Rightarrow> f64" where
  "f64_twice_minus_one q =
     (let e = nat (- f64_expo q); num = int (2 * f64_frac q) - 2 ^ e
      in if num = 0 then 0 else f64_make (num < 0) (f64_round_mag (nat \<bar>num\<bar>) (2 ^ e)))"

definition stub_component :: "u32 \<Rightarrow> f32" where
  "stub_component n =
     (let q = (if n = 0 then 0 else f64_make False (f64_round_mag (unat n) (2 ^ 32 - 1)))
      in f32_of_f64 (f64_twice_minus_one q))"

definition u32_le :: "u8 list \<Rightarrow> u32" where
  "u32_le bs = word_of_nat (foldr (\<lambda>b n. unat b + 256 * n) bs 0)"

text \<open>The output of the hash is an unbounded sequence of bytes, read four at a time.\<close>

definition hash_to_vec :: "(string \<Rightarrow> nat \<Rightarrow> u8) \<Rightarrow> string \<Rightarrow> nat \<Rightarrow> f32 list" where
  "hash_to_vec xof t dims = map (\<lambda>i. stub_component (u32_le (map (xof t) [4 * i ..< 4 * i + 4]))) [0 ..< dims]"

definition stub_new :: "(string \<Rightarrow> nat \<Rightarrow> u8) \<Rightarrow> nat \<Rightarrow> Embedder option" where
  "stub_new xof dims =
     (if dims = 0 then None
      else Some \<lparr>em_name = ''stub'', em_dims = dims, em_max_batch = usize_max,
                 em_embed = (\<lambda>texts. Inr (map (\<lambda>t. hash_to_vec xof t dims) texts))\<rparr>)"

section \<open>The HTTP clients\<close>

record EmbedRow =
  er_embedding :: "f32 list"
  er_index :: nat

definition read_embed_row :: "json \<Rightarrow> EmbedRow option" where
  "read_embed_row v =
     (case struct_fields [''embedding'', ''index''] v of
        Some [Some embedding, index] \<Rightarrow>
          Option.bind (read_list read_f32 embedding) (\<lambda>e.
          Option.bind (case index of None \<Rightarrow> Some 0 | Some i \<Rightarrow> read_usize i) (\<lambda>i.
            Some \<lparr>er_embedding = e, er_index = i\<rparr>))
      | _ \<Rightarrow> None)"

text \<open>The usage is read, and logged; a malformed one fails the whole answer.\<close>

definition read_usage :: "json \<Rightarrow> u64 option" where
  "read_usage v = (case struct_fields [''total_tokens''] v of Some [Some n] \<Rightarrow> read_u64 n | _ \<Rightarrow> None)"

definition read_embed_resp :: "json \<Rightarrow> EmbedRow list option" where
  "read_embed_resp v =
     (case struct_fields [''data'', ''usage''] v of
        Some [Some data, usage] \<Rightarrow>
          Option.bind (read_list read_embed_row data) (\<lambda>rows.
            case optional_value usage of None \<Rightarrow> Some rows | Some u \<Rightarrow> map_option (\<lambda>n. rows) (read_usage u))
      | _ \<Rightarrow> None)"

text \<open>
  The exchange: the endpoint, the key and the payload give a transport error or a status and a
  body; the reader gives the document of a body or the text of the error.
\<close>

record EmbedHttp =
  eh_post :: "string \<Rightarrow> string \<Rightarrow> json \<Rightarrow> string + (nat \<times> string)"
  eh_json :: "string \<Rightarrow> string + json"
  eh_shape_error :: "string \<Rightarrow> string"
  eh_show_status :: "nat \<Rightarrow> string"

definition parse_rows :: "EmbedHttp \<Rightarrow> string \<Rightarrow> SealStackError + EmbedRow list" where
  "parse_rows H body =
     (case eh_json H body of
        Inl e \<Rightarrow> Inl (SeBackend e)
      | Inr v \<Rightarrow> (case read_embed_resp v of None \<Rightarrow> Inl (SeBackend (eh_shape_error H body)) | Some rows \<Rightarrow> Inr rows))"

fun check_dims :: "string \<Rightarrow> nat \<Rightarrow> nat \<Rightarrow> EmbedRow list \<Rightarrow> SealStackError option" where
  "check_dims vendor dims i [] = None"
| "check_dims vendor dims i (r # rs) =
     (if length (er_embedding r) \<noteq> dims
      then Some (SeBackend (vendor @ '' row '' @ show_nat i @ '': dims '' @ show_nat (length (er_embedding r))
                  @ '' != expected '' @ show_nat dims))
      else check_dims vendor dims (Suc i) rs)"

definition embed_rows :: "string \<Rightarrow> nat \<Rightarrow> string list \<Rightarrow> EmbedRow list \<Rightarrow> SealStackError + f32 list list" where
  "embed_rows vendor dims texts data =
     (let rows = sort_key er_index data
      in if length rows \<noteq> length texts
         then Inl (SeBackend (vendor @ '' returned '' @ show_nat (length rows) @ '' rows for '' @ show_nat (length texts) @ '' inputs''))
         else (case check_dims vendor dims 0 rows of
                 Some e \<Rightarrow> Inl e
               | None \<Rightarrow> Inr (map er_embedding rows)))"

definition http_embed :: "EmbedHttp \<Rightarrow> string \<Rightarrow> nat \<Rightarrow> nat \<Rightarrow> string \<Rightarrow> string \<Rightarrow> (string list \<Rightarrow> json)
    \<Rightarrow> string list \<Rightarrow> SealStackError + f32 list list" where
  "http_embed H vendor max_batch dims endpoint key payload texts =
     (if texts = [] then Inr []
      else if max_batch < length texts
      then Inl (SeValidation (vendor @ '' batch limit is '' @ show_nat max_batch @ '', got '' @ show_nat (length texts)))
      else case eh_post H endpoint key (payload texts) of
        Inl e \<Rightarrow> Inl (SeBackend e)
      | Inr (status, body) \<Rightarrow>
          if status = 429 then Inl SeRateLimited
          else if \<not> (200 \<le> status \<and> status < 300)
          then Inl (SeBackend (vendor @ '' '' @ eh_show_status H status @ '': '' @ body))
          else (case parse_rows H body of
                  Inl e \<Rightarrow> Inl e
                | Inr rows \<Rightarrow> embed_rows vendor dims texts rows))"

definition api_key_or :: "(string \<Rightarrow> string option) \<Rightarrow> string \<Rightarrow> string \<Rightarrow> SealStackError + string" where
  "api_key_or env var provided =
     (if provided = [] then ok_or (env var) (SeConfig (''missing '' @ var)) else Inr provided)"

subsection \<open>OpenAI\<close>

record OpenAIEmbedder =
  oe_endpoint :: string
  oe_api_key :: string
  oe_model :: string
  oe_dims :: nat
  oe_request_dims :: "nat option"

definition openai_dims :: "string \<Rightarrow> nat option" where
  "openai_dims model =
     map_of [(''text-embedding-3-small'', 1536), (''text-embedding-3-large'', 3072), (''text-embedding-ada-002'', 1536)] model"

definition openai_with_model :: "(string \<Rightarrow> string option) \<Rightarrow> string \<Rightarrow> string \<Rightarrow> SealStackError + OpenAIEmbedder" where
  "openai_with_model env api_key model =
     bindR (ok_or (openai_dims model)
        (SeConfig (''unknown openai embedding model `'' @ model @ ''`; set dims via `with_dims`''))) (\<lambda>dims.
     bindR (api_key_or env ''OPENAI_API_KEY'' api_key) (\<lambda>key.
       Inr \<lparr>oe_endpoint = ''https://api.openai.com/v1/embeddings'', oe_api_key = key, oe_model = model, oe_dims = dims,
            oe_request_dims = None\<rparr>))"

definition openai_with_dimensions :: "OpenAIEmbedder \<Rightarrow> nat \<Rightarrow> OpenAIEmbedder" where
  "openai_with_dimensions e dims = e\<lparr>oe_request_dims := Some dims, oe_dims := dims\<rparr>"

definition openai_payload :: "OpenAIEmbedder \<Rightarrow> string list \<Rightarrow> json" where
  "openai_payload e texts = obj
     ([(''model'', JString (oe_model e)), (''input'', jstrings texts)]
      @ (case oe_request_dims e of None \<Rightarrow> [] | Some d \<Rightarrow> [(''dimensions'', jnat d)])
      @ [(''encoding_format'', JString ''float'')])"

definition openai_embedder :: "EmbedHttp \<Rightarrow> OpenAIEmbedder \<Rightarrow> Embedder" where
  "openai_embedder H e =
     \<lparr>em_name = oe_model e, em_dims = oe_dims e, em_max_batch = 2048,
      em_embed = http_embed H ''openai'' 2048 (oe_dims e) (oe_endpoint e) (oe_api_key e) (openai_payload e)\<rparr>"

subsection \<open>Voyage\<close>

datatype InputType = ItNone | ItDocument | ItQuery

fun as_api_str :: "InputType \<Rightarrow> string option" where
  "as_api_str ItNone = None"
| "as_api_str ItDocument = Some ''document''"
| "as_api_str ItQuery = Some ''query''"

record VoyageEmbedder =
  ve_endpoint :: string
  ve_api_key :: string
  ve_model :: string
  ve_dims :: nat
  ve_input_type :: InputType

definition voyage_dims :: "string \<Rightarrow> nat option" where
  "voyage_dims model =
     map_of [(''voyage-3'', 1024), (''voyage-3-large'', 1024), (''voyage-3-lite'', 512), (''voyage-code-3'', 1024),
       (''voyage-finance-2'', 1024), (''voyage-law-2'', 1024), (''voyage-multilingual-2'', 1024), (''voyage-2'', 1024),
       (''voyage-large-2'', 1536)] model"

definition voyage_with_model :: "(string \<Rightarrow> string option) \<Rightarrow> string \<Rightarrow> string \<Rightarrow> SealStackError + VoyageEmbedder" where
  "voyage_with_model env api_key model =
     bindR (ok_or (voyage_dims model)
        (SeConfig (''unknown voyage model `'' @ model @ ''`; add it to `dims_for_model`''))) (\<lambda>dims.
     bindR (api_key_or env ''VOYAGE_API_KEY'' api_key) (\<lambda>key.
       Inr \<lparr>ve_endpoint = ''https://api.voyageai.com/v1/embeddings'', ve_api_key = key, ve_model = model, ve_dims = dims,
            ve_input_type = ItNone\<rparr>))"

definition voyage_payload :: "VoyageEmbedder \<Rightarrow> string list \<Rightarrow> json" where
  "voyage_payload e texts = obj
     ([(''model'', JString (ve_model e)), (''input'', jstrings texts)]
      @ (case as_api_str (ve_input_type e) of None \<Rightarrow> [] | Some t \<Rightarrow> [(''input_type'', JString t)]))"

definition voyage_embedder :: "EmbedHttp \<Rightarrow> VoyageEmbedder \<Rightarrow> Embedder" where
  "voyage_embedder H e =
     \<lparr>em_name = ve_model e, em_dims = ve_dims e, em_max_batch = 128,
      em_embed = http_embed H ''voyage'' 128 (ve_dims e) (ve_endpoint e) (ve_api_key e) (voyage_payload e)\<rparr>"

section \<open>The choice at boot\<close>

record EmbedHost =
  ho_env :: "string \<Rightarrow> string option"
  ho_xof :: "string \<Rightarrow> nat \<Rightarrow> u8"
  ho_http :: EmbedHttp
  ho_parse_usize :: "string \<Rightarrow> nat option"

definition build_openai_embedder :: "EmbedHost \<Rightarrow> SealStackError + Embedder" where
  "build_openai_embedder h =
     (let env = ho_env h;
          key = (case env ''OPENAI_API_KEY'' of None \<Rightarrow> [] | Some k \<Rightarrow> k);
          model = (case env ''SEALSTACK_EMBEDDER_MODEL'' of None \<Rightarrow> ''text-embedding-3-small'' | Some m \<Rightarrow> m)
      in bindR (openai_with_model env key model) (\<lambda>e0.
         let e1 = (case env ''SEALSTACK_EMBEDDER_ENDPOINT'' of None \<Rightarrow> e0 | Some ep \<Rightarrow> e0\<lparr>oe_endpoint := ep\<rparr>);
             e2 = (case Option.bind (env ''SEALSTACK_EMBEDDER_DIMS'') (ho_parse_usize h) of
                     None \<Rightarrow> e1 | Some d \<Rightarrow> e1\<lparr>oe_dims := d\<rparr>)
         in Inr (openai_embedder (ho_http h) e2)))"

definition build_voyage_embedder :: "EmbedHost \<Rightarrow> SealStackError + Embedder" where
  "build_voyage_embedder h =
     (let env = ho_env h;
          key = (case env ''VOYAGE_API_KEY'' of None \<Rightarrow> [] | Some k \<Rightarrow> k);
          model = (case env ''SEALSTACK_EMBEDDER_MODEL'' of None \<Rightarrow> ''voyage-3'' | Some m \<Rightarrow> m)
      in bindR (voyage_with_model env key model) (\<lambda>e. Inr (voyage_embedder (ho_http h) e)))"

definition boot_stub :: "EmbedHost \<Rightarrow> Embedder" where
  "boot_stub h = the (stub_new (ho_xof h) 64)"

definition dev_embedder :: "EmbedHost \<Rightarrow> Embedder" where
  "dev_embedder h =
     (let kind = (case ho_env h ''SEALSTACK_EMBEDDER'' of None \<Rightarrow> ''stub'' | Some k \<Rightarrow> k)
      in if kind = ''openai'' then (case build_openai_embedder h of Inr e \<Rightarrow> e | Inl err \<Rightarrow> boot_stub h)
         else if kind = ''voyage'' then (case build_voyage_embedder h of Inr e \<Rightarrow> e | Inl err \<Rightarrow> boot_stub h)
         else boot_stub h)"

section \<open>The embedders keep the contract\<close>

lemma check_dims_None: "check_dims vendor dims i rows = None \<longleftrightarrow> (\<forall>r \<in> set rows. length (er_embedding r) = dims)"
  by (induction rows arbitrary: i) auto

lemma embed_rows_Inr:
  "embed_rows vendor dims texts data = Inr vs \<longleftrightarrow>
     length data = length texts \<and> (\<forall>r \<in> set data. length (er_embedding r) = dims)
     \<and> vs = map er_embedding (sort_key er_index data)"
  using check_dims_None [of vendor dims 0 "sort_key er_index data"]
  by (cases "check_dims vendor dims 0 (sort_key er_index data)") (auto simp: embed_rows_def Let_def)

lemma http_embed_Inr:
  assumes "http_embed H vendor mb dims ep key payload texts = Inr vs"
  shows "texts = [] \<and> vs = [] \<or> length texts \<le> mb \<and> (\<exists>rows. embed_rows vendor dims texts rows = Inr vs)"
  using assms by (auto simp: http_embed_def split: if_splits sum.splits)

lemma http_embed_contract: "batched_embedder dims (http_embed H vendor mb dims ep key payload) mb"
proof unfold_locales
  fix texts vs v
  assume e: "http_embed H vendor mb dims ep key payload texts = Inr vs"
  note cases = http_embed_Inr [OF e]
  show "length vs = length texts" "length texts \<le> mb" using cases by (auto simp: embed_rows_Inr)
  show "length v = dims" if "v \<in> set vs" using cases that by (auto simp: embed_rows_Inr)
qed

lemma hash_to_vec_length [simp]: "length (hash_to_vec xof t dims) = dims"
  by (simp add: hash_to_vec_def)

interpretation openai: batched_embedder "oe_dims e" "em_embed (openai_embedder H e)" "2048" for H e
  unfolding openai_embedder_def Embedder.simps by (rule http_embed_contract)

interpretation voyage: batched_embedder "ve_dims e" "em_embed (voyage_embedder H e)" "128" for H e
  unfolding voyage_embedder_def Embedder.simps by (rule http_embed_contract)

interpretation stub: embedder_contract "64" "em_embed (boot_stub h)" for h
  by unfold_locales (auto simp: boot_stub_def stub_new_def)

text \<open>Whatever the environment selects, falls back included, the embedder at boot keeps it.\<close>

lemma boot_embedder_cases:
  "(\<exists>e. dev_embedder h = openai_embedder (ho_http h) e) \<or> (\<exists>e. dev_embedder h = voyage_embedder (ho_http h) e)
   \<or> dev_embedder h = boot_stub h"
  by (auto simp: dev_embedder_def build_openai_embedder_def build_voyage_embedder_def Let_def result_simps
      split: sum.splits)

lemma boot_embedder_contract: "embedder_contract (em_dims (dev_embedder h)) (em_embed (dev_embedder h))"
  using boot_embedder_cases [of h]
proof (elim disjE exE)
  fix e assume "dev_embedder h = openai_embedder (ho_http h) e"
  then show ?thesis using openai.embedder_contract_axioms [of e "ho_http h"] by (simp add: openai_embedder_def)
next
  fix e assume "dev_embedder h = voyage_embedder (ho_http h) e"
  then show ?thesis using voyage.embedder_contract_axioms [of e "ho_http h"] by (simp add: voyage_embedder_def)
next
  assume "dev_embedder h = boot_stub h"
  then show ?thesis using stub.embedder_contract_axioms [of h] by (simp add: boot_stub_def stub_new_def)
qed

interpretation booted: embedder_contract "em_dims (dev_embedder h)" "em_embed (dev_embedder h)" for h
  by (rule boot_embedder_contract)

section \<open>Ingestion with the embedder of the gateway\<close>

lemma ingest_embeds:
  assumes "ingest I ids meta tenant r st = (st', Inr out)"
  defines "chunks \<equiv> chunk_body (ig_count I) (re_body r) (cm_chunking (sm_context meta))"
  shows "chunks = [] \<and> io_chunks_written out = 0
     \<or> (\<exists>vs. ig_embed I chunks = Inr vs \<and> length vs = length chunks \<and> io_chunks_written out = length chunks)"
  using assms
  by (auto simp: ingest_def Let_def vec_chunks_def split: prod.splits sum.splits if_splits)

text \<open>
  A resource cut into more chunks than the batch of a client is never ingested: the ingestor
  hands all chunks to the embedder at once.
\<close>

lemma voyage_refuses_long_resource:
  assumes "ig_embed I = em_embed (voyage_embedder H e)"
    and "128 < length (chunk_body (ig_count I) (re_body r) (cm_chunking (sm_context meta)))"
  shows "\<exists>err. snd (ingest I ids meta tenant r st) = Inl err"
proof (cases "snd (ingest I ids meta tenant r st)")
  case (Inr out)
  then obtain st' where "ingest I ids meta tenant r st = (st', Inr out)" by (metis prod.collapse)
  from ingest_embeds [OF this] voyage.over_batch [OF assms(2), of H e] assms show ?thesis by auto
qed simp

text \<open>What a successful ingest leaves in a store that keeps the contract.\<close>

lemma write_chunks_nth:
  "distinct (map ch_id cs) \<Longrightarrow> i < length cs \<Longrightarrow> write_chunks m cs (ch_id (cs ! i)) = Some (cs ! i)"
proof (induction cs arbitrary: i m)
  case (Cons c cs)
  have keep: "write_chunks m cs j = m j" if "j \<notin> ch_id ` set cs" for m j
    using that unfolding write_chunks_def by (induction cs arbitrary: m) auto
  show ?case
  proof (cases i)
    case 0
    then show ?thesis using Cons.prems keep [of "ch_id c" "m(ch_id c \<mapsto> c)"] by (simp add: write_chunks_def)
  next
    case (Suc k)
    with Cons show ?thesis by (simp add: write_chunks_def)
  qed
qed simp

lemma vec_chunks_nth:
  assumes "length vs = length chunks"
  shows "length (vec_chunks I ids tenant r chunks vs) = length chunks"
    and "i < length chunks \<Longrightarrow> vec_chunks I ids tenant r chunks vs ! i
      = \<lparr>ch_id = ii_chunk ids i, ch_content = chunks ! i, ch_embedding = vs ! i,
         ch_metadata = chunk_metadata I tenant (ii_record ids) r i\<rparr>"
  using assms by (simp_all add: vec_chunks_def nth_enumerate_eq)

lemma vec_chunks_distinct:
  assumes "length vs = length chunks" "inj_on (ii_chunk ids) {..<length chunks}"
  shows "distinct (map ch_id (vec_chunks I ids tenant r chunks vs))"
proof -
  have "map ch_id (vec_chunks I ids tenant r chunks vs) = map (ii_chunk ids) [0..<length chunks]"
    by (rule nth_equalityI) (simp_all add: vec_chunks_nth [OF assms(1)])
  with assms(2) show ?thesis by (simp add: distinct_map atLeast0LessThan)
qed

context vector_store
begin

lemma ensure_keeps_valid:
  assumes "ig_vector_store I = V" "valid (is_vectors st)"
  shows "valid (is_vectors (fst (ensure_collection I meta st)))"
  using ensure_valid [OF assms(2), of "sm_collection meta" "cm_vector_dims (sm_context meta)"] assms
  by (auto simp: ensure_collection_def split: prod.splits sum.splits)

lemma ingest_writes:
  assumes "ig_vector_store I = V" "valid (is_vectors st)" "ingest I ids meta tenant r st = (st', Inr out)"
    and "chunk_body (ig_count I) (re_body r) (cm_chunking (sm_context meta)) = chunks" "chunks \<noteq> []"
    and "inj_on (ii_chunk ids) {..<length chunks}"
  shows "\<exists>vs d m. ig_embed I chunks = Inr vs \<and> length vs = length chunks
     \<and> collections (is_vectors st') (sm_collection meta) = Some (d, m)
     \<and> (\<forall>i < length chunks. m (ii_chunk ids i) = Some \<lparr>ch_id = ii_chunk ids i, ch_content = chunks ! i,
           ch_embedding = vs ! i, ch_metadata = chunk_metadata I tenant (ii_record ids) r i\<rparr>)"
proof -
  obtain db u where row: "upsert_row I meta tenant (ii_record ids) r (is_db st) = (db, Inr u)"
    using assms(3) by (auto simp: ingest_def split: prod.splits sum.splits)
  let ?st = "st\<lparr>is_db := db\<rparr>"
  obtain st2 u2 where en: "ensure_collection I meta ?st = (st2, Inr u2)"
    using assms(3-5) row by (auto simp: ingest_def Let_def split: prod.splits sum.splits)
  have ok: "valid (is_vectors st2)" using ensure_keeps_valid [of I ?st meta] assms(1,2) en by simp
  obtain vs where vs: "ig_embed I chunks = Inr vs" "length vs = length chunks"
    using assms(3-5) row en by (auto simp: ingest_def Let_def split: sum.splits if_splits)
  let ?vec = "vec_chunks I ids tenant r chunks vs"
  obtain u3 where up: "vs_upsert V (is_vectors st2) (sm_collection meta) ?vec = (is_vectors st', Inr u3)"
    using assms(1,3-5) row en vs by (auto simp: ingest_def Let_def split: prod.splits sum.splits)
  from up have up: "vs_upsert V (is_vectors st2) (sm_collection meta) ?vec = (is_vectors st', Inr ())" by simp
  obtain d m where dm: "collections (is_vectors st2) (sm_collection meta) = Some (d, m)"
    using upsert_missing [OF ok _ up] by fastforce
  obtain k where k: "collections (is_vectors st') = (collections (is_vectors st2))(sm_collection meta \<mapsto>
      (d, write_chunks m (take k ?vec)))" "length ?vec \<le> k"
    using upsert_writes [OF ok dm up] by blast
  have "write_chunks m ?vec (ii_chunk ids i) = Some \<lparr>ch_id = ii_chunk ids i, ch_content = chunks ! i,
           ch_embedding = vs ! i, ch_metadata = chunk_metadata I tenant (ii_record ids) r i\<rparr>"
    if "i < length chunks" for i
    using write_chunks_nth [OF vec_chunks_distinct [OF vs(2) assms(6), where I = I and tenant = tenant and r = r],
        where i = i and m = m] that
    by (simp add: vec_chunks_nth [OF vs(2)])
  with vs k show ?thesis by (intro exI [of _ vs] exI [of _ d] exI [of _ "write_chunks m ?vec"]) simp
qed

end

text \<open>
  C36: with the embedder the gateway selects at boot, whichever it is, and the in-memory store,
  a resource whose ingestion succeeds has every one of its chunks in the collection of its
  schema: under its own id, with its text, its tenant and its record, and with the vector the
  embedder gave it, which has the dimension the embedder reports. The outcome counts
  these chunks. (The ids drawn for the chunks of one call are distinct, as ULIDs are, and the
  store is one operations can bring about.)
\<close>

theorem ingested_chunks_have_vectors:
  assumes "ig_embed I = em_embed (dev_embedder h)" and "ig_vector_store I = memory_store" "mem_ok (is_vectors st)"
    and "ingest I ids meta tenant r st = (st', Inr out)"
    and "inj_on (ii_chunk ids) {..<length (chunk_body (ig_count I) (re_body r) (cm_chunking (sm_context meta)))}"
  shows "let chunks = chunk_body (ig_count I) (re_body r) (cm_chunking (sm_context meta))
    in io_chunks_written out = length chunks
       \<and> (\<forall>i < length chunks. \<exists>e c vs. is_vectors st' (sm_collection meta) = Some e \<and> c \<in> set (co_chunks e)
            \<and> ch_id c = ii_chunk ids i \<and> ch_content c = chunks ! i
            \<and> em_embed (dev_embedder h) chunks = Inr vs \<and> ch_embedding c = vs ! i
            \<and> length (ch_embedding c) = em_dims (dev_embedder h)
            \<and> map_of (ch_metadata c) ''tenant'' = Some (JString tenant)
            \<and> map_of (ch_metadata c) ''record_id'' = Some (JString (io_record_id out)))"
proof -
  define chunks where "chunks = chunk_body (ig_count I) (re_body r) (cm_chunking (sm_context meta))"
  have n: "io_chunks_written out = length chunks"
    using ingest_embeds [OF assms(4)] by (auto simp: chunks_def)
  have rec: "io_record_id out = ii_record ids"
    using assms(4) by (auto simp: ingest_def Let_def split: prod.splits sum.splits if_splits)
  have "\<exists>e c vs. is_vectors st' (sm_collection meta) = Some e \<and> c \<in> set (co_chunks e)
            \<and> ch_id c = ii_chunk ids i \<and> ch_content c = chunks ! i
            \<and> em_embed (dev_embedder h) chunks = Inr vs \<and> ch_embedding c = vs ! i
            \<and> length (ch_embedding c) = em_dims (dev_embedder h)
            \<and> map_of (ch_metadata c) ''tenant'' = Some (JString tenant)
            \<and> map_of (ch_metadata c) ''record_id'' = Some (JString (io_record_id out))" if i: "i < length chunks" for i
  proof -
    from i have "chunks \<noteq> []" by auto
    from mem.ingest_writes [OF assms(2-4) chunks_def [symmetric] this assms(5) [folded chunks_def]] obtain vs d m where
      vs: "ig_embed I chunks = Inr vs" "length vs = length chunks"
      and m: "mem_collections (is_vectors st') (sm_collection meta) = Some (d, m)"
        "m (ii_chunk ids i) = Some \<lparr>ch_id = ii_chunk ids i, ch_content = chunks ! i, ch_embedding = vs ! i,
           ch_metadata = chunk_metadata I tenant (ii_record ids) r i\<rparr>"
      using i by blast
    from m obtain e where e: "is_vectors st' (sm_collection meta) = Some e" "m = chunk_map (co_chunks e)"
      by (auto simp: mem_collections_def)
    have "c \<in> set cs" if "chunk_map cs j = Some c" for cs j c
      using that by (auto simp: chunk_map_def find_Some_iff)
    with m e have "\<lparr>ch_id = ii_chunk ids i, ch_content = chunks ! i, ch_embedding = vs ! i,
           ch_metadata = chunk_metadata I tenant (ii_record ids) r i\<rparr> \<in> set (co_chunks e)" by blast
    moreover have "length (vs ! i) = em_dims (dev_embedder h)"
      using booted.right_dims [of h chunks vs "vs ! i"] vs i assms(1) by simp
    ultimately show ?thesis
      using e vs(1) assms(1) rec
      by (intro exI [of _ e] exI [of _ "\<lparr>ch_id = ii_chunk ids i, ch_content = chunks ! i, ch_embedding = vs ! i,
           ch_metadata = chunk_metadata I tenant (ii_record ids) r i\<rparr>"] exI [of _ vs])
        (simp add: chunk_metadata_def)
  qed
  with n show ?thesis by (simp add: chunks_def [symmetric] Let_def)
qed

lemma ingested_chunks_have_vectors_witness:
  "\<forall>xof http parse. \<exists>out. snd (ingest
      (sample_ingestor\<lparr>ig_embed := em_embed (dev_embedder \<lparr>ho_env = Map.empty, ho_xof = xof, ho_http = http, ho_parse_usize = parse\<rparr>)\<rparr>)
      \<lparr>ii_record = ''r1'', ii_chunk = (\<lambda>n. 1)\<rparr> (sample_meta\<lparr>sm_context := sample_context\<lparr>cm_vector_dims := 64\<rparr>\<rparr>) ''acme''
      (resource_stub 0 ''a'' ''ours'') \<lparr>is_vectors = mem_new, is_db = [], is_ensured = {}\<rparr>) = Inr out
    \<and> io_chunks_written out = 1"
proof (intro allI)
  fix xof http parse
  let ?h = "\<lparr>ho_env = Map.empty, ho_xof = xof, ho_http = http, ho_parse_usize = parse\<rparr>"
  let ?I = "sample_ingestor\<lparr>ig_embed := em_embed (dev_embedder ?h)\<rparr>" and ?ids = "\<lparr>ii_record = ''r1'', ii_chunk = (\<lambda>n. 1)\<rparr>"
  let ?meta = "sample_meta\<lparr>sm_context := sample_context\<lparr>cm_vector_dims := 64\<rparr>\<rparr>" and ?r = "resource_stub 0 ''a'' ''ours''"
  let ?st = "\<lparr>is_vectors = mem_new, is_db = [], is_ensured = {}\<rparr>"
  have t: "is_safe_ident ''doc''" by code_simp
  have embed: "em_embed (dev_embedder ?h) [x] = Inr [hash_to_vec xof x 64]" for x
    by (simp add: dev_embedder_def boot_stub_def stub_new_def)
  obtain st' out where run: "ingest ?I ?ids ?meta ''acme'' ?r ?st = (st', Inr out)"
    by (simp add: t embed ingest_def upsert_row_def sample_ingestor_def sample_postgres_def resource_stub_def
        sample_meta_def sample_context_def tenant_chunked Let_def ensure_collection_def memory_store_def mem_new_def
        mem_ensure_collection_def mem_upsert_def mem_ensure_def vec_chunks_def)
  have "ig_count ?I = char_approx" "re_body ?r = ''ours''" "cm_chunking (sm_context ?meta) = chunking_default"
    by (simp_all add: sample_ingestor_def resource_stub_def sample_context_def)
  moreover have "ig_vector_store ?I = memory_store" "mem_ok (is_vectors ?st)"
    by (simp_all add: sample_ingestor_def mem_ok_def mem_new_def)
  moreover have "ig_embed ?I = em_embed (dev_embedder ?h)" by simp
  moreover have "inj_on (ii_chunk ?ids) {..<length (chunk_body (ig_count ?I) (re_body ?r) (cm_chunking (sm_context ?meta)))}"
    using calculation by (simp add: tenant_chunked inj_on_def)
  ultimately have "io_chunks_written out = 1"
    using ingested_chunks_have_vectors [OF _ _ _ run, of ?h] by (simp add: tenant_chunked Let_def)
  with run show "\<exists>out. snd (ingest ?I ?ids ?meta ''acme'' ?r ?st) = Inr out \<and> io_chunks_written out = 1" by simp
qed

end
