(* ===== verification/Vector_Qdrant.thy ===== *)
theory Vector_Qdrant
  imports Engine_Retrieval Csl_Mcp Csl_Load "HOL-Library.AList"
begin

text \<open>
  The Qdrant backend (\<open>sealstack-vectorstore/src/qdrant.rs\<close>): point ids, payload values, the
  translation of filters into the conditions of the service, and the operations of the store on
  a client. The client and the service behind it are parameters; what a condition means to the
  service is a named hypothesis of the properties, after its documentation.
\<close>

section \<open>Point ids\<close>

definition hex_char :: "nat \<Rightarrow> char" where
  "hex_char n = (if n < 10 then char_of (48 + n) else char_of (87 + n))"

definition hex2 :: "nat \<Rightarrow> string" where
  "hex2 b = [hex_char (b div 16), hex_char (b mod 16)]"

text \<open>Byte \<open>i\<close> of \<open>to_be_bytes\<close> of a 128-bit number.\<close>

definition be_byte :: "ulid \<Rightarrow> nat \<Rightarrow> nat" where
  "be_byte u i = unat u div 256 ^ (15 - i) mod 256"

definition hex_bytes :: "ulid \<Rightarrow> nat \<Rightarrow> nat \<Rightarrow> string" where
  "hex_bytes u i j = concat (map (\<lambda>k. hex2 (be_byte u k)) [i ..< j])"

definition uuid_from_ulid :: "ulid \<Rightarrow> string" where
  "uuid_from_ulid u = hex_bytes u 0 4 @ ''-'' @ hex_bytes u 4 6 @ ''-'' @ hex_bytes u 6 8 @ ''-''
     @ hex_bytes u 8 10 @ ''-'' @ hex_bytes u 10 16"

definition hex_digit :: "char \<Rightarrow> nat option" where
  "hex_digit c =
     (let n = (of_char c :: nat)
      in if 48 \<le> n \<and> n \<le> 57 then Some (n - 48)
         else if 97 \<le> n \<and> n \<le> 102 then Some (n - 87)
         else if 65 \<le> n \<and> n \<le> 70 then Some (n - 55)
         else None)"

definition hex_value :: "string \<Rightarrow> nat" where
  "hex_value s = foldl (\<lambda>n c. 16 * n + the (hex_digit c)) 0 s"

definition ulid_from_uuid :: "string \<Rightarrow> ulid option" where
  "ulid_from_uuid s =
     (let hex = filter (\<lambda>c. hex_digit c \<noteq> None) s
      in if length hex \<noteq> 32 then None else Some (word_of_nat (hex_value hex)))"

datatype point_id = PUuid string | PNum u64 | PNone

definition ulid_to_point_id :: "ulid \<Rightarrow> point_id" where
  "ulid_to_point_id u = PUuid (uuid_from_ulid u)"

text \<open>\<open>Ulid::from_parts(0, n)\<close> is the number itself.\<close>

fun point_id_to_ulid :: "point_id option \<Rightarrow> ulid option" where
  "point_id_to_ulid None = None"
| "point_id_to_ulid (Some (PUuid s)) = ulid_from_uuid s"
| "point_id_to_ulid (Some (PNum n)) = Some (ucast n)"
| "point_id_to_ulid (Some PNone) = None"

section \<open>Payload values\<close>

text \<open>
  A value without a kind is \<open>QNone\<close>; the fields of a struct are a hash map. \<open>as_f64\<close> reads every
  number, so the arm that would store the digits of one is dead; \<open>QNone\<close> stands in its place.
\<close>

datatype qvalue =
    QNone
  | QNull
  | QBool bool
  | QInteger i64
  | QDouble f64
  | QString string
  | QList "qvalue list"
  | QStruct "(string \<times> qvalue) list"

lemma size_qelem [termination_simp]: "(x :: qvalue) \<in> set xs \<Longrightarrow> size x < Suc (size_list size xs)"
  by (induction xs) auto

lemma size_qentry [termination_simp]:
  "(k, v :: qvalue) \<in> set kvs \<Longrightarrow> size v < size_list (size_prod (\<lambda>x. 0) size) kvs"
  by (induction kvs) auto

fun serde_json_to_qvalue :: "json \<Rightarrow> qvalue" where
  "serde_json_to_qvalue JNull = QNull"
| "serde_json_to_qvalue (JBool b) = QBool b"
| "serde_json_to_qvalue (JNumber n) =
     (case num_as_i64 n of
        Some i \<Rightarrow> QInteger i
      | None \<Rightarrow> (case num_as_f64 n of Some f \<Rightarrow> QDouble f | None \<Rightarrow> QNone))"
| "serde_json_to_qvalue (JString s) = QString s"
| "serde_json_to_qvalue (JArray items) = QList (map serde_json_to_qvalue items)"
| "serde_json_to_qvalue (JObject kvs) = QStruct (map (\<lambda>(k, v). (k, serde_json_to_qvalue v)) kvs)"

text \<open>\<open>Value::from(i64)\<close>, and \<open>Number::from_f64\<close>, which takes finite floats only.\<close>

definition json_of_i64 :: "i64 \<Rightarrow> json" where
  "json_of_i64 i = JNumber (if 0 \<le> sint i then PosInt i else NegInt i)"

definition json_of_f64 :: "f64 \<Rightarrow> json" where
  "json_of_f64 f = (if f64_mag f < f64_inf_mag then JNumber (JFloat f) else JNull)"

fun qvalue_to_serde_json :: "qvalue \<Rightarrow> json" where
  "qvalue_to_serde_json QNone = JNull"
| "qvalue_to_serde_json QNull = JNull"
| "qvalue_to_serde_json (QBool b) = JBool b"
| "qvalue_to_serde_json (QInteger i) = json_of_i64 i"
| "qvalue_to_serde_json (QDouble f) = json_of_f64 f"
| "qvalue_to_serde_json (QString s) = JString s"
| "qvalue_to_serde_json (QList vs) = JArray (map qvalue_to_serde_json vs)"
| "qvalue_to_serde_json (QStruct kvs) = obj (map (\<lambda>(k, v). (k, qvalue_to_serde_json v)) kvs)"

section \<open>Conditions\<close>

datatype qmatch = MKeyword string | MKeywords "string list" | MInteger i64 | MBoolean bool

datatype qcondition =
    QMatch string qmatch
  | QRange string "f64 option" "f64 option" "f64 option" "f64 option"
  | QMustNot "qcondition list"
  | QShould "qcondition list"

fun match_condition :: "string \<Rightarrow> json \<Rightarrow> qcondition option" where
  "match_condition field (JString s) = Some (QMatch field (MKeyword s))"
| "match_condition field (JBool b) = Some (QMatch field (MBoolean b))"
| "match_condition field (JNumber n) = map_option (\<lambda>i. QMatch field (MInteger i)) (num_as_i64 n)"
| "match_condition field _ = None"

fun json_as_i64 :: "json \<Rightarrow> i64 option" where
  "json_as_i64 (JNumber n) = num_as_i64 n"
| "json_as_i64 _ = None"

fun collect_options :: "'a option list \<Rightarrow> 'a list option" where
  "collect_options [] = Some []"
| "collect_options (x # xs) = Option.bind x (\<lambda>y. map_option (Cons y) (collect_options xs))"

definition in_condition :: "string \<Rightarrow> json list \<Rightarrow> qcondition option" where
  "in_condition field values =
     (let strings = List.map_filter json_as_str values; ints = List.map_filter json_as_i64 values
      in if length strings = length values \<and> strings \<noteq> [] then Some (QMatch field (MKeywords strings))
         else if length ints = length values \<and> ints \<noteq> []
         then Some (QShould (map (\<lambda>i. QMatch field (MInteger i)) ints))
         else None)"

fun push_conditions :: "Filter \<Rightarrow> qcondition list option" where
  "push_conditions F_All = Some []"
| "push_conditions (F_Eq field value) = map_option (\<lambda>c. [c]) (match_condition field value)"
| "push_conditions (F_Ne field value) = map_option (\<lambda>c. [QMustNot [c]]) (match_condition field value)"
| "push_conditions (F_In field values) = map_option (\<lambda>c. [c]) (in_condition field values)"
| "push_conditions (F_NotIn field values) =
     map_option (\<lambda>cs. [QMustNot cs]) (collect_options (map (match_condition field) values))"
| "push_conditions (F_Range field gte gt lte lt) = Some [QRange field gte gt lte lt]"
| "push_conditions (F_And parts) = map_option concat (collect_options (map push_conditions parts))"
| "push_conditions (F_Or parts) = None"
| "push_conditions (F_Not inner) = None"

definition filter_to_conditions :: "Filter \<Rightarrow> qcondition list option" where
  "filter_to_conditions f = push_conditions f"

definition value_to_filter :: "json \<Rightarrow> qcondition list option" where
  "value_to_filter v =
     (case from_json v of
        Inl e \<Rightarrow> None
      | Inr parsed \<Rightarrow>
          if parsed = F_All then None
          else if \<not> is_qdrant_native parsed then None
          else (case filter_to_conditions parsed of
                  None \<Rightarrow> None
                | Some must \<Rightarrow> if must = [] then None else Some must))"

section \<open>The store\<close>

record Point =
  pt_id :: point_id
  pt_vector :: "f32 list"
  pt_payload :: "(string \<times> qvalue) list"

record ScoredPoint =
  sp_id :: "point_id option"
  sp_score :: f32
  sp_payload :: "(string \<times> qvalue) list"

text \<open>The calls of the client, on the state of the service; an error is its text.\<close>

record 'q QdrantClient =
  qc_exists :: "'q \<Rightarrow> string \<Rightarrow> string + bool"
  qc_create :: "'q \<Rightarrow> string \<Rightarrow> nat \<Rightarrow> Distance \<Rightarrow> 'q \<times> (string + unit)"
  qc_upsert :: "'q \<Rightarrow> string \<Rightarrow> Point list \<Rightarrow> 'q \<times> (string + unit)"
  qc_search :: "'q \<Rightarrow> string \<Rightarrow> f32 list \<Rightarrow> nat \<Rightarrow> qcondition list option \<Rightarrow> string + ScoredPoint list"
  qc_delete :: "'q \<Rightarrow> string \<Rightarrow> point_id list \<Rightarrow> 'q \<times> (string + unit)"
  qc_count :: "'q \<Rightarrow> string \<Rightarrow> string + nat option"
  qc_drop :: "'q \<Rightarrow> string \<Rightarrow> 'q \<times> (string + unit)"

definition backend :: "'s \<times> (string + 'a) \<Rightarrow> 's \<times> (SealStackError + unit)" where
  "backend r = (case r of (s, Inl e) \<Rightarrow> (s, Inl (SeBackend e)) | (s, Inr x) \<Rightarrow> (s, Inr ()))"

definition qdrant_ensure_spec :: "'q QdrantClient \<Rightarrow> 'q \<Rightarrow> CollectionSpec \<Rightarrow> 'q \<times> (SealStackError + unit)" where
  "qdrant_ensure_spec C q spec =
     (case qc_exists C q (cs_name spec) of
        Inl e \<Rightarrow> (q, Inl (SeBackend e))
      | Inr existing \<Rightarrow>
          if existing then (q, Inr ())
          else backend (qc_create C q (cs_name spec) (cs_dims spec) (cs_distance spec)))"

definition qdrant_ensure :: "'q QdrantClient \<Rightarrow> 'q \<Rightarrow> string \<Rightarrow> nat \<Rightarrow> 'q \<times> (SealStackError + unit)" where
  "qdrant_ensure C q name dims =
     qdrant_ensure_spec C q \<lparr>cs_name = name, cs_dims = dims, cs_distance = distance_default\<rparr>"

text \<open>The payload: the content first, then the metadata, which may overwrite it.\<close>

definition payload_of :: "Chunk \<Rightarrow> (string \<times> qvalue) list" where
  "payload_of c = fold (\<lambda>(k, v). AList.update k (serde_json_to_qvalue v)) (ch_metadata c) [(''content'', QString (ch_content c))]"

definition point_of :: "Chunk \<Rightarrow> Point" where
  "point_of c = \<lparr>pt_id = ulid_to_point_id (ch_id c), pt_vector = ch_embedding c, pt_payload = payload_of c\<rparr>"

definition qdrant_upsert :: "'q QdrantClient \<Rightarrow> 'q \<Rightarrow> string \<Rightarrow> Chunk list \<Rightarrow> 'q \<times> (SealStackError + unit)" where
  "qdrant_upsert C q collection chunks =
     (if chunks = [] then (q, Inr ()) else backend (qc_upsert C q collection (map point_of chunks)))"

text \<open>A hit: a point without a usable id gets a fresh one; those of a search are a parameter.\<close>

definition hit_content :: "(string \<times> qvalue) list \<Rightarrow> string" where
  "hit_content payload = (case map_of payload ''content'' of Some (QString s) \<Rightarrow> s | _ \<Rightarrow> [])"

definition hit_of_point :: "ulid \<Rightarrow> ScoredPoint \<Rightarrow> SearchResult" where
  "hit_of_point fresh p =
     \<lparr>sr_id = (case point_id_to_ulid (sp_id p) of Some i \<Rightarrow> i | None \<Rightarrow> fresh), sr_score = sp_score p,
      sr_content = hit_content (sp_payload p),
      sr_metadata = fold (\<lambda>(k, v) m. object_insert k (qvalue_to_serde_json v) m) (sp_payload p) []\<rparr>"

definition qdrant_search :: "'q QdrantClient \<Rightarrow> (nat \<Rightarrow> ulid) \<Rightarrow> 'q \<Rightarrow> string \<Rightarrow> f32 list \<Rightarrow> nat \<Rightarrow> json option
    \<Rightarrow> SealStackError + SearchResult list" where
  "qdrant_search C fresh q collection query_vec top_k flt =
     (case qc_search C q collection query_vec (if top_k < 2 ^ 64 then top_k else 16) (Option.bind flt value_to_filter) of
        Inl e \<Rightarrow> Inl (SeBackend e)
      | Inr points \<Rightarrow> Inr (map (\<lambda>(i, p). hit_of_point (fresh i) p) (List.enumerate 0 points)))"

definition qdrant_delete :: "'q QdrantClient \<Rightarrow> 'q \<Rightarrow> string \<Rightarrow> ulid list \<Rightarrow> 'q \<times> (SealStackError + unit)" where
  "qdrant_delete C q collection ids =
     (if ids = [] then (q, Inr ()) else backend (qc_delete C q collection (map ulid_to_point_id ids)))"

definition qdrant_count :: "'q QdrantClient \<Rightarrow> 'q \<Rightarrow> string \<Rightarrow> SealStackError + nat" where
  "qdrant_count C q collection =
     (case qc_count C q collection of
        Inl e \<Rightarrow> Inl (SeBackend e)
      | Inr r \<Rightarrow> Inr (case r of None \<Rightarrow> 0 | Some n \<Rightarrow> n))"

definition qdrant_drop :: "'q QdrantClient \<Rightarrow> 'q \<Rightarrow> string \<Rightarrow> 'q \<times> (SealStackError + unit)" where
  "qdrant_drop C q name = backend (qc_drop C q name)"

definition qdrant_store :: "'q QdrantClient \<Rightarrow> (nat \<Rightarrow> ulid) \<Rightarrow> 'q VectorStore" where
  "qdrant_store C fresh =
     \<lparr>vs_kind = ''qdrant'', vs_ensure_collection = qdrant_ensure C, vs_upsert = qdrant_upsert C,
      vs_search = qdrant_search C fresh, vs_delete = qdrant_delete C, vs_count = qdrant_count C,
      vs_drop_collection = qdrant_drop C\<rparr>"

section \<open>Ids survive\<close>

lemma hex_digit_char: "n < 16 \<Longrightarrow> hex_digit (hex_char n) = Some n"
proof -
  have "list_all (\<lambda>n. hex_digit (hex_char n) = Some n) [0 ..< 16]" by code_simp
  moreover assume "n < 16"
  ultimately show ?thesis by (auto simp: list_all_iff)
qed

lemma be_byte_less: "be_byte u k < 256"
  by (simp add: be_byte_def)

lemma hex_digits_hex2: "b < 256 \<Longrightarrow> filter (\<lambda>c. hex_digit c \<noteq> None) (hex2 b) = hex2 b"
  by (simp add: hex2_def hex_digit_char)

lemma hex_digits_bytes: "filter (\<lambda>c. hex_digit c \<noteq> None) (hex_bytes u i j) = hex_bytes u i j"
proof -
  have "filter (\<lambda>c. hex_digit c \<noteq> None) (concat (map (\<lambda>k. hex2 (be_byte u k)) ks)) = concat (map (\<lambda>k. hex2 (be_byte u k)) ks)" for ks
    by (induction ks) (simp_all only: concat.simps list.map filter.simps filter_append hex_digits_hex2 [OF be_byte_less])
  then show ?thesis by (simp only: hex_bytes_def)
qed

lemma hex_value_bytes:
  "foldl (\<lambda>n c. 16 * n + the (hex_digit c)) a (concat (map (\<lambda>k. hex2 (be_byte u k)) ks))
     = foldl (\<lambda>n k. 256 * n + be_byte u k) a ks"
proof (induction ks arbitrary: a)
  case (Cons k ks)
  have "be_byte u k div 16 < 16" "be_byte u k mod 16 < 16" using be_byte_less [of u k] by auto
  then have "foldl (\<lambda>n c. 16 * n + the (hex_digit c)) a (hex2 (be_byte u k)) = 256 * a + be_byte u k"
    by (simp add: hex2_def hex_digit_char)
  with Cons show ?case by simp
qed simp

lemma be_bytes_value: "j \<le> 16 \<Longrightarrow> foldl (\<lambda>n k. 256 * n + be_byte u k) 0 [0 ..< j] = unat u div 256 ^ (16 - j)"
proof (induction j)
  case 0
  have "unat u < 256 ^ 16" using unsigned_less [of u, where ?'a = nat] by simp
  then show ?case by simp
next
  case (Suc j)
  then have e: "16 - j = Suc (15 - j)" by simp
  have "unat u div 256 ^ Suc (15 - j) = unat u div 256 ^ (15 - j) div 256"
    by (simp add: div_mult2_eq mult.commute [of 256])
  with Suc show ?case
    unfolding upt_Suc_append [OF le0] foldl_append
    by (simp add: e be_byte_def)
qed

lemma hex_bytes_append: "i \<le> j \<Longrightarrow> j \<le> k \<Longrightarrow> hex_bytes u i j @ hex_bytes u j k = hex_bytes u i k"
  using upt_add_eq_append [of i j "k - j"] by (simp add: hex_bytes_def)

lemma length_hex_bytes: "length (hex_bytes u i j) = 2 * (j - i)"
  by (simp add: hex_bytes_def length_concat comp_def hex2_def sum_list_triv)

lemma hex_digit_dash: "hex_digit (CHR ''-'') = None"
  by code_simp

text \<open>
  The id a chunk is stored under reads back as the id of the chunk: the UUID-shaped text of every
  128-bit ULID is parsed to that ULID, so no two chunks share a point.
\<close>

lemma ulid_uuid_roundtrip: "point_id_to_ulid (Some (ulid_to_point_id u)) = Some u"
proof -
  let ?hex = "filter (\<lambda>c. hex_digit c \<noteq> None) (uuid_from_ulid u)"
  have dash: "filter (\<lambda>c. hex_digit c \<noteq> None) ''-'' = []" by (simp add: hex_digit_dash)
  have hex: "?hex = hex_bytes u 0 16"
    unfolding uuid_from_ulid_def filter_append hex_digits_bytes dash by (simp add: hex_bytes_append)
  have "hex_value (hex_bytes u 0 16) = unat u"
    using be_bytes_value [of 16 u] by (simp only: hex_value_def hex_bytes_def hex_value_bytes) simp
  then show ?thesis
    by (simp only: ulid_to_point_id_def point_id_to_ulid.simps ulid_from_uuid_def hex Let_def)
      (simp add: length_hex_bytes)
qed

section \<open>Values survive\<close>

text \<open>What \<open>serde_json\<close> builds: negative integers are negative, floats finite, keys in order.\<close>

fun serde_built :: "json \<Rightarrow> bool" where
  "serde_built (JNumber (NegInt n)) = (sint n < 0)"
| "serde_built (JNumber (JFloat f)) = (f64_mag f < f64_inf_mag)"
| "serde_built (JArray vs) = list_all serde_built vs"
| "serde_built (JObject kvs) = (sorted_wrt byte_less (map fst kvs) \<and> list_all (\<lambda>(k, v). serde_built v) kvs)"
| "serde_built _ = True"

fun small_integers :: "json \<Rightarrow> bool" where
  "small_integers (JNumber (PosInt n)) = (unat n < 2 ^ 63)"
| "small_integers (JArray vs) = list_all small_integers vs"
| "small_integers (JObject kvs) = list_all (\<lambda>(k, v). small_integers v) kvs"
| "small_integers _ = True"

lemma byte_less_asym: "byte_less a b \<Longrightarrow> \<not> byte_less b a \<and> a \<noteq> b"
  using byte_less_irrefl byte_less_trans by blast

lemma object_insert_last:
  "\<forall>k' \<in> fst ` set m. byte_less k' k \<Longrightarrow> object_insert k v m = m @ [(k, v)]"
  by (induction m) (auto dest: byte_less_asym)

lemma obj_sorted: "sorted_wrt byte_less (map fst kvs) \<Longrightarrow> obj kvs = JObject kvs"
proof -
  have "fold (\<lambda>(k, v) m. object_insert k v m) kvs m = m @ kvs" if "sorted_wrt byte_less (map fst (m @ kvs))" for m
    using that
  proof (induction kvs arbitrary: m)
    case (Cons e kvs)
    obtain k v where e: "e = (k, v)" by fastforce
    with Cons.prems have "\<forall>k' \<in> fst ` set m. byte_less k' k" by (auto simp: sorted_wrt_append)
    with e Cons.IH [of "m @ [(k, v)]"] Cons.prems show ?case by (simp add: object_insert_last)
  qed simp
  from this [of "[]"] show "sorted_wrt byte_less (map fst kvs) \<Longrightarrow> obj kvs = JObject kvs" by (simp add: obj_def)
qed

lemma small_nonneg: "unat (n :: u64) < 2 ^ 63 \<longleftrightarrow> 0 \<le> sint n"
proof -
  have "uint n < 2 ^ 64" using uint_bounded [of n] by simp
  then have "uint n div 2 ^ 63 < 2" by simp
  moreover have "0 \<le> uint n div 2 ^ 63" by (simp add: pos_imp_zdiv_nonneg_iff)
  moreover have "0 \<le> d \<Longrightarrow> d < 2 \<Longrightarrow> odd d \<longleftrightarrow> d \<noteq> 0" for d :: int by presburger
  ultimately have "odd (uint n div 2 ^ 63) \<longleftrightarrow> uint n div 2 ^ 63 \<noteq> 0" by blast
  also have "\<dots> \<longleftrightarrow> \<not> uint n < 2 ^ 63"
    using uint_nonnegative [of n] by (simp add: zdiv_eq_0_iff del: uint_nonnegative)
  finally have "\<not> bit (uint n) 63 \<longleftrightarrow> uint n < 2 ^ 63" by (simp add: bit_iff_odd)
  moreover have "bit n 63 \<longleftrightarrow> bit (uint n) 63" by (simp add: bit_uint_iff)
  moreover have "bit n 63 \<longleftrightarrow> sint n < 0" using bit_last_iff [of n] by simp
  moreover have "unat n < 2 ^ 63 \<longleftrightarrow> uint n < 2 ^ 63" using of_nat_less_iff [of "unat n" "2 ^ 63", where ?'a = int] by simp
  ultimately show ?thesis by (simp only: linorder_not_less [symmetric])
qed

lemma map_fixed: "map f xs = xs \<longleftrightarrow> (\<forall>x \<in> set xs. f x = x)"
  by (induction xs) auto

lemma number_roundtrip:
  assumes "serde_built (JNumber n)"
  shows "qvalue_to_serde_json (serde_json_to_qvalue (JNumber n)) = JNumber n \<longleftrightarrow> small_integers (JNumber n)"
proof (cases n)
  case (PosInt m)
  then show ?thesis
    by (cases "unat m < 2 ^ 63") (simp_all add: json_of_i64_def json_of_f64_def small_nonneg [symmetric])
next
  case (NegInt m)
  with assms show ?thesis by (simp add: json_of_i64_def)
next
  case (JFloat f)
  with assms show ?thesis by (simp add: json_of_f64_def)
qed

text \<open>
  A metadata document comes back from Qdrant as it was stored exactly when no integer in it
  exceeds the range of \<open>i64\<close>; a larger one comes back as a float.
\<close>

lemma payload_roundtrip:
  assumes "serde_built v"
  shows "qvalue_to_serde_json (serde_json_to_qvalue v) = v \<longleftrightarrow> small_integers v"
  using assms
proof (induction v rule: serde_json_to_qvalue.induct)
  case (3 n)
  then show ?case by (rule number_roundtrip)
next
  case (5 items)
  then show ?case by (simp add: list_all_iff comp_def map_fixed)
next
  case (6 kvs)
  have s: "sorted_wrt byte_less (map fst (map (\<lambda>(k, v). (k, qvalue_to_serde_json (serde_json_to_qvalue v))) kvs))"
    using 6(2) by (simp add: comp_def case_prod_unfold)
  have "qvalue_to_serde_json (serde_json_to_qvalue (JObject kvs))
      = JObject (map (\<lambda>(k, v). (k, qvalue_to_serde_json (serde_json_to_qvalue v))) kvs)"
    using obj_sorted [OF s] by (simp add: comp_def case_prod_unfold)
  moreover have "map (\<lambda>(k, v). (k, qvalue_to_serde_json (serde_json_to_qvalue v))) kvs = kvs
      \<longleftrightarrow> (\<forall>(k, v) \<in> set kvs. qvalue_to_serde_json (serde_json_to_qvalue v) = v)"
    by (auto simp: map_fixed)
  moreover have "\<forall>(k, v) \<in> set kvs. (qvalue_to_serde_json (serde_json_to_qvalue v) = v) = small_integers v"
    using 6 by (auto simp: list_all_iff)
  ultimately show ?case by (auto simp: list_all_iff simp del: qvalue_to_serde_json.simps serde_json_to_qvalue.simps)
qed (simp_all)

section \<open>Filters\<close>

text \<open>
  What the service documents of its conditions, on a plain key (it reads dots and brackets as a
  path) whose value holds no list inside a list: a match compares a string, integer or boolean for equality,
  one on several strings asks for one of them, a range needs a number within its bounds,
  \<open>must_not\<close> asks that none of its conditions holds and \<open>should\<close> that one does.
\<close>

definition plain_key :: "string \<Rightarrow> bool" where
  "plain_key k \<longleftrightarrow> list_all (\<lambda>c. c \<notin> set ''.[]\"\"'') k"

definition flat :: "qvalue option \<Rightarrow> bool" where
  "flat v = (case v of Some (QList vs) \<Rightarrow> list_all (\<lambda>x. case x of QList _ \<Rightarrow> False | _ \<Rightarrow> True) vs | _ \<Rightarrow> True)"

definition pred_number :: "(f64 \<Rightarrow> bool) \<Rightarrow> f64 option \<Rightarrow> bool" where
  "pred_number P x = (case x of None \<Rightarrow> False | Some y \<Rightarrow> P y)"

fun q_match :: "qmatch \<Rightarrow> qvalue option \<Rightarrow> bool" where
  "q_match (MKeyword s) v = (v = Some (QString s))"
| "q_match (MKeywords ss) v = list_ex (\<lambda>s. v = Some (QString s)) ss"
| "q_match (MInteger i) v = (v = Some (QInteger i))"
| "q_match (MBoolean b) v = (v = Some (QBool b))"

definition q_number :: "qvalue option \<Rightarrow> f64 option" where
  "q_number v = (case v of Some (QInteger i) \<Rightarrow> Some (f64_of_i64 i) | Some (QDouble f) \<Rightarrow> Some f | _ \<Rightarrow> None)"

definition q_range :: "f64 option \<Rightarrow> f64 option \<Rightarrow> f64 option \<Rightarrow> f64 option \<Rightarrow> f64 \<Rightarrow> bool" where
  "q_range gte gt lte lt x \<longleftrightarrow>
     pred_option (\<lambda>g. f64_le g x) gte \<and> pred_option (\<lambda>g. f64_lt g x) gt
     \<and> pred_option (\<lambda>l. f64_le x l) lte \<and> pred_option (\<lambda>l. f64_lt x l) lt"

text \<open>A condition on a key is met by a list when one of its elements meets it.\<close>

definition q_values :: "qvalue option \<Rightarrow> qvalue list" where
  "q_values v = (case v of None \<Rightarrow> [] | Some (QList vs) \<Rightarrow> vs | Some x \<Rightarrow> [x])"

definition qdrant_semantics :: "((string \<times> qvalue) list \<Rightarrow> qcondition \<Rightarrow> bool) \<Rightarrow> bool" where
  "qdrant_semantics sat \<longleftrightarrow>
     (\<forall>p k m. plain_key k \<longrightarrow> flat (map_of p k) \<longrightarrow>
        sat p (QMatch k m) = list_ex (\<lambda>x. q_match m (Some x)) (q_values (map_of p k)))
     \<and> (\<forall>p k gte gt lte lt. plain_key k \<longrightarrow> flat (map_of p k) \<longrightarrow>
          sat p (QRange k gte gt lte lt) =
            list_ex (\<lambda>x. pred_number (q_range gte gt lte lt) (q_number (Some x))) (q_values (map_of p k)))
     \<and> (\<forall>p cs. sat p (QMustNot cs) \<longleftrightarrow> list_all (\<lambda>c. \<not> sat p c) cs)
     \<and> (\<forall>p cs. cs \<noteq> [] \<longrightarrow> sat p (QShould cs) = list_ex (sat p) cs)"

text \<open>Values that are no lists, with finite floats; and the keys a filter names.\<close>

fun q_finite :: "qvalue \<Rightarrow> bool" where
  "q_finite (QDouble f) = (f64_mag f < f64_inf_mag)"
| "q_finite v = True"

fun q_scalar :: "qvalue \<Rightarrow> bool" where
  "q_scalar (QList vs) = False"
| "q_scalar (QDouble f) = (f64_mag f < f64_inf_mag)"
| "q_scalar v = True"

fun filter_keys :: "Filter \<Rightarrow> string list" where
  "filter_keys (F_Eq k v) = [k]"
| "filter_keys (F_Ne k v) = [k]"
| "filter_keys (F_In k vs) = [k]"
| "filter_keys (F_NotIn k vs) = [k]"
| "filter_keys (F_Range k gte gt lte lt) = [k]"
| "filter_keys (F_And fs) = concat (map filter_keys fs)"
| "filter_keys _ = []"

text \<open>A filter over plain keys whose values are as \<open>serde_json\<close> builds them.\<close>

fun plain_filter :: "Filter \<Rightarrow> bool" where
  "plain_filter (F_Eq k v) = (plain_key k \<and> serde_built v)"
| "plain_filter (F_Ne k v) = (plain_key k \<and> serde_built v)"
| "plain_filter (F_In k vs) = (plain_key k \<and> list_all serde_built vs)"
| "plain_filter (F_NotIn k vs) = (plain_key k \<and> list_all serde_built vs)"
| "plain_filter (F_Range k gte gt lte lt) =
     (plain_key k \<and> list_all (pred_option (\<lambda>b. \<not> f64_is_nan b)) [gte, gt, lte, lt])"
| "plain_filter (F_And fs) = list_all plain_filter fs"
| "plain_filter _ = True"

definition payload_json :: "(string \<times> qvalue) list \<Rightarrow> metadata" where
  "payload_json p = map (\<lambda>(k, v). (k, qvalue_to_serde_json v)) p"

lemma map_of_payload_json: "map_of (payload_json p) k = map_option qvalue_to_serde_json (map_of p k)"
  by (induction p) (auto simp: payload_json_def)

lemma scalar_values:
  "pred_option q_scalar v \<Longrightarrow> flat v \<and> q_values v = (case v of None \<Rightarrow> [] | Some x \<Rightarrow> [x])"
  by (cases v; auto simp: flat_def q_values_def split: qvalue.split)

lemma match_none [simp]: "\<not> q_match m None"
  by (cases m) (simp_all add: list_ex_iff)

text \<open>A match on a scalar value is the JSON equality, in either direction.\<close>

lemma match_scalar:
  assumes "match_condition k v = Some c" and "serde_built v" and "q_scalar q"
  obtains m where "c = QMatch k m" and "q_match m (Some q) \<longleftrightarrow> json_eq (qvalue_to_serde_json q) v"
    and "q_match m (Some q) \<longleftrightarrow> json_eq v (qvalue_to_serde_json q)" and "\<not> q_match m None"
proof (cases v)
  case (JNumber n)
  with assms obtain i where i: "num_as_i64 n = Some i" "c = QMatch k (MInteger i)" by auto
  have "q_match (MInteger i) (Some q) \<longleftrightarrow> json_eq (qvalue_to_serde_json q) v"
    and "q_match (MInteger i) (Some q) \<longleftrightarrow> json_eq v (qvalue_to_serde_json q)"
    using i(1) JNumber assms(2,3) small_nonneg [of i]
    by (cases q; cases n; auto simp: obj_def json_of_i64_def json_of_f64_def split: if_splits)+
  with i(2) that show ?thesis by simp
next
  case (JBool b)
  with assms that [of "MBoolean b"] show ?thesis
    by (cases q) (auto simp: obj_def json_of_i64_def json_of_f64_def)
next
  case (JString s)
  with assms that [of "MKeyword s"] show ?thesis
    by (cases q) (auto simp: obj_def json_of_i64_def json_of_f64_def)
qed (use assms in auto)

lemma nonneg_uint: "0 \<le> sint (i :: i64) \<Longrightarrow> uint i = sint i"
proof -
  assume "0 \<le> sint i"
  then have "unat i < 2 ^ 63" using small_nonneg [of i] by blast
  then have "uint i < 2 ^ 63" using of_nat_less_iff [of "unat i" "2 ^ 63", where ?'a = int] by simp
  moreover have "- (2 ^ 63) \<le> uint i" by (rule order_trans [OF _ uint_nonnegative]) simp
  ultimately show ?thesis using signed_take_bit_int_eq_self [of 63 "uint i"] by (simp add: sint_uint)
qed

lemma number_scalar: "q_scalar q \<Longrightarrow> json_as_f64 (qvalue_to_serde_json q) = q_number (Some q)"
  by (cases q) (auto simp: q_number_def obj_def json_of_i64_def json_of_f64_def f64_of_u64_def f64_of_i64_def nonneg_uint)

lemma range_scalar:
  assumes "list_all (pred_option (\<lambda>b. \<not> f64_is_nan b)) [gte, gt, lte, lt]" and "\<not> f64_is_nan x"
  shows "q_range gte gt lte lt x = range_holds gte gt lte lt x"
  using assms by (auto simp: q_range_def range_holds_def f64_lt_def f64_le_def split: option.split)

lemma f64_of_i64_not_nan: "\<not> f64_is_nan (f64_of_i64 i)"
proof -
  have "f64_round_mag p q \<le> f64_inf_mag" for p q by (simp add: f64_round_mag_def round_mag_def Let_def)
  moreover have "m \<le> f64_inf_mag \<Longrightarrow> f64_mag (f64_make neg m) = m" for neg m
    by (auto simp: f64_mag_def f64_make_def f64_inf_mag_def unsigned_of_nat take_bit_nat_eq_self_iff take_bit_nat_eq_self)
  ultimately show ?thesis by (simp add: f64_is_nan_def f64_of_i64_def f64_of_int_def not_less)
qed

lemma number_finite: "q_scalar q \<Longrightarrow> q_number (Some q) = Some x \<Longrightarrow> \<not> f64_is_nan x"
  by (cases q) (auto simp: q_number_def f64_is_nan_def f64_of_i64_not_nan [unfolded f64_is_nan_def])

text \<open>What the laws give where a key holds no list.\<close>

lemma sat_match:
  "qdrant_semantics sat \<Longrightarrow> pred_option q_scalar (map_of p k) \<Longrightarrow> plain_key k \<Longrightarrow>
     sat p (QMatch k m) = q_match m (map_of p k)"
  using scalar_values [of "map_of p k"] by (cases "map_of p k") (simp_all add: qdrant_semantics_def)

lemma sat_range:
  "qdrant_semantics sat \<Longrightarrow> pred_option q_scalar (map_of p k) \<Longrightarrow> plain_key k \<Longrightarrow>
     sat p (QRange k gte gt lte lt) = (case q_number (map_of p k) of None \<Rightarrow> False | Some x \<Rightarrow> q_range gte gt lte lt x)"
  using scalar_values [of "map_of p k"]
  by (cases "map_of p k") (simp_all add: qdrant_semantics_def pred_number_def q_number_def)

lemma sat_must_not: "qdrant_semantics sat \<Longrightarrow> sat p (QMustNot cs) \<longleftrightarrow> list_all (\<lambda>c. \<not> sat p c) cs"
  by (simp add: qdrant_semantics_def)

lemma sat_should: "qdrant_semantics sat \<Longrightarrow> cs \<noteq> [] \<Longrightarrow> sat p (QShould cs) = list_ex (sat p) cs"
  by (simp add: qdrant_semantics_def)

lemma sat_equal:
  assumes "qdrant_semantics sat" "pred_option q_scalar (map_of p k)" "plain_key k" "serde_built v" "match_condition k v = Some c"
  shows "sat p c \<longleftrightarrow> option_json_eq (map_of (payload_json p) k) v"
    and "sat p c \<longleftrightarrow> (\<exists>q. map_of p k = Some q \<and> json_eq v (qvalue_to_serde_json q))"
proof -
  have c: "c = QMatch k m \<Longrightarrow> sat p c = q_match m (map_of p k)" for m
    using sat_match [OF assms(1-3)] by simp
  have "(sat p c \<longleftrightarrow> option_json_eq (map_of (payload_json p) k) v)
      \<and> (sat p c \<longleftrightarrow> (\<exists>q. map_of p k = Some q \<and> json_eq v (qvalue_to_serde_json q)))"
  proof (cases "map_of p k")
    case None
    obtain m where "c = QMatch k m" "\<not> q_match m None"
      using match_scalar [OF assms(5,4), of QNull] by auto
    with None c [of m] show ?thesis by (simp add: map_of_payload_json option_json_eq_def)
  next
    case (Some q)
    obtain m where "c = QMatch k m" "q_match m (Some q) \<longleftrightarrow> json_eq (qvalue_to_serde_json q) v"
      "q_match m (Some q) \<longleftrightarrow> json_eq v (qvalue_to_serde_json q)"
      using match_scalar [OF assms(5,4)] assms(2) Some by (metis option.pred_inject(2))
    with Some c [of m] show ?thesis by (simp add: map_of_payload_json option_json_eq_def)
  qed
  then show "sat p c \<longleftrightarrow> option_json_eq (map_of (payload_json p) k) v"
    and "sat p c \<longleftrightarrow> (\<exists>q. map_of p k = Some q \<and> json_eq v (qvalue_to_serde_json q))" by blast+
qed

lemma collect_options_Some:
  "collect_options xs = Some ys \<longleftrightarrow> list_all2 (\<lambda>x y. x = Some y) xs ys"
proof (induction xs arbitrary: ys)
  case (Cons x xs)
  show ?case
    by (cases ys) (auto simp: Cons.IH [symmetric] bind_eq_Some_conv)
qed auto

lemma length_map_filter: "length (List.map_filter f xs) \<le> length xs"
  by (induction xs) (auto split: option.split)

lemma full_map_filter:
  "length (List.map_filter f xs) = length xs \<Longrightarrow> list_all2 (\<lambda>x y. f x = Some y) xs (List.map_filter f xs)"
proof (induction xs)
  case (Cons x xs)
  with length_map_filter [of f xs] show ?case by (cases "f x") auto
qed simp

lemma list_all2_ex: "list_all2 R xs ys \<Longrightarrow> (\<And>x y. x \<in> set xs \<Longrightarrow> R x y \<Longrightarrow> P x = Q y) \<Longrightarrow> (\<exists>x \<in> set xs. P x) = (\<exists>y \<in> set ys. Q y)"
  by (induction rule: list_all2_induct) auto

lemma as_str_match: "json_as_str v = Some s \<Longrightarrow> match_condition k v = Some (QMatch k (MKeyword s))"
  by (cases v) auto

lemma as_i64_match: "json_as_i64 v = Some i \<Longrightarrow> match_condition k v = Some (QMatch k (MInteger i))"
  by (cases v) auto

text \<open>An \<open>$in\<close> condition asks for one of its values.\<close>

lemma sat_in:
  assumes laws: "qdrant_semantics sat" "pred_option q_scalar (map_of p k)" "plain_key k"
    and built: "list_all serde_built vs" and c: "in_condition k vs = Some c"
  shows "sat p c \<longleftrightarrow> (\<exists>v \<in> set vs. \<exists>q. map_of p k = Some q \<and> json_eq v (qvalue_to_serde_json q))"
proof -
  let ?one = "\<lambda>v. \<exists>q. map_of p k = Some q \<and> json_eq v (qvalue_to_serde_json q)"
  let ?ss = "List.map_filter json_as_str vs" and ?is = "List.map_filter json_as_i64 vs"
  have one: "v \<in> set vs \<Longrightarrow> match_condition k v = Some c' \<Longrightarrow> ?one v = sat p c'" for v c'
    using sat_equal(2) [OF laws, of v c'] built by (simp add: list_all_iff)
  consider (str) "length ?ss = length vs" "c = QMatch k (MKeywords ?ss)"
    | (int) "length ?is = length vs" "?is \<noteq> []" "c = QShould (map (\<lambda>i. QMatch k (MInteger i)) ?is)"
    using c by (auto simp: in_condition_def Let_def split: if_splits)
  then show ?thesis
  proof cases
    case str
    have "sat p c \<longleftrightarrow> (\<exists>s \<in> set ?ss. sat p (QMatch k (MKeyword s)))"
      by (simp add: str(2) sat_match [OF laws] list_ex_iff)
    also have "\<dots> \<longleftrightarrow> (\<exists>v \<in> set vs. ?one v)"
      by (rule list_all2_ex [OF full_map_filter [OF str(1)], symmetric]) (rule one [OF _ as_str_match])
    finally show ?thesis .
  next
    case int
    have "sat p c \<longleftrightarrow> (\<exists>i \<in> set ?is. sat p (QMatch k (MInteger i)))"
      using int(2) by (simp add: int(3) sat_should [OF laws(1)] list_ex_iff)
    also have "\<dots> \<longleftrightarrow> (\<exists>v \<in> set vs. ?one v)"
      by (rule list_all2_ex [OF full_map_filter [OF int(1)], symmetric]) (rule one [OF _ as_i64_match])
    finally show ?thesis .
  qed
qed

lemma sat_not_in:
  assumes laws: "qdrant_semantics sat" "pred_option q_scalar (map_of p k)" "plain_key k"
    and built: "list_all serde_built vs" and cs: "collect_options (map (match_condition k) vs) = Some cs"
  shows "sat p (QMustNot cs) \<longleftrightarrow> \<not> (\<exists>v \<in> set vs. \<exists>q. map_of p k = Some q \<and> json_eq v (qvalue_to_serde_json q))"
proof -
  have "list_all2 (\<lambda>v c. match_condition k v = Some c) vs cs"
    using cs by (simp add: collect_options_Some list_all2_map1)
  then have "(\<exists>v \<in> set vs. \<exists>q. map_of p k = Some q \<and> json_eq v (qvalue_to_serde_json q)) = (\<exists>c \<in> set cs. sat p c)"
    by (rule list_all2_ex) (use sat_equal(2) [OF laws] built in \<open>auto simp: list_all_iff\<close>)
  then show ?thesis by (simp add: sat_must_not [OF laws(1)] list_all_iff)
qed

lemma push_conditions_agree:
  assumes laws: "qdrant_semantics sat"
  shows "list_all (\<lambda>k. pred_option q_scalar (map_of p k)) (filter_keys f) \<Longrightarrow> plain_filter f \<Longrightarrow>
     push_conditions f = Some cs \<Longrightarrow> list_all (sat p) cs = matches f (payload_json p)"
proof (induction f arbitrary: cs)
  case (F_Eq k v)
  then show ?case using sat_equal(1) [OF laws] by auto
next
  case (F_Ne k v)
  then show ?case using sat_equal(1) [OF laws] by (auto simp: sat_must_not [OF laws])
next
  case (F_In k vs)
  then have k: "pred_option q_scalar (map_of p k)" "plain_key k" "list_all serde_built vs"
    and "\<exists>c. in_condition k vs = Some c \<and> cs = [c]" by auto
  then obtain c where c: "in_condition k vs = Some c" "cs = [c]" by blast
  from sat_in [OF laws k c(1)] c(2) show ?case
    by (cases "map_of p k") (auto simp: map_of_payload_json list_ex_iff)
next
  case (F_NotIn k vs)
  then obtain ms where k: "pred_option q_scalar (map_of p k)" "plain_key k" "list_all serde_built vs"
    and c: "collect_options (map (match_condition k) vs) = Some ms" "cs = [QMustNot ms]" by auto
  from sat_not_in [OF laws k c(1)] c(2) show ?case
    by (cases "map_of p k") (auto simp: map_of_payload_json list_all_iff)
next
  case (F_Range k gte gt lte lt)
  then have k: "pred_option q_scalar (map_of p k)" "plain_key k"
    and r: "list_all (pred_option (\<lambda>b. \<not> f64_is_nan b)) [gte, gt, lte, lt]"
    and cs: "cs = [QRange k gte gt lte lt]" by auto
  show ?case
  proof (cases "map_of p k")
    case None
    then show ?thesis by (simp add: cs sat_range [OF laws k] map_of_payload_json q_number_def)
  next
    case (Some q)
    with k(1) have q: "q_scalar q" by simp
    show ?thesis
      using range_scalar [OF r] number_finite [OF q]
      by (simp add: cs sat_range [OF laws k] map_of_payload_json Some number_scalar [OF q] split: option.split)
  qed
next
  case (F_And fs)
  then obtain css where css: "list_all2 (\<lambda>f c. push_conditions f = Some c) fs css" and cs: "cs = concat css"
    by (auto simp: collect_options_Some list_all2_map1)
  from css F_And.IH F_And.prems(1,2) have "list_all (\<lambda>cs. list_all (sat p) cs) css = list_all (\<lambda>f. matches f (payload_json p)) fs"
    by (induction rule: list_all2_induct) auto
  then show ?case by (simp add: cs list_all_iff)
qed auto

section \<open>Hits\<close>

lemma matches_cong: "(\<And>k. map_of m k = map_of m' k) \<Longrightarrow> matches f m = matches f m'"
  by (induction f) (simp_all cong: list.pred_cong list_ex_cong)

lemma hit_metadata:
  "distinct (map fst (sp_payload p)) \<Longrightarrow> map_of (sr_metadata (hit_of_point fresh p)) k = map_of (payload_json (sp_payload p)) k"
proof -
  have "distinct (map fst kvs) \<Longrightarrow> fst ` set kvs \<inter> dom (map_of m) = {} \<Longrightarrow>
      map_of (fold (\<lambda>(k, v) m. object_insert k (qvalue_to_serde_json v) m) kvs m) k
        = (case map_of (payload_json kvs) k of None \<Rightarrow> map_of m k | Some v \<Rightarrow> Some v)" for kvs m
  proof (induction kvs arbitrary: m)
    case (Cons e kvs)
    obtain j v where e: "e = (j, v)" by fastforce
    with Cons.prems have "map_of (payload_json kvs) j = None"
      by (auto simp: map_of_payload_json map_of_eq_None_iff)
    with e Cons show ?case by (auto simp: payload_json_def split: option.split)
  qed (simp add: payload_json_def)
  from this [of "sp_payload p" "[]"] show "distinct (map fst (sp_payload p)) \<Longrightarrow> ?thesis"
    by (simp add: hit_of_point_def split: option.split)
qed

lemma value_to_filter_Some:
  "value_to_filter v = Some must \<Longrightarrow> from_json v = Inr f \<Longrightarrow> push_conditions f = Some must"
  by (auto simp: value_to_filter_def filter_to_conditions_def split: if_splits option.splits)

section \<open>Chunks survive\<close>

lemma point_payload_keys: "distinct (map fst (payload_of c))"
proof -
  have "distinct (map fst p) \<Longrightarrow> distinct (map fst (fold (\<lambda>(k, v). AList.update k (serde_json_to_qvalue v)) md p))" for md :: metadata and p
    by (induction md arbitrary: p) (auto simp: distinct_update)
  then show ?thesis by (simp add: payload_of_def)
qed

lemma payload_lookup:
  assumes "distinct (map fst (ch_metadata c))"
  shows "map_of (payload_of c) k = (case map_of (ch_metadata c) k of
           None \<Rightarrow> if k = ''content'' then Some (QString (ch_content c)) else None
         | Some v \<Rightarrow> Some (serde_json_to_qvalue v))"
proof -
  have "distinct (map fst md) \<Longrightarrow>
      map_of (fold (\<lambda>(k, v). AList.update k (serde_json_to_qvalue v)) md p) k
        = (case map_of md k of None \<Rightarrow> map_of p k | Some v \<Rightarrow> Some (serde_json_to_qvalue v))" for md :: metadata and p
  proof (induction md arbitrary: p)
    case (Cons e md)
    obtain j v where e: "e = (j, v)" by fastforce
    with Cons.prems have "map_of md j = None" by (simp add: map_of_eq_None_iff)
    with e Cons show ?case by (simp add: update_conv' split: option.split)
  qed simp
  with assms show ?thesis by (simp add: payload_of_def split: option.split)
qed

text \<open>
  C38: what Qdrant stores of a chunk reads back in a hit as the id, the content and the metadata
  of the chunk with one more key, \<open>content\<close>, under which the content is mirrored; provided the
  metadata is a JSON object as \<open>serde_json\<close> builds it, without a key \<open>content\<close> (which would
  replace the content) and without an integer beyond \<open>i64\<close> (which would come back as a float).
\<close>

theorem qdrant_chunk_roundtrip:
  assumes "distinct (map fst (ch_metadata c))" and "''content'' \<notin> fst ` set (ch_metadata c)"
    and "\<forall>(k, v) \<in> set (ch_metadata c). serde_built v \<and> small_integers v"
    and "sp_id p = Some (pt_id (point_of c))" and "sp_payload p = pt_payload (point_of c)"
  shows "sr_id (hit_of_point fresh p) = ch_id c \<and> sr_content (hit_of_point fresh p) = ch_content c
    \<and> map_of (sr_metadata (hit_of_point fresh p)) = (map_of (ch_metadata c))(''content'' \<mapsto> JString (ch_content c))"
proof (intro conjI ext)
  have payload: "sp_payload p = payload_of c" using assms(5) by (simp add: point_of_def)
  show "sr_id (hit_of_point fresh p) = ch_id c"
    using assms(4) ulid_uuid_roundtrip [of "ch_id c"] by (simp add: hit_of_point_def point_of_def)
  have none: "map_of (ch_metadata c) ''content'' = None" using assms(2) by (simp add: map_of_eq_None_iff)
  then show "sr_content (hit_of_point fresh p) = ch_content c"
    by (simp add: hit_of_point_def hit_content_def payload payload_lookup [OF assms(1)])
  fix k
  have same: "map_of (ch_metadata c) k = Some v \<Longrightarrow> qvalue_to_serde_json (serde_json_to_qvalue v) = v" for v
    using assms(3) payload_roundtrip [of v] by (auto dest!: map_of_SomeD)
  show "map_of (sr_metadata (hit_of_point fresh p)) k = ((map_of (ch_metadata c))(''content'' \<mapsto> JString (ch_content c))) k"
    using hit_metadata [of p fresh k] none same
    by (auto simp: payload point_payload_keys map_of_payload_json payload_lookup [OF assms(1)] split: option.split)
qed

theorem qdrant_chunk_roundtrip_witness:
  "sr_content (hit_of_point 7 \<lparr>sp_id = Some (PUuid (uuid_from_ulid 9)), sp_score = 0,
     sp_payload = [(''content'', QString ''x''), (''n'', QInteger 3)]\<rparr>) = ''x''"
proof -
  let ?c = "\<lparr>ch_id = 9, ch_content = ''x'', ch_embedding = [], ch_metadata = [(''n'', JNumber (PosInt 3))]\<rparr>"
  let ?p = "\<lparr>sp_id = Some (PUuid (uuid_from_ulid 9)), sp_score = 0, sp_payload = [(''content'', QString ''x''), (''n'', QInteger 3)]\<rparr>"
  have "payload_of ?c = [(''content'', QString ''x''), (''n'', QInteger 3)]" by code_simp
  then have "sp_payload ?p = pt_payload (point_of ?c)" "sp_id ?p = Some (pt_id (point_of ?c))"
    by (simp_all add: point_of_def ulid_to_point_id_def)
  then show ?thesis using qdrant_chunk_roundtrip [of ?c ?p 7] by simp
qed

section \<open>Filtered searches\<close>

text \<open>
  A client whose searches honour the conditions they are given, as the service documents: every
  point meets them; a payload is a JSON object, a map without infinite floats.
\<close>

definition honours_conditions :: "'q QdrantClient \<Rightarrow> ((string \<times> qvalue) list \<Rightarrow> qcondition \<Rightarrow> bool) \<Rightarrow> bool" where
  "honours_conditions C sat \<longleftrightarrow>
     (\<forall>q n e k flt points p. qc_search C q n e k flt = Inr points \<longrightarrow> p \<in> set points \<longrightarrow>
        distinct (map fst (sp_payload p)) \<and> list_all (\<lambda>(k, v). q_finite v) (sp_payload p)
        \<and> list_all (sat (sp_payload p)) (case flt of None \<Rightarrow> [] | Some must \<Rightarrow> must))"

lemma scalar_in_hit:
  assumes "distinct (map fst (sp_payload p))" "list_all (\<lambda>(k, v). q_finite v) (sp_payload p)"
    and "\<And>vs. map_of (sr_metadata (hit_of_point fresh p)) k \<noteq> Some (JArray vs)"
  shows "pred_option q_scalar (map_of (sp_payload p) k)"
proof (cases "map_of (sp_payload p) k")
  case (Some v)
  with assms(2) have "q_finite v" by (auto simp: list_all_iff dest!: map_of_SomeD)
  moreover have "v \<noteq> QList vs" for vs
  proof
    assume "v = QList vs"
    then have "map_of (sr_metadata (hit_of_point fresh p)) k = Some (JArray (map qvalue_to_serde_json vs))"
      using hit_metadata [OF assms(1), of fresh k] Some by (simp add: map_of_payload_json)
    with assms(3) show False by blast
  qed
  ultimately show ?thesis using Some by (cases v) auto
qed simp

text \<open>
  C37: a filter the Qdrant store can hand to the service keeps its meaning on every hit whose
  metadata holds no list under a key of the filter: the hit matches it as the filter language, and
  with it the in-memory store, evaluates it on that metadata. The filter has plain keys (Qdrant
  reads dots and brackets in a key as a path), values as \<open>serde_json\<close> builds them and bounds other
  than NaN, and Qdrant evaluates conditions as it documents. Where a key holds a list, Qdrant
  accepts the point as soon as one element meets the condition, and the hit need not match
  (\<open>list_values_diverge\<close>).
\<close>

theorem qdrant_hits_match_filter:
  assumes "qdrant_semantics sat" and "honours_conditions C sat"
    and "from_json v = Inr f" and "plain_filter f" and "value_to_filter v \<noteq> None"
    and "qdrant_search C fresh q n e k (Some v) = Inr hits" and "h \<in> set hits"
    and "\<forall>key \<in> set (filter_keys f). \<forall>vs. map_of (sr_metadata h) key \<noteq> Some (JArray vs)"
  shows "matches f (sr_metadata h)"
proof -
  obtain must where must: "value_to_filter v = Some must" using assms(5) by blast
  then have push: "push_conditions f = Some must" using assms(3) by (rule value_to_filter_Some)
  obtain points where search: "qc_search C q n e (if k < 2 ^ 64 then k else 16) (Some must) = Inr points"
    and hits: "hits = map (\<lambda>(i, p). hit_of_point (fresh i) p) (List.enumerate 0 points)"
    using assms(6) must by (auto simp: qdrant_search_def split: sum.splits)
  from hits assms(7) obtain p i where p: "p \<in> set points" "h = hit_of_point (fresh i) p"
    by (auto simp: enumerate_eq_zip dest: set_zip_rightD)
  from assms(2) search p(1) have payload: "distinct (map fst (sp_payload p))" "list_all (\<lambda>(k, v). q_finite v) (sp_payload p)"
    and sat: "list_all (sat (sp_payload p)) must"
    unfolding honours_conditions_def by fastforce+
  have "list_all (\<lambda>k. pred_option q_scalar (map_of (sp_payload p) k)) (filter_keys f)"
    using scalar_in_hit [OF payload, of "fresh i"] assms(8) p(2) unfolding list_all_iff by blast
  from push_conditions_agree [OF assms(1) this assms(4) push] sat show ?thesis
    using matches_cong [of "sr_metadata h" "payload_json (sp_payload p)" f] hit_metadata [OF payload(1), of "fresh i"] p(2) by simp
qed

text \<open>A filter the store cannot hand over is dropped: the search runs without one.\<close>

lemma unsupported_filter_is_dropped:
  assumes "value_to_filter v = None"
  shows "qdrant_search C fresh q n e k (Some v) = qdrant_search C fresh q n e k None"
  using assms by (simp add: qdrant_search_def)

lemma or_filter_is_dropped: "\<not> is_qdrant_native f \<Longrightarrow> from_json v = Inr f \<Longrightarrow> value_to_filter v = None"
  by (auto simp: value_to_filter_def)

lemma unreadable_filter_is_dropped: "from_json v = Inl err \<Longrightarrow> value_to_filter v = None"
  by (simp add: value_to_filter_def)

lemma empty_in_is_dropped: "from_json v = Inr (F_In k []) \<Longrightarrow> value_to_filter v = None"
  by (simp add: value_to_filter_def filter_to_conditions_def in_condition_def List.map_filter_def)

text \<open>A service that keeps its documentation.\<close>

fun doc_sat :: "(string \<times> qvalue) list \<Rightarrow> qcondition \<Rightarrow> bool" where
  "doc_sat p (QMatch k m) = list_ex (\<lambda>x. q_match m (Some x)) (q_values (map_of p k))"
| "doc_sat p (QRange k gte gt lte lt) =
     list_ex (\<lambda>x. pred_number (q_range gte gt lte lt) (q_number (Some x))) (q_values (map_of p k))"
| "doc_sat p (QMustNot cs) = list_all (\<lambda>c. \<not> doc_sat p c) cs"
| "doc_sat p (QShould cs) = list_ex (doc_sat p) cs"

lemma doc_sat_semantics: "qdrant_semantics doc_sat"
  unfolding qdrant_semantics_def by (simp cong: list_ex_cong)

definition doc_client :: "ScoredPoint list QdrantClient" where
  "doc_client =
     \<lparr>qc_exists = \<lambda>q n. Inr True, qc_create = \<lambda>q n d m. (q, Inr ()), qc_upsert = \<lambda>q n ps. (q, Inr ()),
      qc_search = \<lambda>q n e k flt. Inr (take k [p \<leftarrow> q. distinct (map fst (sp_payload p)) \<and> list_all (\<lambda>(k, v). q_finite v) (sp_payload p)
          \<and> list_all (doc_sat (sp_payload p)) (case flt of None \<Rightarrow> [] | Some must \<Rightarrow> must)]),
      qc_delete = \<lambda>q n ids. (q, Inr ()), qc_count = \<lambda>q n. Inr (Some (length q)), qc_drop = \<lambda>q n. (q, Inr ())\<rparr>"

lemma doc_client_honours: "honours_conditions doc_client doc_sat"
  unfolding honours_conditions_def doc_client_def by (auto dest!: in_set_takeD)

text \<open>Under a key that holds a list, a hit need not match the filter.\<close>

lemma list_values_diverge:
  "let p = \<lparr>sp_id = Some (PNum 5), sp_score = 0, sp_payload = [(''team'', QList [QString ''a'', QString ''b''])]\<rparr>
   in qdrant_search doc_client (\<lambda>i. 7) [p] ''docs'' [0] 3 (Some (JObject [(''team'', JString ''a'')])) = Inr [hit_of_point 7 p]
    \<and> \<not> matches (F_Eq ''team'' (JString ''a'')) (sr_metadata (hit_of_point 7 p))"
  by code_simp

theorem qdrant_hits_match_filter_witness:
  "matches (F_Eq ''team'' (JString ''a'')) (sr_metadata (hit_of_point 7
     \<lparr>sp_id = Some (PNum 5), sp_score = 0, sp_payload = [(''content'', QString ''x''), (''team'', QString ''a'')]\<rparr>))"
proof -
  let ?p = "\<lambda>t. \<lparr>sp_id = Some (PNum 5), sp_score = 0, sp_payload = [(''content'', QString ''x''), (''team'', QString t)]\<rparr>"
  let ?v = "JObject [(''team'', JString ''a'')]"
  have "from_json ?v = Inr (F_Eq ''team'' (JString ''a''))" by code_simp
  moreover have team: "map_of (sr_metadata (hit_of_point 7 (?p ''a''))) ''team'' = Some (JString ''a'')" by code_simp
  moreover have "plain_filter (F_Eq ''team'' (JString ''a''))" by code_simp
  moreover have "value_to_filter ?v = Some [QMatch ''team'' (MKeyword ''a'')]" by code_simp
  moreover have "qdrant_search doc_client (\<lambda>i. 7) [?p ''b'', ?p ''a''] ''docs'' [0] 3 (Some ?v) = Inr [hit_of_point 7 (?p ''a'')]"
    by code_simp
  ultimately show ?thesis
    using qdrant_hits_match_filter [OF doc_sat_semantics doc_client_honours, of ?v "F_Eq ''team'' (JString ''a'')" "\<lambda>i. 7"
        "[?p ''b'', ?p ''a'']" "''docs''" "[0]" 3 "[hit_of_point 7 (?p ''a'')]" "hit_of_point 7 (?p ''a'')"] team by simp
qed

end
