(* ===== verification/Connector_Web.thy ===== *)
theory Connector_Web
  imports Sdk_Types Sdk_Http Csl_Load
begin

text \<open>
  The web connector (\<open>src/connectors/web\<close>): the configured URLs, the check of their hosts
  against internal networks, the fetch of a page and what it becomes. Each operation returns the
  requests it made, in order, those of redirects included. The URL type of the \<open>url\<close> crate, the
  resolver, the exchange of a request for a response, the request a redirect asks for, the HTML
  renderer and the parser of dates are parameters.
\<close>

section \<open>IP addresses\<close>

text \<open>\<open>std::net::IpAddr\<close>, an address as the number its bytes spell.\<close>

datatype IpAddr = V4 "32 word" | V6 "128 word"

definition octet :: "32 word \<Rightarrow> nat \<Rightarrow> nat" where
  "octet a k = unat a div 256 ^ (3 - k) mod 256"

definition segment0 :: "128 word \<Rightarrow> u16" where
  "segment0 a = word_of_nat (unat a div 2 ^ 112)"

text \<open>The tests of the standard library, on the octets as it writes them.\<close>

definition v4_loopback :: "32 word \<Rightarrow> bool" where "v4_loopback a \<longleftrightarrow> octet a 0 = 127"

definition v4_private :: "32 word \<Rightarrow> bool" where
  "v4_private a \<longleftrightarrow> octet a 0 = 10 \<or> octet a 0 = 172 \<and> 16 \<le> octet a 1 \<and> octet a 1 \<le> 31
     \<or> octet a 0 = 192 \<and> octet a 1 = 168"

definition v4_link_local :: "32 word \<Rightarrow> bool" where "v4_link_local a \<longleftrightarrow> octet a 0 = 169 \<and> octet a 1 = 254"
definition v4_broadcast :: "32 word \<Rightarrow> bool" where "v4_broadcast a \<longleftrightarrow> a = 0xFFFFFFFF"

definition v4_documentation :: "32 word \<Rightarrow> bool" where
  "v4_documentation a \<longleftrightarrow> octet a 0 = 192 \<and> octet a 1 = 0 \<and> octet a 2 = 2
     \<or> octet a 0 = 198 \<and> octet a 1 = 51 \<and> octet a 2 = 100
     \<or> octet a 0 = 203 \<and> octet a 1 = 0 \<and> octet a 2 = 113"

definition v4_multicast :: "32 word \<Rightarrow> bool" where "v4_multicast a \<longleftrightarrow> 224 \<le> octet a 0 \<and> octet a 0 \<le> 239"

definition is_disallowed_ip :: "IpAddr \<Rightarrow> bool" where
  "is_disallowed_ip addr =
     (case addr of
        V4 v4 \<Rightarrow> v4_loopback v4 \<or> v4_private v4 \<or> v4_link_local v4 \<or> v4_broadcast v4
          \<or> v4_documentation v4 \<or> v4 = 0 \<or> v4_multicast v4
      | V6 v6 \<Rightarrow> v6 = 1 \<or> and (segment0 v6) 0xff00 = 0xff00 \<or> v6 = 0
          \<or> and (segment0 v6) 0xfe00 = 0xfc00 \<or> and (segment0 v6) 0xffc0 = 0xfe80)"

section \<open>Reading an address\<close>

text \<open>\<open>str::parse::<IpAddr>\<close>: each reader takes what it can from the front of the text.\<close>

definition radix_digit :: "nat \<Rightarrow> char \<Rightarrow> nat option" where
  "radix_digit radix c =
     (let n = of_char c :: nat;
          d = if 48 \<le> n \<and> n \<le> 57 then Some (n - 48)
              else if 97 \<le> n \<and> n \<le> 122 then Some (n - 87)
              else if 65 \<le> n \<and> n \<le> 90 then Some (n - 55) else None
      in Option.bind d (\<lambda>v. if v < radix then Some v else None))"

definition read_radix :: "nat \<Rightarrow> nat \<Rightarrow> bool \<Rightarrow> nat \<Rightarrow> string \<Rightarrow> (nat \<times> string) option" where
  "read_radix radix max_digits zero_prefix limit s =
     (let ds = takeWhile (\<lambda>c. radix_digit radix c \<noteq> None) s;
          n = foldl (\<lambda>a c. a * radix + the (radix_digit radix c)) 0 ds
      in if ds = [] \<or> max_digits < length ds then None
         else if \<not> zero_prefix \<and> hd ds = CHR ''0'' \<and> 1 < length ds then None
         else if limit < n then None
         else Some (n, drop (length ds) s))"

fun read_char :: "char \<Rightarrow> string \<Rightarrow> string option" where
  "read_char c [] = None"
| "read_char c (x # s) = (if x = c then Some s else None)"

definition read_separator :: "char \<Rightarrow> nat \<Rightarrow> (string \<Rightarrow> 'a option) \<Rightarrow> string \<Rightarrow> 'a option" where
  "read_separator sep index reader s =
     (if 0 < index then Option.bind (read_char sep s) reader else reader s)"

definition read_octet :: "nat \<Rightarrow> string \<Rightarrow> (nat \<times> string) option" where
  "read_octet index = read_separator (CHR ''.'') index (read_radix 10 3 False 255)"

definition read_ipv4 :: "string \<Rightarrow> (32 word \<times> string) option" where
  "read_ipv4 s =
     Option.bind (read_octet 0 s) (\<lambda>(a, s).
     Option.bind (read_octet 1 s) (\<lambda>(b, s).
     Option.bind (read_octet 2 s) (\<lambda>(c, s).
     Option.bind (read_octet 3 s) (\<lambda>(d, s).
       Some (word_of_nat (((a * 256 + b) * 256 + c) * 256 + d), s)))))"

text \<open>Up to \<open>limit\<close> groups, the last two possibly as an IPv4 address; whether they were.\<close>

function read_groups :: "nat \<Rightarrow> nat \<Rightarrow> string \<Rightarrow> nat list \<times> bool \<times> string" where
  "read_groups limit i s =
     (if limit \<le> i then ([], False, s)
      else case (if i < limit - 1 then read_separator (CHR '':'') i read_ipv4 s else None) of
        Some (v4, rest) \<Rightarrow> ([unat v4 div 2 ^ 16, unat v4 mod 2 ^ 16], True, rest)
      | None \<Rightarrow>
          (case read_separator (CHR '':'') i (read_radix 16 4 True 65535) s of
             None \<Rightarrow> ([], False, s)
           | Some (g, rest) \<Rightarrow> (let (gs, v4, r) = read_groups limit (Suc i) rest in (g # gs, v4, r))))"
  by pat_completeness auto
termination
  by (relation "measure (\<lambda>(limit, i, s). limit - i)") auto

declare read_groups.simps [simp del]

definition groups_address :: "nat list \<Rightarrow> 128 word" where
  "groups_address gs = word_of_nat (foldl (\<lambda>a g. a * 2 ^ 16 + g) 0 gs)"

definition read_ipv6 :: "string \<Rightarrow> (128 word \<times> string) option" where
  "read_ipv6 s =
     (let (head, head_ipv4, r) = read_groups 8 0 s
      in if length head = 8 then Some (groups_address head, r)
         else if head_ipv4 then None
         else Option.bind (read_char (CHR '':'') r) (\<lambda>r.
              Option.bind (read_char (CHR '':'') r) (\<lambda>r.
                let (tail, _, r) = read_groups (8 - (length head + 1)) 0 r
                in Some (groups_address (head @ replicate (8 - length head - length tail) 0 @ tail), r))))"

definition parse_ip :: "string \<Rightarrow> IpAddr option" where
  "parse_ip s =
     (case (case read_ipv4 s of
              Some (a, r) \<Rightarrow> Some (V4 a, r)
            | None \<Rightarrow> map_option (\<lambda>(a, r). (V6 a, r)) (read_ipv6 s)) of
        Some (a, []) \<Rightarrow> Some a
      | _ \<Rightarrow> None)"

section \<open>Networks\<close>

text \<open>An address is in the network of a prefix when its leading bits are those of the prefix.\<close>

definition in_net :: "'a::len word \<Rightarrow> nat \<Rightarrow> 'a word \<Rightarrow> bool" where
  "in_net base len a \<longleftrightarrow> drop_bit (LENGTH('a) - len) a = drop_bit (LENGTH('a) - len) base"

definition v4_nets :: "(32 word \<times> nat) list" where
  "v4_nets =
     [(0x7F000000, 8), (0x0A000000, 8), (0xAC100000, 12), (0xC0A80000, 16), (0xA9FE0000, 16), (0xFFFFFFFF, 32),
      (0xC0000200, 24), (0xC6336400, 24), (0xCB007100, 24), (0, 32), (0xE0000000, 4)]"

definition v6_nets :: "(128 word \<times> nat) list" where
  "v6_nets =
     [(1, 128), (0xFF000000000000000000000000000000, 8), (0, 128), (0xFC000000000000000000000000000000, 7),
      (0xFE800000000000000000000000000000, 10)]"

definition internal_v4 :: "32 word \<Rightarrow> bool" where
  "internal_v4 a \<longleftrightarrow> list_ex (\<lambda>(base, len). in_net base len a) v4_nets"

text \<open>The IPv4-mapped addresses \<open>::ffff:0:0/96\<close>: an IPv4 address in the last 32 bits.\<close>

fun v4_mapped :: "IpAddr \<Rightarrow> bool" where
  "v4_mapped (V4 a) = False"
| "v4_mapped (V6 a) = in_net 0xFFFF00000000 96 a"

fun internal_address :: "IpAddr \<Rightarrow> bool" where
  "internal_address (V4 a) = internal_v4 a"
| "internal_address (V6 a) = (list_ex (\<lambda>(base, len). in_net base len a) v6_nets
     \<or> v4_mapped (V6 a) \<and> internal_v4 (ucast a))"

lemma v4_net:
  "len \<le> 32 \<Longrightarrow> in_net base len (a :: 32 word) \<longleftrightarrow> unat a div 2 ^ (32 - len) = unat base div 2 ^ (32 - len)"
  unfolding in_net_def word_unat_eq_iff unat_drop_bit_eq by (simp add: drop_bit_eq_div)

lemma v6_net:
  "len \<le> 128 \<Longrightarrow> in_net base len (a :: 128 word) \<longleftrightarrow> unat a div 2 ^ (128 - len) = unat base div 2 ^ (128 - len)"
  unfolding in_net_def word_unat_eq_iff unat_drop_bit_eq by (simp add: drop_bit_eq_div)

lemma octets:
  "octet a 0 = unat a div 2 ^ 24" "octet a (Suc 0) = unat a div 2 ^ 16 mod 256" "octet a 2 = unat a div 2 ^ 8 mod 256"
proof -
  have "unat a < 2 ^ 32" using unsigned_less [of a, where ?'a = nat] by simp
  then show "octet a 0 = unat a div 2 ^ 24" by (simp add: octet_def less_mult_imp_div_less)
qed (simp_all add: octet_def)

lemma two_octets: "n div 2 ^ 24 = b \<and> n div 2 ^ 16 mod 256 = c \<longleftrightarrow> n div 2 ^ 16 = b * 256 + c" if "c < 256" for n b c :: nat
proof -
  have "n div 2 ^ 24 = n div 2 ^ 16 div 256" by (simp add: div_mult2_eq [symmetric])
  moreover have "m div 256 = b \<and> m mod 256 = c \<longleftrightarrow> m = b * 256 + c" for m :: nat
    using that div_mult_mod_eq [of m 256] by auto
  ultimately show ?thesis by simp
qed

lemma three_octets:
  "n div 2 ^ 24 = b \<and> n div 2 ^ 16 mod 256 = c \<and> n div 2 ^ 8 mod 256 = d \<longleftrightarrow> n div 2 ^ 8 = (b * 256 + c) * 256 + d"
  if "c < 256" "d < 256" for n b c d :: nat
proof -
  have a: "n div 2 ^ 24 = b \<and> n div 2 ^ 16 mod 256 = c \<longleftrightarrow> n div 2 ^ 16 = b * 256 + c"
    using that(1) by (rule two_octets)
  have e: "n div 2 ^ 16 = n div 2 ^ 8 div 256" by (simp add: div_mult2_eq [symmetric])
  have "m div 256 = e \<and> m mod 256 = d \<longleftrightarrow> m = e * 256 + d" for m e :: nat
    using that(2) div_mult_mod_eq [of m 256] by auto
  from this [of "n div 2 ^ 8" "b * 256 + c"] show ?thesis
    unfolding conj_assoc [symmetric] a unfolding e by simp
qed

lemma private_range: "n div 2 ^ 24 = 172 \<and> 16 \<le> n div 2 ^ 16 mod 256 \<and> n div 2 ^ 16 mod 256 \<le> 31 \<longleftrightarrow> n div 2 ^ 20 = 2753" for n :: nat
proof -
  have "n div 2 ^ 24 = n div 2 ^ 16 div 256" "n div 2 ^ 20 = n div 2 ^ 16 div 16" by (simp_all add: div_mult2_eq [symmetric])
  moreover have "m div 256 = 172 \<and> 16 \<le> m mod 256 \<and> m mod 256 \<le> 31 \<longleftrightarrow> m div 16 = 2753" for m :: nat
  proof -
    have "m div 256 = m div 16 div 16" by (simp add: div_mult2_eq [symmetric])
    then have "m div 16 = 2753 \<Longrightarrow> m div 256 = 172" by simp
    moreover have "m = m div 256 * 256 + m mod 256" "m = m div 16 * 16 + m mod 16" "m mod 16 < 16" by simp_all
    ultimately show ?thesis by (intro iffI conjI; (elim conjE)?; linarith)
  qed
  ultimately show ?thesis by simp
qed

lemma multicast_range: "224 \<le> n div 2 ^ 24 \<and> n div 2 ^ 24 \<le> 239 \<longleftrightarrow> n div 2 ^ 28 = 14" for n :: nat
proof -
  have "n div 2 ^ 28 = n div 2 ^ 24 div 16" by (simp add: div_mult2_eq [symmetric])
  moreover have "224 \<le> m \<and> m \<le> 239 \<longleftrightarrow> m div 16 = 14" for m :: nat by presburger
  ultimately show ?thesis by simp
qed

lemma v4_tests:
  "v4_loopback a \<longleftrightarrow> in_net 0x7F000000 8 a"
  "v4_private a \<longleftrightarrow> in_net 0x0A000000 8 a \<or> in_net 0xAC100000 12 a \<or> in_net 0xC0A80000 16 a"
  "v4_link_local a \<longleftrightarrow> in_net 0xA9FE0000 16 a"
  "v4_documentation a \<longleftrightarrow> in_net 0xC0000200 24 a \<or> in_net 0xC6336400 24 a \<or> in_net 0xCB007100 24 a"
  "v4_multicast a \<longleftrightarrow> in_net 0xE0000000 4 a"
  using two_octets [of 168 "unat a" 192] two_octets [of 254 "unat a" 169] private_range [of "unat a"] multicast_range [of "unat a"]
    three_octets [of 0 2 "unat a" 192] three_octets [of 51 100 "unat a" 198] three_octets [of 0 113 "unat a" 203]
  by (simp_all add: v4_loopback_def v4_private_def v4_link_local_def v4_documentation_def v4_multicast_def octets v4_net)

lemma clear_low_bits: "unat (and x (not (mask k))) = unat x div 2 ^ k * 2 ^ k" for x :: u16
proof -
  have "and x (not (mask k)) = push_bit k (drop_bit k x)"
    by (rule bit_word_eqI) (auto simp: bit_simps)
  then have "unat (and x (not (mask k))) = take_bit 16 (unat x div 2 ^ k * 2 ^ k)"
    by (simp only: unsigned_push_bit_eq unat_drop_bit_eq push_bit_eq_mult [where ?'a = nat] drop_bit_eq_div [where ?'a = nat]) simp
  moreover have "unat x div 2 ^ k * 2 ^ k < 2 ^ 16"
    using unsigned_less [of x, where ?'a = nat] by (intro le_less_trans [OF div_times_less_eq_dividend]) simp
  ultimately show ?thesis by (simp only: take_bit_nat_eq_self)
qed

lemma high_bits: "and x (not (mask k)) = y \<longleftrightarrow> unat x div 2 ^ k = d" if "unat y = d * 2 ^ k" for x y :: u16
  using that clear_low_bits [of x k] by (auto simp: word_unat_eq_iff)

lemma segment0_value: "unat (segment0 a) = unat a div 2 ^ 112"
proof -
  have "unat a < 2 ^ 128" using unsigned_less [of a, where ?'a = nat] by simp
  then have "unat a div 2 ^ 112 < 2 ^ 16" by (simp add: less_mult_imp_div_less)
  then show ?thesis by (simp add: segment0_def unsigned_of_nat take_bit_nat_eq_self)
qed

lemma segment_masks: "(0xff00 :: u16) = not (mask 8)" "(0xfe00 :: u16) = not (mask 9)" "(0xffc0 :: u16) = not (mask 6)"
  by code_simp+

lemma v6_tests:
  "and (segment0 a) 0xff00 = 0xff00 \<longleftrightarrow> in_net 0xFF000000000000000000000000000000 8 a"
  "and (segment0 a) 0xfe00 = 0xfc00 \<longleftrightarrow> in_net 0xFC000000000000000000000000000000 7 a"
  "and (segment0 a) 0xffc0 = 0xfe80 \<longleftrightarrow> in_net 0xFE800000000000000000000000000000 10 a"
  using high_bits [of "0xff00" 255 8 "segment0 a"] high_bits [of "0xfc00" 126 9 "segment0 a"] high_bits [of "0xfe80" 1018 6 "segment0 a"]
  unfolding segment_masks [symmetric] segment0_value by (simp_all add: v6_net div_mult2_eq [symmetric])

lemma host_nets: "in_net base 32 a \<longleftrightarrow> a = base" "in_net base' 128 b \<longleftrightarrow> b = base'" for a base :: "32 word" and b base' :: "128 word"
  by (simp_all add: in_net_def)

lemma mapped_not_in_nets: "in_net 0xFFFF00000000 96 a \<Longrightarrow> \<not> list_ex (\<lambda>(base, len). in_net base len a) v6_nets"
proof -
  assume "in_net 0xFFFF00000000 96 (a :: 128 word)"
  then have m: "unat a div 2 ^ 32 = 65535" by (simp add: v6_net)
  then have big: "65535 * 2 ^ 32 \<le> unat a" by (metis div_times_less_eq_dividend)
  have "unat a < 2 ^ 32 + unat a div 2 ^ 32 * 2 ^ 32" by (rule dividend_less_div_times) simp
  then have "unat a < 65536 * 2 ^ 32" using m by simp
  then have "unat a div 2 ^ 120 = 0" "unat a div 2 ^ 121 = 0" "unat a div 2 ^ 118 = 0" by simp_all
  moreover have "a \<noteq> 0" "a \<noteq> 1" using big by auto
  ultimately show ?thesis by (simp add: v6_nets_def host_nets v6_net)
qed

text \<open>The test of the code is membership in the internal networks, but for the mapped addresses.\<close>

lemma disallowed_is_internal: "is_disallowed_ip a \<longleftrightarrow> internal_address a \<and> \<not> v4_mapped a"
proof (cases a)
  case (V4 x)
  then show ?thesis
    by (auto simp: is_disallowed_ip_def internal_v4_def v4_nets_def v4_tests v4_broadcast_def host_nets)
next
  case (V6 x)
  have "is_disallowed_ip (V6 x) \<longleftrightarrow> list_ex (\<lambda>(base, len). in_net base len x) v6_nets"
    by (auto simp: is_disallowed_ip_def v6_nets_def v6_tests host_nets)
  with V6 mapped_not_in_nets [of x] show ?thesis by auto
qed

section \<open>The connector\<close>

text \<open>A URL as the \<open>url\<close> crate presents it; \<open>u_port\<close> is the given port or that of the scheme.\<close>

record Url =
  u_text :: string
  u_scheme :: string
  u_host :: "string option"
  u_port :: "nat option"
  u_segments :: "string list option"

record WebConfig =
  wc_urls :: "string list"
  wc_user_agent :: "string option"
  wc_timeout_seconds :: "u64 option"
  wc_max_body_bytes :: "u64 option"
  wc_bearer_token :: "string option"

definition opt_text :: "json option \<Rightarrow> string option option" where
  "opt_text v = (case optional_value v of None \<Rightarrow> Some None | Some w \<Rightarrow> map_option Some (read_string w))"

definition opt_u64 :: "json option \<Rightarrow> u64 option option" where
  "opt_u64 v = (case optional_value v of None \<Rightarrow> Some None | Some w \<Rightarrow> map_option Some (read_u64 w))"

text \<open>Unknown keys are refused.\<close>

fun known_fields :: "string list \<Rightarrow> json \<Rightarrow> bool" where
  "known_fields names (JObject kvs) = list_all (\<lambda>(k, v). k \<in> set names) kvs"
| "known_fields names v = True"

definition read_web_config :: "json \<Rightarrow> WebConfig option" where
  "read_web_config v =
     (let names = [''urls'', ''user_agent'', ''timeout_seconds'', ''max_body_bytes'', ''bearer_token'']
      in case struct_fields names v of
           Some [urls, ua, timeout, cap, token] \<Rightarrow>
             if \<not> known_fields names v then None
             else Option.bind (Option.bind urls (read_list read_string)) (\<lambda>urls.
                  Option.bind (opt_text ua) (\<lambda>ua.
                  Option.bind (opt_u64 timeout) (\<lambda>timeout.
                  Option.bind (opt_u64 cap) (\<lambda>cap.
                  Option.bind (opt_text token) (\<lambda>token.
                    Some \<lparr>wc_urls = urls, wc_user_agent = ua, wc_timeout_seconds = timeout, wc_max_body_bytes = cap,
                          wc_bearer_token = token\<rparr>)))))
         | _ \<Rightarrow> None)"

record WebConnector =
  wb_config :: WebConfig
  wb_parsed_urls :: "Url list"
  wb_max_body_bytes :: u64

definition DEFAULT_MAX_BODY_BYTES :: u64 where "DEFAULT_MAX_BODY_BYTES = 10 * 1024 * 1024"

definition check_url :: "(string \<Rightarrow> string + Url) \<Rightarrow> string \<Rightarrow> SealStackError + Url" where
  "check_url parse raw =
     (case parse raw of
        Inl e \<Rightarrow> Inl (SeConfig (''invalid URL `'' @ raw @ ''`: '' @ e))
      | Inr url \<Rightarrow>
          if u_scheme url \<noteq> ''http'' \<and> u_scheme url \<noteq> ''https''
          then Inl (SeConfig (''URL `'' @ raw @ ''` has unsupported scheme `'' @ u_scheme url
                 @ ''` (only http/https allowed)''))
          else if u_host url = None then Inl (SeConfig (''URL `'' @ raw @ ''` has no host''))
          else Inr url)"

text \<open>\<open>build\<close> is what the builder of the HTTP client returns for the configuration.\<close>

definition web_new :: "(string \<Rightarrow> string + Url) \<Rightarrow> (WebConfig \<Rightarrow> string + unit) \<Rightarrow> WebConfig \<Rightarrow> SealStackError + WebConnector" where
  "web_new parse build config =
     (if wc_urls config = [] then Inl (SeConfig ''web connector requires at least one URL in `urls`'')
      else bindR (mapR (check_url parse) (wc_urls config)) (\<lambda>urls.
        case build config of
          Inl e \<Rightarrow> Inl (SeBackend (''reqwest client: '' @ e))
        | Inr _ \<Rightarrow> Inr \<lparr>wb_config = config, wb_parsed_urls = urls,
            wb_max_body_bytes = (case wc_max_body_bytes config of None \<Rightarrow> DEFAULT_MAX_BODY_BYTES | Some n \<Rightarrow> n)\<rparr>))"

definition web_from_json :: "(string \<Rightarrow> string + Url) \<Rightarrow> (WebConfig \<Rightarrow> string + unit) \<Rightarrow> (json \<Rightarrow> string) \<Rightarrow> json
    \<Rightarrow> SealStackError + WebConnector" where
  "web_from_json parse build serde_text v =
     (case read_web_config v of
        None \<Rightarrow> Inl (SeConfig (''web connector config: '' @ serde_text v))
      | Some config \<Rightarrow> web_new parse build config)"

text \<open>The world outside, and the log of what was asked of it.\<close>

datatype WebEvent =
    LookedUp string "string + IpAddr list"
  | Requested string Url "(string \<times> string) list"
  | Redirected string Url "(string \<times> string) list"

record 'w WebNet =
  wn_parse_url :: "string \<Rightarrow> string + Url"
  wn_lookup :: "string \<Rightarrow> 'w \<Rightarrow> (string + IpAddr list) \<times> 'w"
  wn_send :: "string \<Rightarrow> Url \<Rightarrow> (string \<times> string) list \<Rightarrow> 'w \<Rightarrow> (string + Response) \<times> 'w"
  wn_redirect :: "string \<Rightarrow> Url \<Rightarrow> (string \<times> string) list \<Rightarrow> Response
    \<Rightarrow> (string \<times> Url \<times> (string \<times> string) list) option"
  wn_too_many :: "Url \<Rightarrow> string"
  wn_html :: "string \<Rightarrow> string option"
  wn_date :: "string \<Rightarrow> timestamp option"
  wn_now :: "'w \<Rightarrow> timestamp"
  wn_status_text :: "u16 \<Rightarrow> string"
  wn_show_ip :: "IpAddr \<Rightarrow> string"

type_synonym 'w web_state = "'w \<times> WebEvent list"

definition look_up :: "'w WebNet \<Rightarrow> string \<Rightarrow> 'w web_state \<Rightarrow> 'w web_state \<times> (string + IpAddr list)" where
  "look_up N name st =
     (case st of (w, log) \<Rightarrow> case wn_lookup N name w of (r, w') \<Rightarrow> ((w', log @ [LookedUp name r]), r))"

text \<open>
  The client follows redirects: \<open>wn_send\<close> is one exchange, \<open>wn_redirect\<close> the request the client
  makes next when a response redirects it (\<open>reqwest\<close> drops the credentials when the host changes),
  and a redirect beyond the limit is an error. Nothing is checked on the way.
\<close>

definition MAX_REDIRECTS :: nat where "MAX_REDIRECTS = 3"

fun follow_redirects :: "'w WebNet \<Rightarrow> nat \<Rightarrow> string \<times> Url \<times> (string \<times> string) list \<Rightarrow> string + Response \<Rightarrow> 'w web_state
    \<Rightarrow> 'w web_state \<times> (string + Response)" where
  "follow_redirects N n req (Inl e) st = (st, Inl e)"
| "follow_redirects N 0 (meth, url, headers) (Inr resp) st =
     (case wn_redirect N meth url headers resp of
        None \<Rightarrow> (st, Inr resp)
      | Some req \<Rightarrow> (st, Inl (wn_too_many N url)))"
| "follow_redirects N (Suc n) (meth, url, headers) (Inr resp) (w, log) =
     (case wn_redirect N meth url headers resp of
        None \<Rightarrow> ((w, log), Inr resp)
      | Some (m, u, h) \<Rightarrow>
          (case wn_send N m u h w of
             (r, w') \<Rightarrow> follow_redirects N n (m, u, h) r (w', log @ [Redirected m u h])))"

definition send_req :: "'w WebNet \<Rightarrow> string \<Rightarrow> Url \<Rightarrow> (string \<times> string) list \<Rightarrow> 'w web_state
    \<Rightarrow> 'w web_state \<times> (string + Response)" where
  "send_req N meth url headers st =
     (case st of (w, log) \<Rightarrow> case wn_send N meth url headers w of
        (r, w') \<Rightarrow> follow_redirects N MAX_REDIRECTS (meth, url, headers) r (w', log @ [Requested meth url headers]))"

section \<open>The check of a host\<close>

fun reject_internal :: "'w WebNet \<Rightarrow> Url \<Rightarrow> IpAddr list \<Rightarrow> SealStackError + unit" where
  "reject_internal N url [] = Inr ()"
| "reject_internal N url (a # as) =
     (if is_disallowed_ip a
      then Inl (SeConfig (''url `'' @ u_text url @ ''` resolves to disallowed IP '' @ wn_show_ip N a))
      else reject_internal N url as)"

definition host_port :: "string \<Rightarrow> Url \<Rightarrow> string" where
  "host_port host url = host @ '':'' @ show_nat (case u_port url of None \<Rightarrow> 80 | Some p \<Rightarrow> p)"

definition validate_host_for_ssrf :: "'w WebNet \<Rightarrow> Url \<Rightarrow> 'w web_state \<Rightarrow> 'w web_state \<times> (SealStackError + unit)" where
  "validate_host_for_ssrf N url st =
     (case u_host url of
        None \<Rightarrow> (st, Inl (SeConfig (''url `'' @ u_text url @ ''` has no host'')))
      | Some host \<Rightarrow>
          (case parse_ip host of
             Some addr \<Rightarrow> (st, reject_internal N url [addr])
           | None \<Rightarrow>
               (case look_up N (host_port host url) st of
                  (st, Inl e) \<Rightarrow> (st, Inl (SeBackend (''dns lookup for `'' @ host @ ''` failed: '' @ e)))
                | (st, Inr addrs) \<Rightarrow> (st, reject_internal N url addrs))))"

section \<open>Pages\<close>

definition str_contains :: "string \<Rightarrow> string \<Rightarrow> bool" where
  "str_contains s p \<longleftrightarrow> find_str p s \<noteq> None"

definition extract_html_title :: "string \<Rightarrow> string option" where
  "extract_html_title html =
     (let lower = ascii_lowercase html in
      Option.bind (find_str ''<title'' lower) (\<lambda>start.
      Option.bind (map_option (\<lambda>n. n + start) (find_str ''>'' (drop start lower))) (\<lambda>close_open.
        let body_start = close_open + 1 in
      Option.bind (map_option (\<lambda>n. n + body_start) (find_str ''</title>'' (drop body_start lower))) (\<lambda>end_of.
        let trimmed = trim (take (end_of - body_start) (drop body_start html))
        in if trimmed = [] then None else Some trimmed))))"

text \<open>What a page is taken as: its kind, its text and the title its markup names.\<close>

definition page_content :: "'w WebNet \<Rightarrow> string \<Rightarrow> string \<Rightarrow> (string \<times> string \<times> string option) option" where
  "page_content N content_type raw =
     (if str_contains content_type ''text/html''
      then Some (''html'', (case wn_html N raw of None \<Rightarrow> raw | Some t \<Rightarrow> t), extract_html_title raw)
      else if str_contains content_type ''text/markdown'' then Some (''markdown'', raw, None)
      else if str_contains content_type ''application/json'' then Some (''json'', raw, None)
      else if starts_with content_type ''text/'' then Some (''text'', raw, None)
      else None)"

definition url_title :: "Url \<Rightarrow> string option" where
  "url_title url =
     (case Option.bind (u_segments url) (\<lambda>ss. if ss = [] \<or> last ss = [] then None else Some (last ss)) of
        Some t \<Rightarrow> Some t
      | None \<Rightarrow> u_host url)"

fun body_bytes :: "(string + u8 list) list \<Rightarrow> string + u8 list" where
  "body_bytes [] = Inr []"
| "body_bytes (Inl e # cs) = Inl e"
| "body_bytes (Inr c # cs) = bindR (body_bytes cs) (\<lambda>bs. Inr (c @ bs))"

definition page_resource :: "'w WebNet \<Rightarrow> WebConnector \<Rightarrow> Url \<Rightarrow> 'w \<Rightarrow> Response \<Rightarrow> SealStackError + Resource" where
  "page_resource N C url w resp =
     (if \<not> is_success resp
      then Inl (SeBackend (''web fetch `'' @ u_text url @ ''`: HTTP '' @ wn_status_text N (rs_status resp)))
      else case body_bytes (rs_body resp) of
        Inl e \<Rightarrow> Inl (SeBackend (''read body of `'' @ u_text url @ ''`: '' @ e))
      | Inr bytes \<Rightarrow>
          if unat (wb_max_body_bytes C) < length bytes
          then Inl (SeBackend (''web fetch `'' @ u_text url @ ''`: response is '' @ show_nat (length bytes)
                 @ '' bytes, exceeds cap '' @ show_nat (unat (wb_max_body_bytes C))))
          else
            let content_type = (case header_get resp ''content-type'' of None \<Rightarrow> ''application/octet-stream'' | Some t \<Rightarrow> t)
            in case page_content N content_type (from_utf8_lossy bytes) of
                 None \<Rightarrow> Inl (SeBackend (''web fetch `'' @ u_text url @ ''`: unsupported content-type `''
                          @ content_type @ ''`''))
               | Some (kind, body, title) \<Rightarrow> Inr
                   \<lparr>re_id = u_text url, re_kind = kind,
                    re_title = (case title of Some t \<Rightarrow> Some t | None \<Rightarrow> url_title url),
                    re_body = body,
                    re_metadata = fold (\<lambda>(k, v) m. object_insert k (JString v) m)
                      ([(''url'', u_text url), (''content_type'', content_type)]
                       @ (case header_get resp ''etag'' of None \<Rightarrow> [] | Some t \<Rightarrow> [(''etag'', t)])) [],
                    re_permissions = [public_read],
                    re_source_updated_at = (case Option.bind (header_get resp ''last-modified'') (wn_date N) of
                       None \<Rightarrow> wn_now N w | Some t \<Rightarrow> t)\<rparr>)"

definition fetch_url_to_resource :: "'w WebNet \<Rightarrow> WebConnector \<Rightarrow> Url \<Rightarrow> 'w web_state
    \<Rightarrow> 'w web_state \<times> (SealStackError + Resource)" where
  "fetch_url_to_resource N C url st =
     (case validate_host_for_ssrf N url st of
        (st, Inl e) \<Rightarrow> (st, Inl e)
      | (st, Inr _) \<Rightarrow>
          (case send_req N ''GET'' url
                 (case wc_bearer_token (wb_config C) of None \<Rightarrow> [] | Some t \<Rightarrow> [(''authorization'', ''Bearer '' @ t)]) st of
             (st, Inl e) \<Rightarrow> (st, Inl (SeBackend (''web fetch `'' @ u_text url @ ''`: '' @ e)))
           | (st, Inr resp) \<Rightarrow> (st, page_resource N C url (fst st) resp)))"

section \<open>Operations\<close>

fun web_list_urls :: "'w WebNet \<Rightarrow> WebConnector \<Rightarrow> Url list \<Rightarrow> 'w web_state \<Rightarrow> 'w web_state \<times> Resource list" where
  "web_list_urls N C [] st = (st, [])"
| "web_list_urls N C (url # urls) st =
     (case fetch_url_to_resource N C url st of
        (st, Inl e) \<Rightarrow> web_list_urls N C urls st
      | (st, Inr r) \<Rightarrow> (case web_list_urls N C urls st of (st, rs) \<Rightarrow> (st, r # rs)))"

definition web_list :: "'w WebNet \<Rightarrow> WebConnector \<Rightarrow> 'w web_state \<Rightarrow> 'w web_state \<times> (SealStackError + Resource list)" where
  "web_list N C st = (case web_list_urls N C (wb_parsed_urls C) st of (st, rs) \<Rightarrow> (st, Inr rs))"

definition web_fetch :: "'w WebNet \<Rightarrow> WebConnector \<Rightarrow> 'w web_state \<Rightarrow> string \<Rightarrow> 'w web_state \<times> (SealStackError + Resource)" where
  "web_fetch N C st i =
     (case wn_parse_url N i of
        Inl e \<Rightarrow> (st, Inl (SeNotFound (''malformed url `'' @ i @ ''`: '' @ e)))
      | Inr target \<Rightarrow>
          if list_ex (\<lambda>u. u_text u = u_text target) (wb_parsed_urls C)
          then fetch_url_to_resource N C target st
          else (st, Inl (SeNotFound (''url `'' @ i @ ''` is not in this connector's configured URL list''))))"

definition web_healthcheck :: "'w WebNet \<Rightarrow> WebConnector \<Rightarrow> 'w web_state \<Rightarrow> 'w web_state \<times> (SealStackError + unit)" where
  "web_healthcheck N C st =
     (case wb_parsed_urls C of
        [] \<Rightarrow> (st, Inl (SeConfig ''no URLs configured''))
      | url # _ \<Rightarrow>
          (case validate_host_for_ssrf N url st of
             (st, Inl e) \<Rightarrow> (st, Inl e)
           | (st, Inr _) \<Rightarrow>
               (case send_req N ''HEAD'' url [] st of
                  (st, Inl e) \<Rightarrow> (st, Inl (SeBackend (''web healthcheck: '' @ e)))
                | (st, Inr _) \<Rightarrow> (st, Inr ()))))"

definition web_connector :: "'w WebNet \<Rightarrow> WebConnector \<Rightarrow> 'w web_state Connector" where
  "web_connector N C =
     \<lparr>cn_name = ''web'', cn_version = ''0.4.0'', cn_list = web_list N C, cn_fetch = web_fetch N C,
      cn_subscribe = \<lambda>st. (st, Inr None), cn_healthcheck = web_healthcheck N C\<rparr>"

section \<open>Requests are vetted\<close>

text \<open>
  The host is an address outside the internal networks, or was just resolved to such addresses
  only; the mapped forms of internal addresses are not recognised.
\<close>

definition external :: "IpAddr \<Rightarrow> bool" where
  "external a \<longleftrightarrow> \<not> internal_address a \<or> v4_mapped a"

definition vetted_host :: "Url \<Rightarrow> WebEvent list \<Rightarrow> bool" where
  "vetted_host url before =
     (case u_host url of
        None \<Rightarrow> False
      | Some host \<Rightarrow>
          (case parse_ip host of
             Some a \<Rightarrow> external a
           | None \<Rightarrow> before \<noteq> [] \<and> (case last before of
               LookedUp name (Inr addrs) \<Rightarrow> name = host_port host url \<and> list_all external addrs
             | _ \<Rightarrow> False)))"

definition configured :: "WebConnector \<Rightarrow> Url \<Rightarrow> bool" where
  "configured C url \<longleftrightarrow> list_ex (\<lambda>u. u_text u = u_text url) (wb_parsed_urls C)"

text \<open>
  What the log shows: a first request is for a configured URL with a vetted host; a redirected one
  belongs to the request before it, from which at most three are redirected.
\<close>

fun redirected :: "WebEvent \<Rightarrow> bool" where
  "redirected (Redirected m u h) = True"
| "redirected e = False"

fun vetted_event :: "WebConnector \<Rightarrow> WebEvent list \<Rightarrow> WebEvent \<Rightarrow> bool" where
  "vetted_event C before (LookedUp name r) = True"
| "vetted_event C before (Requested meth url headers) = (configured C url \<and> vetted_host url before)"
| "vetted_event C before (Redirected meth url headers) = (\<exists>earlier m u h hops.
     before = earlier @ Requested m u h # hops \<and> list_all redirected hops \<and> length hops < 3)"

fun vetted_log :: "WebConnector \<Rightarrow> WebEvent list \<Rightarrow> WebEvent list \<Rightarrow> bool" where
  "vetted_log C before [] = True"
| "vetted_log C before (e # es) = (vetted_event C before e \<and> vetted_log C (before @ [e]) es)"

lemma vetted_snoc [simp]: "vetted_log C before (es @ [e]) \<longleftrightarrow> vetted_log C before es \<and> vetted_event C (before @ es) e"
  by (induction es arbitrary: before) auto

lemma reject_internal_ok: "reject_internal N url as = Inr () \<longleftrightarrow> list_all external as"
  by (induction as) (auto simp: disallowed_is_internal external_def)

lemma validate_vets:
  "validate_host_for_ssrf N url st = (st', r) \<Longrightarrow> vetted_log C [] (snd st) \<Longrightarrow>
     vetted_log C [] (snd st') \<and> (r = Inr () \<longrightarrow> vetted_host url (snd st'))"
  by (auto simp: validate_host_for_ssrf_def look_up_def vetted_host_def reject_internal_ok disallowed_is_internal external_def
      split: option.splits prod.splits sum.splits if_splits)

lemma follow_vets:
  "follow_redirects N n req a (w, l @ Requested m u h # hops) = (st', r) \<Longrightarrow>
   vetted_log C [] (l @ Requested m u h # hops) \<Longrightarrow> list_all redirected hops \<Longrightarrow> length hops + n \<le> 3 \<Longrightarrow>
   vetted_log C [] (snd st')"
proof (induction N n req a "(w, l @ Requested m u h # hops)" arbitrary: w hops rule: follow_redirects.induct)
  case (3 N n meth url headers resp w)
  show ?case
  proof (cases "wn_redirect N meth url headers resp")
    case None
    with 3 show ?thesis by auto
  next
    case (Some next_req)
    obtain m' u' h' where nr: "next_req = (m', u', h')" by (cases next_req)
    obtain a w' where sent: "wn_send N m' u' h' w = (a, w')" by fastforce
    have step: "follow_redirects N n (m', u', h') a (w', l @ Requested m u h # (hops @ [Redirected m' u' h'])) = (st', r)"
      using "3.prems"(1) Some nr sent by simp
    have log: "vetted_log C [] (l @ Requested m u h # (hops @ [Redirected m' u' h']))"
    proof -
      have "vetted_event C (l @ Requested m u h # hops) (Redirected m' u' h')"
        using "3.prems"(3,4) by (simp only: vetted_event.simps) (intro exI conjI, auto)
      with "3.prems"(2) vetted_snoc [of C "[]" "l @ Requested m u h # hops" "Redirected m' u' h'"] show ?thesis by simp
    qed
    have "list_all redirected (hops @ [Redirected m' u' h'])" "length (hops @ [Redirected m' u' h']) + n \<le> 3"
      using "3.prems"(3,4) by simp_all
    from "3.hyps" [OF Some nr [symmetric] refl sent [symmetric] _ step log this] show ?thesis
      by simp
  qed
qed (auto split: option.splits)

lemma send_vets:
  "send_req N meth url headers st = (st', r) \<Longrightarrow> vetted_log C [] (snd st) \<Longrightarrow> configured C url \<Longrightarrow>
     vetted_host url (snd st) \<Longrightarrow> vetted_log C [] (snd st')"
proof -
  assume sent: "send_req N meth url headers st = (st', r)" and log: "vetted_log C [] (snd st)"
    and ok: "configured C url" "vetted_host url (snd st)"
  obtain w l where st: "st = (w, l)" by fastforce
  obtain a w1 where "wn_send N meth url headers w = (a, w1)" by fastforce
  with sent st have "follow_redirects N MAX_REDIRECTS (meth, url, headers) a (w1, l @ [Requested meth url headers]) = (st', r)"
    by (simp add: send_req_def)
  then show "vetted_log C [] (snd st')"
    using follow_vets [of N MAX_REDIRECTS "(meth, url, headers)" a w1 l meth url headers "[]" st' r C] log ok st
    by (simp add: MAX_REDIRECTS_def)
qed

lemma fetch_url_vets:
  assumes "fetch_url_to_resource N C url st = (st', r)" "vetted_log C [] (snd st)" "configured C url"
  shows "vetted_log C [] (snd st')"
proof -
  obtain st1 v where v: "validate_host_for_ssrf N url st = (st1, v)" by fastforce
  from validate_vets [OF v assms(2)] have log: "vetted_log C [] (snd st1)" and host: "v = Inr () \<Longrightarrow> vetted_host url (snd st1)"
    by blast+
  show ?thesis
  proof (cases v)
    case (Inl e)
    with assms(1) v log show ?thesis by (simp add: fetch_url_to_resource_def)
  next
    case (Inr u)
    with assms(1) v obtain headers s where "send_req N ''GET'' url headers st1 = (st', s)"
      by (auto simp: fetch_url_to_resource_def split: prod.splits sum.splits)
    moreover have "vetted_host url (snd st1)" using host Inr by simp
    ultimately show ?thesis by (rule send_vets [OF _ log assms(3)])
  qed
qed

lemma list_urls_vets:
  "web_list_urls N C urls st = (st', rs) \<Longrightarrow> vetted_log C [] (snd st) \<Longrightarrow> list_all (configured C) urls \<Longrightarrow>
     vetted_log C [] (snd st')"
proof (induction urls arbitrary: st rs)
  case (Cons url urls)
  obtain st1 r where f: "fetch_url_to_resource N C url st = (st1, r)" by fastforce
  with Cons.prems have "vetted_log C [] (snd st1)" by (auto intro: fetch_url_vets)
  with Cons f show ?case by (auto split: sum.splits prod.splits)
qed simp

lemma all_configured: "list_all (configured C) (wb_parsed_urls C)"
  by (auto simp: configured_def list_all_iff list_ex_iff)

datatype WebOp = WebList | WebFetch string | WebHealth

fun web_op :: "'w WebNet \<Rightarrow> WebConnector \<Rightarrow> WebOp \<Rightarrow> 'w web_state \<Rightarrow> 'w web_state" where
  "web_op N C WebList st = fst (cn_list (web_connector N C) st)"
| "web_op N C (WebFetch i) st = fst (cn_fetch (web_connector N C) st i)"
| "web_op N C WebHealth st = fst (cn_healthcheck (web_connector N C) st)"

lemma web_list_vets: "vetted_log C [] (snd st) \<Longrightarrow> vetted_log C [] (snd (fst (web_list N C st)))"
  using list_urls_vets [OF _ _ all_configured, where st = st] by (auto simp: web_list_def split: prod.split)

lemma web_fetch_vets: "vetted_log C [] (snd st) \<Longrightarrow> vetted_log C [] (snd (fst (web_fetch N C st i)))"
  using fetch_url_vets [where st = st]
  by (auto simp: web_fetch_def configured_def split: sum.split prod.splits) (metis prod.collapse)

lemma web_health_vets:
  assumes "vetted_log C [] (snd st)"
  shows "vetted_log C [] (snd (fst (web_healthcheck N C st)))"
proof (cases "wb_parsed_urls C")
  case Nil
  with assms show ?thesis by (simp add: web_healthcheck_def)
next
  case (Cons url urls)
  obtain st1 v where v: "validate_host_for_ssrf N url st = (st1, v)" by fastforce
  obtain st2 s where s: "send_req N ''HEAD'' url [] st1 = (st2, s)" by fastforce
  have c: "configured C url" using Cons by (simp add: configured_def)
  from validate_vets [OF v assms] have "vetted_log C [] (snd st1)" and "v = Inr () \<Longrightarrow> vetted_host url (snd st1)" by blast+
  with send_vets [OF s _ c] Cons v s show ?thesis
    by (auto simp: web_healthcheck_def split: sum.split)
qed

text \<open>
  C39: whatever sequence of listings, fetches (of any id) and health checks runs, each exchange
  the web connector begins is for a configured URL, whose host is an address outside the internal
  networks or has been resolved immediately before to addresses outside them only, where an
  IPv4-mapped form of an internal address counts as outside. The client follows at most three
  redirects of each such request, and where these lead is not checked.
\<close>

theorem web_requests_are_vetted: "vetted_log C [] (snd (fold (web_op N C) ops (w, [])))"
proof -
  have "vetted_log C [] (snd st) \<Longrightarrow> vetted_log C [] (snd (fold (web_op N C) ops st))" for st
  proof (induction ops arbitrary: st)
    case (Cons op ops)
    have "vetted_log C [] (snd (web_op N C op st))"
      using Cons.prems by (cases op) (simp_all add: web_connector_def web_list_vets web_fetch_vets web_health_vets)
    with Cons.IH show ?case by simp
  qed simp
  from this [of "(w, [])"] show ?thesis by simp
qed

text \<open>
  An IPv4 address written as an IPv6 address is not recognised: the mapped forms of the loopback
  and of a private address pass.
\<close>

lemma mapped_addresses_pass:
  "internal_address (V6 0xFFFF7F000001)" "internal_address (V6 0xFFFF0A000001)"
  "\<not> is_disallowed_ip (V6 0xFFFF7F000001)" "\<not> is_disallowed_ip (V6 0xFFFF0A000001)"
  "is_disallowed_ip (V4 0x7F000001)" "is_disallowed_ip (V4 0x0A000001)"
  by code_simp+

lemma addresses_read:
  "parse_ip ''127.0.0.1'' = Some (V4 0x7F000001)" "parse_ip ''::ffff:10.0.0.1'' = Some (V6 0xFFFF0A000001)"
  "parse_ip ''::1'' = Some (V6 1)" "parse_ip ''[::1]'' = None" "parse_ip ''010.0.0.1'' = None"
  by code_simp+

text \<open>A redirect reaches an internal address: a configured page that redirects to \<open>10.0.0.1\<close>.\<close>

definition plain_url :: "string \<Rightarrow> Url" where
  "plain_url host = \<lparr>u_text = host, u_scheme = ''http'', u_host = Some host, u_port = Some 80, u_segments = None\<rparr>"

definition redirecting_net :: "unit WebNet" where
  "redirecting_net =
     \<lparr>wn_parse_url = (\<lambda>t. Inr (plain_url t)), wn_lookup = (\<lambda>name w. (Inr [V4 0x08080808], w)),
      wn_send = (\<lambda>m u h w. (Inr \<lparr>rs_status = (if u_text u = ''page'' then 302 else 200), rs_headers = [], rs_body = []\<rparr>, w)),
      wn_redirect = (\<lambda>m u h resp. if rs_status resp = 302 then Some (m, plain_url ''10.0.0.1'', h) else None),
      wn_too_many = (\<lambda>u. ''too many redirects''), wn_html = (\<lambda>t. None), wn_date = (\<lambda>t. None), wn_now = (\<lambda>w. 0),
      wn_status_text = (\<lambda>c. []), wn_show_ip = (\<lambda>a. [])\<rparr>"

definition one_page :: WebConnector where
  "one_page = \<lparr>wb_config = \<lparr>wc_urls = [''page''], wc_user_agent = None, wc_timeout_seconds = None,
     wc_max_body_bytes = None, wc_bearer_token = None\<rparr>, wb_parsed_urls = [plain_url ''page''],
     wb_max_body_bytes = DEFAULT_MAX_BODY_BYTES\<rparr>"

lemma redirect_reaches_internal:
  "snd (web_op redirecting_net one_page WebHealth ((), []))
   = [LookedUp ''page:80'' (Inr [V4 0x08080808]), Requested ''HEAD'' (plain_url ''page'') [],
      Redirected ''HEAD'' (plain_url ''10.0.0.1'') []]
   \<and> parse_ip ''10.0.0.1'' = Some (V4 0x0A000001) \<and> internal_address (V4 0x0A000001)"
proof -
  have "parse_ip ''page'' = None" "host_port ''page'' (plain_url ''page'') = ''page:80''"
    "\<not> is_disallowed_ip (V4 0x08080808)" by code_simp+
  then have "snd (web_op redirecting_net one_page WebHealth ((), []))
   = [LookedUp ''page:80'' (Inr [V4 0x08080808]), Requested ''HEAD'' (plain_url ''page'') [],
      Redirected ''HEAD'' (plain_url ''10.0.0.1'') []]"
    by (simp add: web_connector_def web_healthcheck_def one_page_def validate_host_for_ssrf_def plain_url_def look_up_def
        redirecting_net_def send_req_def MAX_REDIRECTS_def numeral_3_eq_3)
  moreover have "parse_ip ''10.0.0.1'' = Some (V4 0x0A000001) \<and> internal_address (V4 0x0A000001)" by code_simp
  ultimately show ?thesis by simp
qed

end
