(* ===== verification/Connector_Files.thy ===== *)
theory Connector_Files
  imports Sdk_Types Csl_Load
begin

text \<open>
  The connector for local files (\<open>src/connectors/local-files\<close>): which files of a directory tree
  become resources, the fetch of one by its path and the translation of file-system events. The
  file system, the directory walk, the watcher and Unicode lower case are parameters; paths are
  texts, read into components as \<open>std::path\<close> does on Unix.
\<close>

section \<open>Paths\<close>

datatype component = RootDir | CurDir | ParentDir | Normal string

text \<open>Repeated slashes and inner dots vanish; \<open>..\<close> stays.\<close>

definition components :: "string \<Rightarrow> component list" where
  "components s =
     (let pieces = split_char (CHR ''/'') s
      in (if starts_with s ''/'' then [RootDir] else if hd pieces = ''.'' then [CurDir] else [])
         @ map (\<lambda>p. if p = ''..'' then ParentDir else Normal p) (filter (\<lambda>p. p \<noteq> [] \<and> p \<noteq> ''.'') pieces))"

definition path_starts_with :: "string \<Rightarrow> string \<Rightarrow> bool" where
  "path_starts_with path base \<longleftrightarrow> prefix (components base) (components path)"

definition path_file_name :: "string \<Rightarrow> string option" where
  "path_file_name path =
     (case rev (components path) of Normal n # _ \<Rightarrow> Some n | _ \<Rightarrow> None)"

text \<open>The stem and the extension of a file name: a leading dot does not start an extension.\<close>

definition split_name :: "string \<Rightarrow> string \<times> string option" where
  "split_name name =
     (case rsplit_once (CHR ''.'') name of
        None \<Rightarrow> (name, None)
      | Some (stem, ext) \<Rightarrow> if stem = [] then (name, None) else (stem, Some ext))"

definition path_file_stem :: "string \<Rightarrow> string option" where
  "path_file_stem path = map_option (fst \<circ> split_name) (path_file_name path)"

definition path_extension :: "string \<Rightarrow> string option" where
  "path_extension path = Option.bind (path_file_name path) (snd \<circ> split_name)"

section \<open>The connector\<close>

definition DEFAULT_EXTENSIONS :: "string list" where
  "DEFAULT_EXTENSIONS =
     [''md'', ''markdown'', ''txt'', ''rst'', ''csv'', ''json'', ''yaml'', ''yml'', ''rs'', ''py'', ''js'', ''ts'', ''tsx'',
      ''jsx'', ''go'', ''java'', ''html'', ''htm'', ''log'', ''toml'']"

text \<open>Length in bytes and, where the platform has it, seconds since the epoch.\<close>

record FileMeta =
  fi_len :: u64
  fi_modified :: "u64 option"

datatype NotifyKind = NkCreate | NkModify | NkRemove | NkOther

record 'w FileSystem =
  fs_canonicalize :: "'w \<Rightarrow> string \<Rightarrow> string + string"
  fs_is_dir :: "'w \<Rightarrow> string \<Rightarrow> bool"
  fs_exists :: "'w \<Rightarrow> string \<Rightarrow> bool"
  fs_metadata :: "'w \<Rightarrow> string \<Rightarrow> string + FileMeta"
  fs_read :: "'w \<Rightarrow> string \<Rightarrow> string + string"
  fs_walk :: "'w \<Rightarrow> string \<Rightarrow> string + string list"
  fs_watch :: "'w \<Rightarrow> string \<Rightarrow> string + ('w \<times> NotifyKind \<times> string list) list"
  fs_now :: "'w \<Rightarrow> timestamp"
  fs_timestamp :: "i64 \<Rightarrow> timestamp option"
  fs_lowercase :: "string \<Rightarrow> string"

record LocalFiles =
  lf_root :: string
  lf_extensions :: "string set"
  lf_max_file_bytes :: u64

definition local_files_new :: "'w FileSystem \<Rightarrow> 'w \<Rightarrow> string \<Rightarrow> SealStackError + LocalFiles" where
  "local_files_new F w root =
     (case fs_canonicalize F w root of
        Inl e \<Rightarrow> Inl (SeConfig (''local-files: root `'' @ root @ ''` is not readable: '' @ e))
      | Inr root \<Rightarrow>
          if \<not> fs_is_dir F w root then Inl (SeConfig (''local-files: root `'' @ root @ ''` is not a directory''))
          else Inr \<lparr>lf_root = root, lf_extensions = set DEFAULT_EXTENSIONS, lf_max_file_bytes = 2 * 1024 * 1024\<rparr>)"

definition with_extensions :: "'w FileSystem \<Rightarrow> LocalFiles \<Rightarrow> string list \<Rightarrow> LocalFiles" where
  "with_extensions F C exts =
     C\<lparr>lf_extensions := set (map (\<lambda>e. fs_lowercase F (dropWhile (\<lambda>c. c = CHR ''.'') e)) exts)\<rparr>"

definition with_max_file_bytes :: "LocalFiles \<Rightarrow> u64 \<Rightarrow> LocalFiles" where
  "with_max_file_bytes C n = C\<lparr>lf_max_file_bytes := n\<rparr>"

definition is_ingestible :: "'w FileSystem \<Rightarrow> LocalFiles \<Rightarrow> string \<Rightarrow> bool" where
  "is_ingestible F C path =
     (case path_extension path of None \<Rightarrow> False | Some ext \<Rightarrow> fs_lowercase F ext \<in> lf_extensions C)"

definition modified_at :: "'w FileSystem \<Rightarrow> 'w \<Rightarrow> FileMeta \<Rightarrow> timestamp" where
  "modified_at F w m =
     (case fi_modified m of
        None \<Rightarrow> fs_now F w
      | Some t \<Rightarrow> (case fs_timestamp F (ucast t) of None \<Rightarrow> fs_now F w | Some ts \<Rightarrow> ts))"

definition read_resource :: "'w FileSystem \<Rightarrow> LocalFiles \<Rightarrow> 'w \<Rightarrow> string \<Rightarrow> SealStackError + Resource" where
  "read_resource F C w path =
     (case fs_metadata F w path of
        Inl e \<Rightarrow> Inl (SeBackend e)
      | Inr m \<Rightarrow>
          if lf_max_file_bytes C < fi_len m
          then Inl (SeValidation (''file `'' @ path @ ''` is '' @ show_nat (unat (fi_len m)) @ '' bytes, exceeds max_file_bytes ''
                 @ show_nat (unat (lf_max_file_bytes C))))
          else case fs_read F w path of
            Inl e \<Rightarrow> Inl (SeBackend (''failed to read `'' @ path @ ''` as utf-8: '' @ e))
          | Inr body \<Rightarrow> Inr
              \<lparr>re_id = path,
               re_kind = (case path_extension path of None \<Rightarrow> ''text'' | Some e \<Rightarrow> fs_lowercase F e),
               re_title = path_file_stem path,
               re_body = body,
               re_metadata = fold (\<lambda>(k, v) m. object_insert k v m)
                 [(''path'', JString path), (''size_bytes'', JNumber (PosInt (fi_len m))),
                  (''filename'', JString (case path_file_name path of None \<Rightarrow> ''unnamed'' | Some n \<Rightarrow> n))] [],
               re_permissions = [public_read],
               re_source_updated_at = modified_at F w m\<rparr>)"

fun read_files :: "'w FileSystem \<Rightarrow> LocalFiles \<Rightarrow> 'w \<Rightarrow> string list \<Rightarrow> Resource list" where
  "read_files F C w [] = []"
| "read_files F C w (path # paths) =
     (if \<not> is_ingestible F C path then read_files F C w paths
      else case read_resource F C w path of
        Inl e \<Rightarrow> read_files F C w paths
      | Inr r \<Rightarrow> r # read_files F C w paths)"

definition local_list :: "'w FileSystem \<Rightarrow> LocalFiles \<Rightarrow> 'w \<Rightarrow> 'w \<times> (SealStackError + Resource list)" where
  "local_list F C w =
     (w, case fs_walk F w (lf_root C) of
           Inl e \<Rightarrow> Inl (SeBackend (''walkdir join: '' @ e))
         | Inr paths \<Rightarrow> Inr (read_files F C w paths))"

definition local_fetch :: "'w FileSystem \<Rightarrow> LocalFiles \<Rightarrow> 'w \<Rightarrow> string \<Rightarrow> 'w \<times> (SealStackError + Resource)" where
  "local_fetch F C w i =
     (w, if \<not> path_starts_with i (lf_root C)
         then Inl (SeUnauthorized (''path `'' @ i @ ''` is outside connector root `'' @ lf_root C @ ''`''))
         else if \<not> fs_exists F w i
         then Inl (SeNotFound (''local-files resource `'' @ i @ ''` does not exist''))
         else read_resource F C w i)"

text \<open>An event is translated against the files as they are when it is handled.\<close>

definition translate :: "'w FileSystem \<Rightarrow> LocalFiles \<Rightarrow> 'w \<Rightarrow> NotifyKind \<Rightarrow> string list \<Rightarrow> ChangeEvent list" where
  "translate F C w kind paths =
     (case kind of
        NkCreate \<Rightarrow> map Upsert (read_files F C w paths)
      | NkModify \<Rightarrow> map Upsert (read_files F C w paths)
      | NkRemove \<Rightarrow> map Delete paths
      | NkOther \<Rightarrow> [])"

definition local_subscribe :: "'w FileSystem \<Rightarrow> LocalFiles \<Rightarrow> 'w \<Rightarrow> 'w \<times> (SealStackError + ChangeEvent list option)" where
  "local_subscribe F C w =
     (w, case fs_watch F w (lf_root C) of
           Inl e \<Rightarrow> Inl (SeBackend (''spawn watch thread: '' @ e))
         | Inr evs \<Rightarrow> Inr (Some (concat (map (\<lambda>(w, kind, paths). translate F C w kind paths) evs))))"

definition local_healthcheck :: "'w FileSystem \<Rightarrow> LocalFiles \<Rightarrow> 'w \<Rightarrow> 'w \<times> (SealStackError + unit)" where
  "local_healthcheck F C w =
     (w, if fs_exists F w (lf_root C) then Inr ()
         else Inl (SeConfig (''local-files root `'' @ lf_root C @ ''` does not exist'')))"

definition local_files_connector :: "'w FileSystem \<Rightarrow> LocalFiles \<Rightarrow> 'w Connector" where
  "local_files_connector F C =
     \<lparr>cn_name = ''local-files'', cn_version = ''0.4.0'', cn_list = local_list F C, cn_fetch = local_fetch F C,
      cn_subscribe = local_subscribe F C, cn_healthcheck = local_healthcheck F C\<rparr>"

section \<open>Confinement\<close>

text \<open>
  Where a path leads, as the operating system resolves it: \<open>L\<close> gives the target of each place that
  is a symbolic link, \<open>..\<close> goes up from where the links have led, and more than \<open>k\<close> links are an
  error (40 on Linux).
\<close>

type_synonym links = "string list \<Rightarrow> component list option"

function walk :: "links \<Rightarrow> nat \<Rightarrow> string list \<Rightarrow> component list \<Rightarrow> string list option" where
  "walk L k at [] = Some at"
| "walk L k at (RootDir # cs) = walk L k [] cs"
| "walk L k at (CurDir # cs) = walk L k at cs"
| "walk L k at (ParentDir # cs) = walk L k (butlast at) cs"
| "walk L k at (Normal n # cs) =
     (case L (at @ [n]) of
        None \<Rightarrow> walk L k (at @ [n]) cs
      | Some target \<Rightarrow> if k = 0 then None else walk L (k - 1) at (target @ cs))"
  by pat_completeness auto
termination
  by (relation "measures [\<lambda>(L, k, at, cs). k, \<lambda>(L, k, at, cs). length cs]") auto

definition MAX_LINKS :: nat where "MAX_LINKS = 40"

definition place :: "links \<Rightarrow> string \<Rightarrow> string list option" where
  "place L path = walk L MAX_LINKS [] (components path)"

text \<open>Reading a path gives the contents of the place it leads to.\<close>

definition reads_places :: "'w FileSystem \<Rightarrow> 'w \<Rightarrow> links \<Rightarrow> (string list \<Rightarrow> string + string) \<Rightarrow> bool" where
  "reads_places F w L contents \<longleftrightarrow>
     (\<forall>path. case place L path of None \<Rightarrow> isl (fs_read F w path) | Some q \<Rightarrow> fs_read F w path = contents q)"

definition no_links_under :: "links \<Rightarrow> string list \<Rightarrow> bool" where
  "no_links_under L root \<longleftrightarrow> (\<forall>q. strict_prefix root q \<longrightarrow> L q = None)"

definition goes_up :: "string \<Rightarrow> bool" where
  "goes_up path \<longleftrightarrow> ParentDir \<in> set (components path)"

lemma walk_append:
  "walk L k at (xs @ ys) = Some q \<Longrightarrow> \<exists>p k'. walk L k at xs = Some p \<and> walk L k' p ys = Some q"
proof (induction L k at xs rule: walk.induct)
  case (5 L k at n cs)
  show ?case
  proof (cases "L (at @ [n])")
    case None
    with 5 show ?thesis by simp
  next
    case (Some target)
    with "5.prems" have k: "k \<noteq> 0" by (auto split: if_splits)
    with Some "5.prems" have "walk L (k - 1) at ((target @ cs) @ ys) = Some q" by simp
    from "5.IH"(2) [OF Some k this] Some k show ?thesis by simp
  qed
qed auto

lemma walk_below:
  "walk L k at cs = Some q \<Longrightarrow> ParentDir \<notin> set cs \<Longrightarrow> RootDir \<notin> set cs \<Longrightarrow> prefix root at
   \<Longrightarrow> no_links_under L root \<Longrightarrow> prefix root q"
proof (induction L k at cs rule: walk.induct)
  case (5 L k at n cs)
  then have "strict_prefix root (at @ [n])" by (auto simp: strict_prefix_def prefix_def)
  with "5.prems"(5) have none: "L (at @ [n]) = None" by (simp add: no_links_under_def)
  with "5.prems" show ?case by (intro "5.IH"(1) [OF none]) (auto simp: prefix_def)
qed auto

lemma one_root: "components s = RootDir # cs \<Longrightarrow> RootDir \<notin> set cs"
  by (auto simp: components_def Let_def split: if_splits)


text \<open>A directory \<open>/data\<close> with a file and a link to \<open>/etc/x\<close>; every place has its own name as text.\<close>

definition sample_links :: links where
  "sample_links q = (if q = [''data'', ''link.md''] then Some [RootDir, Normal ''etc'', Normal ''x''] else None)"

definition sample_contents :: "string list \<Rightarrow> string + string" where
  "sample_contents q = Inr (last ([] # q))"

definition sample_fs :: "links \<Rightarrow> unit FileSystem" where
  "sample_fs L =
     \<lparr>fs_canonicalize = \<lambda>w p. Inr p, fs_is_dir = \<lambda>w p. True, fs_exists = \<lambda>w p. True,
      fs_metadata = \<lambda>w p. Inr \<lparr>fi_len = 4, fi_modified = None\<rparr>,
      fs_read = \<lambda>w p. (case place L p of None \<Rightarrow> Inl ''too many links'' | Some q \<Rightarrow> sample_contents q),
      fs_walk = \<lambda>w p. Inr [''/data/a.md'', ''/data/b.bin'', ''/data/.md''], fs_watch = \<lambda>w p. Inr [],
      fs_now = \<lambda>w. 0, fs_timestamp = \<lambda>t. None, fs_lowercase = id\<rparr>"

definition sample_dir :: LocalFiles where
  "sample_dir = \<lparr>lf_root = ''/data'', lf_extensions = set DEFAULT_EXTENSIONS, lf_max_file_bytes = 10\<rparr>"

lemma sample_reads: "reads_places (sample_fs L) () L sample_contents"
  by (simp add: reads_places_def sample_fs_def split: option.split)


text \<open>With \<open>..\<close> a file outside the root is served, and so is the target of a link under the root.\<close>

lemma parent_components_escape:
  "map_sum id re_body (snd (local_fetch (sample_fs (\<lambda>q. None)) sample_dir () ''/data/../etc/secret.md'')) = Inr ''secret.md''"
  "place (\<lambda>q. None) ''/data/../etc/secret.md'' = Some [''etc'', ''secret.md'']"
  by code_simp+

lemma links_escape:
  "map_sum id re_body (snd (local_fetch (sample_fs sample_links) sample_dir () ''/data/link.md'')) = Inr ''x''"
  "place sample_links ''/data/link.md'' = Some [''etc'', ''x'']" "\<not> goes_up ''/data/link.md''"
  by code_simp+

section \<open>Listing\<close>

definition listable :: "'w FileSystem \<Rightarrow> LocalFiles \<Rightarrow> 'w \<Rightarrow> string \<Rightarrow> bool" where
  "listable F C w path \<longleftrightarrow> is_ingestible F C path \<and> \<not> isl (read_resource F C w path)"

lemma read_resource_id: "read_resource F C w path = Inr r \<Longrightarrow> re_id r = path"
  by (auto simp: read_resource_def split: sum.splits if_splits)

text \<open>A listing has the files of the walk that can be taken, each once and in the order of the walk.\<close>

lemma local_list_exact:
  "fs_walk F w (lf_root C) = Inr paths \<Longrightarrow>
     \<exists>rs. local_list F C w = (w, Inr rs) \<and> map re_id rs = filter (listable F C w) paths
        \<and> list_all (\<lambda>r. read_resource F C w (re_id r) = Inr r) rs"
proof -
  have "map re_id (read_files F C w paths) = filter (listable F C w) paths
      \<and> list_all (\<lambda>r. read_resource F C w (re_id r) = Inr r) (read_files F C w paths)"
    by (induction paths) (auto simp: listable_def read_resource_id split: sum.splits)
  then show "fs_walk F w (lf_root C) = Inr paths \<Longrightarrow> ?thesis" by (simp add: local_list_def)
qed

text \<open>A file whose name is only an extension has none, and is left out.\<close>

lemma sample_listing: "map re_id (projr (snd (local_list (sample_fs (\<lambda>q. None)) sample_dir ()))) = [''/data/a.md'']"
  by code_simp

end
