(* ===== verification/Spec2Isabelle.thy ===== *)
theory Spec2Isabelle
  imports Engine_Deploy Engine_Facade Ingest_Laws Engine_Store Sdk_Retry Sdk_Auth Sdk_Paginate
    Csl_Ddl Csl_Load Csl_Emit Csl_Literals Gateway_Process Embedders Vector_Qdrant Connector_Web Connector_Files
begin

text \<open>
  SealStack: a verification library of the context engine.

  \<^bold>\<open>The program.\<close> SealStack compiles schemas written in the Context Schema Language (CSL) into
  DDL, metadata, client types, tool manifests and policy bundles; an engine serves searches
  and reads over the rows of those schemas under their policies; connectors feed the engine
  with resources; a gateway offers it to MCP clients and over REST. Data flows as follows.
  \<^item> The compiler (\<open>crates/sealstack-csl\<close>) type-checks a project and emits, per target, the SQL
    of the tables, a metadata document per schema, Rust, TypeScript and Python types, the MCP
    manifest and one policy bundle per schema: a wasm module with the compiled policy stamped
    into a reserved section.
  \<^item> The engine (\<open>crates/sealstack-engine\<close>) loads the metadata and the bundles, applies the DDL,
    ingests resources (row, chunks, vectors), and answers search, get, list, relation and
    aggregate requests through retrieval and policy, with a receipt for each.
  \<^item> The gateway (\<open>crates/sealstack-gateway\<close>) authenticates, keeps MCP sessions, registers a set of
    tools per schema and dispatches JSON-RPC and REST requests to the engine.
  \<^item> Connectors use the SDK (\<open>crates/sealstack-connector-sdk\<close>) for HTTP with retries, credentials
    and pagination; the ingest runtime (\<open>crates/sealstack-ingest\<close>) runs their syncs.

  \<^bold>\<open>How code becomes definitions.\<close> Structs are records, enums datatypes, fallible functions return
  a sum (\<open>Inl\<close> the error, \<open>Inr\<close> the value) and functions that can panic an option or an outcome
  with a panic value. A string is the list of its UTF-8 bytes; machine integers are words,
  \<open>usize\<close> is \<open>nat\<close> where it only counts; floats are their bit patterns with rounding written out
  (\<open>Float64\<close>, \<open>Float32\<close>). State is passed explicitly: the linear memory of the wasm runtime, the
  map of collections, the session table, the process of the gateway. Concurrent maps are maps
  or association lists, operations on them are atomic steps, and the iteration order of a hash
  map is a parameter where a result could depend on it. Loops are structural or have a measure;
  the send loop takes its bound from the retry policy, the pagination loop may run forever and is
  a \<open>partial_function\<close>, and the wasm interpreter counts down the bytes it has left. Databases, HTTP
  exchanges, clocks, ULIDs, random numbers, the wasm virtual machine, BLAKE3, JWT validation,
  tokenizers and the texts of serde errors are parameters of the definitions that use them.

  \<^bold>\<open>Foundations.\<close> \<open>Prelude\<close> (results, checked slices, byte strings), \<open>Rust_Std\<close>, \<open>Rust_Text\<close>,
  \<open>Rust_Utf8\<close>, \<open>Rust_Parse\<close> (the standard library as used: trimming, splitting, stable sorts, lossy
  UTF-8, number parsing), \<open>Float64\<close>, \<open>Float32\<close>, \<open>Json_Value\<close> (\<open>serde_json::Value\<close>), \<open>Json_Text\<close> (JSON
  texts as the runtime scans them), \<open>Common\<close> (the shared error type).

  \<^bold>\<open>Compiler.\<close> \<open>Csl_Ast\<close> (\<open>ast.rs\<close>, \<open>span.rs\<close>), \<open>Csl_Types\<close> (\<open>types.rs\<close>, \<open>error.rs\<close>: which projects check,
  whatever the hash order, which parts of a project the checker never looks at, and what the typed
  file holds), \<open>Csl_Names\<close> (shared helpers), \<open>Csl_Sql\<close>,
  \<open>Csl_Meta\<close>, \<open>Csl_Mcp\<close>, \<open>Csl_Rust\<close>, \<open>Csl_Typescript\<close>, \<open>Csl_Python\<close> (one per file of \<open>codegen/\<close>), \<open>Csl_Emit\<close>
  (\<open>lib.rs\<close>, \<open>codegen/mod.rs\<close>: compiling never panics, and when it succeeds for which targets), \<open>Csl_Literals\<close> (generated
  literals read back), \<open>Csl_Ddl\<close> (the store splits the generated DDL into the statements meant; the
  columns the ingestor writes), \<open>Csl_Load\<close> (the registry reads the generated metadata back).

  \<^bold>\<open>Policies.\<close> \<open>Policy_Ir\<close> and \<open>Policy_Host\<close> (\<open>sealstack-policy-ir\<close>), \<open>Policy_Codegen\<close>
  (\<open>codegen/policy.rs\<close>), \<open>Runtime_Json\<close>, \<open>Runtime_Interp\<close> (\<open>sealstack-policy-runtime\<close>). \<open>Policy_Machine\<close>
  gives policies a meaning on the syntax tree and proves, in the locale \<open>policy_machine\<close>, that
  emitted code computes it on any machine that obeys a few laws; \<open>Policy_Correct\<close> and
  \<open>Runtime_Correct\<close> interpret the locale on the native interpreter and on the wasm runtime.
  \<open>Runtime_Safety\<close> shows that the runtime never traps, \<open>Policy_Bundle\<close> that a bundle is the runtime with
  only the slot replaced, \<open>Policy_Properties\<close> relates the interpreters. \<open>Engine_Policy\<close>
  (\<open>engine/src/policy.rs\<close>, and the file names of \<open>cli/src/commands/compile.rs\<close>) loads bundles and, with
  the locale \<open>policy_engine\<close>, shows that the engine enforces the compiled policies as long as a call
  does not reach the stamped section, which is data in the memory the host writes calls to;
  \<open>Engine_Deploy\<close> is a concrete deployment.

  \<^bold>\<open>Stores and retrieval.\<close> \<open>Vector_Filter\<close> and \<open>Vector_Memory\<close> (\<open>sealstack-vectorstore\<close>; the locale
  \<open>vector_store\<close> states the contract of the trait, interpreted on the in-memory store; a search is
  compared with the metrics and the filters defined on their own), \<open>Vector_Qdrant\<close>
  (\<open>qdrant.rs\<close>: translated filters keep their meaning under the documented semantics of the service
  where no list is involved, chunks read back), \<open>Engine_Api\<close>
  (\<open>api.rs\<close>, \<open>schema_registry.rs\<close>, \<open>util.rs\<close>, \<open>config.rs\<close>), \<open>Engine_Retrieval\<close> (\<open>retrieval.rs\<close>, \<open>rerank.rs\<close>,
  \<open>freshness.rs\<close>: fusion is reciprocal rank fusion), \<open>Engine_Receipts\<close>, \<open>Engine_Store\<close> (\<open>store.rs\<close>: the SQL
  splitter, compared with a grammar of tokens, and DDL transactions), \<open>Engine_Dispatch\<close> (\<open>engine.rs\<close>), \<open>Engine_Access\<close> (what the handlers
  disclose: exactly the rows the policy allows; the receipt that is inserted accounts for them; cursors reach all
  rows; facet values never enter the SQL text), \<open>Engine_Facade\<close> (\<open>facade.rs\<close>).

  \<^bold>\<open>Ingestion.\<close> \<open>Embedders\<close> (\<open>sealstack-embedders\<close> and the choice at boot; the locales \<open>embedder_contract\<close>
  and \<open>batched_embedder\<close> are interpreted on the stub, OpenAI, Voyage and the booted one,
  and what the store holds after an ingest), \<open>Engine_Ingest\<close> (\<open>ingest.rs\<close>: chunkers and ingestor), \<open>Ingest_Laws\<close> (chunks partition and bound the
  body; a search sees only the chunks of its tenant), \<open>Ingest_Runtime\<close> (\<open>sealstack-ingest\<close>, connector
  registration and hydration of \<open>gateway/src/server.rs\<close>: what a sync does and counts).

  \<^bold>\<open>Connector SDK.\<close> \<open>Sdk_Types\<close> (\<open>lib.rs\<close>, \<open>principal.rs\<close>), \<open>Sdk_Http\<close> (\<open>http.rs\<close>, \<open>retry.rs\<close>), \<open>Sdk_Retry\<close>
  (the send loop refines an abstract retry protocol and is bounded), \<open>Sdk_Auth\<close> (the OAuth cache
  serves the newest token), \<open>Sdk_Paginate\<close> (completeness and termination of pagination).

  \<^bold>\<open>Connectors.\<close> \<open>Connector_Web\<close> (\<open>src/connectors/web\<close>: the test of addresses is membership in the listed
  networks, every exchange begins with a vetted request, and redirects are followed unvetted) and
  \<open>Connector_Files\<close> (\<open>src/connectors/local-files\<close>: what is listed, and where a fetched file lies in a
  tree with symbolic links).

  \<^bold>\<open>Gateway.\<close> \<open>Gateway_Tools\<close> (\<open>mcp/types.rs\<close>, \<open>registry.rs\<close>, \<open>handlers.rs\<close>, \<open>bootstrap.rs\<close>), \<open>Gateway_Protocol\<close>
  (\<open>mcp/protocol.rs\<close>), \<open>Gateway_Laws\<close> (a read through JSON-RPC discloses what the policy allows),
  \<open>Gateway_Transport\<close> (\<open>auth.rs\<close>, \<open>mcp/transport.rs\<close>), \<open>Gateway_Sessions\<close> (tools run for holders of
  tokens, by rule induction on runs), \<open>Gateway_Rest\<close> and \<open>Gateway_RestLaws\<close> (\<open>rest.rs\<close>, \<open>sealstack-api-types\<close>: a
  REST query is the tool search, registration is all or nothing, the statement count), \<open>Gateway_Boot\<close>
  (\<open>config.rs\<close>, \<open>policy.rs\<close>, \<open>mcp/oauth.rs\<close>, \<open>bin/server.rs\<close>, \<open>build_app\<close>) and \<open>Gateway_Process\<close> (the whole
  process as a step relation; in every reachable state the tools are those of the documents
  registered so far, the last one offering a name being the one that is called).

  \<^bold>\<open>Bounds and assumptions.\<close> The runtime's buffers have the sizes of the source; the correctness of
  compiled policies is stated for calls without escapes in strings and without floats, which the
  runtime does not read exactly (\<open>Runtime_Correct\<close> lists the conditions), and for the opcodes both interpreters handle exactly. Search properties are about one call at a
  time: interleavings inside a handler are not modelled, interleavings of whole requests are the
  step relations of \<open>Gateway_Sessions\<close> and \<open>Gateway_Process\<close>. Polling and subscriptions run over
  finite lists of ticks and events.

  \<^bold>\<open>Not modelled.\<close> The CSL parser is a set of combinators of the winnow crate, whose semantics is
  not part of the sources; the cedar policy backend routes records into the cedar crate, which
  decides. The Qdrant client and service are parameters of \<open>Vector_Qdrant\<close>. The other connectors
  (\<open>src/connectors\<close>) are adapters to one vendor's HTTP interface each. The command line (\<open>sealstack-cli\<close>) is argument parsing,
  file and terminal I/O around the compiler and the REST client. Tracing, metrics, CORS and the
  shutdown of background tasks carry no state the modelled parts read.
\<close>

end
